(* ===== verification/Szark_Prelude.thy ===== *)
theory Szark_Prelude
  imports Main "HOL-Library.Word" "HOL-Library.Char_ord" "HOL-Library.List_Lexorder"
begin

text \<open>
  Shared vocabulary of the development: the machine integer types of the firmware (AVR, 8 and
  16 bit) and of the server, single-bit updates of an I/O register as the firmware writes them
  (\<open>PORTx |= (1 << n)\<close>, \<open>PORTx &= ~(1 << n)\<close>), C's truncating division, little-endian layout of
  16-bit fields, bounds-checked array access, and a key-ordered association list that stands for
  \<open>std::map\<close>. The collections \<open>port_simps\<close> (bits of registers) and \<open>layout_simps\<close> (bytes of
  packed structures) are filled by the component theories.
\<close>

unbundle bit_operations_syntax

type_synonym u8 = "8 word"
type_synonym u16 = "16 word"

named_theorems port_simps
named_theorems layout_simps

section \<open>Register bits\<close>

definition sbi :: "nat \<Rightarrow> u8 \<Rightarrow> u8" where
  "sbi n r = r OR push_bit n 1"

definition cbi :: "nat \<Rightarrow> u8 \<Rightarrow> u8" where
  "cbi n r = r AND NOT (push_bit n 1)"

definition bit_is_set :: "u8 \<Rightarrow> nat \<Rightarrow> bool" where
  "bit_is_set r n \<longleftrightarrow> r AND push_bit n 1 \<noteq> 0"

lemma bit_push_one: "bit ((2::u8) ^ n) k \<longleftrightarrow> k = n \<and> k < 8"
  by (auto simp: bit_exp_iff)

lemma bit_sbi [port_simps]: "n < 8 \<Longrightarrow> bit (sbi n r) k \<longleftrightarrow> k = n \<or> bit r k"
  by (auto simp: sbi_def bit_or_iff bit_push_one)

lemma bit_cbi [port_simps]: "n < 8 \<Longrightarrow> bit (cbi n r) k \<longleftrightarrow> k \<noteq> n \<and> bit r k"
  by (auto simp: cbi_def bit_and_iff bit_not_iff bit_push_one dest: bit_imp_le_length)

lemma bit_is_set_iff [port_simps]: "n < 8 \<Longrightarrow> bit_is_set r n \<longleftrightarrow> bit r n"
  by (auto simp: bit_is_set_def and_exp_eq_0_iff_not_bit)

section \<open>C arithmetic\<close>

text \<open>Division of C and C++: truncation towards zero.\<close>

definition tdiv :: "int \<Rightarrow> int \<Rightarrow> int" where
  "tdiv a b = sgn a * sgn b * (\<bar>a\<bar> div \<bar>b\<bar>)"

text \<open>The value a 16-bit two's complement register holds after an arithmetic result \<open>i\<close>.\<close>

definition wrap16 :: "int \<Rightarrow> int" where
  "wrap16 i = (i + 32768) mod 65536 - 32768"

lemma wrap16_id: "- 32768 \<le> i \<Longrightarrow> i < 32768 \<Longrightarrow> wrap16 i = i"
  by (simp add: wrap16_def)

lemma wrap16_bounds: "- 32768 \<le> wrap16 i \<and> wrap16 i < 32768"
  by (simp add: wrap16_def)

lemma tdiv_bounds:
  assumes "0 < b" and "\<bar>a\<bar> \<le> b * c"
  shows "\<bar>tdiv a b\<bar> \<le> c"
proof -
  have "\<bar>a\<bar> div b \<le> (b * c) div b" using assms by (intro zdiv_mono1) auto
  moreover have "0 \<le> \<bar>a\<bar> div b" using assms(1) by (simp add: pos_imp_zdiv_nonneg_iff)
  ultimately show ?thesis using assms(1)
    by (auto simp: tdiv_def abs_mult sgn_if)
qed

lemma tdiv_nonneg: "0 \<le> a \<Longrightarrow> 0 < b \<Longrightarrow> tdiv a b = a div b"
  by (auto simp: tdiv_def sgn_if)

text \<open>Conversions that keep the low byte.\<close>

lemma u8_of_nat_mod: "(of_nat (n mod 256) :: u8) = of_nat n"
  by (simp add: word_of_nat_eq_iff take_bit_eq_mod)

lemma u8_of_unat: "(of_nat (unat w) :: u8) = ucast w"
  by simp

lemma unat_ucast_u8: "unat (ucast w :: u8) = unat w mod 256"
  by (simp add: unsigned_ucast_eq take_bit_eq_mod)

section \<open>Little-endian layout\<close>

definition le16 :: "u16 \<Rightarrow> u8 list" where
  "le16 w = [ucast w, ucast (drop_bit 8 w)]"

definition un_le16 :: "u8 \<Rightarrow> u8 \<Rightarrow> u16" where
  "un_le16 lo hi = ucast lo OR push_bit 8 (ucast hi)"

lemma length_le16 [simp]: "length (le16 w) = 2"
  by (simp add: le16_def)

lemma un_le16_le16 [simp]: "un_le16 (ucast w) (ucast (drop_bit 8 w)) = w"
  by (rule bit_word_eqI) (auto simp: un_le16_def bit_simps)

definition bool_byte :: "bool \<Rightarrow> u8" where
  "bool_byte b = (if b then 1 else 0)"

definition byte_bool :: "u8 \<Rightarrow> bool" where
  "byte_bool b \<longleftrightarrow> b \<noteq> 0"

lemma byte_bool_bool_byte [simp]: "byte_bool (bool_byte b) = b"
  by (simp add: byte_bool_def bool_byte_def)

section \<open>Bounds-checked arrays\<close>

definition peek :: "'a list \<Rightarrow> nat \<Rightarrow> 'a option" where
  "peek xs i = (if i < length xs then Some (xs ! i) else None)"

definition poke :: "'a list \<Rightarrow> nat \<Rightarrow> 'a \<Rightarrow> 'a list option" where
  "poke xs i v = (if i < length xs then Some (xs[i := v]) else None)"

lemma peek_Some [simp]: "i < length xs \<Longrightarrow> peek xs i = Some (xs ! i)"
  by (simp add: peek_def)

lemma poke_Some [simp]: "i < length xs \<Longrightarrow> poke xs i v = Some (xs[i := v])"
  by (simp add: poke_def)

lemma poke_length: "poke xs i v = Some ys \<Longrightarrow> length ys = length xs"
  by (auto simp: poke_def split: if_splits)

text \<open>\<open>memcpy (dst, src, n)\<close> where \<open>src\<close> is the list of bytes read.\<close>

definition memcpy :: "'a list \<Rightarrow> 'a list \<Rightarrow> 'a list" where
  "memcpy dst bytes = bytes @ drop (length bytes) dst"

lemma length_memcpy [simp]: "length bytes \<le> length dst \<Longrightarrow> length (memcpy dst bytes) = length dst"
  by (simp add: memcpy_def)

lemma take_memcpy: "n \<le> length bytes \<Longrightarrow> take n (memcpy dst bytes) = take n bytes"
  by (simp add: memcpy_def)

section \<open>Decimal text\<close>

fun decimal :: "nat \<Rightarrow> string" where
  "decimal n = (let digit = ''0123456789'' ! (n mod 10) in if n < 10 then [digit] else decimal (n div 10) @ [digit])"

declare decimal.simps [simp del]

section \<open>Key-ordered maps\<close>

text \<open>
  \<open>std::map\<close> as the sequence of its entries in iteration order (ascending keys). The locale
  states the contract the clients use; the association list below provides it.
\<close>

locale ordered_map =
  fixes empty :: "'m"
    and insert :: "'k::linorder \<Rightarrow> 'v \<Rightarrow> 'm \<Rightarrow> 'm"
    and erase :: "'k \<Rightarrow> 'm \<Rightarrow> 'm"
    and find :: "'m \<Rightarrow> 'k \<Rightarrow> 'v option"
    and entries :: "'m \<Rightarrow> ('k \<times> 'v) list"
    and invar :: "'m \<Rightarrow> bool"
  assumes find_empty: "find empty k = None"
    and find_insert: "invar m \<Longrightarrow> find (insert k v m) k' = (if k' = k then Some v else find m k')"
    and find_erase: "invar m \<Longrightarrow> find (erase k m) k' = (if k' = k then None else find m k')"
    and entries_find: "invar m \<Longrightarrow> (k, v) \<in> set (entries m) \<longleftrightarrow> find m k = Some v"
    and entries_sorted: "invar m \<Longrightarrow> sorted (map fst (entries m)) \<and> distinct (map fst (entries m))"
    and invar_empty: "invar empty"
    and invar_insert: "invar m \<Longrightarrow> invar (insert k v m)"
    and invar_erase: "invar m \<Longrightarrow> invar (erase k m)"
begin

lemmas laws = find_empty find_insert find_erase invar_empty invar_insert invar_erase

lemma invar_fold_insert:
  "invar m \<Longrightarrow> invar (fold (\<lambda>(k, v). insert k v) kvs m)"
  by (induction kvs arbitrary: m) (auto simp: invar_insert split: prod.splits)

lemma invar_fold_erase: "invar m \<Longrightarrow> invar (fold erase ks m)"
  by (induction ks arbitrary: m) (auto simp: invar_erase)

lemma find_fold_erase:
  "invar m \<Longrightarrow> find (fold erase ks m) k = (if k \<in> set ks then None else find m k)"
  by (induction ks arbitrary: m) (auto simp: invar_erase find_erase)

lemma find_fold_insert:
  assumes "invar m" and "distinct (map fst kvs)"
  shows "find (fold (\<lambda>(k, v). insert k v) kvs m) k =
    (case map_of kvs k of Some v \<Rightarrow> Some v | None \<Rightarrow> find m k)"
  using assms
proof (induction kvs arbitrary: m)
  case Nil
  then show ?case by simp
next
  case (Cons kv kvs)
  obtain a b where kv: "kv = (a, b)" by (cases kv)
  from Cons.prems have "map_of kvs a = None"
    by (auto simp: kv map_of_eq_None_iff)
  with Cons show ?case
    by (auto simp: kv invar_insert find_insert split: option.splits)
qed

lemma map_of_entries: "invar m \<Longrightarrow> map_of (entries m) k = find m k"
  using entries_sorted entries_find
  by (metis map_of_SomeD not_Some_eq map_of_is_SomeI)

end

fun al_insert :: "'k::linorder \<Rightarrow> 'v \<Rightarrow> ('k \<times> 'v) list \<Rightarrow> ('k \<times> 'v) list" where
  "al_insert k v [] = [(k, v)]"
| "al_insert k v ((a, b) # kvs) =
     (if k < a then (k, v) # (a, b) # kvs
      else if k = a then (k, v) # kvs
      else (a, b) # al_insert k v kvs)"

definition al_erase :: "'k \<Rightarrow> ('k \<times> 'v) list \<Rightarrow> ('k \<times> 'v) list" where
  "al_erase k kvs = filter (\<lambda>e. fst e \<noteq> k) kvs"

definition al_sorted :: "('k::linorder \<times> 'v) list \<Rightarrow> bool" where
  "al_sorted kvs \<longleftrightarrow> sorted (map fst kvs) \<and> distinct (map fst kvs)"

lemma map_of_al_insert: "map_of (al_insert k v kvs) k' = (if k' = k then Some v else map_of kvs k')"
  by (induction k v kvs rule: al_insert.induct) auto

lemma keys_al_insert: "fst ` set (al_insert k v kvs) = Set.insert k (fst ` set kvs)"
  by (induction k v kvs rule: al_insert.induct) auto

lemma al_sorted_Cons:
  "al_sorted ((a, b) # kvs) \<longleftrightarrow> (\<forall>c \<in> fst ` set kvs. a < c) \<and> al_sorted kvs"
  by (auto simp: al_sorted_def less_le image_iff Ball_def)

lemma al_sorted_insert: "al_sorted kvs \<Longrightarrow> al_sorted (al_insert k v kvs)"
proof (induction k v kvs rule: al_insert.induct)
  case (1 k v)
  then show ?case by (simp add: al_sorted_def)
next
  case (2 k v a b kvs)
  then show ?case
    by (auto simp: al_sorted_Cons keys_al_insert)
qed

lemma map_of_al_erase: "map_of (al_erase k kvs) k' = (if k' = k then None else map_of kvs k')"
  by (induction kvs) (auto simp: al_erase_def)

lemma al_sorted_erase: "al_sorted kvs \<Longrightarrow> al_sorted (al_erase k kvs)"
  by (auto simp: al_sorted_def al_erase_def distinct_map_filter sorted_filter)

lemma al_mem_iff: "al_sorted m \<Longrightarrow> (k, v) \<in> set m \<longleftrightarrow> map_of m k = Some v"
  by (auto simp: al_sorted_def dest: map_of_SomeD)

lemma al_sorted_filter: "al_sorted kvs \<Longrightarrow> al_sorted (filter P kvs)"
  by (auto simp: al_sorted_def distinct_map_filter sorted_filter)

interpretation al: ordered_map "[]" al_insert al_erase map_of "\<lambda>m. m" al_sorted
  by unfold_locales
    (simp_all add: map_of_al_insert map_of_al_erase al_sorted_insert al_sorted_erase al_mem_iff,
     simp_all add: al_sorted_def)

end
