(* ===== verification/Protocol.thy ===== *)
theory Protocol
  imports Complex_Main Szark_Prelude
begin

text \<open>
  The headers \<open>firmware/common/*.hpp\<close>, shared by the bridge firmware, the two drivers on the I2C
  bus and the control server: request and command numbers, and the byte layout of the packed
  structures that travel over USB.

  Enumerations that are only ever produced by the code itself are datatypes with a code function.
  The enumerations with a fixed underlying type \<open>uint8_t\<close> that the firmware obtains by casting a
  received byte (\<open>Motor\<close>, \<open>Direction\<close>, \<open>Mode\<close>) can hold every byte, so they stay \<^typ>\<open>u8\<close>, with a
  name for each enumerator.
\<close>

section \<open>\<open>usb-commands.hpp\<close>: requests\<close>

datatype usb_request =
    BRIDGE_LCD_SET | BRIDGE_GET_STATE | BRIDGE_SET_KILLSWITCH | BRIDGE_RESET_DEVICE
  | MOTOR_DRIVER_SET | MOTOR_DRIVER_GET | ARM_DRIVER_SET | ARM_DRIVER_GET
  | ARM_DRIVER_GET_GENERAL_STATE | EXPANDER_SET | EXPANDER_GET | MESSAGE_END

primrec request_code :: "usb_request \<Rightarrow> u8" where
  "request_code BRIDGE_LCD_SET = 200"
| "request_code BRIDGE_GET_STATE = 201"
| "request_code BRIDGE_SET_KILLSWITCH = 202"
| "request_code BRIDGE_RESET_DEVICE = 203"
| "request_code MOTOR_DRIVER_SET = 204"
| "request_code MOTOR_DRIVER_GET = 205"
| "request_code ARM_DRIVER_SET = 206"
| "request_code ARM_DRIVER_GET = 207"
| "request_code ARM_DRIVER_GET_GENERAL_STATE = 208"
| "request_code EXPANDER_SET = 209"
| "request_code EXPANDER_GET = 210"
| "request_code MESSAGE_END = 222"

text \<open>
  \<open>static_cast<USBCommands::Request>\<close> of a byte in a \<open>switch\<close> without a default: a byte that is
  no enumerator selects no case.
\<close>

definition request_of_code :: "u8 \<Rightarrow> usb_request option" where
  "request_of_code b =
     (if b = 200 then Some BRIDGE_LCD_SET
      else if b = 201 then Some BRIDGE_GET_STATE
      else if b = 202 then Some BRIDGE_SET_KILLSWITCH
      else if b = 203 then Some BRIDGE_RESET_DEVICE
      else if b = 204 then Some MOTOR_DRIVER_SET
      else if b = 205 then Some MOTOR_DRIVER_GET
      else if b = 206 then Some ARM_DRIVER_SET
      else if b = 207 then Some ARM_DRIVER_GET
      else if b = 208 then Some ARM_DRIVER_GET_GENERAL_STATE
      else if b = 209 then Some EXPANDER_SET
      else if b = 210 then Some EXPANDER_GET
      else if b = 222 then Some MESSAGE_END
      else None)"

lemma request_of_code_code [simp]: "request_of_code (request_code r) = Some r"
  by (cases r) (simp_all add: request_of_code_def)

lemma request_code_inject [simp]: "request_code r = request_code r' \<longleftrightarrow> r = r'"
  by (metis option.inject request_of_code_code)

section \<open>\<open>motor_driver-commands.hpp\<close>, \<open>arm_driver-commands.hpp\<close>\<close>

datatype motor_command = M_GET_SPEED | M_SET_SPEED | M_GET_DIRECTION | M_SET_DIRECTION | M_BRAKE

primrec motor_command_code :: "motor_command \<Rightarrow> u8" where
  "motor_command_code M_GET_SPEED = 1"
| "motor_command_code M_SET_SPEED = 2"
| "motor_command_code M_GET_DIRECTION = 3"
| "motor_command_code M_SET_DIRECTION = 4"
| "motor_command_code M_BRAKE = 5"

datatype arm_command =
    A_GET_SPEED | A_SET_SPEED | A_SET_DIRECTION | A_GET_DIRECTION | A_SET_POSITION
  | A_GET_POSITION | A_BRAKE | A_CALIBRATE | A_GET_MODE | A_IS_CALIBRATED

primrec arm_command_code :: "arm_command \<Rightarrow> u8" where
  "arm_command_code A_GET_SPEED = 1"
| "arm_command_code A_SET_SPEED = 2"
| "arm_command_code A_SET_DIRECTION = 3"
| "arm_command_code A_GET_DIRECTION = 4"
| "arm_command_code A_SET_POSITION = 5"
| "arm_command_code A_GET_POSITION = 6"
| "arm_command_code A_BRAKE = 7"
| "arm_command_code A_CALIBRATE = 8"
| "arm_command_code A_GET_MODE = 9"
| "arm_command_code A_IS_CALIBRATED = 10"

definition arm_command_of_code :: "u8 \<Rightarrow> arm_command option" where
  "arm_command_of_code b =
     (if b = 1 then Some A_GET_SPEED
      else if b = 2 then Some A_SET_SPEED
      else if b = 3 then Some A_SET_DIRECTION
      else if b = 4 then Some A_GET_DIRECTION
      else if b = 5 then Some A_SET_POSITION
      else if b = 6 then Some A_GET_POSITION
      else if b = 7 then Some A_BRAKE
      else if b = 8 then Some A_CALIBRATE
      else if b = 9 then Some A_GET_MODE
      else if b = 10 then Some A_IS_CALIBRATED
      else None)"

lemma arm_command_of_code_code [simp]: "arm_command_of_code (arm_command_code c) = Some c"
  by (cases c) (simp_all add: arm_command_of_code_def)

text \<open>Directions of both drivers (the arm driver adds \<open>BOTH\<close>), motors, joints, arm modes.\<close>

abbreviation (input) D_STOP :: u8 where "D_STOP \<equiv> 0"
abbreviation (input) D_FORWARD :: u8 where "D_FORWARD \<equiv> 1"
abbreviation (input) D_BACKWARD :: u8 where "D_BACKWARD \<equiv> 2"
abbreviation (input) D_BOTH :: u8 where "D_BOTH \<equiv> 3"

abbreviation (input) MOTOR1 :: u8 where "MOTOR1 \<equiv> 0"
abbreviation (input) MOTOR2 :: u8 where "MOTOR2 \<equiv> 1"

abbreviation (input) SHOULDER :: u8 where "SHOULDER \<equiv> 0"
abbreviation (input) ELBOW :: u8 where "ELBOW \<equiv> 1"
abbreviation (input) GRIPPER :: u8 where "GRIPPER \<equiv> 2"

abbreviation (input) MODE_DIR :: u8 where "MODE_DIR \<equiv> 0"
abbreviation (input) MODE_POS :: u8 where "MODE_POS \<equiv> 1"
abbreviation (input) MODE_CAL :: u8 where "MODE_CAL \<equiv> 2"

abbreviation (input) KS_INACTIVE :: u8 where "KS_INACTIVE \<equiv> 0"
abbreviation (input) KS_ACTIVE :: u8 where "KS_ACTIVE \<equiv> 1"

text \<open>\<open>USBCommands::arm::AdditionalCommands\<close>: the first payload byte of \<open>ARM_DRIVER_SET\<close>.\<close>

abbreviation (input) ARM_ADD_BRAKE :: u8 where "ARM_ADD_BRAKE \<equiv> 100"
abbreviation (input) ARM_ADD_CALIBRATE :: u8 where "ARM_ADD_CALIBRATE \<equiv> 101"

section \<open>\<open>usb-commands.hpp\<close>: packed structures\<close>

text \<open>
  A structure and its bytes in memory (both ends are little-endian). Reading a structure through
  a pointer is a function of the bytes from that address on; \<open>None\<close> when fewer bytes are there
  than the structure has.
\<close>

record bridge_state =
  bst_rawVoltage :: u16
  bst_rawCurrent :: u16
  bst_buttonUp :: bool
  bst_buttonDown :: bool
  bst_buttonEnter :: bool
  bst_killSwitchCausedByHardware :: bool
  bst_killSwitch :: u8

definition bridge_state_bytes :: "bridge_state \<Rightarrow> u8 list" where
  "bridge_state_bytes s =
     le16 (bst_rawVoltage s) @ le16 (bst_rawCurrent s) @
     [bool_byte (bst_buttonUp s), bool_byte (bst_buttonDown s), bool_byte (bst_buttonEnter s),
      bool_byte (bst_killSwitchCausedByHardware s), bst_killSwitch s]"

fun read_bridge_state :: "u8 list \<Rightarrow> bridge_state option" where
  "read_bridge_state (v0 # v1 # c0 # c1 # up # dn # en # hw # ks # _) =
     Some \<lparr>bst_rawVoltage = un_le16 v0 v1, bst_rawCurrent = un_le16 c0 c1,
           bst_buttonUp = byte_bool up, bst_buttonDown = byte_bool dn,
           bst_buttonEnter = byte_bool en, bst_killSwitchCausedByHardware = byte_bool hw,
           bst_killSwitch = ks\<rparr>"
| "read_bridge_state _ = None"

record specific_motor_state =
  sms_motor :: u8
  sms_direction :: u8
  sms_speed :: u8

definition motor_state_bytes :: "specific_motor_state \<Rightarrow> u8 list" where
  "motor_state_bytes s = [sms_motor s, sms_direction s, sms_speed s]"

fun read_motor_state :: "u8 list \<Rightarrow> specific_motor_state option" where
  "read_motor_state (m # d # s # _) = Some \<lparr>sms_motor = m, sms_direction = d, sms_speed = s\<rparr>"
| "read_motor_state _ = None"

record general_state =
  gst_isCalibrated :: bool
  gst_mode :: u8

definition general_state_bytes :: "general_state \<Rightarrow> u8 list" where
  "general_state_bytes s = [bool_byte (gst_isCalibrated s), gst_mode s]"

fun read_general_state :: "u8 list \<Rightarrow> general_state option" where
  "read_general_state (c # m # _) = Some \<lparr>gst_isCalibrated = byte_bool c, gst_mode = m\<rparr>"
| "read_general_state _ = None"

record joint_state =
  jst_motor :: u8
  jst_direction :: u8
  jst_speed :: u8
  jst_setPosition :: bool
  jst_position :: u8

definition joint_state_bytes :: "joint_state \<Rightarrow> u8 list" where
  "joint_state_bytes s =
     [jst_motor s, jst_direction s, jst_speed s, bool_byte (jst_setPosition s), jst_position s]"

fun read_joint_state :: "u8 list \<Rightarrow> joint_state option" where
  "read_joint_state (m # d # s # sp # p # _) =
     Some \<lparr>jst_motor = m, jst_direction = d, jst_speed = s, jst_setPosition = byte_bool sp,
           jst_position = p\<rparr>"
| "read_joint_state _ = None"

text \<open>The \<open>static_assert\<close>s on the sizes, and the layouts are inverse to the reads.\<close>

lemma struct_sizes [layout_simps, simp]:
  "length (bridge_state_bytes bs) = 9"
  "length (motor_state_bytes ms) = 3"
  "length (general_state_bytes gs) = 2"
  "length (joint_state_bytes js) = 5"
  by (simp_all add: bridge_state_bytes_def motor_state_bytes_def general_state_bytes_def
      joint_state_bytes_def)

lemma read_bytes [layout_simps, simp]:
  "read_bridge_state (bridge_state_bytes bs @ rest) = Some bs"
  "read_motor_state (motor_state_bytes ms @ rest) = Some ms"
  "read_general_state (general_state_bytes gs @ rest) = Some gs"
  "read_joint_state (joint_state_bytes js @ rest) = Some js"
  by (simp_all add: bridge_state_bytes_def motor_state_bytes_def general_state_bytes_def
      joint_state_bytes_def le16_def)

text \<open>Battery factors, as rationals.\<close>

definition VOLTAGE_FACTOR :: rat where
  "VOLTAGE_FACTOR = (256 / 100 / 1023 * (8200 + 1000) / 1000) * (997263087 / 1000000000)"

definition CURRENT_FACTOR :: rat where
  "CURRENT_FACTOR = 26 / 1000"

section \<open>\<open>usb-settings.hpp\<close>\<close>

definition HOST_TO_DEVICE_DATAPACKET_SIZE :: nat where
  "HOST_TO_DEVICE_DATAPACKET_SIZE = 128"

definition DEVICE_TO_HOST_DATAPACKET_SIZE :: nat where
  "DEVICE_TO_HOST_DATAPACKET_SIZE = 64"

end
