(* ===== verification/Bridge_Hw.thy ===== *)
theory Bridge_Hw
  imports Protocol
begin

text \<open>
  The I/O modules of the bridge firmware (\<open>firmware/bridge\<close>, an ATmega32U4): \<open>led.cpp\<close>,
  \<open>buttons.cpp\<close>, \<open>analog.cpp\<close>, \<open>killswitch.cpp\<close> and \<open>delay.cpp\<close>. The modules share the port
  registers, so the state is one record that each module extends with its static variables; the
  operations are polymorphic in the extension and later modules call them on their larger state.
  Bit numbers inside device registers are those of the ATmega32U4 (\<open>datasheets/avr\<close>).
\<close>

section \<open>Port registers\<close>

record io =
  PORTB :: u8
  DDRB :: u8
  PORTC :: u8
  DDRC :: u8
  PORTD :: u8
  DDRD :: u8
  PORTE :: u8
  DDRE :: u8
  PORTF :: u8
  DDRF :: u8

text \<open>Reset values of the port registers.\<close>

definition io_reset :: io where
  "io_reset = \<lparr>PORTB = 0, DDRB = 0, PORTC = 0, DDRC = 0, PORTD = 0, DDRD = 0, PORTE = 0, DDRE = 0,
     PORTF = 0, DDRF = 0\<rparr>"

section \<open>\<open>led.cpp\<close>\<close>

datatype diode = GREEN | YELLOW

definition led_init :: "'a io_scheme \<Rightarrow> 'a io_scheme" where
  "led_init s =
     (let s = s\<lparr>PORTD := sbi 5 (PORTD s)\<rparr>;
          s = s\<lparr>PORTB := sbi 0 (PORTB s)\<rparr>;
          s = s\<lparr>DDRD := sbi 5 (DDRD s)\<rparr>
      in s\<lparr>DDRB := sbi 0 (DDRB s)\<rparr>)"

definition led_setState :: "diode \<Rightarrow> bool \<Rightarrow> 'a io_scheme \<Rightarrow> 'a io_scheme" where
  "led_setState d enabled s =
     (if d = YELLOW
      then s\<lparr>PORTB := if enabled then cbi 0 (PORTB s) else sbi 0 (PORTB s)\<rparr>
      else s\<lparr>PORTD := if enabled then cbi 5 (PORTD s) else sbi 5 (PORTD s)\<rparr>)"

definition led_setState_all :: "bool \<Rightarrow> 'a io_scheme \<Rightarrow> 'a io_scheme" where
  "led_setState_all enabled s =
     (if enabled
      then (let s = s\<lparr>PORTD := cbi 5 (PORTD s)\<rparr> in s\<lparr>PORTB := cbi 0 (PORTB s)\<rparr>)
      else (let s = s\<lparr>PORTD := sbi 5 (PORTD s)\<rparr> in s\<lparr>PORTB := sbi 0 (PORTB s)\<rparr>))"

definition led_toggleState :: "diode \<Rightarrow> 'a io_scheme \<Rightarrow> 'a io_scheme" where
  "led_toggleState d s =
     (if d = YELLOW then s\<lparr>PORTB := PORTB s XOR push_bit 0 1\<rparr>
      else s\<lparr>PORTD := PORTD s XOR push_bit 5 1\<rparr>)"

text \<open>A diode is lit when its (low-active) pin is low.\<close>

definition led_lit :: "diode \<Rightarrow> 'a io_scheme \<Rightarrow> bool" where
  "led_lit d s = (if d = YELLOW then \<not> bit (PORTB s) 0 else \<not> bit (PORTD s) 5)"

section \<open>\<open>buttons.cpp\<close>\<close>

text \<open>A button connects its pin to ground: pressed is a low level of \<open>PINE6\<close>, \<open>PINB4\<close>, \<open>PIND7\<close>.\<close>

record button_set =
  b_up :: bool
  b_down :: bool
  b_enter :: bool

record pins =
  PINB :: u8
  PIND :: u8
  PINE :: u8

definition buttons_init :: "'a io_scheme \<Rightarrow> 'a io_scheme" where
  "buttons_init s =
     (let s = s\<lparr>DDRB := cbi 4 (DDRB s)\<rparr>;
          s = s\<lparr>DDRD := cbi 7 (DDRD s)\<rparr>;
          s = s\<lparr>DDRE := cbi 6 (DDRE s)\<rparr>;
          s = s\<lparr>PORTB := sbi 4 (PORTB s)\<rparr>;
          s = s\<lparr>PORTD := sbi 7 (PORTD s)\<rparr>
      in s\<lparr>PORTE := sbi 6 (PORTE s)\<rparr>)"

definition read_buttons :: "pins \<Rightarrow> button_set" where
  "read_buttons p =
     \<lparr>b_up = \<not> bit_is_set (PINB p) 4, b_down = \<not> bit_is_set (PIND p) 7,
      b_enter = \<not> bit_is_set (PINE p) 6\<rparr>"

text \<open>
  \<open>getButtonsState\<close>: the pins at the first reading and, when a button is seen with \<open>debounce\<close>, at
  the second reading; \<open>wait\<close> is the call \<open>delay::waitMs(DEBOUNCE_TIME)\<close> in between.
\<close>

definition DEBOUNCE_TIME :: nat where "DEBOUNCE_TIME = 30"

definition getButtonsState ::
  "('s \<Rightarrow> 's) \<Rightarrow> pins \<Rightarrow> pins \<Rightarrow> bool \<Rightarrow> 's \<Rightarrow> button_set \<times> 's" where
  "getButtonsState wait p p30 debounce s =
     (let st = read_buttons p in
      if \<not> debounce then (st, s)
      else if \<not> (b_enter st \<or> b_up st \<or> b_down st) then (st, s)
      else (let s = wait s;
                st2 = read_buttons p30 in
            (\<lparr>b_up = (b_up st \<and> b_up st2), b_down = (b_down st \<and> b_down st2),
              b_enter = (b_enter st \<and> b_enter st2)\<rparr>, s)))"

lemma getButtonsState_debounced:
  "fst (getButtonsState wait p p30 True s) =
    \<lparr>b_up = (b_up (read_buttons p) \<and> b_up (read_buttons p30)),
     b_down = (b_down (read_buttons p) \<and> b_down (read_buttons p30)),
     b_enter = (b_enter (read_buttons p) \<and> b_enter (read_buttons p30))\<rparr>"
  by (auto simp: getButtonsState_def Let_def read_buttons_def)

lemma getButtonsState_cases:
  "snd (getButtonsState wait p p30 debounce s) = s \<or>
   snd (getButtonsState wait p p30 debounce s) = wait s"
  by (simp add: getButtonsState_def Let_def)

section \<open>\<open>killswitch.cpp\<close>\<close>

text \<open>
  The kill switch line is pin 4 of port D, pulled down by an external button. \<open>ks_line_low hw s\<close>
  is the level the pin reads: low when the port drives it low (direction bit set, port bit clear)
  or when the button holds it (\<open>hw\<close>), otherwise high through the pull-up.
\<close>

record ks = io +
  causedByHardware :: bool
  causedBySoftware :: bool

definition ks_static_init :: ks where
  "ks_static_init = io.extend io_reset \<lparr>causedByHardware = False, causedBySoftware = True\<rparr>"

definition ks_line_low :: "bool \<Rightarrow> 'a io_scheme \<Rightarrow> bool" where
  "ks_line_low hw s \<longleftrightarrow> (bit (DDRD s) 4 \<and> \<not> bit (PORTD s) 4) \<or> hw"

definition ks_isActive :: "bool \<Rightarrow> 'a io_scheme \<Rightarrow> bool" where
  "ks_isActive hw s = ks_line_low hw s"

text \<open>
  \<open>setActive\<close>; \<open>wait\<close> is the call \<open>delay::waitMs(5)\<close> at its end (below), which itself comes back
  to \<open>checkHardware\<close>. The switch-on half has no wait.
\<close>

definition ks_activate :: "bool \<Rightarrow> 'a ks_scheme \<Rightarrow> 'a ks_scheme" where
  "ks_activate hw s =
     (let s = (if \<not> ks_isActive hw s
               then s\<lparr>causedBySoftware := True, causedByHardware := False\<rparr> else s);
          s = s\<lparr>DDRD := sbi 4 (DDRD s)\<rparr>
      in s\<lparr>PORTD := cbi 4 (PORTD s)\<rparr>)"

definition ks_setActive ::
  "('a ks_scheme \<Rightarrow> 'a ks_scheme) \<Rightarrow> bool \<Rightarrow> bool \<Rightarrow> 'a ks_scheme \<Rightarrow> 'a ks_scheme" where
  "ks_setActive wait hw active s =
     (if active then ks_activate hw s
      else if ks_isActive hw s
      then (let s = s\<lparr>causedByHardware := False, causedBySoftware := False\<rparr>;
                s = s\<lparr>DDRD := cbi 4 (DDRD s)\<rparr>;
                s = s\<lparr>PORTD := sbi 4 (PORTD s)\<rparr>;
                s = (if ks_isActive hw s then s\<lparr>causedByHardware := True\<rparr> else s)
            in wait s)
      else s)"

definition ks_init :: "bool \<Rightarrow> 'a ks_scheme \<Rightarrow> 'a ks_scheme" where
  "ks_init hw s = ks_setActive id hw True s"

definition ks_checkHardware :: "bool \<Rightarrow> 'a ks_scheme \<Rightarrow> 'a ks_scheme" where
  "ks_checkHardware hw s =
     (if ks_isActive hw s
      then ks_activate hw (if \<not> causedBySoftware s then s\<lparr>causedByHardware := True\<rparr> else s)
      else s\<lparr>causedByHardware := False, causedBySoftware := False\<rparr>)"

section \<open>\<open>delay.cpp\<close>\<close>

text \<open>
  \<open>waitMs\<close>: the loop counter is a \<open>uint8_t\<close>, the bound a \<open>uint16_t\<close>. \<open>check\<close> is
  \<open>killswitch::checkHardware\<close>, \<open>poll\<close> is \<open>usb::poll\<close>. \<open>None\<close> when the fuel is used up before the
  loop has ended.
\<close>

fun waitMs_loop :: "('s \<Rightarrow> 's) \<Rightarrow> ('s \<Rightarrow> 's) \<Rightarrow> u16 \<Rightarrow> nat \<Rightarrow> u8 \<Rightarrow> 's \<Rightarrow> 's option" where
  "waitMs_loop check poll ms 0 i s = None"
| "waitMs_loop check poll ms (Suc fuel) i s =
     (if unat i < unat ms
      then (let s = check s;
                s = (if i mod 2 = 0 then poll s else s)
            in waitMs_loop check poll ms fuel (i + 2) s)
      else Some s)"

definition waitMs :: "('s \<Rightarrow> 's) \<Rightarrow> ('s \<Rightarrow> 's) \<Rightarrow> nat \<Rightarrow> u16 \<Rightarrow> 's \<Rightarrow> 's option" where
  "waitMs check poll fuel ms s = waitMs_loop check poll ms fuel 0 s"

section \<open>\<open>analog.cpp\<close>\<close>

record adc =
  ADMUX :: u8
  ADCSRA :: u8
  DIDR0 :: u8
  rawVoltage :: u16
  rawCurrent :: u16
  channelChooser :: bool

definition adc_static_init :: adc where
  "adc_static_init = \<lparr>ADMUX = 0, ADCSRA = 0, DIDR0 = 0, rawVoltage = 0, rawCurrent = 0,
     channelChooser = False\<rparr>"

definition analog_init :: "'a io_scheme \<times> adc \<Rightarrow> 'a io_scheme \<times> adc" where
  "analog_init = (\<lambda>(s, a).
     (let s = s\<lparr>DDRC := DDRC s AND NOT (push_bit 4 1 OR push_bit 5 1)\<rparr>;
          s = s\<lparr>PORTC := PORTC s AND NOT (push_bit 4 1 OR push_bit 5 1)\<rparr>;
          a = a\<lparr>ADMUX := push_bit 6 1 OR push_bit 7 1\<rparr>;
          a = a\<lparr>DIDR0 := push_bit 4 1 OR push_bit 5 1\<rparr>;
          a = a\<lparr>ADCSRA := push_bit 7 1 OR push_bit 6 1 OR push_bit 2 1 OR push_bit 1 1 OR
                          push_bit 0 1 OR push_bit 3 1\<rparr>
      in (s, a)))"

text \<open>The conversion-complete interrupt; \<open>ADCW\<close> is the result of the conversion that ended.\<close>

definition adc_isr :: "u16 \<Rightarrow> adc \<Rightarrow> adc" where
  "adc_isr ADCW a =
     (let a = (if channelChooser a
               then a\<lparr>ADMUX := (ADMUX a AND 0xf0) OR 5, rawVoltage := ADCW, channelChooser := False\<rparr>
               else a\<lparr>ADMUX := (ADMUX a AND 0xf0) OR 4, rawCurrent := ADCW, channelChooser := True\<rparr>)
      in a\<lparr>ADCSRA := sbi 6 (ADCSRA a)\<rparr>)"

text \<open>
  The converter: each conversion samples the channel the multiplexer selects when it starts; the
  inputs may change from one conversion to the next.
\<close>

fun adc_run :: "(nat \<Rightarrow> u16) list \<Rightarrow> adc \<Rightarrow> adc" where
  "adc_run [] a = a"
| "adc_run (v # vs) a = adc_run vs (adc_isr (v (unat (ADMUX a AND 0x0f))) a)"

section \<open>Kill switch: the latch\<close>

text \<open>
  The line is latched when the firmware drives it low itself. A latched line is active whatever
  the button does; only \<open>setActive(false)\<close> takes the drive away.
\<close>

definition ks_latched :: "'a io_scheme \<Rightarrow> bool" where
  "ks_latched s \<longleftrightarrow> bit (DDRD s) 4 \<and> \<not> bit (PORTD s) 4"

lemma ks_latched_active: "ks_latched s \<Longrightarrow> ks_isActive hw s"
  by (simp add: ks_latched_def ks_isActive_def ks_line_low_def)

lemma ks_active_cases: "ks_isActive hw s \<longleftrightarrow> ks_latched s \<or> hw"
  by (simp add: ks_latched_def ks_isActive_def ks_line_low_def)

lemma ks_latched_updates [simp]:
  "ks_latched (s\<lparr>causedByHardware := b\<rparr>) = ks_latched s"
  "ks_latched (s\<lparr>causedBySoftware := b\<rparr>) = ks_latched s"
  by (simp_all add: ks_latched_def)

lemma ks_latched_activate [simp]: "ks_latched (ks_activate hw s)"
  by (simp add: ks_activate_def ks_latched_def Let_def port_simps)

lemma ks_activate_flags:
  "causedByHardware (ks_activate hw s) = (ks_isActive hw s \<and> causedByHardware s)"
  "causedBySoftware (ks_activate hw s) = (\<not> ks_isActive hw s \<or> causedBySoftware s)"
  by (simp_all add: ks_activate_def Let_def)

lemma ks_latched_check:
  "ks_latched (ks_checkHardware hw s) \<longleftrightarrow> ks_isActive hw s"
  by (auto simp: ks_checkHardware_def ks_active_cases)

text \<open>The writes of the other modules to ports B and D leave the latch alone.\<close>

lemma ks_latched_frame [simp]:
  "ks_latched (led_init s) = ks_latched s"
  "ks_latched (led_setState d b s) = ks_latched s"
  "ks_latched (led_setState_all b s) = ks_latched s"
  "ks_latched (led_toggleState d s) = ks_latched s"
  "ks_latched (buttons_init s) = ks_latched s"
  by (simp_all add: ks_latched_def led_init_def led_setState_def led_setState_all_def
      led_toggleState_def buttons_init_def Let_def port_simps bit_xor_iff bit_exp_iff)

lemma ks_latched_analog_init [simp]: "ks_latched (fst (analog_init (s, a))) = ks_latched s"
  by (simp add: ks_latched_def analog_init_def Let_def)

datatype ks_event =
    KsCheckHardware bool
  | KsSetActive bool bool
  | KsLed diode bool
  | KsLedToggle diode
  | KsButtonsInit

fun ks_step :: "('a ks_scheme \<Rightarrow> 'a ks_scheme) \<Rightarrow> 'a ks_scheme \<Rightarrow> ks_event \<Rightarrow> 'a ks_scheme" where
  "ks_step wait s (KsCheckHardware hw) = ks_checkHardware hw s"
| "ks_step wait s (KsSetActive hw active) = ks_setActive wait hw active s"
| "ks_step wait s (KsLed d b) = led_setState d b s"
| "ks_step wait s (KsLedToggle d) = led_toggleState d s"
| "ks_step wait s KsButtonsInit = buttons_init s"

fun ks_run :: "('a ks_scheme \<Rightarrow> 'a ks_scheme) \<Rightarrow> 'a ks_scheme \<Rightarrow> ks_event list \<Rightarrow> 'a ks_scheme" where
  "ks_run wait s [] = s"
| "ks_run wait s (e # es) = ks_run wait (ks_step wait s e) es"

fun ks_releases :: "ks_event \<Rightarrow> bool" where
  "ks_releases (KsSetActive hw active) = (\<not> active)"
| "ks_releases _ = False"

lemma ks_step_latched: "ks_latched s \<Longrightarrow> \<not> ks_releases e \<Longrightarrow> ks_latched (ks_step wait s e)"
  by (cases e) (simp_all add: ks_latched_check ks_latched_active ks_setActive_def)

lemma ks_run_latched:
  "ks_latched s \<Longrightarrow> \<forall>e \<in> set es. \<not> ks_releases e \<Longrightarrow> ks_latched (ks_run wait s es)"
  by (induction es arbitrary: s) (simp_all add: ks_step_latched)

section \<open>Delay: how often the loop runs\<close>

lemma u8_even_mod: "(i::u8) mod 2 = 0 \<longleftrightarrow> even (unat i)"
  using unat_0_iff [of "i mod 2"] by (simp add: unat_mod_distrib even_iff_mod_2_eq_zero)

lemma waitMs_loop_steps:
  assumes "2 * k \<le> 254" and "unat ms \<le> 254" and "127 < k + fuel"
  shows "waitMs_loop check poll ms fuel (of_nat (2 * k)) s =
    Some (((\<lambda>s. poll (check s)) ^^ ((unat ms + 1) div 2 - k)) s)"
  using assms(1,3)
proof (induction fuel arbitrary: k s)
  case 0
  then show ?case by simp
next
  case (Suc fuel)
  have u: "unat (of_nat (2 * k) :: u8) = 2 * k"
    using Suc.prems take_bit_nat_eq_self [of "2 * k" 8] unfolding unsigned_of_nat by simp
  have even: "(of_nat (2 * k) :: u8) mod 2 = 0"
    unfolding u8_even_mod u by simp
  show ?case
  proof (cases "2 * k < unat ms")
    case True
    then have k: "2 * Suc k \<le> 254" "127 < Suc k + fuel" using assms(2) Suc.prems by - (presburger, linarith)
    have nxt: "(of_nat (2 * k) :: u8) + 2 = of_nat (2 * Suc k)" by simp
    have rep: "(unat ms + 1) div 2 - k = Suc ((unat ms + 1) div 2 - Suc k)"
      using True by linarith
    show ?thesis unfolding rep funpow_Suc_right comp_def
      using Suc.IH [OF k, of "poll (check s)"] True u even nxt
      by (simp only: waitMs_loop.simps Let_def simp_thms if_True)
  next
    case False
    then have "(unat ms + 1) div 2 - k = 0" by linarith
    with False u show ?thesis by (simp del: of_nat_mult)
  qed
qed

lemma waitMs_iterations:
  "unat ms \<le> 254 \<Longrightarrow>
   waitMs check poll 128 ms s = Some (((\<lambda>s. poll (check s)) ^^ ((unat ms + 1) div 2)) s)"
  using waitMs_loop_steps [of 0 ms 128 check poll s] by (simp add: waitMs_def)

lemma waitMs_loop_endless:
  "255 \<le> unat ms \<Longrightarrow> even (unat i) \<Longrightarrow> waitMs_loop check poll ms fuel i s = None"
proof (induction fuel arbitrary: i s)
  case 0
  then show ?case by simp
next
  case (Suc fuel)
  have lt: "unat i < 256" using unsigned_less [of i, where 'a = nat] by simp
  with Suc.prems(2) have "unat i \<noteq> 255" by (auto simp: odd_numeral)
  with lt Suc.prems(1) have "unat i < unat ms" by linarith
  moreover have "even (unat (i + 2))"
    using Suc.prems(2) lt by (simp add: unat_word_ariths dvd_mod_iff)
  ultimately show ?case using Suc by (simp add: Let_def)
qed

section \<open>Kill switch: causes\<close>

text \<open>At most one of the two causes is recorded, in every reachable state.\<close>

definition ks_one_cause :: "'a ks_scheme \<Rightarrow> bool" where
  "ks_one_cause s \<longleftrightarrow> \<not> (causedByHardware s \<and> causedBySoftware s)"

lemma ks_one_cause_check [simp]: "ks_one_cause s \<Longrightarrow> ks_one_cause (ks_checkHardware hw s)"
  by (auto simp: ks_one_cause_def ks_checkHardware_def ks_activate_flags)

lemma ks_one_cause_setActive:
  "ks_one_cause s \<Longrightarrow> (\<And>t. ks_one_cause t \<Longrightarrow> ks_one_cause (wait t)) \<Longrightarrow>
   ks_one_cause (ks_setActive wait hw active s)"
  by (auto simp: ks_setActive_def ks_one_cause_def ks_activate_flags Let_def)

lemma ks_one_cause_frame [simp]:
  "ks_one_cause (led_setState d b s) = ks_one_cause s"
  "ks_one_cause (led_toggleState d s) = ks_one_cause s"
  "ks_one_cause (buttons_init s) = ks_one_cause s"
  by (simp_all add: ks_one_cause_def led_setState_def led_toggleState_def buttons_init_def Let_def)

lemma ks_run_one_cause:
  assumes "\<And>t. ks_one_cause t \<Longrightarrow> ks_one_cause (wait t)"
  shows "ks_one_cause s \<Longrightarrow> ks_one_cause (ks_run wait s es)"
proof (induction es arbitrary: s)
  case Nil
  then show ?case by simp
next
  case (Cons e es)
  from Cons.prems have "ks_one_cause (ks_step wait s e)"
    by (cases e) (simp_all add: ks_one_cause_setActive assms)
  with Cons.IH show ?case by simp
qed

text \<open>
  What \<open>setActive(false)\<close> does on an active line: \<open>waitMs(5)\<close> polls the hardware three times, so a
  button that is still held latches the line again, as caused by hardware.
\<close>

definition ks_wait :: "u16 \<Rightarrow> bool \<Rightarrow> 'a ks_scheme \<Rightarrow> 'a ks_scheme" where
  "ks_wait ms hw s = the (waitMs (ks_checkHardware hw) id 128 ms s)"

abbreviation ks_wait5 :: "bool \<Rightarrow> 'a ks_scheme \<Rightarrow> 'a ks_scheme" where
  "ks_wait5 \<equiv> ks_wait 5"

lemma ks_wait_eq:
  "unat ms \<le> 254 \<Longrightarrow> ks_wait ms hw s = (ks_checkHardware hw ^^ ((unat ms + 1) div 2)) s"
  by (simp add: ks_wait_def waitMs_iterations)

lemma ks_wait5_eq:
  "ks_wait5 hw s = ks_checkHardware hw (ks_checkHardware hw (ks_checkHardware hw s))"
  by (simp add: ks_wait_eq numeral_3_eq_3)

text \<open>A wait keeps whatever a hardware check keeps.\<close>

lemma ks_wait_induct:
  assumes "unat ms \<le> 254" and "P s" and "\<And>t. P t \<Longrightarrow> P (ks_checkHardware hw t)"
  shows "P (ks_wait ms hw s)"
proof -
  have "P ((ks_checkHardware hw ^^ n) s)" for n
    by (induction n) (simp_all add: assms)
  then show ?thesis by (simp add: ks_wait_eq assms(1))
qed

lemma ks_check_caused:
  "causedBySoftware (ks_checkHardware hw s) = (ks_isActive hw s \<and> causedBySoftware s)"
  "causedByHardware (ks_checkHardware hw s) =
    (ks_isActive hw s \<and> (causedByHardware s \<or> \<not> causedBySoftware s))"
  by (auto simp: ks_checkHardware_def ks_activate_flags ks_active_cases)

section \<open>Properties\<close>

text \<open>C38: Safety of the kill switch. Once the firmware has engaged it, no sequence of hardware
  checks, of \<open>setActive(true)\<close> calls, of LED switching and of button initialisation in which
  \<open>setActive(false)\<close> does not occur makes the line inactive, whatever the external button does.\<close>

theorem killswitch_stays_active:
  assumes "\<forall>e \<in> set es. \<not> ks_releases e"
  shows "ks_isActive hw (ks_run wait (ks_setActive wait hw0 True s) es)"
proof -
  have "ks_latched (ks_setActive wait hw0 True s)" by (simp add: ks_setActive_def)
  then have "ks_latched (ks_run wait (ks_setActive wait hw0 True s) es)"
    using assms by (rule ks_run_latched)
  then show ?thesis by (rule ks_latched_active)
qed

lemma killswitch_stays_active_witness:
  "ks_isActive False (ks_run id (ks_setActive id False True ks_static_init)
     [KsCheckHardware True, KsLed GREEN True, KsCheckHardware False, KsSetActive False True])"
  by (rule killswitch_stays_active) simp

text \<open>\<open>setActive(false)\<close> on an active line. When the external button is up the line becomes
  inactive with no cause recorded; when the button is held the line stays active, is latched by
  the firmware again, and the recorded cause is the hardware and not the software.\<close>

theorem killswitch_release:
  fixes s :: "'a ks_scheme"
  assumes "ks_isActive hw s"
  defines "r \<equiv> ks_setActive (ks_wait5 hw) hw False s"
  shows "ks_isActive hw r = hw \<and> ks_latched r = hw \<and> causedByHardware r = hw \<and>
    \<not> causedBySoftware r"
proof -
  define u where "u = s\<lparr>causedByHardware := False, causedBySoftware := False,
    DDRD := cbi 4 (DDRD s), PORTD := sbi 4 (PORTD s)\<rparr>"
  define t where "t = (if hw then u\<lparr>causedByHardware := True\<rparr> else u)"
  have u: "ks_isActive hw u = hw" by (simp add: u_def ks_active_cases ks_latched_def port_simps)
  have t: "\<not> ks_latched t" "\<not> causedBySoftware t" "causedByHardware t = hw"
    by (simp_all add: t_def u_def ks_latched_def port_simps)
  have "r = ks_wait5 hw t"
    using assms(1) u by (simp add: r_def t_def ks_setActive_def Let_def flip: u_def)
  with t show ?thesis
    by (auto simp: ks_wait5_eq ks_latched_check ks_check_caused ks_active_cases)
qed

lemma killswitch_release_witness:
  "ks_isActive True (ks_setActive (ks_wait5 True) True False (ks_init False ks_static_init))"
  using killswitch_release [of True "ks_init False ks_static_init"]
  by (simp add: ks_active_cases)

text \<open>In every state the kill switch can reach from power-up, at most one cause is recorded,
  and right after a hardware check exactly one is recorded when the line is active and none when
  it is not.\<close>

theorem killswitch_cause_recorded:
  fixes es :: "ks_event list" and h hw0 hw :: bool
  defines "s \<equiv> ks_run (ks_wait5 h) (ks_init hw0 ks_static_init) es"
  shows "ks_one_cause s \<and>
    (causedByHardware (ks_checkHardware hw s) \<noteq> causedBySoftware (ks_checkHardware hw s)) =
      ks_isActive hw (ks_checkHardware hw s)"
proof -
  have "ks_one_cause (ks_init hw0 ks_static_init)"
    unfolding ks_init_def
    by (rule ks_one_cause_setActive) (simp_all add: ks_one_cause_def ks_static_init_def io.defs)
  moreover have "ks_one_cause (ks_wait5 h t)" if "ks_one_cause t" for t :: ks
    using that by (simp add: ks_wait5_eq)
  ultimately have one: "ks_one_cause s" unfolding s_def by (rule ks_run_one_cause [rotated])
  then show ?thesis
    by (auto simp: ks_check_caused ks_active_cases ks_latched_check ks_one_cause_def)
qed

text \<open>\<open>waitMs\<close> returns exactly for waits of at most 254 ms, and then it has checked the kill
  switch and polled the USB once for every two milliseconds begun. For longer waits the 8-bit
  counter can never reach the bound, so no number of iterations is enough.\<close>

theorem waitMs_exact:
  "(\<exists>fuel r. waitMs check poll fuel ms s = Some r) = (unat ms \<le> 254) \<and>
   (unat ms \<le> 254 \<longrightarrow>
     waitMs check poll 128 ms s = Some (((\<lambda>s. poll (check s)) ^^ ((unat ms + 1) div 2)) s))"
proof (cases "unat ms \<le> 254")
  case True
  then show ?thesis using waitMs_iterations [OF True, of check poll s]
    by (intro conjI impI) (simp_all only: simp_thms, blast)
next
  case False
  then have "waitMs check poll fuel ms s = None" for fuel
    unfolding waitMs_def by (intro waitMs_loop_endless) auto
  with False show ?thesis by simp
qed

lemma waitMs_exact_witness:
  "waitMs (\<lambda>n. n + 1) (\<lambda>n. n) 128 5 0 = Some (3 :: nat)"
  using waitMs_exact [of "\<lambda>n. n + 1" "\<lambda>n. n" 5 "0 :: nat"] by (simp add: numeral_3_eq_3)

section \<open>ADC: which channel ends up where\<close>

lemma adc_run_append: "adc_run (xs @ ys) a = adc_run ys (adc_run xs a)"
  by (induction xs arbitrary: a) simp_all

definition adc_synced :: "adc \<Rightarrow> bool" where
  "adc_synced a \<longleftrightarrow> ADMUX a = (if channelChooser a then 0xC4 else 0xC5)"

lemma adc_synced_isr: "adc_synced a \<Longrightarrow> adc_synced (adc_isr w a)"
  by (simp add: adc_synced_def adc_isr_def split: if_splits)

lemma adc_run_chooser: "channelChooser (adc_run vs a) = (channelChooser a \<noteq> odd (length vs))"
  by (induction vs arbitrary: a) (auto simp: adc_isr_def)

lemma adc_run_synced: "adc_synced a \<Longrightarrow> adc_synced (adc_run vs a)"
  by (induction vs arbitrary: a) (simp_all add: adc_synced_isr)

lemma adc_run_synced_init:
  assumes "vs \<noteq> []"
  shows "adc_synced (adc_run vs (snd (analog_init (s, adc_static_init))))"
proof -
  have "adc_synced (adc_isr w (snd (analog_init (s, adc_static_init))))" for w
    by (simp add: adc_synced_def adc_isr_def analog_init_def adc_static_init_def Let_def)
  with assms show ?thesis by (cases vs) (simp_all add: adc_run_synced)
qed

lemma adc_two_steps:
  assumes "adc_synced a"
  shows "rawVoltage (adc_run [x, y] a) = (if channelChooser a then x 4 else y 4) \<and>
    rawCurrent (adc_run [x, y] a) = (if channelChooser a then y 5 else x 5)"
  using assms by (auto simp: adc_synced_def adc_isr_def split: if_splits)

text \<open>The two ADC results are not mixed up: after the first conversion, any two further
  conversions leave the sample of channel 4 in \<open>rawVoltage\<close> and that of channel 5 in
  \<open>rawCurrent\<close>, each taken in the latest conversion of its channel.\<close>

theorem adc_channels:
  fixes vs :: "(nat \<Rightarrow> u16) list" and x y :: "nat \<Rightarrow> u16" and s :: "'a io_scheme"
  assumes "vs \<noteq> []"
  defines "a \<equiv> adc_run (vs @ [x, y]) (snd (analog_init (s, adc_static_init)))"
  shows "rawVoltage a = (if odd (length vs) then x 4 else y 4) \<and>
    rawCurrent a = (if odd (length vs) then y 5 else x 5)"
  using adc_two_steps [OF adc_run_synced_init [OF assms(1)], of x y s]
  by (simp add: a_def adc_run_append adc_run_chooser del: adc_run.simps)
     (simp add: analog_init_def adc_static_init_def Let_def)

lemma adc_channels_witness:
  "rawCurrent (adc_run [\<lambda>c. 7, \<lambda>c. of_nat c, \<lambda>c. of_nat (10 * c)]
     (snd (analog_init (io_reset, adc_static_init)))) = 50"
  using adc_channels [of "[\<lambda>c. 7]" "\<lambda>c. of_nat c" "\<lambda>c. of_nat (10 * c)" io_reset] by simp

end
