(* ===== verification/Bridge_I2c.thy ===== *)
theory Bridge_I2c
  imports Bridge_Hw
begin

text \<open>
  The I2C master of the bridge (\<open>i2c.cpp\<close>) and the three modules that talk through it:
  \<open>expander.cpp\<close>, \<open>motor_driver.cpp\<close> and \<open>arm_driver.cpp\<close>. Every bus operation is recorded in
  \<open>i2c_log\<close>. The bus with the devices on it is the parameter \<open>bus\<close>: after the operations of the log,
  the last of them the one under way, it yields the content of the data register when the operation
  completes (only a read looks at it), or \<open>None\<close> when the timer overflows first.
\<close>

section \<open>\<open>i2c.cpp\<close>\<close>

datatype i2c_op = I2C_START | I2C_WRITE u8 | I2C_READ bool | I2C_STOP
datatype i2c_error = I2C_OK | I2C_TIMEOUT

type_synonym i2c_bus = "i2c_op list \<Rightarrow> u8 option"

record i2c = ks +
  TWBR :: u8
  TWCR :: u8
  TWDR :: u8
  TIMSK0 :: u8
  TCNT0 :: u8
  TCCR0B :: u8
  timerNotClear :: bool
  i2c_status :: i2c_error
  i2c_log :: "i2c_op list"

definition i2c_static_init :: i2c where
  "i2c_static_init = ks.extend ks_static_init
     \<lparr>TWBR = 0, TWCR = 0, TWDR = 0xff, TIMSK0 = 0, TCNT0 = 0, TCCR0B = 0, timerNotClear = True,
      i2c_status = I2C_OK, i2c_log = []\<rparr>"

text \<open>Bits of \<open>TWCR\<close>, \<open>TIMSK0\<close> and \<open>TCCR0B\<close>.\<close>

abbreviation (input) TWINT :: nat where "TWINT \<equiv> 7"
abbreviation (input) TWEA :: nat where "TWEA \<equiv> 6"
abbreviation (input) TWSTA :: nat where "TWSTA \<equiv> 5"
abbreviation (input) TWSTO :: nat where "TWSTO \<equiv> 4"
abbreviation (input) TWEN :: nat where "TWEN \<equiv> 2"
abbreviation (input) TOIE0 :: nat where "TOIE0 \<equiv> 0"
abbreviation (input) CS02 :: nat where "CS02 \<equiv> 2"

definition I2C_CLOCK_FREQUENCY :: nat where "I2C_CLOCK_FREQUENCY = 50"
definition F_CPU :: nat where "F_CPU = 16000000"

definition addressToWrite :: "u8 \<Rightarrow> u8" where
  "addressToWrite a = push_bit 1 a"

definition addressToRead :: "u8 \<Rightarrow> u8" where
  "addressToRead a = push_bit 1 a OR 1"

definition i2c_init :: "'a i2c_scheme \<Rightarrow> 'a i2c_scheme" where
  "i2c_init s =
     (let s = s\<lparr>TWBR := of_nat ((F_CPU div 1000 div I2C_CLOCK_FREQUENCY - 16) div 2)\<rparr>;
          s = s\<lparr>TWCR := push_bit TWEN 1 OR push_bit TWEA 1 OR push_bit TWINT 1\<rparr>
      in s\<lparr>TIMSK0 := TIMSK0 s OR push_bit TOIE0 1\<rparr>)"

definition setUpTimer :: "'a i2c_scheme \<Rightarrow> 'a i2c_scheme" where
  "setUpTimer s = s\<lparr>TCNT0 := 0, timerNotClear := True, TCCR0B := push_bit CS02 1\<rparr>"

text \<open>The interrupt that ends the waiting loop when the bus does not answer.\<close>

definition TIMER0_OVF_vect :: "'a i2c_scheme \<Rightarrow> 'a i2c_scheme" where
  "TIMER0_OVF_vect s = s\<lparr>timerNotClear := False, TCCR0B := 0\<rparr>"

text \<open>A write to \<open>TWCR\<close> with \<open>TWINT\<close> set clears that flag and starts the operation.\<close>

definition write_TWCR :: "u8 \<Rightarrow> 'a i2c_scheme \<Rightarrow> 'a i2c_scheme" where
  "write_TWCR v s = s\<lparr>TWCR := cbi TWINT v\<rparr>"

text \<open>
  \<open>waitForOperationComplete\<close>: the hardware sets \<open>TWINT\<close> (and, for a read, \<open>TWDR\<close>), or the timer
  overflows; both end the loop.
\<close>

definition waitForOperationComplete :: "i2c_bus \<Rightarrow> i2c_op \<Rightarrow> 'a i2c_scheme \<Rightarrow> 'a i2c_scheme" where
  "waitForOperationComplete bus op s =
     (let s = s\<lparr>i2c_log := i2c_log s @ [op]\<rparr>;
          s = (case bus (i2c_log s) of
                 None \<Rightarrow> TIMER0_OVF_vect s
               | Some d \<Rightarrow> s\<lparr>TWCR := sbi TWINT (TWCR s),
                             TWDR := (case op of I2C_READ ack \<Rightarrow> d | _ \<Rightarrow> TWDR s)\<rparr>);
          s = s\<lparr>TCCR0B := 0\<rparr>
      in if \<not> bit_is_set (TWCR s) TWINT then s\<lparr>i2c_status := I2C_TIMEOUT\<rparr>
         else s\<lparr>i2c_status := I2C_OK\<rparr>)"

definition i2c_start :: "i2c_bus \<Rightarrow> 'a i2c_scheme \<Rightarrow> 'a i2c_scheme" where
  "i2c_start bus s =
     waitForOperationComplete bus I2C_START
       (write_TWCR (push_bit TWINT 1 OR push_bit TWSTA 1 OR push_bit TWEN 1) (setUpTimer s))"

text \<open>
  \<open>stop\<close>: the loop that follows the write tests for \<open>TWSTO\<close>, which the write has just set, and ends
  at its first test.
\<close>

definition i2c_stop :: "'a i2c_scheme \<Rightarrow> 'a i2c_scheme" where
  "i2c_stop s =
     (let s = write_TWCR (push_bit TWINT 1 OR push_bit TWEN 1 OR push_bit TWSTO 1) s
      in s\<lparr>i2c_log := i2c_log s @ [I2C_STOP]\<rparr>)"

definition i2c_write :: "i2c_bus \<Rightarrow> u8 \<Rightarrow> 'a i2c_scheme \<Rightarrow> 'a i2c_scheme" where
  "i2c_write bus byte s =
     (let s = setUpTimer s;
          s = s\<lparr>TWDR := byte\<rparr>;
          s = write_TWCR (push_bit TWINT 1 OR push_bit TWEN 1) s
      in waitForOperationComplete bus (I2C_WRITE byte) s)"

definition i2c_read :: "i2c_bus \<Rightarrow> bool \<Rightarrow> 'a i2c_scheme \<Rightarrow> u8 \<times> 'a i2c_scheme" where
  "i2c_read bus ack s =
     (let s = setUpTimer s;
          s = (if ack then write_TWCR (push_bit TWINT 1 OR push_bit TWEN 1 OR push_bit TWEA 1) s
               else write_TWCR (push_bit TWINT 1 OR push_bit TWEN 1) s);
          s = waitForOperationComplete bus (I2C_READ ack) s
      in (TWDR s, s))"

definition i2c_getLastCommandStatus :: "'a i2c_scheme \<Rightarrow> i2c_error" where
  "i2c_getLastCommandStatus s = i2c_status s"

section \<open>\<open>expander.cpp\<close>\<close>

definition EXPANDER_ADDRESS :: u8 where "EXPANDER_ADDRESS = 0x64"
definition WRITE_AND_TRANSFER_DATA :: u8 where "WRITE_AND_TRANSFER_DATA = 0x44"
definition READ_DATA :: u8 where "READ_DATA = 0x11"

definition expander_setValue :: "i2c_bus \<Rightarrow> u8 \<Rightarrow> 'a i2c_scheme \<Rightarrow> 'a i2c_scheme" where
  "expander_setValue bus data s =
     (let s = i2c_start bus s;
          s = i2c_write bus (addressToWrite EXPANDER_ADDRESS) s;
          s = i2c_write bus WRITE_AND_TRANSFER_DATA s;
          s = i2c_write bus data s
      in i2c_stop s)"

definition expander_getValue :: "i2c_bus \<Rightarrow> 'a i2c_scheme \<Rightarrow> u8 \<times> 'a i2c_scheme" where
  "expander_getValue bus s =
     (let s = i2c_start bus s;
          s = i2c_write bus (addressToWrite EXPANDER_ADDRESS) s;
          s = i2c_write bus READ_DATA s;
          s = i2c_start bus s;
          s = i2c_write bus (addressToRead EXPANDER_ADDRESS) s;
          (val, s) = i2c_read bus False s
      in (val, i2c_stop s))"

section \<open>\<open>motor_driver.cpp\<close>\<close>

definition MOTOR_DRIVER_ADDRESS :: u8 where "MOTOR_DRIVER_ADDRESS = 0x12"

definition motor_drv_get :: "i2c_bus \<Rightarrow> motor_command \<Rightarrow> u8 \<Rightarrow> 'a i2c_scheme \<Rightarrow> u8 \<times> 'a i2c_scheme" where
  "motor_drv_get bus command motor s =
     (let s = i2c_start bus s;
          s = i2c_write bus (addressToWrite MOTOR_DRIVER_ADDRESS) s;
          s = i2c_write bus (motor_command_code command) s;
          s = i2c_write bus motor s;
          s = i2c_start bus s;
          s = i2c_write bus (addressToRead MOTOR_DRIVER_ADDRESS) s;
          (val, s) = i2c_read bus False s
      in (val, i2c_stop s))"

definition motor_drv_set :: "i2c_bus \<Rightarrow> motor_command \<Rightarrow> u8 \<Rightarrow> u8 \<Rightarrow> 'a i2c_scheme \<Rightarrow> 'a i2c_scheme" where
  "motor_drv_set bus command motor val s =
     (let s = i2c_start bus s;
          s = i2c_write bus (addressToWrite MOTOR_DRIVER_ADDRESS) s;
          s = i2c_write bus (motor_command_code command) s;
          s = i2c_write bus motor s;
          s = i2c_write bus val s
      in i2c_stop s)"

definition motor_drv_brake :: "i2c_bus \<Rightarrow> 'a i2c_scheme \<Rightarrow> 'a i2c_scheme" where
  "motor_drv_brake bus s =
     (let s = i2c_start bus s;
          s = i2c_write bus (addressToWrite MOTOR_DRIVER_ADDRESS) s;
          s = i2c_write bus (motor_command_code M_BRAKE) s
      in i2c_stop s)"

definition motor_drv_getDirection :: "i2c_bus \<Rightarrow> u8 \<Rightarrow> 'a i2c_scheme \<Rightarrow> u8 \<times> 'a i2c_scheme" where
  "motor_drv_getDirection bus motor = motor_drv_get bus M_GET_DIRECTION motor"

definition motor_drv_setDirection :: "i2c_bus \<Rightarrow> u8 \<Rightarrow> u8 \<Rightarrow> 'a i2c_scheme \<Rightarrow> 'a i2c_scheme" where
  "motor_drv_setDirection bus motor direction = motor_drv_set bus M_SET_DIRECTION motor direction"

definition motor_drv_getSpeed :: "i2c_bus \<Rightarrow> u8 \<Rightarrow> 'a i2c_scheme \<Rightarrow> u8 \<times> 'a i2c_scheme" where
  "motor_drv_getSpeed bus motor = motor_drv_get bus M_GET_SPEED motor"

definition motor_drv_setSpeed :: "i2c_bus \<Rightarrow> u8 \<Rightarrow> u8 \<Rightarrow> 'a i2c_scheme \<Rightarrow> 'a i2c_scheme" where
  "motor_drv_setSpeed bus motor speed = motor_drv_set bus M_SET_SPEED motor speed"

section \<open>\<open>arm_driver.cpp\<close>\<close>

definition ARM_DRIVER_ADDRESS :: u8 where "ARM_DRIVER_ADDRESS = 0x30"

definition arm_drv_get :: "i2c_bus \<Rightarrow> u8 \<Rightarrow> arm_command \<Rightarrow> 'a i2c_scheme \<Rightarrow> u8 \<times> 'a i2c_scheme" where
  "arm_drv_get bus motor command s =
     (let s = i2c_start bus s;
          s = i2c_write bus (addressToWrite ARM_DRIVER_ADDRESS) s;
          s = i2c_write bus (arm_command_code command) s;
          s = i2c_write bus motor s;
          s = i2c_start bus s;
          s = i2c_write bus (addressToRead ARM_DRIVER_ADDRESS) s;
          (val, s) = i2c_read bus False s
      in (val, i2c_stop s))"

definition arm_drv_set :: "i2c_bus \<Rightarrow> u8 \<Rightarrow> u8 \<Rightarrow> arm_command \<Rightarrow> 'a i2c_scheme \<Rightarrow> 'a i2c_scheme" where
  "arm_drv_set bus motor val command s =
     (let s = i2c_start bus s;
          s = i2c_write bus (addressToWrite ARM_DRIVER_ADDRESS) s;
          s = i2c_write bus (arm_command_code command) s;
          s = i2c_write bus motor s;
          s = i2c_write bus val s
      in i2c_stop s)"

definition arm_drv_sendOneByte :: "i2c_bus \<Rightarrow> arm_command \<Rightarrow> 'a i2c_scheme \<Rightarrow> 'a i2c_scheme" where
  "arm_drv_sendOneByte bus command s =
     (let s = i2c_start bus s;
          s = i2c_write bus (addressToWrite ARM_DRIVER_ADDRESS) s;
          s = i2c_write bus (arm_command_code command) s
      in i2c_stop s)"

definition arm_drv_recvOneByte :: "i2c_bus \<Rightarrow> arm_command \<Rightarrow> 'a i2c_scheme \<Rightarrow> u8 \<times> 'a i2c_scheme" where
  "arm_drv_recvOneByte bus command s =
     (let s = i2c_start bus s;
          s = i2c_write bus (addressToWrite ARM_DRIVER_ADDRESS) s;
          s = i2c_write bus (arm_command_code command) s;
          s = i2c_start bus s;
          s = i2c_write bus (addressToRead ARM_DRIVER_ADDRESS) s;
          (val, s) = i2c_read bus False s
      in (val, i2c_stop s))"

definition arm_drv_calibrate :: "i2c_bus \<Rightarrow> 'a i2c_scheme \<Rightarrow> 'a i2c_scheme" where
  "arm_drv_calibrate bus = arm_drv_sendOneByte bus A_CALIBRATE"

definition arm_drv_brake :: "i2c_bus \<Rightarrow> 'a i2c_scheme \<Rightarrow> 'a i2c_scheme" where
  "arm_drv_brake bus = arm_drv_sendOneByte bus A_BRAKE"

definition arm_drv_isCalibrated :: "i2c_bus \<Rightarrow> 'a i2c_scheme \<Rightarrow> bool \<times> 'a i2c_scheme" where
  "arm_drv_isCalibrated bus s =
     (let (val, s) = arm_drv_recvOneByte bus A_IS_CALIBRATED s in (if val = 1 then True else False, s))"

definition arm_drv_getMode :: "i2c_bus \<Rightarrow> 'a i2c_scheme \<Rightarrow> u8 \<times> 'a i2c_scheme" where
  "arm_drv_getMode bus = arm_drv_recvOneByte bus A_GET_MODE"

definition arm_drv_getDirection :: "i2c_bus \<Rightarrow> u8 \<Rightarrow> 'a i2c_scheme \<Rightarrow> u8 \<times> 'a i2c_scheme" where
  "arm_drv_getDirection bus motor = arm_drv_get bus motor A_GET_DIRECTION"

definition arm_drv_setDirection :: "i2c_bus \<Rightarrow> u8 \<Rightarrow> u8 \<Rightarrow> 'a i2c_scheme \<Rightarrow> 'a i2c_scheme" where
  "arm_drv_setDirection bus motor direction = arm_drv_set bus motor direction A_SET_DIRECTION"

definition arm_drv_getSpeed :: "i2c_bus \<Rightarrow> u8 \<Rightarrow> 'a i2c_scheme \<Rightarrow> u8 \<times> 'a i2c_scheme" where
  "arm_drv_getSpeed bus motor = arm_drv_get bus motor A_GET_SPEED"

definition arm_drv_setSpeed :: "i2c_bus \<Rightarrow> u8 \<Rightarrow> u8 \<Rightarrow> 'a i2c_scheme \<Rightarrow> 'a i2c_scheme" where
  "arm_drv_setSpeed bus motor speed = arm_drv_set bus motor speed A_SET_SPEED"

definition arm_drv_getPosition :: "i2c_bus \<Rightarrow> u8 \<Rightarrow> 'a i2c_scheme \<Rightarrow> u8 \<times> 'a i2c_scheme" where
  "arm_drv_getPosition bus motor = arm_drv_get bus motor A_GET_POSITION"

definition arm_drv_setPosition :: "i2c_bus \<Rightarrow> u8 \<Rightarrow> u8 \<Rightarrow> 'a i2c_scheme \<Rightarrow> 'a i2c_scheme" where
  "arm_drv_setPosition bus motor position = arm_drv_set bus motor position A_SET_POSITION"

section \<open>What the operations leave alone\<close>

text \<open>\<open>s'\<close> differs from \<open>s\<close> in the fields of the I2C unit only.\<close>

definition i2c_upd :: "'a i2c_scheme \<Rightarrow> 'a i2c_scheme \<Rightarrow> bool" where
  "i2c_upd s s' \<longleftrightarrow> s' = s\<lparr>TWCR := TWCR s', TWDR := TWDR s', TCNT0 := TCNT0 s',
     TCCR0B := TCCR0B s', timerNotClear := timerNotClear s', i2c_status := i2c_status s',
     i2c_log := i2c_log s'\<rparr>"

lemma i2c_upd_refl: "i2c_upd s s"
  by (cases s) (simp add: i2c_upd_def)

lemma i2c_upd_trans: "i2c_upd s t \<Longrightarrow> i2c_upd t u \<Longrightarrow> i2c_upd s u"
  by (cases s, cases t, cases u) (simp add: i2c_upd_def)

lemma i2c_upd_wait: "i2c_upd s t \<Longrightarrow> i2c_upd s (waitForOperationComplete bus op t)"
  by (cases s, cases t)
    (simp add: i2c_upd_def waitForOperationComplete_def TIMER0_OVF_vect_def Let_def split: option.splits)

lemma i2c_upd_prim:
  "i2c_upd s t \<Longrightarrow> i2c_upd s (i2c_start bus t)"
  "i2c_upd s t \<Longrightarrow> i2c_upd s (i2c_write bus b t)"
  "i2c_upd s t \<Longrightarrow> i2c_upd s (i2c_stop t)"
  "i2c_upd s t \<Longrightarrow> i2c_upd s (snd (i2c_read bus ack t))"
  unfolding i2c_start_def i2c_write_def i2c_stop_def i2c_read_def Let_def write_TWCR_def setUpTimer_def
  by (auto intro!: i2c_upd_wait) (cases s; cases t; simp add: i2c_upd_def)+

lemma i2c_upd_expander [intro]:
  "i2c_upd s (expander_setValue bus b s)" "i2c_upd s (snd (expander_getValue bus s))"
  unfolding expander_setValue_def expander_getValue_def Let_def case_prod_beta
  by (simp_all add: i2c_upd_prim i2c_upd_refl)

lemma i2c_upd_motor [intro]:
  "i2c_upd s (motor_drv_set bus c m v s)" "i2c_upd s (snd (motor_drv_get bus c m s))"
  "i2c_upd s (motor_drv_brake bus s)"
  unfolding motor_drv_set_def motor_drv_get_def motor_drv_brake_def Let_def case_prod_beta
  by (simp_all add: i2c_upd_prim i2c_upd_refl)

lemma i2c_upd_arm [intro]:
  "i2c_upd s (arm_drv_set bus m v c s)" "i2c_upd s (snd (arm_drv_get bus m c s))"
  "i2c_upd s (arm_drv_sendOneByte bus c s)" "i2c_upd s (snd (arm_drv_recvOneByte bus c s))"
  unfolding arm_drv_set_def arm_drv_get_def arm_drv_sendOneByte_def arm_drv_recvOneByte_def
    Let_def case_prod_beta
  by (simp_all add: i2c_upd_prim i2c_upd_refl)

text \<open>In particular the kill switch.\<close>

lemma i2c_upd_ks:
  assumes "i2c_upd s t"
  shows "DDRD t = DDRD s" "PORTD t = PORTD s" "causedByHardware t = causedByHardware s"
    "causedBySoftware t = causedBySoftware s"
  using arg_cong [OF assms [unfolded i2c_upd_def], of DDRD]
    arg_cong [OF assms [unfolded i2c_upd_def], of PORTD]
    arg_cong [OF assms [unfolded i2c_upd_def], of causedByHardware]
    arg_cong [OF assms [unfolded i2c_upd_def], of causedBySoftware] by simp_all

section \<open>What appears on the bus\<close>

lemma log_wait: "i2c_log (waitForOperationComplete bus op s) = i2c_log s @ [op]"
  by (simp add: waitForOperationComplete_def TIMER0_OVF_vect_def Let_def split: option.splits)

lemma log_prim [simp]:
  "i2c_log (i2c_start bus s) = i2c_log s @ [I2C_START]"
  "i2c_log (i2c_write bus b s) = i2c_log s @ [I2C_WRITE b]"
  "i2c_log (i2c_stop s) = i2c_log s @ [I2C_STOP]"
  "i2c_log (snd (i2c_read bus ack s)) = i2c_log s @ [I2C_READ ack]"
  by (simp_all add: i2c_start_def i2c_write_def i2c_stop_def i2c_read_def log_wait write_TWCR_def
      setUpTimer_def Let_def)

lemma TWDR_prim:
  "TWDR (i2c_start bus s) = TWDR s"
  "TWDR (i2c_write bus b s) = b"
  "fst (i2c_read bus ack s) = (case bus (i2c_log s @ [I2C_READ ack]) of None \<Rightarrow> TWDR s | Some d \<Rightarrow> d)"
  by (simp_all add: i2c_start_def i2c_write_def i2c_read_def waitForOperationComplete_def
      write_TWCR_def setUpTimer_def TIMER0_OVF_vect_def Let_def split: option.splits)

lemma status_prim:
  "i2c_status (i2c_start bus s) = (if bus (i2c_log s @ [I2C_START]) = None then I2C_TIMEOUT else I2C_OK)"
  "i2c_status (i2c_write bus b s) = (if bus (i2c_log s @ [I2C_WRITE b]) = None then I2C_TIMEOUT else I2C_OK)"
  "i2c_status (snd (i2c_read bus ack s)) =
    (if bus (i2c_log s @ [I2C_READ ack]) = None then I2C_TIMEOUT else I2C_OK)"
  "i2c_status (i2c_stop s) = i2c_status s"
  by (simp_all add: i2c_start_def i2c_write_def i2c_read_def i2c_stop_def waitForOperationComplete_def
      write_TWCR_def setUpTimer_def TIMER0_OVF_vect_def Let_def port_simps split: option.splits)

text \<open>Write and read transactions, as a device sees them.\<close>

definition bus_write :: "u8 \<Rightarrow> u8 list \<Rightarrow> i2c_op list" where
  "bus_write a bs = I2C_START # I2C_WRITE (addressToWrite a) # map I2C_WRITE bs @ [I2C_STOP]"

definition bus_read :: "u8 \<Rightarrow> u8 list \<Rightarrow> i2c_op list" where
  "bus_read a bs = I2C_START # I2C_WRITE (addressToWrite a) # map I2C_WRITE bs @
     [I2C_START, I2C_WRITE (addressToRead a), I2C_READ False, I2C_STOP]"

text \<open>The value a read transaction returns: what the bus delivers, or the byte left in \<open>TWDR\<close>.\<close>

definition bus_value :: "i2c_bus \<Rightarrow> i2c_op list \<Rightarrow> u8 \<Rightarrow> u8 list \<Rightarrow> u8" where
  "bus_value bus lg a bs =
     (case bus (lg @ butlast (bus_read a bs)) of None \<Rightarrow> addressToRead a | Some d \<Rightarrow> d)"

lemmas transaction_defs = expander_setValue_def expander_getValue_def motor_drv_set_def
  motor_drv_get_def motor_drv_brake_def arm_drv_set_def arm_drv_get_def arm_drv_sendOneByte_def
  arm_drv_recvOneByte_def

lemma transactions_log [simp]:
  "i2c_log (expander_setValue bus d s) = i2c_log s @ bus_write EXPANDER_ADDRESS [WRITE_AND_TRANSFER_DATA, d]"
  "i2c_log (snd (expander_getValue bus s)) = i2c_log s @ bus_read EXPANDER_ADDRESS [READ_DATA]"
  "i2c_log (motor_drv_set bus c m v s) =
     i2c_log s @ bus_write MOTOR_DRIVER_ADDRESS [motor_command_code c, m, v]"
  "i2c_log (snd (motor_drv_get bus c m s)) =
     i2c_log s @ bus_read MOTOR_DRIVER_ADDRESS [motor_command_code c, m]"
  "i2c_log (motor_drv_brake bus s) = i2c_log s @ bus_write MOTOR_DRIVER_ADDRESS [motor_command_code M_BRAKE]"
  "i2c_log (arm_drv_set bus m v a s) = i2c_log s @ bus_write ARM_DRIVER_ADDRESS [arm_command_code a, m, v]"
  "i2c_log (snd (arm_drv_get bus m a s)) = i2c_log s @ bus_read ARM_DRIVER_ADDRESS [arm_command_code a, m]"
  "i2c_log (arm_drv_sendOneByte bus a s) = i2c_log s @ bus_write ARM_DRIVER_ADDRESS [arm_command_code a]"
  "i2c_log (snd (arm_drv_recvOneByte bus a s)) = i2c_log s @ bus_read ARM_DRIVER_ADDRESS [arm_command_code a]"
  by (simp_all add: transaction_defs bus_write_def bus_read_def Let_def case_prod_beta)

lemma transactions_value:
  "fst (expander_getValue bus s) = bus_value bus (i2c_log s) EXPANDER_ADDRESS [READ_DATA]"
  "fst (motor_drv_get bus c m s) =
     bus_value bus (i2c_log s) MOTOR_DRIVER_ADDRESS [motor_command_code c, m]"
  "fst (arm_drv_get bus m a s) = bus_value bus (i2c_log s) ARM_DRIVER_ADDRESS [arm_command_code a, m]"
  "fst (arm_drv_recvOneByte bus a s) = bus_value bus (i2c_log s) ARM_DRIVER_ADDRESS [arm_command_code a]"
  by (simp_all add: transaction_defs bus_value_def bus_read_def Let_def case_prod_beta TWDR_prim butlast_append
      split: option.split)

section \<open>Properties\<close>

text \<open>The bytes on the wire. Whatever the bus answers and however many operations time out, every
  call of the motor and arm driver modules and of the expander module puts exactly one transaction
  on the bus: start, the device's write address, command, motor and value in the order of the
  protocol headers, and stop.\<close>

theorem driver_calls_on_the_bus:
  "i2c_log (motor_drv_setSpeed bus m v s) = i2c_log s @
     [I2C_START, I2C_WRITE 0x24, I2C_WRITE 2, I2C_WRITE m, I2C_WRITE v, I2C_STOP] \<and>
   i2c_log (motor_drv_setDirection bus m v s) = i2c_log s @
     [I2C_START, I2C_WRITE 0x24, I2C_WRITE 4, I2C_WRITE m, I2C_WRITE v, I2C_STOP] \<and>
   i2c_log (arm_drv_setSpeed bus m v s) = i2c_log s @
     [I2C_START, I2C_WRITE 0x60, I2C_WRITE 2, I2C_WRITE m, I2C_WRITE v, I2C_STOP] \<and>
   i2c_log (arm_drv_setDirection bus m v s) = i2c_log s @
     [I2C_START, I2C_WRITE 0x60, I2C_WRITE 3, I2C_WRITE m, I2C_WRITE v, I2C_STOP] \<and>
   i2c_log (arm_drv_setPosition bus m v s) = i2c_log s @
     [I2C_START, I2C_WRITE 0x60, I2C_WRITE 5, I2C_WRITE m, I2C_WRITE v, I2C_STOP] \<and>
   i2c_log (arm_drv_calibrate bus s) = i2c_log s @
     [I2C_START, I2C_WRITE 0x60, I2C_WRITE 8, I2C_STOP] \<and>
   i2c_log (expander_setValue bus v s) = i2c_log s @
     [I2C_START, I2C_WRITE 0xC8, I2C_WRITE 0x44, I2C_WRITE v, I2C_STOP] \<and>
   i2c_log (snd (arm_drv_getPosition bus m s)) = i2c_log s @
     [I2C_START, I2C_WRITE 0x60, I2C_WRITE 6, I2C_WRITE m, I2C_START, I2C_WRITE 0x61, I2C_READ False,
      I2C_STOP]"
  by (simp add: motor_drv_setSpeed_def motor_drv_setDirection_def arm_drv_setSpeed_def
      arm_drv_setDirection_def arm_drv_setPosition_def arm_drv_calibrate_def arm_drv_getPosition_def
      bus_write_def bus_read_def addressToWrite_def addressToRead_def MOTOR_DRIVER_ADDRESS_def
      ARM_DRIVER_ADDRESS_def EXPANDER_ADDRESS_def WRITE_AND_TRANSFER_DATA_def)

text \<open>A bus that does not answer. Every call still returns, with the status \<open>TIMEOUT\<close>, and a
  getter then returns the device's own read address, the byte left in the data register: 0x25 for
  the speed of a motor, 0x61 for every value of the arm driver (which therefore does not count as
  calibrated), 0xC9 for the expander. Neither the kill switch line nor its recorded cause changes.\<close>

theorem silent_bus:
  fixes s :: "'a i2c_scheme"
  defines "dead \<equiv> (\<lambda>_. None) :: i2c_bus"
  shows "fst (motor_drv_getSpeed dead m s) = 0x25 \<and> fst (arm_drv_getPosition dead m s) = 0x61 \<and>
    fst (arm_drv_getMode dead s) = 0x61 \<and> \<not> fst (arm_drv_isCalibrated dead s) \<and>
    fst (expander_getValue dead s) = 0xC9 \<and>
    i2c_getLastCommandStatus (snd (motor_drv_getSpeed dead m s)) = I2C_TIMEOUT \<and>
    i2c_getLastCommandStatus (motor_drv_setSpeed dead m v s) = I2C_TIMEOUT \<and>
    ks_isActive hw (motor_drv_setSpeed dead m v s) = ks_isActive hw s \<and>
    causedByHardware (motor_drv_setSpeed dead m v s) = causedByHardware s"
proof -
  have u: "i2c_upd s (motor_drv_setSpeed dead m v s)"
    by (simp add: motor_drv_setSpeed_def i2c_upd_motor)
  have "ks_isActive hw (motor_drv_setSpeed dead m v s) = ks_isActive hw s"
    by (simp add: ks_isActive_def ks_line_low_def i2c_upd_ks [OF u])
  moreover have "i2c_status (snd (motor_drv_getSpeed dead m s)) = I2C_TIMEOUT"
    "i2c_status (motor_drv_setSpeed dead m v s) = I2C_TIMEOUT"
    by (simp_all add: motor_drv_getSpeed_def motor_drv_setSpeed_def motor_drv_get_def
        motor_drv_set_def Let_def case_prod_beta status_prim dead_def)
  ultimately show ?thesis
    by (simp add: motor_drv_getSpeed_def arm_drv_getPosition_def arm_drv_getMode_def
        arm_drv_isCalibrated_def case_prod_beta transactions_value bus_value_def dead_def
        i2c_getLastCommandStatus_def addressToRead_def MOTOR_DRIVER_ADDRESS_def
        ARM_DRIVER_ADDRESS_def EXPANDER_ADDRESS_def i2c_upd_ks(3) [OF u, unfolded dead_def])
qed

end
