(* ===== verification/Bridge_Lcd.thy ===== *)
theory Bridge_Lcd
  imports Bridge_I2c
begin

text \<open>
  The driver of the 16x2 character display (\<open>lcd.cpp\<close>, an HD44780 in 4-bit mode) on the port
  registers: D4 to D7 on PB3, PB2, PB6, PB5, E on PB1, RS on PF6, RW on PF7. The panel latches or
  delivers a nibble at each falling edge of E; \<open>lcd_log\<close> records these edges.

  The panel is known by its busy flag only: the parameter \<open>busy\<close> says how many times it answers
  "busy" after its n-th instruction (\<open>lcd_count\<close> counts them). A panel that stays busy for ever,
  on which the code hangs, is not covered.
\<close>

section \<open>State\<close>

text \<open>A falling edge of E: RS, RW, whether all four data pins are driven by the port, and the nibble
  on them.\<close>

datatype lcd_edge = Edge (edge_rs: bool) (edge_rw: bool) (edge_driven: bool) (edge_nibble: u8)

record lcd = i2c +
  lcd_position :: u8
  lcd_log :: "lcd_edge list"
  lcd_count :: nat

datatype lcd_type = DATA | COMMAND
datatype lcd_dir = LCD_IN | LCD_OUT

abbreviation (input) LCD_D4 :: nat where "LCD_D4 \<equiv> 3"
abbreviation (input) LCD_D5 :: nat where "LCD_D5 \<equiv> 2"
abbreviation (input) LCD_D6 :: nat where "LCD_D6 \<equiv> 6"
abbreviation (input) LCD_D7 :: nat where "LCD_D7 \<equiv> 5"
abbreviation (input) LCD_E :: nat where "LCD_E \<equiv> 1"
abbreviation (input) LCD_RS :: nat where "LCD_RS \<equiv> 6"
abbreviation (input) LCD_RW :: nat where "LCD_RW \<equiv> 7"

abbreviation (input) LCDC_CLS :: u8 where "LCDC_CLS \<equiv> 0x01"
abbreviation (input) LCDC_MODE :: u8 where "LCDC_MODE \<equiv> 0x04"
abbreviation (input) LCDC_MODER :: u8 where "LCDC_MODER \<equiv> 0x02"
abbreviation (input) LCDC_ON :: u8 where "LCDC_ON \<equiv> 0x08"
abbreviation (input) LCDC_ONDISPLAY :: u8 where "LCDC_ONDISPLAY \<equiv> 0x04"
abbreviation (input) LCDC_FUNC :: u8 where "LCDC_FUNC \<equiv> 0x20"
abbreviation (input) LCDC_FUNC4b :: u8 where "LCDC_FUNC4b \<equiv> 0"
abbreviation (input) LCDC_FUNC2L :: u8 where "LCDC_FUNC2L \<equiv> 0x08"
abbreviation (input) LCDC_FUNC5x7 :: u8 where "LCDC_FUNC5x7 \<equiv> 0"
abbreviation (input) LCDC_LINE1 :: u8 where "LCDC_LINE1 \<equiv> 0x80"
abbreviation (input) LCDC_LINE2 :: u8 where "LCDC_LINE2 \<equiv> 0xC0"

definition LCD_COLUMNS :: u8 where "LCD_COLUMNS = 16"
definition LCD_ROWS :: u8 where "LCD_ROWS = 2"

section \<open>Pins\<close>

definition lcd_setDirection :: "lcd_dir \<Rightarrow> 'a io_scheme \<Rightarrow> 'a io_scheme" where
  "lcd_setDirection direction s =
     (if direction = LCD_OUT
      then (let s = s\<lparr>DDRB := sbi LCD_D4 (DDRB s)\<rparr>; s = s\<lparr>DDRB := sbi LCD_D5 (DDRB s)\<rparr>;
                s = s\<lparr>DDRB := sbi LCD_D6 (DDRB s)\<rparr> in s\<lparr>DDRB := sbi LCD_D7 (DDRB s)\<rparr>)
      else (let s = s\<lparr>DDRB := cbi LCD_D4 (DDRB s)\<rparr>; s = s\<lparr>DDRB := cbi LCD_D5 (DDRB s)\<rparr>;
                s = s\<lparr>DDRB := cbi LCD_D6 (DDRB s)\<rparr>; s = s\<lparr>DDRB := cbi LCD_D7 (DDRB s)\<rparr>;
                s = s\<lparr>PORTB := cbi LCD_D4 (PORTB s)\<rparr>; s = s\<lparr>PORTB := cbi LCD_D5 (PORTB s)\<rparr>;
                s = s\<lparr>PORTB := cbi LCD_D6 (PORTB s)\<rparr> in s\<lparr>PORTB := cbi LCD_D7 (PORTB s)\<rparr>))"

definition lcd_updateBus :: "u8 \<Rightarrow> 'a io_scheme \<Rightarrow> 'a io_scheme" where
  "lcd_updateBus data s =
     (let s = s\<lparr>PORTB := cbi LCD_D4 (PORTB s)\<rparr>; s = s\<lparr>PORTB := cbi LCD_D5 (PORTB s)\<rparr>;
          s = s\<lparr>PORTB := cbi LCD_D6 (PORTB s)\<rparr>; s = s\<lparr>PORTB := cbi LCD_D7 (PORTB s)\<rparr>;
          s = (if data AND 0x80 \<noteq> 0 then s\<lparr>PORTB := sbi LCD_D7 (PORTB s)\<rparr> else s);
          s = (if data AND 0x40 \<noteq> 0 then s\<lparr>PORTB := sbi LCD_D6 (PORTB s)\<rparr> else s);
          s = (if data AND 0x20 \<noteq> 0 then s\<lparr>PORTB := sbi LCD_D5 (PORTB s)\<rparr> else s)
      in if data AND 0x10 \<noteq> 0 then s\<lparr>PORTB := sbi LCD_D4 (PORTB s)\<rparr> else s)"

definition lcd_readBus :: "u8 \<Rightarrow> u8" where
  "lcd_readBus pinb =
     (let output = 0;
          output = (if bit_is_set pinb LCD_D7 then output OR 0x80 else output);
          output = (if bit_is_set pinb LCD_D6 then output OR 0x40 else output);
          output = (if bit_is_set pinb LCD_D5 then output OR 0x20 else output)
      in if bit_is_set pinb LCD_D4 then output OR 0x10 else output)"

definition lcd_driven :: "'a io_scheme \<Rightarrow> bool" where
  "lcd_driven s \<longleftrightarrow> bit (DDRB s) LCD_D4 \<and> bit (DDRB s) LCD_D5 \<and> bit (DDRB s) LCD_D6 \<and> bit (DDRB s) LCD_D7"

definition lcd_E_high :: "'a io_scheme \<Rightarrow> 'a io_scheme" where
  "lcd_E_high s = s\<lparr>PORTB := sbi LCD_E (PORTB s)\<rparr>"

definition lcd_E_low :: "'a lcd_scheme \<Rightarrow> 'a lcd_scheme" where
  "lcd_E_low s =
     (let s = s\<lparr>PORTB := cbi LCD_E (PORTB s)\<rparr>
      in s\<lparr>lcd_log := lcd_log s @ [Edge (bit (PORTF s) LCD_RS) (bit (PORTF s) LCD_RW) (lcd_driven s)
                                  (lcd_readBus (PORTB s))]\<rparr>)"

text \<open>\<open>receive\<close> with the two states of the pins it samples.\<close>

definition lcd_receive :: "u8 \<times> u8 \<Rightarrow> 'a lcd_scheme \<Rightarrow> u8 \<times> 'a lcd_scheme" where
  "lcd_receive pins s =
     (let output = 0;
          s = lcd_setDirection LCD_IN s;
          s = s\<lparr>PORTF := sbi LCD_RW (PORTF s)\<rparr>;
          s = lcd_E_high s;
          output = output OR lcd_readBus (fst pins);
          s = lcd_E_low s;
          s = lcd_E_high s;
          output = output OR drop_bit 4 (lcd_readBus (snd pins));
          s = lcd_E_low s
      in (output, s))"

definition lcd_receiveStatus :: "u8 \<times> u8 \<Rightarrow> 'a lcd_scheme \<Rightarrow> u8 \<times> 'a lcd_scheme" where
  "lcd_receiveStatus pins s = lcd_receive pins (s\<lparr>PORTF := cbi LCD_RS (PORTF s)\<rparr>)"

text \<open>
  The loop at the end of \<open>send\<close>: the flag is read until it is clear. With \<open>k\<close> busy answers to come
  the panel puts the flag on D7; the loop tests the byte it has read.
\<close>

definition lcd_status_pins :: "nat \<Rightarrow> u8 \<times> u8" where
  "lcd_status_pins k = (if k = 0 then (0, 0) else (push_bit LCD_D7 1, 0))"

fun lcd_busy_loop :: "nat \<Rightarrow> 'a lcd_scheme \<Rightarrow> 'a lcd_scheme" where
  "lcd_busy_loop 0 s = snd (lcd_receiveStatus (lcd_status_pins 0) s)"
| "lcd_busy_loop (Suc k) s =
     (let (status, s) = lcd_receiveStatus (lcd_status_pins (Suc k)) s
      in if status AND 0x80 \<noteq> 0 then lcd_busy_loop k s else s)"

definition lcd_send :: "(nat \<Rightarrow> nat) \<Rightarrow> u8 \<Rightarrow> lcd_type \<Rightarrow> 'a lcd_scheme \<Rightarrow> 'a lcd_scheme" where
  "lcd_send busy data type s =
     (let s = lcd_setDirection LCD_OUT s;
          s = (if type = COMMAND then s\<lparr>PORTF := cbi LCD_RS (PORTF s)\<rparr>
               else s\<lparr>PORTF := sbi LCD_RS (PORTF s)\<rparr>);
          s = s\<lparr>PORTF := cbi LCD_RW (PORTF s)\<rparr>;
          s = lcd_E_high s;
          s = lcd_updateBus data s;
          s = lcd_E_low s;
          s = lcd_E_high s;
          s = lcd_updateBus (push_bit 4 data) s;
          s = lcd_E_low s;
          s = s\<lparr>lcd_count := lcd_count s + 1\<rparr>
      in lcd_busy_loop (busy (lcd_count s)) s)"

definition lcd_pulseE :: "'a lcd_scheme \<Rightarrow> 'a lcd_scheme" where
  "lcd_pulseE s = lcd_E_low (lcd_E_high s)"

section \<open>Operations\<close>

definition lcd_gotoxy :: "(nat \<Rightarrow> nat) \<Rightarrow> u8 \<Rightarrow> u8 \<Rightarrow> 'a lcd_scheme \<Rightarrow> 'a lcd_scheme" where
  "lcd_gotoxy busy x y s =
     (let s = (if y = 0 then lcd_send busy (LCDC_LINE1 OR x) COMMAND s
               else lcd_send busy (LCDC_LINE2 OR x) COMMAND s)
      in s\<lparr>lcd_position := x\<rparr>)"

definition lcd_clrscr :: "(nat \<Rightarrow> nat) \<Rightarrow> 'a lcd_scheme \<Rightarrow> 'a lcd_scheme" where
  "lcd_clrscr busy s = lcd_send busy LCDC_CLS COMMAND (lcd_gotoxy busy 0 0 s)"

definition lcd_init :: "(nat \<Rightarrow> nat) \<Rightarrow> 'a lcd_scheme \<Rightarrow> 'a lcd_scheme" where
  "lcd_init busy s =
     (let s = s\<lparr>DDRB := sbi LCD_E (DDRB s)\<rparr>;
          s = s\<lparr>DDRF := sbi LCD_RS (DDRF s)\<rparr>;
          s = s\<lparr>DDRF := sbi LCD_RW (DDRF s)\<rparr>;
          s = lcd_setDirection LCD_OUT s;
          s = s\<lparr>PORTF := sbi LCD_RS (PORTF s)\<rparr>;
          s = s\<lparr>PORTB := sbi LCD_E (PORTB s)\<rparr>;
          s = s\<lparr>PORTF := cbi LCD_RS (PORTF s)\<rparr>;
          s = lcd_E_low s;
          s = s\<lparr>PORTF := cbi LCD_RW (PORTF s)\<rparr>;
          s = s\<lparr>PORTB := sbi LCD_D4 (PORTB s)\<rparr>;
          s = s\<lparr>PORTB := sbi LCD_D5 (PORTB s)\<rparr>;
          s = s\<lparr>PORTB := cbi LCD_D6 (PORTB s)\<rparr>;
          s = s\<lparr>PORTB := cbi LCD_D7 (PORTB s)\<rparr>;
          s = lcd_pulseE s;
          s = lcd_pulseE s;
          s = lcd_pulseE s;
          s = s\<lparr>PORTB := cbi LCD_D4 (PORTB s)\<rparr>;
          s = lcd_pulseE s;
          s = lcd_send busy (LCDC_FUNC OR LCDC_FUNC4b OR LCDC_FUNC2L OR LCDC_FUNC5x7) COMMAND s;
          s = lcd_send busy (LCDC_ON OR 0) COMMAND s;
          s = lcd_clrscr busy s;
          s = lcd_send busy (LCDC_MODE OR LCDC_MODER) COMMAND s
      in lcd_send busy (LCDC_ON OR LCDC_ONDISPLAY) COMMAND s)"

definition lcd_putc :: "(nat \<Rightarrow> nat) \<Rightarrow> u8 \<Rightarrow> 'a lcd_scheme \<Rightarrow> 'a lcd_scheme" where
  "lcd_putc busy character s =
     (if character = 10
      then (lcd_send busy (LCDC_LINE2 OR 64) COMMAND s)\<lparr>lcd_position := 0\<rparr>
      else (let s = (if lcd_position s = LCD_COLUMNS
                     then (lcd_send busy (LCDC_LINE2 OR 64) COMMAND s)\<lparr>lcd_position := 0\<rparr> else s);
                s = lcd_send busy character DATA s
            in s\<lparr>lcd_position := lcd_position s + 1\<rparr>))"

text \<open>
  \<open>puts (str, length)\<close>: \<open>str\<close> are the bytes of the array from the given address on; \<open>None\<close> when the
  loop reads behind its end.
\<close>

fun lcd_puts :: "(nat \<Rightarrow> nat) \<Rightarrow> u8 list \<Rightarrow> nat \<Rightarrow> 'a lcd_scheme \<Rightarrow> 'a lcd_scheme option" where
  "lcd_puts busy str 0 s = Some s"
| "lcd_puts busy [] (Suc n) s = None"
| "lcd_puts busy (c # str) (Suc n) s =
     (if c = 0 then Some s else lcd_puts busy str n (lcd_putc busy c s))"

definition lcd_puts_xy :: "(nat \<Rightarrow> nat) \<Rightarrow> u8 \<Rightarrow> u8 \<Rightarrow> u8 list \<Rightarrow> 'a lcd_scheme \<Rightarrow> 'a lcd_scheme option" where
  "lcd_puts_xy busy x y str s =
     lcd_puts busy str (unat (LCD_COLUMNS * LCD_ROWS + 1)) (lcd_gotoxy busy x y s)"

text \<open>A string in program memory, without its terminating zero.\<close>

fun lcd_putsp :: "(nat \<Rightarrow> nat) \<Rightarrow> u8 list \<Rightarrow> 'a lcd_scheme \<Rightarrow> 'a lcd_scheme" where
  "lcd_putsp busy [] s = s"
| "lcd_putsp busy (c # str) s = (if c = 0 then s else lcd_putsp busy str (lcd_putc busy c s))"

definition lcd_putsp_xy :: "(nat \<Rightarrow> nat) \<Rightarrow> u8 \<Rightarrow> u8 \<Rightarrow> u8 list \<Rightarrow> 'a lcd_scheme \<Rightarrow> 'a lcd_scheme" where
  "lcd_putsp_xy busy x y str s = lcd_putsp busy str (lcd_gotoxy busy x y s)"

text \<open>\<open>puts (str)\<close> on a zero-terminated string, with its default bound of 33 characters.\<close>

definition lcd_puts_str :: "(nat \<Rightarrow> nat) \<Rightarrow> u8 list \<Rightarrow> 'a lcd_scheme \<Rightarrow> 'a lcd_scheme" where
  "lcd_puts_str busy str s =
     lcd_putsp busy (take (unat (LCD_COLUMNS * LCD_ROWS + 1)) str) s"

text \<open>\<open>putNumber\<close>: the do-while loop that fills the buffer from its end, then the output loop.\<close>

function lcd_number_loop :: "int \<Rightarrow> u8 list \<Rightarrow> nat \<Rightarrow> u8 list \<times> nat" where
  "lcd_number_loop number buff counter =
     (let digit = of_int (number - 10 * tdiv number 10) :: u8;
          buff = buff[counter := 48 + digit];
          counter = counter - 1;
          number' = tdiv number 10
      in if number' > 0 then lcd_number_loop number' buff counter else (buff, counter))"
  by auto
termination
proof (relation "measure (\<lambda>(n, _, _). nat n)", goal_cases)
  case (2 number buff counter digit buff' counter' number')
  then have "0 < tdiv number 10" by simp
  then have "0 < number" by (auto simp: tdiv_def sgn_if split: if_splits)
  with 2 show ?case by (simp add: tdiv_nonneg)
qed simp

declare lcd_number_loop.simps [simp del]

definition lcd_putNumber :: "(nat \<Rightarrow> nat) \<Rightarrow> int \<Rightarrow> 'a lcd_scheme \<Rightarrow> 'a lcd_scheme" where
  "lcd_putNumber busy number s =
     (let buff = replicate 6 0;
          (s, number) = (if number < 0 then (lcd_putc busy 45 s, wrap16 (- 1 * number)) else (s, number));
          (buff, counter) = lcd_number_loop number buff 5
      in fold (lcd_putc busy) (drop (counter + 1) buff) s)"

definition lcd_putNumber_xy :: "(nat \<Rightarrow> nat) \<Rightarrow> u8 \<Rightarrow> u8 \<Rightarrow> int \<Rightarrow> 'a lcd_scheme \<Rightarrow> 'a lcd_scheme" where
  "lcd_putNumber_xy busy x y number s = lcd_putNumber busy number (lcd_gotoxy busy x y s)"

section \<open>Pins and nibbles\<close>

lemma and_bit_test [port_simps]:
  "(w::u8) AND 0x80 \<noteq> 0 \<longleftrightarrow> bit w 7" "w AND 0x40 \<noteq> 0 \<longleftrightarrow> bit w 6"
  "w AND 0x20 \<noteq> 0 \<longleftrightarrow> bit w 5" "w AND 0x10 \<noteq> 0 \<longleftrightarrow> bit w 4"
  using and_exp_eq_0_iff_not_bit [of w 7] and_exp_eq_0_iff_not_bit [of w 6]
    and_exp_eq_0_iff_not_bit [of w 5] and_exp_eq_0_iff_not_bit [of w 4] by simp_all

lemma bit_readBus [port_simps]:
  "bit (lcd_readBus p) k \<longleftrightarrow> k = 7 \<and> bit p 5 \<or> k = 6 \<and> bit p 6 \<or> k = 5 \<and> bit p 2 \<or> k = 4 \<and> bit p 3"
proof (cases "k < 8")
  case True
  then consider "k = 0" | "k = 1" | "k = 2" | "k = 3" | "k = 4" | "k = 5" | "k = 6" | "k = 7"
    by fastforce
  then show ?thesis by cases (simp_all add: lcd_readBus_def Let_def bit_or_iff port_simps)
next
  case False
  then show ?thesis using bit_imp_le_length [of "lcd_readBus p" k] by auto
qed

lemma bit_updateBus [port_simps]:
  "bit (PORTB (lcd_updateBus d s)) k \<longleftrightarrow>
    (if k = 5 then bit d 7 else if k = 6 then bit d 6 else if k = 2 then bit d 5
     else if k = 3 then bit d 4 else bit (PORTB s) k)"
  by (simp add: lcd_updateBus_def Let_def port_simps)

lemma lcd_updateBus_fields [simp]:
  "DDRB (lcd_updateBus d s) = DDRB s" "PORTF (lcd_updateBus d s) = PORTF s"
  "io.more (lcd_updateBus d s) = io.more s"
  by (simp_all add: lcd_updateBus_def Let_def)

lemma readBus_updateBus:
  "lcd_readBus (cbi LCD_E (PORTB (lcd_updateBus d s))) = d AND 0xF0"
proof (rule bit_word_eqI)
  fix n
  assume "n < LENGTH(8)"
  then consider "n = 0" | "n = 1" | "n = 2" | "n = 3" | "n = 4" | "n = 5" | "n = 6" | "n = 7"
    by fastforce
  then show "bit (lcd_readBus (cbi LCD_E (PORTB (lcd_updateBus d s)))) n = bit (d AND 0xF0) n"
    by cases (simp_all add: port_simps bit_simps)
qed

section \<open>The edges of one instruction\<close>

text \<open>Everything but ports B and F, the log and the counters stays.\<close>

lemma log_E_low [simp]:
  "lcd_log (lcd_E_low s) = lcd_log s @ [Edge (bit (PORTF s) 6) (bit (PORTF s) 7) (lcd_driven s)
     (lcd_readBus (cbi LCD_E (PORTB s)))]"
  "PORTB (lcd_E_low s) = cbi LCD_E (PORTB s)" "PORTF (lcd_E_low s) = PORTF s"
  "DDRB (lcd_E_low s) = DDRB s" "lcd_count (lcd_E_low s) = lcd_count s"
  "lcd_position (lcd_E_low s) = lcd_position s"
  by (simp_all add: lcd_E_low_def Let_def lcd_driven_def)

lemma lcd_setDirection_fields [simp]:
  "PORTF (lcd_setDirection d s) = PORTF s" "lcd_driven (lcd_setDirection d s) = (d = LCD_OUT)"
  "io.more (lcd_setDirection d s) = io.more s"
  by (cases d; simp add: lcd_setDirection_def Let_def lcd_driven_def port_simps)+

lemma lcd_fields_ports [simp]:
  "lcd_log (lcd_setDirection d t) = lcd_log t" "lcd_count (lcd_setDirection d t) = lcd_count t"
  "lcd_position (lcd_setDirection d t) = lcd_position t"
  "lcd_log (lcd_E_high t) = lcd_log t" "lcd_count (lcd_E_high t) = lcd_count t"
  "lcd_position (lcd_E_high t) = lcd_position t"
  "lcd_log (lcd_updateBus b t) = lcd_log t" "lcd_count (lcd_updateBus b t) = lcd_count t"
  "lcd_position (lcd_updateBus b t) = lcd_position t"
  by (simp_all add: lcd_setDirection_def lcd_E_high_def lcd_updateBus_def Let_def)

lemma E_high_fields [simp]:
  "PORTB (lcd_E_high s) = sbi LCD_E (PORTB s)" "PORTF (lcd_E_high s) = PORTF s"
  "DDRB (lcd_E_high s) = DDRB s" "lcd_driven (lcd_E_high s) = lcd_driven s"
  by (simp_all add: lcd_E_high_def lcd_driven_def)

lemma driven_updates [simp]:
  "lcd_driven (lcd_E_low t) = lcd_driven t"
  "lcd_driven (lcd_updateBus b s) = lcd_driven s"
  "lcd_driven (s\<lparr>PORTF := p\<rparr>) = lcd_driven s"
  by (simp_all add: lcd_driven_def)

text \<open>While the port reads, its own outputs are low.\<close>

lemma readBus_in:
  "lcd_readBus (cbi LCD_E (sbi LCD_E (PORTB (lcd_setDirection LCD_IN s)))) = 0"
  "lcd_readBus (cbi LCD_E (sbi LCD_E (cbi LCD_E (sbi LCD_E (PORTB (lcd_setDirection LCD_IN s)))))) = 0"
  by (rule bit_word_eqI; simp add: port_simps; simp add: lcd_setDirection_def Let_def port_simps)+

lemma lcd_receive_log:
  "lcd_log (snd (lcd_receive pins s)) = lcd_log s @ replicate 2 (Edge (bit (PORTF s) 6) True False 0)"
  by (simp add: lcd_receive_def Let_def numeral_2_eq_2 port_simps lcd_driven_def
      readBus_in [of "s", simplified], simp add: lcd_setDirection_def Let_def port_simps)

lemma lcd_receive_fields [simp]:
  "PORTF (snd (lcd_receive pins s)) = sbi 7 (PORTF s)"
  "lcd_count (snd (lcd_receive pins s)) = lcd_count s"
  "lcd_position (snd (lcd_receive pins s)) = lcd_position s"
  by (simp_all add: lcd_receive_def Let_def)

lemma lcd_receive_flag: "bit (fst (lcd_receive pins s)) 7 \<longleftrightarrow> bit (fst pins) 5"
  by (simp add: lcd_receive_def Let_def bit_simps port_simps)

lemma replicate_2: "replicate 2 x = [x, x]"
  by (simp add: numeral_eq_Suc)

definition busy_edges :: "nat \<Rightarrow> lcd_edge list" where
  "busy_edges n = replicate (2 * n) (Edge False True False 0)"

lemma lcd_receiveStatus_props:
  "lcd_log (snd (lcd_receiveStatus pins s)) = lcd_log s @ busy_edges 1"
  "lcd_count (snd (lcd_receiveStatus pins s)) = lcd_count s"
  "lcd_position (snd (lcd_receiveStatus pins s)) = lcd_position s"
  "bit (fst (lcd_receiveStatus pins s)) 7 \<longleftrightarrow> bit (fst pins) 5"
  by (simp_all add: lcd_receiveStatus_def lcd_receive_log lcd_receive_flag port_simps busy_edges_def)

lemma lcd_busy_loop_props:
  "lcd_log (lcd_busy_loop k s) = lcd_log s @ busy_edges (k + 1) \<and>
   lcd_count (lcd_busy_loop k s) = lcd_count s \<and> lcd_position (lcd_busy_loop k s) = lcd_position s"
proof (induction k arbitrary: s)
  case 0
  then show ?case by (simp add: lcd_receiveStatus_props)
next
  case (Suc k)
  have "bit (fst (lcd_status_pins (Suc k))) 5" by (simp add: lcd_status_pins_def bit_push_one)
  moreover have "busy_edges 1 @ busy_edges (Suc k) = busy_edges (Suc (Suc k))"
    by (simp add: busy_edges_def replicate_2)
  ultimately show ?case
    using Suc.IH by (simp add: case_prod_beta port_simps lcd_receiveStatus_props Let_def)
qed

definition write_edges :: "bool \<Rightarrow> u8 \<Rightarrow> lcd_edge list" where
  "write_edges rs b = [Edge rs False True (b AND 0xF0), Edge rs False True (push_bit 4 b)]"

lemma push_4_and: "push_bit 4 (b::u8) AND 0xF0 = push_bit 4 b"
proof (rule bit_word_eqI)
  fix n
  assume "n < LENGTH(8)"
  then consider "n = 0" | "n = 1" | "n = 2" | "n = 3" | "n = 4" | "n = 5" | "n = 6" | "n = 7"
    by fastforce
  then show "bit (push_bit 4 b AND 0xF0) n = bit (push_bit 4 b) n"
    by cases (simp_all add: bit_simps)
qed

text \<open>One nibble on the bus.\<close>

definition lcd_nibble :: "u8 \<Rightarrow> 'a lcd_scheme \<Rightarrow> 'a lcd_scheme" where
  "lcd_nibble b s = lcd_E_low (lcd_updateBus b (lcd_E_high s))"

lemma lcd_nibble_props:
  "lcd_log (lcd_nibble b s) =
     lcd_log s @ [Edge (bit (PORTF s) 6) (bit (PORTF s) 7) (lcd_driven s) (b AND 0xF0)]"
  "PORTF (lcd_nibble b s) = PORTF s" "lcd_driven (lcd_nibble b s) = lcd_driven s"
  "lcd_count (lcd_nibble b s) = lcd_count s" "lcd_position (lcd_nibble b s) = lcd_position s"
  by (simp_all add: lcd_nibble_def readBus_updateBus [unfolded One_nat_def])

lemma lcd_send_props:
  "lcd_log (lcd_send busy b t s) =
     lcd_log s @ write_edges (t = DATA) b @ busy_edges (busy (lcd_count s + 1) + 1) \<and>
   lcd_count (lcd_send busy b t s) = lcd_count s + 1 \<and>
   lcd_position (lcd_send busy b t s) = lcd_position s"
proof -
  define s1 where "s1 = lcd_setDirection LCD_OUT s"
  define s2 where "s2 = (if t = COMMAND then s1\<lparr>PORTF := cbi LCD_RS (PORTF s1)\<rparr>
    else s1\<lparr>PORTF := sbi LCD_RS (PORTF s1)\<rparr>)"
  define s3 where "s3 = s2\<lparr>PORTF := cbi LCD_RW (PORTF s2)\<rparr>"
  define s4 where "s4 = lcd_nibble (push_bit 4 b) (lcd_nibble b s3)"
  define s5 where "s5 = s4\<lparr>lcd_count := lcd_count s4 + 1\<rparr>"
  have send: "lcd_send busy b t s = lcd_busy_loop (busy (lcd_count s5)) s5"
    by (simp only: lcd_send_def Let_def s1_def s2_def s3_def s4_def s5_def lcd_nibble_def)
  have "lcd_driven s2" by (cases t) (simp_all add: s2_def s1_def)
  then have s3: "bit (PORTF s3) 6 = (t = DATA)" "\<not> bit (PORTF s3) 7" "lcd_driven s3"
    "lcd_log s3 = lcd_log s" "lcd_count s3 = lcd_count s" "lcd_position s3 = lcd_position s"
    by (cases t; simp add: s3_def s2_def s1_def port_simps)+
  have s5: "lcd_log s5 = lcd_log s @ write_edges (t = DATA) b" "lcd_count s5 = lcd_count s + 1"
    "lcd_position s5 = lcd_position s"
    using s3 by (simp_all add: s5_def s4_def lcd_nibble_props write_edges_def push_4_and)
  show ?thesis
    unfolding send using lcd_busy_loop_props [of "busy (lcd_count s5)" s5] s5 by simp
qed

section \<open>The instruction stream\<close>

text \<open>
  What the panel makes of the edges: those with RW low are nibbles, two of which make an instruction
  (RS low) or a character (RS high).
\<close>

fun pair_nibbles :: "lcd_edge list \<Rightarrow> (bool \<times> u8) list" where
  "pair_nibbles (e # f # es) =
     (edge_rs e, edge_nibble e OR drop_bit 4 (edge_nibble f)) # pair_nibbles es"
| "pair_nibbles _ = []"

definition lcd_instructions :: "lcd_edge list \<Rightarrow> (bool \<times> u8) list" where
  "lcd_instructions es = pair_nibbles (filter (\<lambda>e. \<not> edge_rw e) es)"

definition lcd_aligned :: "lcd_edge list \<Rightarrow> bool" where
  "lcd_aligned es \<longleftrightarrow> even (length (filter (\<lambda>e. \<not> edge_rw e) es))"

lemma pair_nibbles_append:
  "even (length xs) \<Longrightarrow> pair_nibbles (xs @ ys) = pair_nibbles xs @ pair_nibbles ys"
  by (induction xs rule: pair_nibbles.induct) simp_all

lemma nibbles_join: "((b::u8) AND 0xF0) OR drop_bit 4 (push_bit 4 b) = b"
proof (rule bit_word_eqI)
  fix n
  assume "n < LENGTH(8)"
  then consider "n = 0" | "n = 1" | "n = 2" | "n = 3" | "n = 4" | "n = 5" | "n = 6" | "n = 7"
    by fastforce
  then show "bit ((b AND 0xF0) OR drop_bit 4 (push_bit 4 b)) n = bit b n"
    by cases (simp_all add: bit_simps)
qed

lemma instructions_send:
  assumes "lcd_aligned (lcd_log s)"
  shows "lcd_aligned (lcd_log (lcd_send busy b t s))"
    and "lcd_instructions (lcd_log (lcd_send busy b t s)) =
      lcd_instructions (lcd_log s) @ [(t = DATA, b)]"
  using assms nibbles_join [of b]
  by (simp_all add: lcd_aligned_def lcd_instructions_def lcd_send_props write_edges_def busy_edges_def
      pair_nibbles_append filter_replicate)

text \<open>\<open>s'\<close> extends the instruction stream of \<open>s\<close> by \<open>is\<close>.\<close>

definition lcd_adds :: "'a lcd_scheme \<Rightarrow> 'a lcd_scheme \<Rightarrow> (bool \<times> u8) list \<Rightarrow> bool" where
  "lcd_adds s s' is \<longleftrightarrow> (lcd_aligned (lcd_log s) \<longrightarrow>
     lcd_aligned (lcd_log s') \<and> lcd_instructions (lcd_log s') = lcd_instructions (lcd_log s) @ is)"

lemma lcd_adds_send: "lcd_adds s (lcd_send busy b t s) [(t = DATA, b)]"
  by (simp add: lcd_adds_def instructions_send)

lemma lcd_adds_trans: "lcd_adds s t xs \<Longrightarrow> lcd_adds t u ys \<Longrightarrow> lcd_adds s u (xs @ ys)"
  by (simp add: lcd_adds_def)

lemma lcd_adds_position [simp]:
  "lcd_adds s (t\<lparr>lcd_position := p\<rparr>) xs = lcd_adds s t xs"
  "lcd_adds (s\<lparr>lcd_position := p\<rparr>) t xs = lcd_adds s t xs"
  by (simp_all add: lcd_adds_def)

text \<open>What the characters of a string do to the stream, from column \<open>p\<close> on.\<close>

fun lcd_render :: "u8 \<Rightarrow> u8 list \<Rightarrow> (bool \<times> u8) list" where
  "lcd_render p [] = []"
| "lcd_render p (c # cs) =
     (if c = 10 then (False, 0xC0) # lcd_render 0 cs
      else if p = 16 then (False, 0xC0) # (True, c) # lcd_render 1 cs
      else (True, c) # lcd_render (p + 1) cs)"

fun lcd_column :: "u8 \<Rightarrow> u8 list \<Rightarrow> u8" where
  "lcd_column p [] = p"
| "lcd_column p (c # cs) = lcd_column (if c = 10 then 0 else if p = 16 then 1 else p + 1) cs"

lemma lcd_putc_props:
  "lcd_adds s (lcd_putc busy c s) (lcd_render (lcd_position s) [c]) \<and>
   lcd_position (lcd_putc busy c s) = lcd_column (lcd_position s) [c]"
proof -
  have "lcd_adds s (lcd_send busy c DATA ((lcd_send busy 0xC0 COMMAND s)\<lparr>lcd_position := p\<rparr>))
      ([(False, 0xC0)] @ [(True, c)])" for p
    by (rule lcd_adds_trans [where t = "(lcd_send busy 0xC0 COMMAND s)\<lparr>lcd_position := p\<rparr>"])
      (use lcd_adds_send [where b = "0xC0" and t = COMMAND]
         lcd_adds_send [where s = "(lcd_send busy 0xC0 COMMAND s)\<lparr>lcd_position := p\<rparr>"
           and b = c and t = DATA and busy = busy] in \<open>simp_all\<close>)
  then show ?thesis
    using lcd_adds_send [where s = s and b = c and t = DATA]
      lcd_adds_send [where s = s and b = "0xC0" and t = COMMAND]
    by (simp add: lcd_putc_def Let_def lcd_send_props LCD_COLUMNS_def)
qed

lemma lcd_render_Cons: "lcd_render p (c # cs) = lcd_render p [c] @ lcd_render (lcd_column p [c]) cs"
  by simp

lemma lcd_putsp_props:
  "0 \<notin> set str \<Longrightarrow>
   lcd_adds s (lcd_putsp busy str s) (lcd_render (lcd_position s) str) \<and>
   lcd_position (lcd_putsp busy str s) = lcd_column (lcd_position s) str"
proof (induction str arbitrary: s)
  case Nil
  then show ?case by (simp add: lcd_adds_def)
next
  case (Cons c str)
  let ?s = "lcd_putc busy c s"
  have "lcd_adds s (lcd_putsp busy str ?s) (lcd_render (lcd_position s) [c] @ lcd_render (lcd_position ?s) str)"
    using Cons.IH [of ?s] Cons.prems lcd_putc_props [of s busy c]
    by (intro lcd_adds_trans [of s ?s]) simp_all
  with Cons.IH [of ?s] Cons.prems lcd_putc_props [of s busy c] show ?case
    by (subst lcd_render_Cons) simp
qed

text \<open>\<open>puts\<close> with enough bytes behind it is \<open>putsp\<close> on the text up to the first zero.\<close>

lemma lcd_puts_eq:
  "n \<le> length str \<Longrightarrow> lcd_puts busy str n s = Some (lcd_putsp busy (takeWhile (\<lambda>c. c \<noteq> 0) (take n str)) s)"
  by (induction busy str n s rule: lcd_puts.induct) simp_all

lemma lcd_clrscr_props:
  "lcd_adds s (lcd_clrscr busy s) [(False, 0x80), (False, 1)] \<and> lcd_position (lcd_clrscr busy s) = 0"
proof -
  let ?t = "lcd_send busy 0x80 COMMAND s"
  have "lcd_adds s (lcd_send busy 1 COMMAND (?t\<lparr>lcd_position := 0\<rparr>)) ([(False, 0x80)] @ [(False, 1)])"
    using lcd_adds_send [where s = s and b = "0x80" and t = COMMAND and busy = busy]
      lcd_adds_send [where s = "?t\<lparr>lcd_position := 0\<rparr>" and b = 1 and t = COMMAND and busy = busy]
    by (intro lcd_adds_trans [of s ?t]) simp_all
  then show ?thesis by (simp add: lcd_clrscr_def lcd_gotoxy_def Let_def lcd_send_props)
qed

lemma lcd_puts_str_eq:
  "0 \<notin> set str \<Longrightarrow> lcd_puts busy (str @ [0]) 33 s = Some (lcd_puts_str busy str s)"
proof (cases "length str < 33")
  case True
  moreover assume "0 \<notin> set str"
  moreover have "lcd_puts busy (xs @ [0]) n t = Some (lcd_putsp busy xs t)"
    if "0 \<notin> set xs" "length xs < n" for xs n t
    using that by (induction busy xs n t rule: lcd_puts.induct) auto
  ultimately show ?thesis by (simp add: lcd_puts_str_def LCD_COLUMNS_def LCD_ROWS_def)
next
  case False
  assume "0 \<notin> set str"
  then have "takeWhile (\<lambda>c. c \<noteq> 0) (take 33 str) = take 33 str"
    by (auto dest: in_set_takeD)
  moreover have "take 33 (str @ [0]) = take 33 str" using False by simp
  moreover have "33 \<le> length (str @ [0])" using False by simp
  ultimately show ?thesis
    using lcd_puts_eq [of 33 "str @ [0]" busy s]
    by (simp only: lcd_puts_str_def LCD_COLUMNS_def LCD_ROWS_def) simp
qed

section \<open>Properties\<close>

text \<open>Four-bit transfers. \<open>send\<close> puts the byte on the bus as two write nibbles, the high one
  first, with RS telling data from commands, so that the panel's instruction stream is extended by
  exactly that byte; and in all edges it makes, the busy polls included, the data pins are driven
  if and only if RW is low, so the port and the panel never drive the bus against each other.\<close>

theorem lcd_send_transfers_byte:
  "\<exists>es. lcd_log (lcd_send busy b t s) = lcd_log s @ es \<and>
     lcd_instructions es = [(t = DATA, b)] \<and> list_all (\<lambda>e. edge_driven e = (\<not> edge_rw e)) es"
proof -
  define es where "es = write_edges (t = DATA) b @ busy_edges (busy (lcd_count s + 1) + 1)"
  have "lcd_instructions es = [(t = DATA, b)]"
    using nibbles_join [of b]
    by (simp add: es_def lcd_instructions_def write_edges_def busy_edges_def filter_replicate)
  moreover have "list_all (\<lambda>e. edge_driven e = (\<not> edge_rw e)) es"
    by (auto simp: es_def write_edges_def busy_edges_def list_all_iff)
  ultimately show ?thesis using lcd_send_props [of busy b t s] by (auto simp: es_def)
qed

lemma lcd_render_row:
  "unat p + length cs \<le> 16 \<Longrightarrow> 10 \<notin> set cs \<Longrightarrow> lcd_render p cs = map (Pair True) cs"
proof (induction cs arbitrary: p)
  case Nil
  then show ?case by simp
next
  case (Cons c cs)
  then have "unat p < 16" by simp
  then have "p \<noteq> 16" "unat (p + 1) = unat p + 1" by (auto simp: unat_word_ariths)
  with Cons show ?case by simp
qed

lemma lcd_column_row:
  "length cs + unat p \<le> 16 \<Longrightarrow> 10 \<notin> set cs \<Longrightarrow> lcd_column p cs = p + of_nat (length cs)"
proof (induction cs arbitrary: p)
  case Nil
  then show ?case by simp
next
  case (Cons c cs)
  then have "unat p < 16" by simp
  then have "p \<noteq> 16" "unat (p + 1) = unat p + 1" by (auto simp: unat_word_ariths)
  with Cons show ?case by simp
qed

lemma lcd_render_append: "lcd_render p (xs @ ys) = lcd_render p xs @ lcd_render (lcd_column p xs) ys"
  by (induction p xs rule: lcd_render.induct) auto

lemma lcd_puts_text:
  "0 \<notin> set xs \<Longrightarrow> length xs \<le> m \<Longrightarrow>
   lcd_puts busy (xs @ 0 # rest) m t = Some (lcd_putsp busy xs t)"
proof (induction xs arbitrary: m t)
  case Nil
  then show ?case by (cases m) simp_all
next
  case (Cons x xs)
  then show ?case by (cases m) simp_all
qed

text \<open>The text on the display. Clearing the screen and printing at most 32 characters, none of
  them zero or a line feed, sends the panel the commands "first line" and "clear", the first 16
  characters, and, when there are more, the command "second line" and the rest.\<close>

theorem lcd_text_layout:
  fixes str :: "u8 list"
  assumes "length str \<le> 32" and "0 \<notin> set str" and "10 \<notin> set str" and "length str \<le> n"
    and "lcd_aligned (lcd_log s)"
  shows "\<exists>s'. lcd_puts busy (str @ 0 # rest) n (lcd_clrscr busy s) = Some s' \<and>
    lcd_instructions (lcd_log s') = lcd_instructions (lcd_log s) @
      [(False, 0x80), (False, 0x01)] @ map (Pair True) (take 16 str) @
      (if length str \<le> 16 then [] else (False, 0xC0) # map (Pair True) (drop 16 str))"
proof -
  let ?c = "lcd_clrscr busy s"
  let ?t = "lcd_putsp busy str ?c"
  note put = lcd_puts_text
  have row1: "lcd_render 0 (take 16 str) = map (Pair True) (take 16 str)"
    using assms(3) by (intro lcd_render_row) (auto dest: in_set_takeD)
  have "lcd_render 0 str = lcd_render 0 (take 16 str @ drop 16 str)" by simp
  also have "\<dots> = map (Pair True) (take 16 str) @
      (if length str \<le> 16 then [] else (False, 0xC0) # map (Pair True) (drop 16 str))"
  proof (cases "length str \<le> 16")
    case True
    with row1 show ?thesis by simp
  next
    case False
    then obtain c cs where d: "drop 16 str = c # cs" by (cases "drop 16 str") auto
    have "length (c # cs) = length str - 16" unfolding d [symmetric] by simp
    then have "length cs \<le> 15" using assms(1) by simp
    moreover have nl: "10 \<notin> set (c # cs)" using assms(3) set_drop_subset [of 16 str] d by auto
    moreover have "lcd_column 0 (take 16 str) = 16"
      using False assms(3) lcd_column_row [of "take 16 str" 0] by (auto dest: in_set_takeD)
    moreover have "lcd_render 1 cs = map (Pair True) cs"
      using \<open>length cs \<le> 15\<close> nl by (intro lcd_render_row) auto
    ultimately show ?thesis using row1 False by (simp only: lcd_render_append) (simp add: d)
  qed
  finally have "lcd_render 0 str = \<dots>" .
  moreover have "lcd_adds s ?t ([(False, 0x80), (False, 1)] @ lcd_render 0 str)"
    using lcd_clrscr_props [of s busy] lcd_putsp_props [OF assms(2), of ?c busy]
    by (intro lcd_adds_trans [of s ?c]) simp_all
  ultimately have "lcd_instructions (lcd_log ?t) = lcd_instructions (lcd_log s) @
      [(False, 0x80), (False, 0x01)] @ map (Pair True) (take 16 str) @
      (if length str \<le> 16 then [] else (False, 0xC0) # map (Pair True) (drop 16 str))"
    using assms(5) by (simp add: lcd_adds_def)
  then show ?thesis using put [OF assms(2,4)] by blast
qed

definition lcd_static_init :: lcd where
  "lcd_static_init = i2c.extend i2c_static_init \<lparr>lcd_position = 0, lcd_log = [], lcd_count = 0\<rparr>"

lemma lcd_text_layout_witness:
  "\<exists>s'. lcd_puts (\<lambda>n. n) [72, 105, 0] 33 (lcd_clrscr (\<lambda>n. n) lcd_static_init) = Some s' \<and>
     lcd_instructions (lcd_log s') = [(False, 0x80), (False, 0x01), (True, 72), (True, 105)]"
  using lcd_text_layout [of "[72, 105]" 33 lcd_static_init "\<lambda>n. n" "[]"]
  by (simp add: lcd_static_init_def lcd_aligned_def lcd_instructions_def i2c.defs lcd.defs)

section \<open>Numbers\<close>

fun decimal_digits :: "nat \<Rightarrow> u8 list" where
  "decimal_digits n = (if n < 10 then [48 + of_nat n] else decimal_digits (n div 10) @ [48 + of_nat (n mod 10)])"

declare decimal_digits.simps [simp del]

lemma length_decimal_digits: "0 < c \<Longrightarrow> n < 10 ^ c \<Longrightarrow> length (decimal_digits n) \<le> c"
proof (induction n arbitrary: c rule: decimal_digits.induct)
  case (1 n)
  show ?case
  proof (cases "n < 10")
    case True
    with 1 show ?thesis by (simp add: decimal_digits.simps)
  next
    case False
    then obtain d where c: "c = Suc d" "0 < d" using 1 by (cases c; cases "c - 1") auto
    then have "n div 10 < 10 ^ d" using 1 by (simp add: less_mult_imp_div_less mult.commute)
    with 1 False c show ?thesis by (subst decimal_digits.simps) simp
  qed
qed

lemma lcd_number_loop_step:
  "lcd_number_loop (int n) buff c =
   (let buff = buff[c := 48 + of_nat (n mod 10)] in
    if n < 10 then (buff, c - 1) else lcd_number_loop (int (n div 10)) buff (c - 1))"
proof -
  have t: "tdiv (int n) 10 = int (n div 10)" by (simp add: tdiv_nonneg zdiv_int)
  have d: "int n - 10 * int (n div 10) = int (n mod 10)"
    by (metis add_diff_cancel_left' mult_div_mod_eq of_nat_add of_nat_mult of_nat_numeral)
  show ?thesis by (subst lcd_number_loop.simps) (simp only: t d Let_def of_int_of_nat_eq, auto)
qed

lemma lcd_number_loop_digits:
  "length buff = 6 \<Longrightarrow> c \<le> 5 \<Longrightarrow> 0 < c \<Longrightarrow> n < 10 ^ c \<Longrightarrow>
   \<exists>buff' c'. lcd_number_loop (int n) buff c = (buff', c') \<and>
     drop (c' + 1) buff' = decimal_digits n @ drop (c + 1) buff"
proof (induction n arbitrary: buff c rule: decimal_digits.induct)
  case (1 n)
  let ?b = "buff[c := 48 + of_nat (n mod 10)]"
  have b: "drop c ?b = (48 + of_nat (n mod 10)) # drop (c + 1) buff"
    using 1(2,3) by (simp add: Cons_nth_drop_Suc [symmetric])
  show ?case
  proof (cases "n < 10")
    case True
    with b 1(4) show ?thesis
      by (subst lcd_number_loop_step) (simp add: Let_def decimal_digits.simps)
  next
    case False
    then obtain e where c: "c = Suc e" "0 < e" using 1 by (cases c; cases "c - 1") auto
    then have "n div 10 < 10 ^ e" using 1 by (simp add: less_mult_imp_div_less mult.commute)
    then obtain b' c' where
      "lcd_number_loop (int (n div 10)) ?b e = (b', c')"
      "drop (c' + 1) b' = decimal_digits (n div 10) @ drop (e + 1) ?b"
      using 1(1) [OF False, of ?b e] 1(2,3) c by auto
    moreover have "lcd_number_loop (int n) buff c = lcd_number_loop (int (n div 10)) ?b e"
      using False by (subst lcd_number_loop_step) (simp add: Let_def c)
    moreover have "decimal_digits n = decimal_digits (n div 10) @ [48 + of_nat (n mod 10)]"
      using False by (subst decimal_digits.simps) simp
    ultimately show ?thesis using b c by auto
  qed
qed

lemma decimal_digits_nonzero: "c \<in> set (decimal_digits n) \<Longrightarrow> 48 \<le> c \<and> c \<le> 57"
proof (induction n rule: decimal_digits.induct)
  case (1 n)
  have "48 \<le> (48 + of_nat d :: u8) \<and> (48 + of_nat d :: u8) \<le> 57" if "d < 10" for d
  proof -
    have "d \<in> {0, 1, 2, 3, 4, 5, 6, 7, 8, 9}" using that by auto
    then show ?thesis by auto
  qed
  with 1 show ?case by (subst (asm) (2) decimal_digits.simps) (auto split: if_splits)
qed

lemma lcd_putsp_fold: "0 \<notin> set str \<Longrightarrow> fold (lcd_putc busy) str s = lcd_putsp busy str s"
  by (induction str arbitrary: s) auto

text \<open>\<open>putNumber\<close> prints the decimal notation of every 16-bit number, with a minus sign when it is
  negative, except for -32768: its negation overflows, the digit loop ends after one round, and the
  display shows a minus sign and an opening parenthesis.\<close>

theorem lcd_putNumber_decimal:
  assumes "- 32768 \<le> n" and "n < 32768"
  shows "lcd_putNumber busy n s = lcd_putsp busy
    (if n = - 32768 then [45, 40]
     else (if n < 0 then [45] else []) @ decimal_digits (nat \<bar>n\<bar>)) s"
proof (cases "n = - 32768")
  case True
  have "lcd_number_loop (- 32768) (replicate 6 0) 5 = ((replicate 6 0)[5 := 40], 4)"
    by (subst lcd_number_loop.simps) (simp add: tdiv_def sgn_if Let_def)
  moreover have "drop (4 + 1) ((replicate 6 0)[5 := 40]) = [40 :: u8]" by code_simp
  ultimately show ?thesis using True
    by (simp add: lcd_putNumber_def wrap16_def Let_def del: drop_update_cancel)
next
  case False
  have n: "nat \<bar>n\<bar> < 10 ^ 5" using assms by simp
  obtain b c where loop: "lcd_number_loop (int (nat \<bar>n\<bar>)) (replicate 6 0) 5 = (b, c)"
    "drop (c + 1) b = decimal_digits (nat \<bar>n\<bar>)"
    using lcd_number_loop_digits [of "replicate 6 0" 5, OF _ _ _ n] by auto
  have "0 \<notin> set (decimal_digits (nat \<bar>n\<bar>))" using decimal_digits_nonzero [of 0] by auto
  then have f: "fold (lcd_putc busy) (drop (c + 1) b) t = lcd_putsp busy (decimal_digits (nat \<bar>n\<bar>)) t" for t :: "'a lcd_scheme"
    unfolding loop(2) by (rule lcd_putsp_fold)
  have "wrap16 (- n) = - n" if "n < 0" using that assms False by (intro wrap16_id) auto
  with loop(1) f False show ?thesis
    by (simp add: lcd_putNumber_def Let_def abs_if split: if_splits)
qed

lemma lcd_putNumber_decimal_witness:
  "lcd_putNumber (\<lambda>n. 0) (- 207) lcd_static_init = lcd_putsp (\<lambda>n. 0) [45, 50, 48, 55] lcd_static_init"
  using lcd_putNumber_decimal [of "- 207" "\<lambda>n. 0" lcd_static_init] by (simp add: decimal_digits.simps)

section \<open>What display and bus operations leave alone\<close>

text \<open>\<open>t\<close> differs from \<open>s\<close> in the display's pins and bookkeeping and in the I2C unit only.\<close>

definition dev_upd :: "'a lcd_scheme \<Rightarrow> 'a lcd_scheme \<Rightarrow> bool" where
  "dev_upd s t \<longleftrightarrow> t = s\<lparr>PORTB := PORTB t, DDRB := DDRB t, PORTF := PORTF t,
     TWCR := TWCR t, TWDR := TWDR t, TCNT0 := TCNT0 t, TCCR0B := TCCR0B t,
     timerNotClear := timerNotClear t, i2c_status := i2c_status t, i2c_log := i2c_log t,
     lcd_position := lcd_position t, lcd_log := lcd_log t, lcd_count := lcd_count t\<rparr>"

named_theorems dev_intros

lemma dev_upd_refl [dev_intros, simp]: "dev_upd s s"
  by (cases s) (simp add: dev_upd_def)

lemma dev_upd_trans: "dev_upd s t \<Longrightarrow> dev_upd t u \<Longrightarrow> dev_upd s u"
  by (cases s, cases t, cases u) (simp add: dev_upd_def)

lemma dev_upd_i2c: "i2c_upd s t \<Longrightarrow> dev_upd s t"
  by (cases s, cases t) (simp add: dev_upd_def i2c_upd_def)

lemma dev_upd_then: "dev_upd s t \<Longrightarrow> i2c_upd t u \<Longrightarrow> dev_upd s u"
  using dev_upd_trans dev_upd_i2c by blast

lemma dev_upd_fields [dev_intros]:
  "dev_upd s t \<Longrightarrow> dev_upd s (t\<lparr>PORTB := p\<rparr>)" "dev_upd s t \<Longrightarrow> dev_upd s (t\<lparr>DDRB := d\<rparr>)"
  "dev_upd s t \<Longrightarrow> dev_upd s (t\<lparr>PORTF := f\<rparr>)" "dev_upd s t \<Longrightarrow> dev_upd s (t\<lparr>lcd_position := c\<rparr>)"
  "dev_upd s t \<Longrightarrow> dev_upd s (t\<lparr>lcd_log := l\<rparr>)" "dev_upd s t \<Longrightarrow> dev_upd s (t\<lparr>lcd_count := n\<rparr>)"
  by (cases s; cases t; simp add: dev_upd_def)+

lemma dev_upd_pins [dev_intros]:
  "dev_upd s t \<Longrightarrow> dev_upd s (lcd_setDirection dr t)"
  "dev_upd s t \<Longrightarrow> dev_upd s (lcd_updateBus b t)"
  "dev_upd s t \<Longrightarrow> dev_upd s (lcd_E_high t)"
  "dev_upd s t \<Longrightarrow> dev_upd s (lcd_E_low t)"
  by (simp_all add: lcd_setDirection_def lcd_updateBus_def lcd_E_high_def lcd_E_low_def Let_def dev_intros)

lemma dev_upd_status [dev_intros]:
  "dev_upd s t \<Longrightarrow> dev_upd s (snd (lcd_receiveStatus pins t))"
  by (simp add: lcd_receiveStatus_def lcd_receive_def Let_def dev_intros)

lemma dev_upd_busy [dev_intros]: "dev_upd s t \<Longrightarrow> dev_upd s (lcd_busy_loop k t)"
proof (induction k arbitrary: t)
  case 0
  then show ?case by (simp add: dev_intros)
next
  case (Suc k)
  then show ?case by (simp add: dev_intros case_prod_beta Let_def)
qed

lemma dev_upd_send [dev_intros]: "dev_upd s t \<Longrightarrow> dev_upd s (lcd_send busy b ty t)"
  unfolding lcd_send_def Let_def
  by (rule dev_upd_busy) (cases ty; simp only: if_True if_False lcd_type.distinct simp_thms;
      intro dev_intros; assumption)

lemma dev_upd_putc [dev_intros]: "dev_upd s t \<Longrightarrow> dev_upd s (lcd_putc busy c t)"
  by (simp add: lcd_putc_def Let_def dev_intros)

lemma dev_upd_putsp [dev_intros]: "dev_upd s t \<Longrightarrow> dev_upd s (lcd_putsp busy str t)"
  by (induction busy str t rule: lcd_putsp.induct) (simp_all add: dev_intros)

lemma dev_upd_text [dev_intros]:
  "dev_upd s t \<Longrightarrow> dev_upd s (lcd_clrscr busy t)"
  "dev_upd s t \<Longrightarrow> dev_upd s (lcd_gotoxy busy x y t)"
  "dev_upd s t \<Longrightarrow> dev_upd s (lcd_putsp_xy busy x y str t)"
  "dev_upd s t \<Longrightarrow> dev_upd s (lcd_puts_str busy str t)"
  by (simp_all add: lcd_clrscr_def lcd_gotoxy_def lcd_putsp_xy_def lcd_puts_str_def Let_def dev_intros)

lemma dev_upd_puts: "lcd_puts busy str n t = Some u \<Longrightarrow> dev_upd s t \<Longrightarrow> dev_upd s u"
  by (induction busy str n t rule: lcd_puts.induct) (auto simp: dev_intros split: if_splits)

lemma dev_upd_bus [dev_intros]:
  "dev_upd s t \<Longrightarrow> dev_upd s (motor_drv_setSpeed bus m v t)"
  "dev_upd s t \<Longrightarrow> dev_upd s (motor_drv_setDirection bus m v t)"
  "dev_upd s t \<Longrightarrow> dev_upd s (snd (motor_drv_getSpeed bus m t))"
  "dev_upd s t \<Longrightarrow> dev_upd s (arm_drv_setSpeed bus m v t)"
  "dev_upd s t \<Longrightarrow> dev_upd s (arm_drv_setDirection bus m v t)"
  "dev_upd s t \<Longrightarrow> dev_upd s (arm_drv_setPosition bus m v t)"
  "dev_upd s t \<Longrightarrow> dev_upd s (snd (arm_drv_getSpeed bus m t))"
  "dev_upd s t \<Longrightarrow> dev_upd s (snd (arm_drv_getDirection bus m t))"
  "dev_upd s t \<Longrightarrow> dev_upd s (snd (arm_drv_getPosition bus m t))"
  "dev_upd s t \<Longrightarrow> dev_upd s (snd (arm_drv_getMode bus t))"
  "dev_upd s t \<Longrightarrow> dev_upd s (snd (arm_drv_isCalibrated bus t))"
  "dev_upd s t \<Longrightarrow> dev_upd s (arm_drv_calibrate bus t)"
  "dev_upd s t \<Longrightarrow> dev_upd s (arm_drv_brake bus t)"
  "dev_upd s t \<Longrightarrow> dev_upd s (expander_setValue bus b t)"
  "dev_upd s t \<Longrightarrow> dev_upd s (snd (expander_getValue bus t))"
  by (auto elim!: dev_upd_then simp: motor_drv_setSpeed_def
      motor_drv_setDirection_def motor_drv_getSpeed_def arm_drv_setSpeed_def arm_drv_setDirection_def
      arm_drv_setPosition_def arm_drv_getSpeed_def arm_drv_getDirection_def arm_drv_getPosition_def
      arm_drv_getMode_def arm_drv_isCalibrated_def arm_drv_calibrate_def arm_drv_brake_def
      case_prod_beta Let_def)

lemma dev_upd_latched: "dev_upd s t \<Longrightarrow> ks_latched t = ks_latched s"
  by (cases s, cases t) (simp add: dev_upd_def ks_latched_def)

lemma dev_upd_more: "dev_upd s t \<Longrightarrow> lcd.more t = lcd.more s"
  by (cases s, cases t) (simp add: dev_upd_def)

end
