(* ===== verification/Bridge_Menu.thy ===== *)
theory Bridge_Menu
  imports Bridge_Lcd
begin

text \<open>
  The menu of the bridge for operation without a host: the class \<open>MenuClass\<close> (\<open>MenuClass.cpp\<close>) and
  the menus built from it (\<open>menu.cpp\<close>). The five menu objects are the elements of a datatype, their
  members are functions on it; what \<open>menu::init\<close> sets up once (titles, items, parents, functions) is
  constant. The environment the operations see is one record.
\<close>

section \<open>Environment and state\<close>

text \<open>The I2C bus, the busy flag of the display, the external kill switch button, the button pins at
  a reading and 30 ms later, and the ADC results.\<close>

record bridge_env =
  env_bus :: i2c_bus
  env_busy :: "nat \<Rightarrow> nat"
  env_button :: bool
  env_pins :: pins
  env_pins30 :: pins
  env_adc :: adc

datatype menu_id = MainMenu | ArmMenu | MotorMenu | ExpanderMenu | VersionMenu

record menu = lcd +
  menu_actual :: "menu_id option"
  menu_position :: "menu_id \<Rightarrow> u8"
  menu_inSub :: "menu_id \<Rightarrow> bool"
  isInMenu :: bool
  expander_currentDevice :: u8
  calibrationFired :: bool

definition chars :: "string \<Rightarrow> u8 list" where
  "chars s = map of_char s"

section \<open>The menus of \<open>menu.cpp\<close>\<close>

abbreviation (input) MENU_MOTOR_SPEED :: u8 where "MENU_MOTOR_SPEED \<equiv> 3"
abbreviation (input) MENU_ARM_SPEED :: u8 where "MENU_ARM_SPEED \<equiv> 5"

fun menu_items :: "menu_id \<Rightarrow> (string \<times> menu_id option) list" where
  "menu_items MainMenu = [(''ARM DRIVER'', Some ArmMenu), (''MOTOR DRIVER'', Some MotorMenu),
     (''I2C EXPANDER'', Some ExpanderMenu), (''VERSION'', Some VersionMenu)]"
| "menu_items ArmMenu = [(''CALIBRATE'', None), (''SHOULDER'', None), (''ELBOW'', None), (''GRIPPER'', None)]"
| "menu_items MotorMenu = [(''LEFT WHEEL'', None), (''RIGHT WHEEL'', None), (''BOTH WHEELS'', None)]"
| "menu_items ExpanderMenu = []"
| "menu_items VersionMenu = []"

fun menu_itemsLength :: "menu_id \<Rightarrow> u8" where
  "menu_itemsLength MainMenu = 4"
| "menu_itemsLength ArmMenu = 4"
| "menu_itemsLength MotorMenu = 3"
| "menu_itemsLength ExpanderMenu = 0"
| "menu_itemsLength VersionMenu = 0"

fun menu_title :: "menu_id \<Rightarrow> string option" where
  "menu_title MainMenu = None"
| "menu_title ArmMenu = Some ''Arm driver:''"
| "menu_title MotorMenu = Some ''Motor driver:''"
| "menu_title ExpanderMenu = Some ''I2C expander:''"
| "menu_title VersionMenu = Some ''Version:''"

fun menu_parent :: "menu_id \<Rightarrow> menu_id option" where
  "menu_parent MainMenu = None"
| "menu_parent _ = Some MainMenu"

section \<open>Header and sub-menu functions\<close>

text \<open>The loops that write the last \<open>n\<close> decimal digits of a number from right to left.\<close>

fun digits_back :: "nat \<Rightarrow> nat \<Rightarrow> u8 list" where
  "digits_back 0 v = []"
| "digits_back (Suc n) v = digits_back n (v div 10) @ [48 + of_nat (v mod 10)]"

definition batteryDisplayHeaderFunction :: "bridge_env \<Rightarrow> 'a menu_scheme \<Rightarrow> 'a menu_scheme" where
  "batteryDisplayHeaderFunction env s =
     (let volt = nat \<lfloor>of_nat (unat (rawVoltage (env_adc env))) * 100 * VOLTAGE_FACTOR\<rfloor>;
          volt = (if volt mod 10 \<ge> 5 then volt div 10 + 1 else volt div 10);
          text = chars ''Batt: '' @ digits_back 2 (volt div 10) @ chars ''.'' @ digits_back 1 volt @
                 chars ''V'' @ [10]
      in lcd_puts_str (env_busy env) text s)"

text \<open>\<open>__DATE__\<close> is the parameter \<open>date\<close>.\<close>

definition versionSubMenuFunction :: "u8 list \<Rightarrow> bridge_env \<Rightarrow> 'a menu_scheme \<Rightarrow> 'a menu_scheme" where
  "versionSubMenuFunction date env s =
     lcd_putsp (env_busy env) (chars ''(C) M.Slomkowski'' @ [10] @ chars ''Ver: '' @ date) s"

definition expanderSubMenuFunction ::
  "bridge_env \<Rightarrow> bool \<Rightarrow> button_set \<Rightarrow> 'a menu_scheme \<Rightarrow> 'a menu_scheme" where
  "expanderSubMenuFunction env isFirstCall btn s =
     (if \<not> isFirstCall \<and> i2c_getLastCommandStatus s \<noteq> I2C_OK
      then lcd_putsp (env_busy env) (chars ''Could not connect to expander!'') s
      else
        (let s = lcd_putsp (env_busy env) (chars ''EXPANDER:'' @ [10] @ chars ''Device: '') s in
         if b_enter btn
         then expander_setValue (env_bus env) 0 (s\<lparr>expander_currentDevice := 8\<rparr>)
         else
           (let s = (if b_up btn
                     then (let s = s\<lparr>expander_currentDevice := expander_currentDevice s + 1\<rparr> in
                           if expander_currentDevice s > 8 then s\<lparr>expander_currentDevice := 0\<rparr> else s)
                     else s);
                s = (if b_down btn
                     then (if expander_currentDevice s = 0 then s\<lparr>expander_currentDevice := 8\<rparr>
                           else s\<lparr>expander_currentDevice := expander_currentDevice s - 1\<rparr>)
                     else s);
                s = (if expander_currentDevice s = 8 then lcd_putsp (env_busy env) (chars ''OFF'') s
                     else lcd_putc (env_busy env) (48 + expander_currentDevice s) s)
            in expander_setValue (env_bus env) (push_bit (unat (expander_currentDevice s)) 1) s)))"

definition menu_direction :: "button_set \<Rightarrow> u8" where
  "menu_direction btn =
     (let direction = D_STOP;
          direction = (if b_up btn then D_FORWARD else if b_down btn then D_BACKWARD else direction)
      in if b_enter btn then D_STOP else direction)"

definition motorSubMenuFunction ::
  "bridge_env \<Rightarrow> bool \<Rightarrow> u8 \<Rightarrow> button_set \<Rightarrow> 'a menu_scheme \<Rightarrow> 'a menu_scheme" where
  "motorSubMenuFunction env isFirstCall pos btn s =
     (let bus = env_bus env; busy = env_busy env in
      if \<not> isFirstCall \<and> i2c_getLastCommandStatus s \<noteq> I2C_OK
      then lcd_putsp busy (chars ''Motor driver not visible!'') s
      else
        (let s = (if isFirstCall
                  then motor_drv_setSpeed bus MOTOR2 MENU_MOTOR_SPEED
                         (motor_drv_setSpeed bus MOTOR1 MENU_MOTOR_SPEED s)
                  else s);
             direction = menu_direction btn;
             s = lcd_putsp busy (chars ''MOTOR: '') s;
             s = (if pos = 0
                  then motor_drv_setDirection bus MOTOR1 direction (lcd_putsp busy (chars ''left'') s)
                  else if pos = 1
                  then motor_drv_setDirection bus MOTOR2 direction (lcd_putsp busy (chars ''right'') s)
                  else if pos = 2
                  then motor_drv_setDirection bus MOTOR2 direction
                         (motor_drv_setDirection bus MOTOR1 direction (lcd_putsp busy (chars ''both'') s))
                  else s);
             (left, s) = motor_drv_getSpeed bus MOTOR1 s;
             (right, s) = motor_drv_getSpeed bus MOTOR2 s;
             speedText = [10] @ chars ''L: '' @ digits_back 3 (unat left) @ chars '', R: '' @
                         digits_back 3 (unat right)
         in lcd_puts_str busy speedText s))"

definition armSubMenuFunction ::
  "bridge_env \<Rightarrow> bool \<Rightarrow> u8 \<Rightarrow> button_set \<Rightarrow> 'a menu_scheme \<Rightarrow> 'a menu_scheme" where
  "armSubMenuFunction env isFirstCall pos btn s =
     (let bus = env_bus env; busy = env_busy env in
      if \<not> isFirstCall \<and> i2c_getLastCommandStatus s \<noteq> I2C_OK
      then lcd_putsp busy (chars ''Arm driver not visible!'') s
      else
        (let s = (if isFirstCall
                  then (let s = s\<lparr>calibrationFired := False\<rparr>;
                            s = arm_drv_setSpeed bus SHOULDER MENU_ARM_SPEED s;
                            s = arm_drv_setSpeed bus ELBOW MENU_ARM_SPEED s
                        in arm_drv_setSpeed bus GRIPPER MENU_ARM_SPEED s)
                  else s);
             s = lcd_putsp busy (chars ''ARM: '') s;
             direction = menu_direction btn in
         if pos = 0
         then (let s = lcd_putsp busy (chars ''calibrate'' @ [10]) s in
               if \<not> calibrationFired s
               then (arm_drv_calibrate bus s)\<lparr>calibrationFired := True\<rparr>
               else (let (done, s) = arm_drv_isCalibrated bus s in
                     if done then lcd_putsp busy (chars ''finished: YES'') s
                     else lcd_putsp busy (chars ''finished: NO'') s))
         else
           (let (name, motor) = (if pos = 1 then (chars ''shoulder'' @ [10], SHOULDER)
                                 else if pos = 2 then (chars ''elbow'' @ [10], ELBOW)
                                 else if pos = 3 then (chars ''gripper'' @ [10], GRIPPER)
                                 else ([], SHOULDER));
                s = lcd_putsp busy name s;
                s = arm_drv_setDirection bus motor direction s;
                (armPosition, s) = arm_drv_getPosition bus motor s
            in lcd_puts_str busy (chars ''Position: '' @ digits_back 3 (unat armPosition)) s)))"

text \<open>The function pointers \<open>subMenuFunction\<close>; the main menu has none.\<close>

fun menu_subMenuFunction ::
  "menu_id \<Rightarrow> (u8 list \<Rightarrow> bridge_env \<Rightarrow> bool \<Rightarrow> u8 \<Rightarrow> button_set \<Rightarrow> 'a menu_scheme \<Rightarrow> 'a menu_scheme) option"
where
  "menu_subMenuFunction MainMenu = None"
| "menu_subMenuFunction ArmMenu = Some (\<lambda>date env first pos btn. armSubMenuFunction env first pos btn)"
| "menu_subMenuFunction MotorMenu = Some (\<lambda>date env first pos btn. motorSubMenuFunction env first pos btn)"
| "menu_subMenuFunction ExpanderMenu = Some (\<lambda>date env first pos btn. expanderSubMenuFunction env first btn)"
| "menu_subMenuFunction VersionMenu = Some (\<lambda>date env first pos btn. versionSubMenuFunction date env)"

section \<open>\<open>MenuClass::process\<close>\<close>

text \<open>
  \<open>wait5\<close> and \<open>wait30\<close> are the calls of \<open>delay::waitMs\<close> in \<open>killswitch::setActive(false)\<close> and in the
  debouncing. \<open>None\<close> when a null pointer is followed or an item outside the array is read.
\<close>

text \<open>The movement through the items; the comparison with \<open>itemsLength - 1\<close> is in \<open>int\<close>.\<close>

definition menu_move :: "menu_id \<Rightarrow> button_set \<Rightarrow> u8 \<Rightarrow> u8" where
  "menu_move m btn pos =
     (if b_up btn
      then (if (menu_parent m = None \<and> int (unat pos) = int (unat (menu_itemsLength m)) - 1)
               \<or> pos = menu_itemsLength m
            then 0 else pos + 1)
      else if b_down btn
      then (if pos = 0
            then (if menu_parent m = None then menu_itemsLength m - 1 else menu_itemsLength m)
            else pos - 1)
      else pos)"

text \<open>The first half: what is shown, and the movement.\<close>

definition menu_show ::
  "('a menu_scheme \<Rightarrow> 'a menu_scheme) \<Rightarrow> u8 list \<Rightarrow> bridge_env \<Rightarrow> menu_id \<Rightarrow> button_set \<Rightarrow>
   'a menu_scheme \<Rightarrow> 'a menu_scheme option" where
  "menu_show wait5 date env m btn s =
     (let busy = env_busy env in
      if menu_inSub s m \<or> menu_itemsLength m = 0
      then (case menu_subMenuFunction m of
              None \<Rightarrow> Some (lcd_putsp busy (chars ''No sub-menu function nor menu items!'') s)
            | Some f \<Rightarrow>
                (let s = (if \<not> menu_inSub s m then ks_setActive wait5 (env_button env) False s else s);
                     s = (if ks_isActive (env_button env) s
                          then lcd_putsp busy (chars ''  KILL  SWITCH'' @ [10] @ chars ''    PRESSED!'') s
                          else f date env (\<not> menu_inSub s m) (menu_position s m) btn s)
                 in Some (s\<lparr>menu_inSub := (menu_inSub s)(m := True)\<rparr>)))
      else
        (let s = (case menu_title m of
                    Some t \<Rightarrow> lcd_puts_str busy (chars t) s
                  | None \<Rightarrow> if m = MainMenu then batteryDisplayHeaderFunction env s else s);
             s = lcd_putsp_xy busy 0 1 (chars ''< '') s;
             pos = menu_position s m;
             shown = (if pos = menu_itemsLength m then Some (lcd_putsp busy (chars ''EXIT'') s)
                      else map_option (\<lambda>item. lcd_puts_str busy (chars (fst item)) s)
                             (peek (menu_items m) (unat pos)))
         in map_option (\<lambda>s.
              (let s = lcd_putsp busy (chars '' >'') s;
                   pos = menu_move m btn pos
               in s\<lparr>menu_position := (menu_position s)(m := pos)\<rparr>)) shown))"

text \<open>The second half: the enter button.\<close>

definition menu_enter ::
  "('a menu_scheme \<Rightarrow> 'a menu_scheme) \<Rightarrow> u8 list \<Rightarrow> bridge_env \<Rightarrow> menu_id \<Rightarrow> button_set \<Rightarrow>
   'a menu_scheme \<Rightarrow> 'a menu_scheme option" where
  "menu_enter wait5 date env m btn s =
     (let busy = env_busy env; pos = menu_position s m in
      if menu_itemsLength m > 0 \<and> pos = menu_itemsLength m
      then Some (s\<lparr>menu_actual := menu_parent m\<rparr>)
      else (case menu_subMenuFunction m of
              Some f \<Rightarrow>
                if \<not> menu_inSub s m
                then (let s = s\<lparr>menu_inSub := (menu_inSub s)(m := True)\<rparr>;
                          s = ks_setActive wait5 (env_button env) False s;
                          s = lcd_clrscr busy s
                      in Some (f date env True (menu_position s m) btn s))
                else (let s = s\<lparr>menu_inSub := (menu_inSub s)(m := False)\<rparr>;
                          s = ks_setActive wait5 (env_button env) True s
                      in Some (if menu_itemsLength m = 0 then s\<lparr>menu_actual := menu_parent m\<rparr> else s))
            | None \<Rightarrow>
                (case peek (menu_items m) (unat pos) of
                   None \<Rightarrow> None
                 | Some (_, Some sub) \<Rightarrow>
                     Some (s\<lparr>menu_actual := Some sub, menu_position := (menu_position s)(sub := 0)\<rparr>)
                 | Some (_, None) \<Rightarrow>
                     Some (lcd_putsp busy (chars ''No function nor submenu!'') (lcd_clrscr busy s)))))"

definition menu_process_self ::
  "('a menu_scheme \<Rightarrow> 'a menu_scheme) \<Rightarrow> ('a menu_scheme \<Rightarrow> 'a menu_scheme) \<Rightarrow> u8 list \<Rightarrow>
   bridge_env \<Rightarrow> menu_id \<Rightarrow> 'a menu_scheme \<Rightarrow> 'a menu_scheme option" where
  "menu_process_self wait5 wait30 date env m s =
     (let s = lcd_clrscr (env_busy env) s;
          (btn, s) = getButtonsState wait30 (env_pins env) (env_pins30 env) True s
      in case menu_show wait5 date env m btn s of
           None \<Rightarrow> None
         | Some s \<Rightarrow> if b_enter btn then menu_enter wait5 date env m btn s else Some s)"

definition menu_process ::
  "('a menu_scheme \<Rightarrow> 'a menu_scheme) \<Rightarrow> ('a menu_scheme \<Rightarrow> 'a menu_scheme) \<Rightarrow> u8 list \<Rightarrow>
   bridge_env \<Rightarrow> menu_id \<Rightarrow> 'a menu_scheme \<Rightarrow> 'a menu_scheme option" where
  "menu_process wait5 wait30 date env m s =
     (if menu_actual s \<noteq> Some m
      then (case menu_actual s of
              None \<Rightarrow> None
            | Some a \<Rightarrow> menu_process_self wait5 wait30 date env a s)
      else menu_process_self wait5 wait30 date env m s)"

section \<open>\<open>menu::init\<close>, \<open>poll\<close>, \<open>reinitMenu\<close>\<close>

definition reinitMenu :: "'a menu_scheme \<Rightarrow> 'a menu_scheme" where
  "reinitMenu s = s\<lparr>menu_actual := Some MainMenu, isInMenu := False\<rparr>"

text \<open>The static objects before \<open>main\<close>: each constructor makes its own object the actual menu, the
  main menu is constructed last.\<close>

definition menu_static_init :: menu where
  "menu_static_init = lcd.extend lcd_static_init
     \<lparr>menu_actual = Some MainMenu, menu_position = (\<lambda>_. 0), menu_inSub = (\<lambda>_. False), isInMenu = False,
      expander_currentDevice = 8, calibrationFired = False\<rparr>"

definition menu_init :: "'a menu_scheme \<Rightarrow> 'a menu_scheme" where
  "menu_init s = reinitMenu s"

definition menu_poll ::
  "('a menu_scheme \<Rightarrow> 'a menu_scheme) \<Rightarrow> ('a menu_scheme \<Rightarrow> 'a menu_scheme) \<Rightarrow> u8 list \<Rightarrow>
   bridge_env \<Rightarrow> 'a menu_scheme \<Rightarrow> 'a menu_scheme option" where
  "menu_poll wait5 wait30 date env s =
     (if isInMenu s
      then (case menu_actual s of
              None \<Rightarrow> None
            | Some m \<Rightarrow> menu_process wait5 wait30 date env m s)
      else (let (btn, s) = getButtonsState wait30 (env_pins env) (env_pins30 env) False s
            in Some (if b_down btn \<or> b_up btn \<or> b_enter btn then s\<lparr>isInMenu := True\<rparr> else s)))"

section \<open>What the menu operations leave alone\<close>

text \<open>\<open>t\<close> has the menu state and the kill switch latch of \<open>s\<close>.\<close>

definition menu_same :: "'a menu_scheme \<Rightarrow> 'a menu_scheme \<Rightarrow> bool" where
  "menu_same s t \<longleftrightarrow> menu_actual t = menu_actual s \<and> menu_position t = menu_position s \<and>
     menu_inSub t = menu_inSub s \<and> isInMenu t = isInMenu s"

definition menu_upd :: "'a menu_scheme \<Rightarrow> 'a menu_scheme \<Rightarrow> bool" where
  "menu_upd s t \<longleftrightarrow> menu_same s t \<and> ks_latched t = ks_latched s"

lemma dev_upd_menu_same: "dev_upd s t \<Longrightarrow> menu_same s t"
  by (cases s, cases t) (simp add: dev_upd_def menu_same_def)

lemma menu_upd_refl: "menu_upd s s"
  by (simp add: menu_upd_def menu_same_def)

lemma menu_upd_dev: "dev_upd t u \<Longrightarrow> menu_upd s t \<Longrightarrow> menu_upd s u"
  using dev_upd_menu_same [of t u] dev_upd_latched [of t u]
  by (simp add: menu_upd_def menu_same_def)

lemma menu_upd_fields:
  "menu_upd s t \<Longrightarrow> menu_upd s (t\<lparr>expander_currentDevice := d\<rparr>)"
  "menu_upd s t \<Longrightarrow> menu_upd s (t\<lparr>calibrationFired := c\<rparr>)"
  by (simp_all add: menu_upd_def menu_same_def ks_latched_def)

lemmas menu_intros = menu_upd_refl menu_upd_fields
  dev_upd_putsp [OF dev_upd_refl, THEN menu_upd_dev] dev_upd_putc [OF dev_upd_refl, THEN menu_upd_dev]
  dev_upd_text [OF dev_upd_refl, THEN menu_upd_dev] dev_upd_bus [OF dev_upd_refl, THEN menu_upd_dev]

lemma batteryDisplay_upd: "menu_upd s (batteryDisplayHeaderFunction env s)"
  by (simp add: batteryDisplayHeaderFunction_def Let_def menu_intros)

lemma expanderSub_upd: "menu_upd s (expanderSubMenuFunction env first btn s)"
  unfolding expanderSubMenuFunction_def Let_def by (auto intro!: menu_intros)

lemma motorSub_upd: "menu_upd s (motorSubMenuFunction env first pos btn s)"
  unfolding motorSubMenuFunction_def Let_def case_prod_beta by (auto intro!: menu_intros)

lemma armSub_upd: "menu_upd s (armSubMenuFunction env first pos btn s)"
  unfolding armSubMenuFunction_def Let_def case_prod_beta by (auto intro!: menu_intros)

lemma subMenuFunction_upd:
  "menu_subMenuFunction m = Some f \<Longrightarrow> menu_upd s (f date env first pos btn s)"
  by (cases m) (auto simp: expanderSub_upd motorSub_upd armSub_upd versionSubMenuFunction_def
      intro!: menu_intros)

text \<open>The kill switch operations keep the menu state.\<close>

lemma check_menu_same: "menu_same s t \<Longrightarrow> menu_same s (ks_checkHardware hw t)"
  by (simp add: menu_same_def ks_checkHardware_def ks_activate_def Let_def)

lemma wait_menu_same: "unat ms \<le> 254 \<Longrightarrow> menu_same s t \<Longrightarrow> menu_same s (ks_wait ms hw t)"
  by (rule ks_wait_induct [where P = "menu_same s"]) (simp_all add: check_menu_same)

lemma wait_latched: "unat ms \<le> 254 \<Longrightarrow> ks_latched s \<Longrightarrow> ks_latched (ks_wait ms hw s)"
  by (rule ks_wait_induct [where P = ks_latched]) (simp_all add: ks_latched_check ks_active_cases)

lemma setActive_menu_same: "menu_same s t \<Longrightarrow> menu_same s (ks_setActive (ks_wait5 hw) hw b t)"
  by (auto simp: ks_setActive_def ks_activate_def Let_def intro!: wait_menu_same)
     (simp_all add: menu_same_def)

lemma buttons_menu_same: "menu_same s (snd (getButtonsState (ks_wait 30 hw) p p30 db s))"
  using getButtonsState_cases [of "ks_wait 30 hw" p p30 db s]
    wait_menu_same [of 30 s s hw] by (auto simp: menu_same_def)

lemma buttons_latched:
  "ks_latched s \<Longrightarrow> ks_latched (snd (getButtonsState (ks_wait 30 hw) p p30 db s))"
  using getButtonsState_cases [of "ks_wait 30 hw" p p30 db s] wait_latched [of 30 s hw] by auto

section \<open>The menu invariants\<close>

text \<open>Positions stay inside the item arrays; the position behind the last item (EXIT) exists only in
  a menu with a parent.\<close>

definition menu_ok :: "'a menu_scheme \<Rightarrow> bool" where
  "menu_ok s \<longleftrightarrow> menu_actual s \<noteq> None \<and> (\<forall>m. menu_position s m \<le> menu_itemsLength m) \<and>
     menu_position s MainMenu < menu_itemsLength MainMenu"

text \<open>Outside the sub-menu functions the kill switch is engaged.\<close>

definition menu_safe :: "'a menu_scheme \<Rightarrow> bool" where
  "menu_safe s \<longleftrightarrow> ks_latched s \<or> (\<exists>m. menu_inSub s m)"

lemma menu_ok_same: "menu_same s t \<Longrightarrow> menu_ok s \<Longrightarrow> menu_ok t"
  by (simp add: menu_ok_def menu_same_def)

lemma items_length: "length (menu_items m) = unat (menu_itemsLength m)"
  by (cases m) simp_all

lemma menu_move_le:
  assumes "pos \<le> menu_itemsLength m"
  shows "menu_move m btn pos \<le> menu_itemsLength m"
proof -
  have "pos - 1 \<le> menu_itemsLength m" if "pos \<noteq> 0" using assms that by unat_arith
  moreover have "pos + 1 \<le> menu_itemsLength m" if "pos \<noteq> menu_itemsLength m"
    using assms that by (cases m) unat_arith+
  moreover have "menu_itemsLength m - 1 \<le> menu_itemsLength m" if "menu_parent m = None"
    using that by (cases m) simp_all
  ultimately show ?thesis using assms by (auto simp: menu_move_def)
qed

lemma menu_move_main:
  assumes "pos < 4"
  shows "menu_move MainMenu btn pos < 4"
proof -
  consider "pos = 0" | "pos = 1" | "pos = 2" | "pos = 3" using assms by unat_arith
  then show ?thesis by cases (simp_all add: menu_move_def)
qed

lemma menu_ok_position:
  "menu_ok s \<Longrightarrow> menu_ok (s\<lparr>menu_position := (menu_position s)(m := menu_move m btn (menu_position s m))\<rparr>)"
  using menu_move_le [of "menu_position s m" m btn] menu_move_main [of "menu_position s MainMenu" btn]
  by (auto simp: menu_ok_def)

lemma menu_ok_inSub: "menu_ok s \<Longrightarrow> menu_ok (s\<lparr>menu_inSub := f\<rparr>)"
  by (simp add: menu_ok_def)

text \<open>\<open>t\<close> keeps the menu safe: nothing happened to the latch, or a sub-menu function is running.\<close>

definition show_post :: "menu_id \<Rightarrow> 'a menu_scheme \<Rightarrow> 'a menu_scheme \<Rightarrow> bool" where
  "show_post m s t \<longleftrightarrow> menu_ok t \<and>
     (ks_latched t = ks_latched s \<and> menu_inSub t = menu_inSub s \<or> menu_inSub t m)"

lemma menu_show_items:
  assumes "menu_ok s" and "\<not> (menu_inSub s m \<or> menu_itemsLength m = 0)"
  shows "\<exists>t. menu_show w5 date env m btn s = Some t \<and> show_post m s t"
proof -
  define busy where "busy = env_busy env"
  define s1 where "s1 = (case menu_title m of Some t \<Rightarrow> lcd_puts_str busy (chars t) s
    | None \<Rightarrow> if m = MainMenu then batteryDisplayHeaderFunction env s else s)"
  define s2 where "s2 = lcd_putsp_xy busy 0 1 (chars ''< '') s1"
  let ?pos = "menu_position s m"
  have s1: "menu_upd s s1"
    by (auto simp: s1_def batteryDisplay_upd split: option.split intro!: menu_intros)
  have s2: "menu_upd s s2" using s1 by (auto simp: s2_def intro!: menu_intros)
  have p: "menu_position s2 m = ?pos" using s2 by (simp add: menu_upd_def menu_same_def)
  obtain s3 where s3: "(if ?pos = menu_itemsLength m then Some (lcd_putsp busy (chars ''EXIT'') s2)
      else map_option (\<lambda>item. lcd_puts_str busy (chars (fst item)) s2) (peek (menu_items m) (unat ?pos)))
      = Some s3" and u3: "menu_upd s s3"
  proof -
    have "?pos \<le> menu_itemsLength m" using assms(1) by (simp add: menu_ok_def)
    then have "unat ?pos < length (menu_items m)" if "?pos \<noteq> menu_itemsLength m"
      using that by (simp add: items_length word_le_nat_alt) (metis le_neq_implies_less word_unat_eq_iff)
    then show thesis using that s2 by (cases "?pos = menu_itemsLength m") (auto intro!: menu_intros)
  qed
  define s4 where "s4 = lcd_putsp busy (chars '' >'') s3"
  have u4: "menu_upd s s4" using u3 by (auto simp: s4_def intro!: menu_intros)
  then have ok4: "menu_ok s4" and p4: "menu_position s4 = menu_position s"
    using assms(1) menu_ok_same [of s s4] by (simp_all add: menu_upd_def menu_same_def)
  have "menu_show w5 date env m btn s =
      Some (s4\<lparr>menu_position := (menu_position s4)(m := menu_move m btn ?pos)\<rparr>)"
    unfolding menu_show_def Let_def if_not_P [OF assms(2)] busy_def [symmetric] s1_def [symmetric]
      s2_def [symmetric] p s3
    by (simp add: s4_def)
  then show ?thesis
    using menu_ok_position [OF ok4, of m btn] u4
    by (simp add: show_post_def p4 menu_upd_def menu_same_def ks_latched_def)
qed

lemma menu_show_function:
  assumes "menu_ok s" and "menu_inSub s m \<or> menu_itemsLength m = 0"
  shows "\<exists>t. menu_show (ks_wait5 (env_button env)) date env m btn s = Some t \<and> show_post m s t"
proof (cases "menu_subMenuFunction m ::
    (u8 list \<Rightarrow> bridge_env \<Rightarrow> bool \<Rightarrow> u8 \<Rightarrow> button_set \<Rightarrow> 'a menu_scheme \<Rightarrow> 'a menu_scheme) option")
  case None
  define t where "t = lcd_putsp (env_busy env) (chars ''No sub-menu function nor menu items!'') s"
  have "menu_show (ks_wait5 (env_button env)) date env m btn s = Some t"
    unfolding menu_show_def Let_def if_P [OF assms(2)] None t_def by simp
  moreover have "menu_upd s t" by (auto simp: t_def intro!: menu_intros)
  ultimately show ?thesis
    using assms(1) menu_ok_same [of s t] by (simp add: show_post_def menu_upd_def menu_same_def)
next
  case (Some f)
  define hw where "hw = env_button env"
  define s1 where "s1 = (if \<not> menu_inSub s m then ks_setActive (ks_wait5 hw) hw False s else s)"
  define s2 where "s2 = (if ks_isActive hw s1
    then lcd_putsp (env_busy env) (chars ''  KILL  SWITCH'' @ [10] @ chars ''    PRESSED!'') s1
    else f date env (\<not> menu_inSub s1 m) (menu_position s1 m) btn s1)"
  have s1: "menu_same s s1"
    using setActive_menu_same [of s s hw False] by (simp add: s1_def menu_same_def)
  have "menu_upd s1 s2"
    using subMenuFunction_upd [OF Some] by (auto simp: s2_def intro!: menu_intros)
  with s1 have s2: "menu_same s s2" by (simp add: menu_upd_def menu_same_def)
  have "menu_show (ks_wait5 hw) date env m btn s = Some (s2\<lparr>menu_inSub := (menu_inSub s2)(m := True)\<rparr>)"
    unfolding menu_show_def Let_def if_P [OF assms(2)] Some hw_def [symmetric] s1_def [symmetric]
    by (simp add: s2_def)
  with assms(1) menu_ok_same [OF s2] show ?thesis
    by (simp add: show_post_def menu_ok_inSub hw_def)
qed

lemma menu_show_post:
  "menu_ok s \<Longrightarrow> \<exists>t. menu_show (ks_wait5 (env_button env)) date env m btn s = Some t \<and> show_post m s t"
  by (cases "menu_inSub s m \<or> menu_itemsLength m = 0") (rule menu_show_function menu_show_items; assumption)+

lemma menu_safe_same: "menu_same s t \<Longrightarrow> (ks_latched s \<Longrightarrow> ks_latched t) \<Longrightarrow> menu_safe s \<Longrightarrow> menu_safe t"
  by (auto simp: menu_safe_def menu_same_def)

lemma menu_safe_inSub: "menu_inSub s m \<Longrightarrow> menu_safe s"
  by (auto simp: menu_safe_def)

lemma menu_ok_actual: "menu_ok s \<Longrightarrow> menu_ok (s\<lparr>menu_actual := Some m\<rparr>)"
  by (simp add: menu_ok_def)

lemma menu_parent_item:
  "menu_ok s \<Longrightarrow> menu_itemsLength m > 0 \<Longrightarrow> menu_position s m = menu_itemsLength m \<Longrightarrow>
     menu_parent m = Some MainMenu"
  by (cases m) (auto simp: menu_ok_def)

lemma clrscr_same:
  "menu_actual (lcd_clrscr busy s) = menu_actual s"
  "menu_position (lcd_clrscr busy s) = menu_position s"
  "menu_inSub (lcd_clrscr busy s) = menu_inSub s"
  "isInMenu (lcd_clrscr busy s) = isInMenu s"
  using dev_upd_menu_same [OF dev_upd_text(1) [OF dev_upd_refl [of s]], of busy]
  by (simp_all add: menu_same_def)

text \<open>Pressing enter: never through a null pointer, and never out of a sub-menu function without the
  kill switch.\<close>

lemma menu_enter_main:
  assumes "menu_ok s"
  shows "\<exists>t. menu_enter w5 date env MainMenu btn s = Some t \<and> menu_ok t \<and> (menu_safe s \<longrightarrow> menu_safe t)"
proof -
  let ?pos = "menu_position s MainMenu"
  have lt: "?pos < 4" using assms by (simp add: menu_ok_def)
  then obtain item sub where item: "peek (menu_items MainMenu) (unat ?pos) = Some (item, Some sub)"
  proof -
    consider "?pos = 0" | "?pos = 1" | "?pos = 2" | "?pos = 3" using lt by unat_arith
    then show thesis using that by cases (simp_all add: peek_def)
  qed
  have "menu_enter w5 date env MainMenu btn s =
      Some (s\<lparr>menu_actual := Some sub, menu_position := (menu_position s)(sub := 0)\<rparr>)"
    unfolding menu_enter_def Let_def item using lt by simp
  with assms show ?thesis by (auto simp: menu_ok_def menu_safe_def ks_latched_def)
qed

lemma menu_enter_sub:
  assumes ok: "menu_ok s" and m: "m \<noteq> MainMenu"
  shows "\<exists>t. menu_enter (ks_wait5 (env_button env)) date env m btn s = Some t \<and> menu_ok t \<and>
    (menu_safe s \<longrightarrow> menu_safe t)"
proof -
  define hw where "hw = env_button env"
  have parent: "menu_parent m = Some MainMenu" using m by (cases m) simp_all
  obtain f where f: "menu_subMenuFunction m = Some (f ::
      u8 list \<Rightarrow> bridge_env \<Rightarrow> bool \<Rightarrow> u8 \<Rightarrow> button_set \<Rightarrow> 'a menu_scheme \<Rightarrow> 'a menu_scheme)"
    using m by (cases m) simp_all
  consider (exit) "menu_itemsLength m > 0 \<and> menu_position s m = menu_itemsLength m"
    | (enter) "\<not> (menu_itemsLength m > 0 \<and> menu_position s m = menu_itemsLength m)" "\<not> menu_inSub s m"
    | (leave) "\<not> (menu_itemsLength m > 0 \<and> menu_position s m = menu_itemsLength m)" "menu_inSub s m"
    by blast
  then show ?thesis
  proof cases
    case exit
    with ok show ?thesis
      by (simp add: menu_enter_def Let_def parent menu_ok_actual menu_safe_def ks_latched_def)
  next
    case enter
    define s1 where "s1 = s\<lparr>menu_inSub := (menu_inSub s)(m := True)\<rparr>"
    define s2 where "s2 = lcd_clrscr (env_busy env) (ks_setActive (ks_wait5 hw) hw False s1)"
    define t where "t = f date env True (menu_position s2 m) btn s2"
    have s2: "menu_same s1 s2"
      using setActive_menu_same [of s1 s1 hw False]
      by (simp add: s2_def menu_same_def clrscr_same)
    have "menu_upd s2 t" unfolding t_def by (rule subMenuFunction_upd [OF f])
    with s2 have t: "menu_same s1 t" by (simp add: menu_upd_def menu_same_def)
    have "menu_enter (ks_wait5 hw) date env m btn s = Some t"
      unfolding menu_enter_def Let_def if_not_P [OF enter(1)] f t_def s2_def s1_def hw_def
      using enter(2) by simp
    moreover have "menu_inSub t m" using t by (simp add: menu_same_def s1_def)
    moreover have "menu_ok t" using menu_ok_same [OF t] ok by (simp add: s1_def menu_ok_inSub)
    ultimately show ?thesis by (auto simp: hw_def menu_safe_inSub)
  next
    case leave
    define s1 where "s1 = ks_setActive (ks_wait5 hw) hw True (s\<lparr>menu_inSub := (menu_inSub s)(m := False)\<rparr>)"
    have "ks_latched s1" by (simp add: s1_def ks_setActive_def)
    moreover have "menu_ok s1"
      using menu_ok_same [OF setActive_menu_same, of "s\<lparr>menu_inSub := (menu_inSub s)(m := False)\<rparr>"
        "s\<lparr>menu_inSub := (menu_inSub s)(m := False)\<rparr>" hw True] ok
      by (simp add: s1_def menu_ok_inSub menu_same_def)
    moreover have "menu_enter (ks_wait5 hw) date env m btn s =
        Some (if menu_itemsLength m = 0 then s1\<lparr>menu_actual := Some MainMenu\<rparr> else s1)"
      unfolding menu_enter_def Let_def if_not_P [OF leave(1)] f s1_def hw_def
      using leave(2) parent by simp
    ultimately show ?thesis
      by (auto simp: hw_def menu_ok_actual menu_safe_def ks_latched_def)
  qed
qed

lemma menu_process_self_ok:
  assumes ok: "menu_ok s"
  shows "\<exists>t. menu_process_self (ks_wait5 (env_button env)) (ks_wait 30 (env_button env)) date env m s =
    Some t \<and> menu_ok t \<and> (menu_safe s \<longrightarrow> menu_safe t)"
proof -
  define hw where "hw = env_button env"
  define s1 where "s1 = lcd_clrscr (env_busy env) s"
  define b where "b = getButtonsState (ks_wait 30 hw) (env_pins env) (env_pins30 env) True s1"
  have u1: "menu_upd s s1" by (simp add: s1_def menu_upd_dev [OF dev_upd_text(1) [OF dev_upd_refl] menu_upd_refl])
  then have "menu_same s (snd b)"
    using buttons_menu_same [of s1 hw "env_pins env" "env_pins30 env" True]
    by (simp add: b_def menu_upd_def menu_same_def)
  then have okb: "menu_ok (snd b)" and safeb: "menu_safe s \<Longrightarrow> menu_safe (snd b)"
    using ok menu_ok_same u1 buttons_latched [of s1 hw "env_pins env" "env_pins30 env" True]
    by (auto simp: b_def menu_upd_def intro: menu_safe_same)
  obtain t where t: "menu_show (ks_wait5 hw) date env m (fst b) (snd b) = Some t" "show_post m (snd b) t"
    using menu_show_post [OF okb, of env date m "fst b"] by (auto simp: hw_def)
  then have okt: "menu_ok t" and safet: "menu_safe s \<Longrightarrow> menu_safe t"
    using safeb by (auto simp: show_post_def menu_safe_def)
  have eq: "menu_process_self (ks_wait5 hw) (ks_wait 30 hw) date env m s =
      (if b_enter (fst b) then menu_enter (ks_wait5 hw) date env m (fst b) t else Some t)"
    by (simp add: menu_process_self_def Let_def case_prod_beta t(1) flip: s1_def b_def)
  have "\<exists>u. menu_enter (ks_wait5 hw) date env m (fst b) t = Some u \<and> menu_ok u \<and>
      (menu_safe t \<longrightarrow> menu_safe u)"
    using menu_enter_main [OF okt] menu_enter_sub [OF okt, of m env] by (cases "m = MainMenu") (auto simp: hw_def)
  then show ?thesis using eq okt safet by (auto simp: hw_def)
qed

lemma menu_poll_ok:
  assumes "menu_ok s"
  shows "\<exists>t. menu_poll (ks_wait5 (env_button env)) (ks_wait 30 (env_button env)) date env s =
    Some t \<and> menu_ok t \<and> (menu_safe s \<longrightarrow> menu_safe t)"
proof (cases "isInMenu s")
  case True
  then show ?thesis
    using assms menu_process_self_ok [OF assms, of env date] by (auto simp: menu_poll_def menu_process_def menu_ok_def)
next
  case False
  define b where "b = getButtonsState (ks_wait 30 (env_button env)) (env_pins env) (env_pins30 env) False s"
  have b: "snd b = s" by (simp add: b_def getButtonsState_def)
  have "menu_ok (t\<lparr>isInMenu := True\<rparr>) = menu_ok t" "menu_safe (t\<lparr>isInMenu := True\<rparr>) = menu_safe t" for t :: "'a menu_scheme"
    by (simp_all add: menu_ok_def menu_safe_def ks_latched_def)
  with False assms b show ?thesis
    by (auto simp: menu_poll_def case_prod_beta simp flip: b_def)
qed

section \<open>Properties\<close>

text \<open>What the main loop and the host do to the menu: polls, each with its own environment, and
  \<open>reinitMenu\<close> (called when the host takes over).\<close>

datatype menu_event = MenuPoll bridge_env | MenuReinit

fun menu_run :: "u8 list \<Rightarrow> menu_event list \<Rightarrow> 'a menu_scheme \<Rightarrow> 'a menu_scheme option" where
  "menu_run date [] s = Some s"
| "menu_run date (MenuPoll env # es) s =
     Option.bind (menu_poll (ks_wait5 (env_button env)) (ks_wait 30 (env_button env)) date env s)
       (menu_run date es)"
| "menu_run date (MenuReinit # es) s = menu_run date es (reinitMenu s)"

lemma menu_run_ok:
  "menu_ok s \<Longrightarrow> menu_safe s \<Longrightarrow> \<exists>t. menu_run date es s = Some t \<and> menu_ok t \<and> menu_safe t"
proof (induction date es s rule: menu_run.induct)
  case (2 date env es s)
  then show ?case using menu_poll_ok [OF 2(2), of env date] by auto
next
  case (3 date es s)
  then show ?case by (simp add: reinitMenu_def menu_ok_def menu_safe_def ks_latched_def)
qed simp

text \<open>C37: From power-up, whatever the buttons, the bus, the display and the external kill switch do,
  every sequence of menu polls runs without following a null pointer or reading behind an item
  array, the positions stay inside the menus, and the kill switch is engaged by the firmware in
  every state in which no menu is inside its sub-menu function.\<close>

theorem menu_run_safe:
  fixes date :: "u8 list" and es :: "menu_event list" and hw :: bool
  defines "r \<equiv> menu_run date es (menu_init (ks_init hw menu_static_init))"
  shows "r \<noteq> None \<and> (ks_latched (the r) \<or> (\<exists>m. menu_inSub (the r) m)) \<and>
    menu_actual (the r) \<noteq> None \<and> (\<forall>m. unat (menu_position (the r) m) \<le> length (menu_items m))"
proof -
  have "menu_ok (menu_init (ks_init hw menu_static_init))"
    by (simp add: menu_init_def ks_init_def ks_setActive_def ks_activate_def Let_def reinitMenu_def
        menu_ok_def menu_static_init_def lcd.defs)
  moreover have "menu_safe (menu_init (ks_init hw menu_static_init))"
    by (simp add: menu_init_def ks_init_def ks_setActive_def reinitMenu_def menu_safe_def)
       (simp add: ks_activate_def Let_def ks_latched_def port_simps)
  ultimately obtain t where "r = Some t" "menu_ok t" "menu_safe t"
    using menu_run_ok r_def by blast
  then show ?thesis by (auto simp: menu_ok_def menu_safe_def items_length word_le_nat_alt)
qed

end
