(* ===== verification/Usb_Command.thy ===== *)
theory Usb_Command
  imports Protocol
begin

text \<open>
  The abstract content of a USB message: the commands that \<open>usb-commands.hpp\<close> defines, as a
  datatype, and their byte encoding. This is the specification both ends are proved against: the
  server's requests are encodings of commands (\<open>Server_Interface\<close>, \<open>Interface_Manager\<close>) and the
  command loop of the bridge executes the commands a message encodes (\<open>Bridge_Usb\<close>).
\<close>

datatype usb_cmd =
    LcdSet "u8 list"
  | GetState
  | SetKillswitch u8
  | ResetDevice
  | MotorSet specific_motor_state
  | MotorGet u8
  | ArmSet joint_state
  | ArmBrake
  | ArmCalibrate
  | ArmGet u8
  | ArmGetGeneral
  | ExpanderSet u8
  | ExpanderGet

fun encode_cmd :: "usb_cmd \<Rightarrow> u8 list" where
  "encode_cmd (LcdSet t) = request_code BRIDGE_LCD_SET # of_nat (length t) # t"
| "encode_cmd GetState = [request_code BRIDGE_GET_STATE]"
| "encode_cmd (SetKillswitch b) = [request_code BRIDGE_SET_KILLSWITCH, b]"
| "encode_cmd ResetDevice = [request_code BRIDGE_RESET_DEVICE]"
| "encode_cmd (MotorSet m) = request_code MOTOR_DRIVER_SET # motor_state_bytes m"
| "encode_cmd (MotorGet m) = [request_code MOTOR_DRIVER_GET, m]"
| "encode_cmd (ArmSet j) = request_code ARM_DRIVER_SET # joint_state_bytes j"
| "encode_cmd ArmBrake = [request_code ARM_DRIVER_SET, ARM_ADD_BRAKE]"
| "encode_cmd ArmCalibrate = [request_code ARM_DRIVER_SET, ARM_ADD_CALIBRATE]"
| "encode_cmd (ArmGet m) = [request_code ARM_DRIVER_GET, m]"
| "encode_cmd ArmGetGeneral = [request_code ARM_DRIVER_GET_GENERAL_STATE]"
| "encode_cmd (ExpanderSet b) = [request_code EXPANDER_SET, b]"
| "encode_cmd ExpanderGet = [request_code EXPANDER_GET]"

text \<open>
  The commands whose encoding can be read back: the text length fits its byte, and the motor of a
  joint command is not one of the two additional commands.
\<close>

fun cmd_ok :: "usb_cmd \<Rightarrow> bool" where
  "cmd_ok (LcdSet t) = (length t < 256)"
| "cmd_ok (ArmSet j) = (jst_motor j \<noteq> ARM_ADD_BRAKE \<and> jst_motor j \<noteq> ARM_ADD_CALIBRATE)"
| "cmd_ok _ = True"

definition encode_cmds :: "usb_cmd list \<Rightarrow> u8 list" where
  "encode_cmds cs = concat (map encode_cmd cs)"

lemma encode_cmds_simps [simp]:
  "encode_cmds [] = []"
  "encode_cmds (c # cs) = encode_cmd c @ encode_cmds cs"
  "encode_cmds (xs @ ys) = encode_cmds xs @ encode_cmds ys"
  by (simp_all add: encode_cmds_def)

text \<open>The request byte and the argument bytes of a command.\<close>

fun cmd_request :: "usb_cmd \<Rightarrow> usb_request" where
  "cmd_request (LcdSet t) = BRIDGE_LCD_SET"
| "cmd_request GetState = BRIDGE_GET_STATE"
| "cmd_request (SetKillswitch b) = BRIDGE_SET_KILLSWITCH"
| "cmd_request ResetDevice = BRIDGE_RESET_DEVICE"
| "cmd_request (MotorSet m) = MOTOR_DRIVER_SET"
| "cmd_request (MotorGet m) = MOTOR_DRIVER_GET"
| "cmd_request (ArmSet j) = ARM_DRIVER_SET"
| "cmd_request ArmBrake = ARM_DRIVER_SET"
| "cmd_request ArmCalibrate = ARM_DRIVER_SET"
| "cmd_request (ArmGet m) = ARM_DRIVER_GET"
| "cmd_request ArmGetGeneral = ARM_DRIVER_GET_GENERAL_STATE"
| "cmd_request (ExpanderSet b) = EXPANDER_SET"
| "cmd_request ExpanderGet = EXPANDER_GET"

fun cmd_args :: "usb_cmd \<Rightarrow> u8 list" where
  "cmd_args (LcdSet t) = of_nat (length t) # t"
| "cmd_args (SetKillswitch b) = [b]"
| "cmd_args (MotorSet m) = motor_state_bytes m"
| "cmd_args (MotorGet m) = [m]"
| "cmd_args (ArmSet j) = joint_state_bytes j"
| "cmd_args ArmBrake = [ARM_ADD_BRAKE]"
| "cmd_args ArmCalibrate = [ARM_ADD_CALIBRATE]"
| "cmd_args (ArmGet m) = [m]"
| "cmd_args (ExpanderSet b) = [b]"
| "cmd_args _ = []"

lemma encode_cmd_split: "encode_cmd c = request_code (cmd_request c) # cmd_args c"
  by (cases c) simp_all

section \<open>Reading commands back\<close>

text \<open>A reference parser: the first command of a byte sequence and what follows it.\<close>

definition decode_arm_set :: "u8 list \<Rightarrow> (usb_cmd \<times> u8 list) option" where
  "decode_arm_set args =
     (case args of
        [] \<Rightarrow> None
      | a # rest \<Rightarrow>
          if a = ARM_ADD_BRAKE then Some (ArmBrake, rest)
          else if a = ARM_ADD_CALIBRATE then Some (ArmCalibrate, rest)
          else (case read_joint_state args of
                  None \<Rightarrow> None
                | Some j \<Rightarrow> Some (ArmSet j, drop 5 args)))"

definition decode_args :: "usb_request \<Rightarrow> u8 list \<Rightarrow> (usb_cmd \<times> u8 list) option" where
  "decode_args r args =
     (case r of
        BRIDGE_LCD_SET \<Rightarrow>
          (case args of
             [] \<Rightarrow> None
           | n # t \<Rightarrow> if unat n \<le> length t then Some (LcdSet (take (unat n) t), drop (unat n) t)
                      else None)
      | BRIDGE_GET_STATE \<Rightarrow> Some (GetState, args)
      | BRIDGE_SET_KILLSWITCH \<Rightarrow> (case args of [] \<Rightarrow> None | b # t \<Rightarrow> Some (SetKillswitch b, t))
      | BRIDGE_RESET_DEVICE \<Rightarrow> Some (ResetDevice, args)
      | MOTOR_DRIVER_SET \<Rightarrow>
          (case read_motor_state args of None \<Rightarrow> None | Some m \<Rightarrow> Some (MotorSet m, drop 3 args))
      | MOTOR_DRIVER_GET \<Rightarrow> (case args of [] \<Rightarrow> None | m # t \<Rightarrow> Some (MotorGet m, t))
      | ARM_DRIVER_SET \<Rightarrow> decode_arm_set args
      | ARM_DRIVER_GET \<Rightarrow> (case args of [] \<Rightarrow> None | m # t \<Rightarrow> Some (ArmGet m, t))
      | ARM_DRIVER_GET_GENERAL_STATE \<Rightarrow> Some (ArmGetGeneral, args)
      | EXPANDER_SET \<Rightarrow> (case args of [] \<Rightarrow> None | b # t \<Rightarrow> Some (ExpanderSet b, t))
      | EXPANDER_GET \<Rightarrow> Some (ExpanderGet, args)
      | MESSAGE_END \<Rightarrow> None)"

definition decode_cmd :: "u8 list \<Rightarrow> (usb_cmd \<times> u8 list) option" where
  "decode_cmd bs =
     (case bs of
        [] \<Rightarrow> None
      | b # args \<Rightarrow> (case request_of_code b of None \<Rightarrow> None | Some r \<Rightarrow> decode_args r args))"

text \<open>A message up to its \<open>MESSAGE_END\<close>; the fuel is the number of commands.\<close>

fun decode_message :: "nat \<Rightarrow> u8 list \<Rightarrow> usb_cmd list option" where
  "decode_message 0 bs = None"
| "decode_message (Suc n) bs =
     (if bs \<noteq> [] \<and> hd bs = request_code MESSAGE_END then Some []
      else (case decode_cmd bs of
              None \<Rightarrow> None
            | Some (c, rest) \<Rightarrow> map_option (Cons c) (decode_message n rest)))"

lemma unat_length_u8: "n < 256 \<Longrightarrow> unat (of_nat n :: u8) = n"
  using take_bit_nat_eq_self [of n 8] by (simp add: unsigned_of_nat)

lemma joint_bytes_Cons: "joint_state_bytes j = jst_motor j # tl (joint_state_bytes j)"
  by (simp add: joint_state_bytes_def)

lemma drop_struct [simp]:
  "drop 3 (motor_state_bytes m @ rest) = rest"
  "drop 5 (joint_state_bytes j @ rest) = rest"
  by (simp_all add: motor_state_bytes_def joint_state_bytes_def)

lemma decode_arm_set_joint:
  "jst_motor j \<noteq> ARM_ADD_BRAKE \<Longrightarrow> jst_motor j \<noteq> ARM_ADD_CALIBRATE \<Longrightarrow>
   decode_arm_set (joint_state_bytes j @ rest) = Some (ArmSet j, rest)"
  by (simp add: decode_arm_set_def joint_state_bytes_def)

lemma decode_arm_set_add:
  "decode_arm_set (ARM_ADD_BRAKE # rest) = Some (ArmBrake, rest)"
  "decode_arm_set (ARM_ADD_CALIBRATE # rest) = Some (ArmCalibrate, rest)"
  by (simp_all add: decode_arm_set_def)

lemma decode_encode [simp]: "cmd_ok c \<Longrightarrow> decode_cmd (encode_cmd c @ rest) = Some (c, rest)"
  by (cases c) (simp_all add: decode_cmd_def decode_args_def unat_length_u8 decode_arm_set_joint
      decode_arm_set_add del: request_code.simps)

lemma hd_encode: "encode_cmd c \<noteq> [] \<and> hd (encode_cmd c) \<noteq> request_code MESSAGE_END"
  by (cases c) simp_all

lemma decode_message_encode:
  "\<forall>c \<in> set cs. cmd_ok c \<Longrightarrow> length cs < n \<Longrightarrow>
   decode_message n (encode_cmds cs @ request_code MESSAGE_END # rest) = Some cs"
proof (induction cs arbitrary: n)
  case Nil
  then show ?case by (cases n) simp_all
next
  case (Cons c cs)
  then obtain m where "n = Suc m" by (cases n) simp_all
  with Cons show ?case
    using hd_encode [of c] by (auto simp del: request_code.simps)
qed

end
