(* ===== verification/Bridge_Usb.thy ===== *)
theory Bridge_Usb
  imports Bridge_Menu Usb_Command
begin

text \<open>
  The USB side of the bridge: \<open>usb_processcommands.cpp\<close> and \<open>usb_support.cpp\<close>. The device state of the lower modules is the component \<open>dev\<close> of the state. Reading or
  writing outside a buffer, the reset of the device and a loop that does not end are values of
  \<open>exec_stop\<close>. The USB library is the environment: a packet that has arrived is an argument of
  \<open>usb_poll\<close>. No packet is taken to arrive during the waits inside a command or a menu function.
\<close>

section \<open>Buffers\<close>

abbreviation (input) BUFFER_SIZE :: nat where "BUFFER_SIZE \<equiv> 128"

record usb_buffer =
  buf_data :: "u8 list"
  buf_length :: u8
  buf_pos :: u8

definition buffer_static :: usb_buffer where
  "buffer_static = \<lparr>buf_data = 255 # replicate BUFFER_SIZE 0, buf_length = 0, buf_pos = 0\<rparr>"

text \<open>\<open>push\<close>: \<open>None\<close> when a byte would be written behind the array.\<close>

fun buffer_push_loop :: "u8 list \<Rightarrow> usb_buffer \<Rightarrow> usb_buffer option" where
  "buffer_push_loop [] b = Some b"
| "buffer_push_loop (x # xs) b =
     (case poke (buf_data b) (unat (buf_pos b)) x of
        None \<Rightarrow> None
      | Some bytes \<Rightarrow> buffer_push_loop xs (b\<lparr>buf_data := bytes, buf_pos := buf_pos b + 1\<rparr>))"

definition buffer_push :: "u8 list \<Rightarrow> usb_buffer \<Rightarrow> usb_buffer option" where
  "buffer_push bytes b =
     map_option (\<lambda>b. b\<lparr>buf_length := buf_length b + of_nat (length bytes)\<rparr>) (buffer_push_loop bytes b)"

definition buffer_init :: "usb_buffer \<Rightarrow> usb_buffer" where
  "buffer_init b =
     (let b = b\<lparr>buf_pos := 0\<rparr>; b = b\<lparr>buf_length := 0\<rparr>
      in b\<lparr>buf_data := memcpy (buf_data b) (replicate BUFFER_SIZE (request_code MESSAGE_END))\<rparr>)"

section \<open>State\<close>

record bridge =
  dev :: menu
  InputBuff :: usb_buffer
  OutputBuff :: usb_buffer
  responseReady :: bool
  menuEnabled :: bool
  TIMSK1 :: u8
  TCNT1 :: u16
  TCCR1A :: u8
  TCCR1B :: u8
  OCR1A :: u16

text \<open>The \<open>direction\<close> of the motor structure is sent without having been set: its byte is what the
  stack holds, a function of the position in the output.\<close>

record usb_env = bridge_env +
  env_uninit :: "u8 \<Rightarrow> u8"

datatype exec_stop = StopReset | StopOutOfBounds | StopOutOfFuel

definition bridge_static_init :: bridge where
  "bridge_static_init = \<lparr>dev = menu_static_init, InputBuff = buffer_static, OutputBuff = buffer_static,
     responseReady = False, menuEnabled = True, TIMSK1 = 0, TCNT1 = 0, TCCR1A = 0, TCCR1B = 0, OCR1A = 0\<rparr>"

section \<open>\<open>executeCommandsFromUSB\<close>\<close>

text \<open>Reading the input at the current position, advancing it, and writing to the output.\<close>

definition in_byte :: "bridge \<Rightarrow> (u8 \<Rightarrow> exec_stop + bridge) \<Rightarrow> exec_stop + bridge" where
  "in_byte s f = (case peek (buf_data (InputBuff s)) (unat (buf_pos (InputBuff s))) of
                    None \<Rightarrow> Inl StopOutOfBounds
                  | Some b \<Rightarrow> f b)"

definition in_rest :: "bridge \<Rightarrow> u8 list" where
  "in_rest s = drop (unat (buf_pos (InputBuff s))) (buf_data (InputBuff s))"

definition in_advance :: "u8 \<Rightarrow> bridge \<Rightarrow> bridge" where
  "in_advance n s = s\<lparr>InputBuff := (InputBuff s)\<lparr>buf_pos := buf_pos (InputBuff s) + n\<rparr>\<rparr>"

definition out_push :: "u8 list \<Rightarrow> bridge \<Rightarrow> exec_stop + bridge" where
  "out_push bytes s = (case buffer_push bytes (OutputBuff s) of
                         None \<Rightarrow> Inl StopOutOfBounds
                       | Some b \<Rightarrow> Inr (s\<lparr>OutputBuff := b\<rparr>))"

definition get_state :: "usb_env \<Rightarrow> menu \<Rightarrow> bridge_state" where
  "get_state env d =
     (let btn = fst (getButtonsState id (env_pins env) (env_pins30 env) False d)
      in \<lparr>bst_rawVoltage = rawVoltage (env_adc env), bst_rawCurrent = rawCurrent (env_adc env),
          bst_buttonUp = b_up btn, bst_buttonDown = b_down btn, bst_buttonEnter = b_enter btn,
          bst_killSwitchCausedByHardware = causedByHardware d,
          bst_killSwitch = (if ks_isActive (env_button env) d then KS_ACTIVE else KS_INACTIVE)\<rparr>)"

text \<open>The cases of the \<open>switch\<close>.\<close>

definition exec_request :: "usb_env \<Rightarrow> usb_request \<Rightarrow> bridge \<Rightarrow> exec_stop + bridge" where
  "exec_request env req s =
     (let bus = env_bus env; busy = env_busy env; hw = env_button env; d = dev s in
      case req of
        BRIDGE_GET_STATE \<Rightarrow> out_push (bridge_state_bytes (get_state env d)) s
      | BRIDGE_SET_KILLSWITCH \<Rightarrow>
          in_byte s (\<lambda>b. Inr (in_advance 1
            (s\<lparr>dev := ks_setActive (ks_wait5 hw) hw (\<not> b = KS_INACTIVE) d\<rparr>)))
      | EXPANDER_GET \<Rightarrow>
          (let (val, d) = expander_getValue bus d in out_push [val] (s\<lparr>dev := d\<rparr>))
      | EXPANDER_SET \<Rightarrow>
          in_byte s (\<lambda>b. Inr (in_advance 1 (s\<lparr>dev := expander_setValue bus b d\<rparr>)))
      | ARM_DRIVER_GET_GENERAL_STATE \<Rightarrow>
          (let (c, d) = arm_drv_isCalibrated bus d;
               (m, d) = arm_drv_getMode bus d
           in out_push (general_state_bytes \<lparr>gst_isCalibrated = c, gst_mode = m\<rparr>) (s\<lparr>dev := d\<rparr>))
      | ARM_DRIVER_GET \<Rightarrow>
          in_byte s (\<lambda>m.
            (let (direction, d) = arm_drv_getDirection bus m d;
                 (speed, d) = arm_drv_getSpeed bus m d;
                 (position, d) = arm_drv_getPosition bus m d
             in map_sum id (in_advance 1)
                  (out_push (joint_state_bytes \<lparr>jst_motor = m, jst_direction = direction, jst_speed = speed,
                     jst_setPosition = False, jst_position = position\<rparr>) (s\<lparr>dev := d\<rparr>))))
      | MOTOR_DRIVER_GET \<Rightarrow>
          in_byte s (\<lambda>m.
            (let (speed, d) = motor_drv_getSpeed bus m d
             in map_sum id (in_advance 1)
                  (out_push (motor_state_bytes \<lparr>sms_motor = m,
                     sms_direction = env_uninit env (buf_pos (OutputBuff s)), sms_speed = speed\<rparr>)
                     (s\<lparr>dev := d\<rparr>))))
      | ARM_DRIVER_SET \<Rightarrow>
          in_byte s (\<lambda>b.
            if b = ARM_ADD_BRAKE then Inr (in_advance 1 (s\<lparr>dev := arm_drv_brake bus d\<rparr>))
            else if b = ARM_ADD_CALIBRATE then Inr (in_advance 1 (s\<lparr>dev := arm_drv_calibrate bus d\<rparr>))
            else (case read_joint_state (in_rest s) of
                    None \<Rightarrow> Inl StopOutOfBounds
                  | Some j \<Rightarrow>
                      (let d = arm_drv_setSpeed bus (jst_motor j) (jst_speed j) d;
                           d = (if jst_setPosition j then arm_drv_setPosition bus (jst_motor j) (jst_position j) d
                                else arm_drv_setDirection bus (jst_motor j) (jst_direction j) d)
                       in Inr (in_advance 5 (s\<lparr>dev := d\<rparr>)))))
      | MOTOR_DRIVER_SET \<Rightarrow>
          (case read_motor_state (in_rest s) of
             None \<Rightarrow> Inl StopOutOfBounds
           | Some m \<Rightarrow>
               (let d = motor_drv_setSpeed bus (sms_motor m) (sms_speed m) d;
                    d = motor_drv_setDirection bus (sms_motor m) (sms_direction m) d
                in Inr (in_advance 3 (s\<lparr>dev := d\<rparr>))))
      | BRIDGE_LCD_SET \<Rightarrow>
          in_byte s (\<lambda>n.
            (case lcd_puts busy (drop 1 (in_rest s)) (unat n) (lcd_clrscr busy d) of
               None \<Rightarrow> Inl StopOutOfBounds
             | Some d \<Rightarrow> Inr (in_advance (n + 1) (s\<lparr>dev := d\<rparr>))))
      | MESSAGE_END \<Rightarrow>
          Inr (s\<lparr>InputBuff := (InputBuff s)\<lparr>buf_pos := buf_length (InputBuff s) + 1\<rparr>\<rparr>)
      | BRIDGE_RESET_DEVICE \<Rightarrow> Inl StopReset)"

text \<open>The loop; \<open>currentPosition - 1\<close> is computed in \<open>int\<close>, so at position 0 it is outside the array.\<close>

fun exec_loop :: "nat \<Rightarrow> usb_env \<Rightarrow> bridge \<Rightarrow> exec_stop + bridge" where
  "exec_loop 0 env s = Inl StopOutOfFuel"
| "exec_loop (Suc fuel) env s =
     (let pos = buf_pos (InputBuff s) in
      if \<not> pos \<le> buf_length (InputBuff s) then Inr s
      else if pos = 0 then Inl StopOutOfBounds
      else (case peek (buf_data (InputBuff s)) (unat pos - 1) of
              None \<Rightarrow> Inl StopOutOfBounds
            | Some b \<Rightarrow>
                (case (case request_of_code b of None \<Rightarrow> Inr s | Some req \<Rightarrow> exec_request env req s) of
                   Inl e \<Rightarrow> Inl e
                 | Inr s \<Rightarrow> exec_loop fuel env (in_advance 1 s))))"

definition executeCommandsFromUSB :: "nat \<Rightarrow> usb_env \<Rightarrow> bridge \<Rightarrow> exec_stop + bridge" where
  "executeCommandsFromUSB fuel env s =
     (let s = s\<lparr>OutputBuff := buffer_init (OutputBuff s)\<rparr>;
          s = s\<lparr>InputBuff := (InputBuff s)\<lparr>buf_pos := 1\<rparr>\<rparr>
      in map_sum id (\<lambda>s. s\<lparr>responseReady := True\<rparr>) (exec_loop fuel env s))"

section \<open>\<open>usb_support.cpp\<close>\<close>

abbreviation (input) OCIE1A :: nat where "OCIE1A \<equiv> 1"
abbreviation (input) WGM12 :: nat where "WGM12 \<equiv> 3"
abbreviation (input) CS12 :: nat where "CS12 \<equiv> 2"

definition VENDOR_OUT_EPSIZE :: nat where "VENDOR_OUT_EPSIZE = 64"
definition VENDOR_IN_EPSIZE :: nat where "VENDOR_IN_EPSIZE = 64"

definition timerSetEnabled :: "bool \<Rightarrow> bridge \<Rightarrow> bridge" where
  "timerSetEnabled enabled s =
     (if enabled
      then (let s = s\<lparr>menuEnabled := False\<rparr>; s = s\<lparr>TCNT1 := 0\<rparr> in s\<lparr>TIMSK1 := sbi OCIE1A (TIMSK1 s)\<rparr>)
      else (let s = s\<lparr>TIMSK1 := cbi OCIE1A (TIMSK1 s)\<rparr> in s\<lparr>menuEnabled := True\<rparr>))"

definition timerReset :: "(nat \<Rightarrow> nat) \<Rightarrow> bridge \<Rightarrow> bridge" where
  "timerReset busy s =
     (let s = (if menuEnabled s then s\<lparr>menuEnabled := False, dev := lcd_clrscr busy (dev s)\<rparr> else s)
      in timerSetEnabled True s)"

definition TIMER1_COMPA_vect :: "usb_env \<Rightarrow> bridge \<Rightarrow> bridge" where
  "TIMER1_COMPA_vect env s =
     (let s = timerSetEnabled False s;
          d = ks_setActive (ks_wait5 (env_button env)) (env_button env) True (dev s);
          d = lcd_clrscr (env_busy env) d;
          d = lcd_putsp (env_busy env) (chars ''HOST SEVERED'' @ [10] @ chars ''COMMUNICATION'') d
      in s\<lparr>dev := reinitMenu d\<rparr>)"

definition EVENT_USB_Device_Connect :: "bridge \<Rightarrow> bridge" where
  "EVENT_USB_Device_Connect s =
     (let s = timerSetEnabled False s;
          s = s\<lparr>dev := led_setState YELLOW False (dev s)\<rparr>
      in s\<lparr>dev := led_setState GREEN False (dev s)\<rparr>)"

definition EVENT_USB_Device_Disconnect :: "bridge \<Rightarrow> bridge" where
  "EVENT_USB_Device_Disconnect s =
     (let s = timerSetEnabled False s;
          s = s\<lparr>dev := led_setState YELLOW False (dev s)\<rparr>
      in s\<lparr>dev := led_setState GREEN False (dev s)\<rparr>)"

text \<open>\<open>inOk\<close> and \<open>outOk\<close> are the results of \<open>Endpoint_ConfigureEndpoint\<close>.\<close>

definition EVENT_USB_Device_ConfigurationChanged :: "bool \<Rightarrow> bool \<Rightarrow> bridge \<Rightarrow> bridge" where
  "EVENT_USB_Device_ConfigurationChanged inOk outOk s =
     (let s = timerSetEnabled False s;
          ConfigSuccess = True;
          ConfigSuccess = (ConfigSuccess \<and> inOk);
          ConfigSuccess = (ConfigSuccess \<and> outOk)
      in s\<lparr>dev := led_setState GREEN ConfigSuccess (dev s)\<rparr>)"

definition usb_init :: "bridge \<Rightarrow> bridge" where
  "usb_init s =
     (let s = s\<lparr>dev := led_setState GREEN False (led_setState YELLOW False (dev s))\<rparr>;
          s = s\<lparr>TCCR1A := 0\<rparr>;
          s = s\<lparr>TCCR1B := push_bit WGM12 1 OR push_bit CS12 1\<rparr>
      in s\<lparr>OCR1A := 10000\<rparr>)"

text \<open>A packet is 128 bytes; the result is the 64 bytes written to the IN endpoint, if any. The loop
  is given one step more than the input has positions.\<close>

definition usb_poll :: "usb_env \<Rightarrow> u8 list option \<Rightarrow> bridge \<Rightarrow> exec_stop + u8 list option \<times> bridge" where
  "usb_poll env packet s =
     (case packet of
        None \<Rightarrow> Inr (None, s)
      | Some bytes \<Rightarrow>
          (let s = s\<lparr>dev := led_setState YELLOW True (dev s)\<rparr>;
               s = timerReset (env_busy env) s;
               s = s\<lparr>InputBuff := (InputBuff s)\<lparr>buf_length := of_nat HOST_TO_DEVICE_DATAPACKET_SIZE\<rparr>\<rparr>;
               s = s\<lparr>InputBuff := (InputBuff s)\<lparr>buf_data :=
                     memcpy (buf_data (InputBuff s)) (take (2 * VENDOR_OUT_EPSIZE) bytes)\<rparr>\<rparr>
           in case executeCommandsFromUSB 130 env s of
                Inl e \<Rightarrow> Inl e
              | Inr s \<Rightarrow>
                  Inr (Some (take VENDOR_IN_EPSIZE (buf_data (OutputBuff s))),
                       s\<lparr>dev := led_setState YELLOW False (dev s)\<rparr>)))"

definition isMenuEnabled :: "bridge \<Rightarrow> bool" where
  "isMenuEnabled s = menuEnabled s"

section \<open>What a command does\<close>

text \<open>
  The specification of the loop: the reply bytes and the device state after one command, and a list
  of commands in sequence, with the replies appended to those already there.
\<close>

definition joint_reply :: "i2c_bus \<Rightarrow> u8 \<Rightarrow> menu \<Rightarrow> joint_state \<times> menu" where
  "joint_reply bus m d =
     (let (direction, d) = arm_drv_getDirection bus m d;
          (speed, d) = arm_drv_getSpeed bus m d;
          (position, d) = arm_drv_getPosition bus m d
      in (\<lparr>jst_motor = m, jst_direction = direction, jst_speed = speed, jst_setPosition = False,
           jst_position = position\<rparr>, d))"

fun cmd_effect :: "usb_env \<Rightarrow> u8 \<Rightarrow> usb_cmd \<Rightarrow> menu \<Rightarrow> u8 list \<times> menu" where
  "cmd_effect env p (LcdSet t) d = ([], lcd_putsp (env_busy env) t (lcd_clrscr (env_busy env) d))"
| "cmd_effect env p GetState d = (bridge_state_bytes (get_state env d), d)"
| "cmd_effect env p (SetKillswitch b) d =
     ([], ks_setActive (ks_wait5 (env_button env)) (env_button env) (b \<noteq> KS_INACTIVE) d)"
| "cmd_effect env p ResetDevice d = ([], d)"
| "cmd_effect env p (MotorSet m) d =
     ([], motor_drv_setDirection (env_bus env) (sms_motor m) (sms_direction m)
            (motor_drv_setSpeed (env_bus env) (sms_motor m) (sms_speed m) d))"
| "cmd_effect env p (MotorGet m) d =
     (let (speed, d) = motor_drv_getSpeed (env_bus env) m d
      in (motor_state_bytes \<lparr>sms_motor = m, sms_direction = env_uninit env p, sms_speed = speed\<rparr>, d))"
| "cmd_effect env p (ArmSet j) d =
     ([], (if jst_setPosition j then arm_drv_setPosition (env_bus env) (jst_motor j) (jst_position j)
           else arm_drv_setDirection (env_bus env) (jst_motor j) (jst_direction j))
            (arm_drv_setSpeed (env_bus env) (jst_motor j) (jst_speed j) d))"
| "cmd_effect env p ArmBrake d = ([], arm_drv_brake (env_bus env) d)"
| "cmd_effect env p ArmCalibrate d = ([], arm_drv_calibrate (env_bus env) d)"
| "cmd_effect env p (ArmGet m) d =
     (let (j, d) = joint_reply (env_bus env) m d in (joint_state_bytes j, d))"
| "cmd_effect env p ArmGetGeneral d =
     (let (c, d) = arm_drv_isCalibrated (env_bus env) d;
          (m, d) = arm_drv_getMode (env_bus env) d
      in (general_state_bytes \<lparr>gst_isCalibrated = c, gst_mode = m\<rparr>, d))"
| "cmd_effect env p (ExpanderSet b) d = ([], expander_setValue (env_bus env) b d)"
| "cmd_effect env p ExpanderGet d = (let (v, d) = expander_getValue (env_bus env) d in ([v], d))"

fun run_cmds :: "usb_env \<Rightarrow> usb_cmd list \<Rightarrow> u8 list \<Rightarrow> menu \<Rightarrow> (u8 list \<times> menu) option" where
  "run_cmds env [] out d = Some (out, d)"
| "run_cmds env (c # cs) out d =
     (if c = ResetDevice then None
      else (let (r, d) = cmd_effect env (of_nat (length out)) c d in run_cmds env cs (out @ r) d))"

fun reply_size :: "usb_cmd \<Rightarrow> nat" where
  "reply_size GetState = 9"
| "reply_size (MotorGet m) = 3"
| "reply_size (ArmGet m) = 5"
| "reply_size ArmGetGeneral = 2"
| "reply_size ExpanderGet = 1"
| "reply_size _ = 0"

lemma reply_size_effect: "length (fst (cmd_effect env p c d)) = reply_size c"
  by (cases c) (simp_all add: case_prod_beta Let_def)

section \<open>The output buffer\<close>

text \<open>\<open>out\<close> has been pushed to the freshly initialised buffer \<open>b0\<close>.\<close>

definition out_holds :: "u8 list \<Rightarrow> usb_buffer \<Rightarrow> u8 list \<Rightarrow> bool" where
  "out_holds base b out \<longleftrightarrow> length base = 129 \<and> length out \<le> 129 \<and>
     buf_pos b = of_nat (length out) \<and> buf_length b = of_nat (length out) \<and> buf_data b = memcpy base out"

lemma push_loop_holds:
  assumes "length base = 129" and "length (out @ xs) \<le> 129"
    and "buf_pos b = of_nat (length out)" and "buf_data b = memcpy base out"
  shows "buffer_push_loop xs b =
    Some (b\<lparr>buf_data := memcpy base (out @ xs), buf_pos := of_nat (length (out @ xs))\<rparr>)"
  using assms
proof (induction xs arbitrary: b out)
  case Nil
  then show ?case by simp
next
  case (Cons x xs)
  have len: "length out < 129" using Cons.prems(2) by simp
  have "(memcpy base out)[length out := x] = memcpy base (out @ [x])"
    using len Cons.prems(1) by (simp add: memcpy_def list_update_append drop_Suc [symmetric]
        Cons_nth_drop_Suc [symmetric])
  then have "poke (buf_data b) (unat (buf_pos b)) x = Some (memcpy base (out @ [x]))"
    using len Cons.prems by (simp add: unat_length_u8)
  with Cons.IH [of "out @ [x]" "b\<lparr>buf_data := memcpy base (out @ [x]), buf_pos := buf_pos b + 1\<rparr>"] Cons.prems
  show ?case by (simp add: ac_simps)
qed

lemma push_holds:
  assumes "out_holds base b out" and "length out + length xs \<le> 129"
  shows "\<exists>b'. buffer_push xs b = Some b' \<and> out_holds base b' (out @ xs)"
  using assms push_loop_holds [of base out xs b] by (simp add: buffer_push_def out_holds_def)

lemma out_push_holds:
  assumes "out_holds base (OutputBuff s) out" and "length out + length xs \<le> 129"
  shows "\<exists>b. out_push xs s = Inr (s\<lparr>OutputBuff := b\<rparr>) \<and> out_holds base b (out @ xs)"
  using push_holds [OF assms] by (auto simp: out_push_def)

section \<open>One command of the input\<close>

lemma peek_drop: "peek xs i = (case drop i xs of [] \<Rightarrow> None | b # _ \<Rightarrow> Some b)"
  by (cases "i < length xs") (simp_all add: peek_def Cons_nth_drop_Suc [symmetric])

lemma in_byte_rest: "in_byte s f = (case in_rest s of [] \<Rightarrow> Inl StopOutOfBounds | b # _ \<Rightarrow> f b)"
  by (simp add: in_byte_def in_rest_def peek_drop split: list.split)

lemma lcd_puts_prefix: "lcd_puts busy (t @ rest) (length t) d = Some (lcd_putsp busy t d)"
  by (induction t arbitrary: d) simp_all

lemma in_advance_sel [simp]:
  "dev (in_advance n s) = dev s" "OutputBuff (in_advance n s) = OutputBuff s"
  "menuEnabled (in_advance n s) = menuEnabled s" "TIMSK1 (in_advance n s) = TIMSK1 s"
  "InputBuff (in_advance n s) = (InputBuff s)\<lparr>buf_pos := buf_pos (InputBuff s) + n\<rparr>"
  by (simp_all add: in_advance_def)

lemma in_advance_0 [simp]: "in_advance 0 = id"
  by (rule ext) (simp add: in_advance_def)

lemma exec_request_cmd:
  assumes ok: "cmd_ok c" "c \<noteq> ResetDevice" and rest: "in_rest s = cmd_args c @ rest"
    and out: "out_holds base (OutputBuff s) out" "length out + reply_size c \<le> 129"
  shows "\<exists>b. exec_request env (cmd_request c) s = Inr (in_advance (of_nat (length (cmd_args c)))
      (s\<lparr>dev := snd (cmd_effect env (of_nat (length out)) c (dev s)), OutputBuff := b\<rparr>)) \<and>
    out_holds base b (out @ fst (cmd_effect env (of_nat (length out)) c (dev s)))"
proof -
  define s' where "s' = s\<lparr>dev := snd (cmd_effect env (of_nat (length out)) c (dev s))\<rparr>"
  have "out_holds base (OutputBuff s') out"
    "length out + length (fst (cmd_effect env (of_nat (length out)) c (dev s))) \<le> 129"
    using out by (simp_all add: s'_def reply_size_effect)
  then obtain b where b: "out_push (fst (cmd_effect env (of_nat (length out)) c (dev s))) s' =
      Inr (s'\<lparr>OutputBuff := b\<rparr>)"
    "out_holds base b (out @ fst (cmd_effect env (of_nat (length out)) c (dev s)))"
    using out_push_holds by meson
  have pos: "buf_pos (OutputBuff s) = of_nat (length out)" using out(1) by (simp add: out_holds_def)
  show ?thesis
  proof (cases "reply_size c = 0")
    case True
    then have "fst (cmd_effect env (of_nat (length out)) c (dev s)) = []"
      using reply_size_effect [of env "of_nat (length out)" c "dev s"] by simp
    moreover have "exec_request env (cmd_request c) s = Inr (in_advance (of_nat (length (cmd_args c))) s')"
      using ok True rest
      by (cases c) (simp_all add: exec_request_def in_byte_rest s'_def Let_def joint_state_bytes_def
          motor_state_bytes_def byte_bool_def bool_byte_def unat_length_u8 lcd_puts_prefix in_advance_def
          ac_simps split: if_split)
    ultimately show ?thesis using out(1) by (intro exI [of _ "OutputBuff s"]) (simp add: s'_def)
  next
    case False
    then have "exec_request env (cmd_request c) s =
        map_sum id (in_advance (of_nat (length (cmd_args c))))
          (out_push (fst (cmd_effect env (of_nat (length out)) c (dev s))) s')"
      using ok rest pos
      by (cases c) (simp_all add: exec_request_def in_byte_rest s'_def Let_def case_prod_beta
          joint_reply_def in_advance_def sum.map_id)
    with b show ?thesis by (auto simp: s'_def)
  qed
qed

section \<open>The whole input\<close>

text \<open>The input buffer holds \<open>pre @ bs\<close> and the loop stands at the first byte of \<open>bs\<close>.\<close>

definition in_at :: "u8 list \<Rightarrow> u8 list \<Rightarrow> bridge \<Rightarrow> bool" where
  "in_at pre bs s \<longleftrightarrow> buf_data (InputBuff s) = pre @ bs \<and> length (pre @ bs) = 129 \<and>
     buf_length (InputBuff s) = 128 \<and> buf_pos (InputBuff s) = of_nat (length pre + 1) \<and> length pre < 128"

lemma in_at_facts:
  assumes "in_at pre (b # bs) s"
  shows "buf_pos (InputBuff s) \<le> buf_length (InputBuff s)" "buf_pos (InputBuff s) \<noteq> 0"
    "peek (buf_data (InputBuff s)) (unat (buf_pos (InputBuff s)) - 1) = Some b" "in_rest s = bs"
proof -
  have u: "unat (buf_pos (InputBuff s)) = length pre + 1"
    using assms unat_length_u8 [of "length pre + 1"] by (simp add: in_at_def)
  show "buf_pos (InputBuff s) \<le> buf_length (InputBuff s)"
    using assms u by (simp add: in_at_def word_le_nat_alt)
  show "buf_pos (InputBuff s) \<noteq> 0" using u by auto
  show "peek (buf_data (InputBuff s)) (unat (buf_pos (InputBuff s)) - 1) = Some b" "in_rest s = bs"
    using assms u by (simp_all add: in_at_def peek_def in_rest_def nth_append)
qed

lemma exec_loop_step:
  assumes "in_at pre (b # bs) s" and "request_of_code b = Some req"
  shows "exec_loop (Suc fuel) env s =
    (case exec_request env req s of Inl e \<Rightarrow> Inl e | Inr s \<Rightarrow> exec_loop fuel env (in_advance 1 s))"
  using in_at_facts [OF assms(1)] assms(2) by (simp add: Let_def)

lemma in_at_advance:
  assumes "in_at pre (b # args @ bs) s" and "length (pre @ b # args) < 128"
  shows "in_at (pre @ b # args) bs
    (in_advance 1 (in_advance (of_nat (length args)) (s\<lparr>dev := d, OutputBuff := o'\<rparr>)))"
  using assms by (simp add: in_at_def ac_simps)

lemma exec_loop_end:
  assumes "in_at pre (request_code MESSAGE_END # rest) s"
  shows "exec_loop (Suc (Suc fuel)) env s = Inr (s\<lparr>InputBuff := (InputBuff s)\<lparr>buf_pos := 130\<rparr>\<rparr>)"
proof -
  have "buf_length (InputBuff s) = 128" using assms by (simp add: in_at_def)
  then show ?thesis
    unfolding exec_loop_step [OF assms request_of_code_code]
    by (simp add: exec_request_def in_advance_def)
qed

lemma exec_loop_cmds:
  assumes "in_at pre (encode_cmds cs @ request_code MESSAGE_END # rest) s"
    and "length pre + length (encode_cmds cs) < 128" and "list_all cmd_ok cs"
    and "out_holds base (OutputBuff s) out" and "length out + sum_list (map reply_size cs) \<le> 129"
    and "length cs + 2 \<le> fuel"
  shows "case run_cmds env cs out (dev s) of
      None \<Rightarrow> exec_loop fuel env s = Inl StopReset
    | Some (out', d) \<Rightarrow> \<exists>b. exec_loop fuel env s =
        Inr (s\<lparr>dev := d, OutputBuff := b, InputBuff := (InputBuff s)\<lparr>buf_pos := 130\<rparr>\<rparr>) \<and> out_holds base b out'"
  using assms
proof (induction cs arbitrary: pre s out fuel)
  case Nil
  then obtain f where "fuel = Suc (Suc f)" using not0_implies_Suc [of fuel] by (cases fuel; cases "fuel - 1") auto
  with Nil exec_loop_end [of pre rest s f env] show ?case
    by (intro exI [of _ "OutputBuff s"] | simp)+
next
  case (Cons c cs)
  obtain f where f: "fuel = Suc f" "length cs + 2 \<le> f" using Cons.prems(6) by (cases fuel) auto
  have at: "in_at pre (request_code (cmd_request c) # cmd_args c @
      encode_cmds cs @ request_code MESSAGE_END # rest) s"
    using Cons.prems(1) by (simp add: encode_cmd_split)
  note step = exec_loop_step [OF at request_of_code_code, of f env]
  show ?case
  proof (cases "c = ResetDevice")
    case True
    with step show ?thesis by (simp add: f(1) exec_request_def Let_def)
  next
    case False
    define r where "r = cmd_effect env (of_nat (length out)) c (dev s)"
    obtain b where b: "exec_request env (cmd_request c) s =
        Inr (in_advance (of_nat (length (cmd_args c))) (s\<lparr>dev := snd r, OutputBuff := b\<rparr>))"
      "out_holds base b (out @ fst r)"
      using exec_request_cmd [OF _ False in_at_facts(4) [OF at] Cons.prems(4), of env] Cons.prems(3,5)
      by (auto simp: r_def)
    define t where "t = in_advance 1 (in_advance (of_nat (length (cmd_args c))) (s\<lparr>dev := snd r, OutputBuff := b\<rparr>))"
    have t: "in_at (pre @ request_code (cmd_request c) # cmd_args c)
        (encode_cmds cs @ request_code MESSAGE_END # rest) t"
      unfolding t_def using Cons.prems(2) by (intro in_at_advance [OF at]) (simp add: encode_cmd_split)
    have IH: "case run_cmds env cs (out @ fst r) (dev t) of
        None \<Rightarrow> exec_loop f env t = Inl StopReset
      | Some (out', d) \<Rightarrow> \<exists>b. exec_loop f env t =
          Inr (t\<lparr>dev := d, OutputBuff := b, InputBuff := (InputBuff t)\<lparr>buf_pos := 130\<rparr>\<rparr>) \<and> out_holds base b out'"
      using Cons.prems b(2) f(2) reply_size_effect [of env "of_nat (length out)" c "dev s"]
      by (intro Cons.IH [OF t]) (simp_all add: encode_cmd_split t_def r_def)
    have rec: "t\<lparr>dev := d, OutputBuff := b', InputBuff := (InputBuff t)\<lparr>buf_pos := p\<rparr>\<rparr> =
        s\<lparr>dev := d, OutputBuff := b', InputBuff := (InputBuff s)\<lparr>buf_pos := p\<rparr>\<rparr>" for d b' p
      by (simp add: t_def in_advance_def)
    have ex: "exec_loop fuel env s = exec_loop f env t"
      using step b(1) by (simp add: f(1) t_def)
    have rn: "run_cmds env (c # cs) out (dev s) = run_cmds env cs (out @ fst r) (dev t)"
      using False by (simp add: r_def t_def case_prod_beta)
    show ?thesis using IH unfolding rn ex rec .
  qed
qed

section \<open>What the USB operations leave alone\<close>

text \<open>\<open>t\<close> has the menu state, the timer state and the buffer sizes of \<open>s\<close>.\<close>

definition usb_same :: "bridge \<Rightarrow> bridge \<Rightarrow> bool" where
  "usb_same s t \<longleftrightarrow> menu_same (dev s) (dev t) \<and> menuEnabled t = menuEnabled s \<and> TIMSK1 t = TIMSK1 s \<and>
     length (buf_data (InputBuff t)) = length (buf_data (InputBuff s)) \<and>
     length (buf_data (OutputBuff t)) = length (buf_data (OutputBuff s))"

lemma usb_same_refl: "usb_same s s"
  by (simp add: usb_same_def menu_same_def)

lemma usb_same_trans: "usb_same s t \<Longrightarrow> usb_same t u \<Longrightarrow> usb_same s u"
  by (simp add: usb_same_def menu_same_def)

lemma usb_same_dev: "dev_upd (dev s) d \<Longrightarrow> usb_same s (s\<lparr>dev := d\<rparr>)"
  by (simp add: usb_same_def dev_upd_menu_same)

lemma usb_same_advance: "usb_same s t \<Longrightarrow> usb_same s (in_advance n t)"
  by (simp add: usb_same_def)

lemma usb_same_kill:
  "usb_same s (s\<lparr>dev := ks_setActive (ks_wait5 hw) hw b (dev s)\<rparr>)"
  by (simp add: usb_same_def setActive_menu_same menu_same_def [of "dev s" "dev s"])

lemma push_loop_length: "buffer_push_loop xs b = Some b' \<Longrightarrow> length (buf_data b') = length (buf_data b)"
  by (induction xs b rule: buffer_push_loop.induct) (auto split: option.splits dest!: poke_length)

lemma out_push_same: "out_push xs t = Inr u \<Longrightarrow> usb_same s t \<Longrightarrow> usb_same s u"
  by (auto simp: out_push_def buffer_push_def usb_same_def push_loop_length split: option.splits)

lemma out_push_advance_same:
  "map_sum id (in_advance n) (out_push xs t) = Inr u \<Longrightarrow> usb_same s t \<Longrightarrow> usb_same s u"
  by (cases "out_push xs t") (auto intro: usb_same_advance out_push_same)

lemma in_byte_Inr: "in_byte s f = Inr u \<Longrightarrow> \<exists>b. f b = Inr u"
  by (auto simp: in_byte_def split: option.splits)

lemma exec_request_same:
  assumes "exec_request env req s = Inr u"
  shows "usb_same s u"
proof -
  note sames = usb_same_advance usb_same_dev usb_same_kill dev_intros
  note pushed = out_push_same [of _ _ u s] out_push_advance_same [of _ _ _ u s]
  show ?thesis
  proof (cases req)
    case BRIDGE_LCD_SET
    with assms obtain n d where "lcd_puts (env_busy env) (drop 1 (in_rest s)) (unat n)
        (lcd_clrscr (env_busy env) (dev s)) = Some d" "u = in_advance (n + 1) (s\<lparr>dev := d\<rparr>)"
      by (auto simp: exec_request_def Let_def dest!: in_byte_Inr split: option.splits)
    then show ?thesis
      by (auto intro!: dev_upd_puts [where t = "lcd_clrscr (env_busy env) (dev s)"] sames)
  next
    case MESSAGE_END
    with assms show ?thesis by (auto simp: exec_request_def usb_same_def menu_same_def)
  next
    case BRIDGE_SET_KILLSWITCH
    with assms show ?thesis by (auto simp: exec_request_def Let_def dest!: in_byte_Inr intro!: sames)
  next
    case BRIDGE_GET_STATE
    with assms show ?thesis by (auto simp: exec_request_def Let_def usb_same_refl elim!: pushed)
  next
    case EXPANDER_GET
    with assms show ?thesis
      by (auto simp: exec_request_def Let_def case_prod_beta intro!: sames elim!: pushed)
  next
    case ARM_DRIVER_GET_GENERAL_STATE
    with assms show ?thesis
      by (auto simp: exec_request_def Let_def case_prod_beta intro!: sames elim!: pushed)
  next
    case ARM_DRIVER_GET
    with assms show ?thesis
      by (auto simp: exec_request_def Let_def case_prod_beta dest!: in_byte_Inr intro!: sames elim!: pushed)
  next
    case MOTOR_DRIVER_GET
    with assms show ?thesis
      by (auto simp: exec_request_def Let_def case_prod_beta dest!: in_byte_Inr intro!: sames elim!: pushed)
  next
    case ARM_DRIVER_SET
    with assms show ?thesis
      by (auto simp: exec_request_def Let_def dest!: in_byte_Inr intro!: sames split: if_splits option.splits)
  next
    case MOTOR_DRIVER_SET
    with assms show ?thesis by (auto simp: exec_request_def Let_def intro!: sames split: option.splits)
  next
    case EXPANDER_SET
    with assms show ?thesis by (auto simp: exec_request_def Let_def dest!: in_byte_Inr intro!: sames)
  next
    case BRIDGE_RESET_DEVICE
    with assms show ?thesis by (simp add: exec_request_def)
  qed
qed

lemma exec_loop_same: "exec_loop fuel env s = Inr u \<Longrightarrow> usb_same s u"
proof (induction fuel arbitrary: s)
  case 0
  then show ?case by simp
next
  case (Suc fuel)
  show ?case
  proof (cases "buf_pos (InputBuff s) \<le> buf_length (InputBuff s)")
    case False
    with Suc.prems show ?thesis by (simp add: Let_def usb_same_refl)
  next
    case True
    with Suc.prems have "exec_loop fuel env (in_advance 1 s) = Inr u \<or>
        (\<exists>req t. exec_request env req s = Inr t \<and> exec_loop fuel env (in_advance 1 t) = Inr u)"
      by (auto simp: Let_def split: if_splits option.splits sum.splits)
    then obtain t where "usb_same s t" "exec_loop fuel env (in_advance 1 t) = Inr u"
      using usb_same_refl exec_request_same by blast
    then show ?thesis using Suc.IH usb_same_advance usb_same_trans by blast
  qed
qed

definition host_active :: "bridge \<Rightarrow> bool" where
  "host_active s \<longleftrightarrow> \<not> menuEnabled s \<and> bit (TIMSK1 s) OCIE1A"

definition menu_active :: "bridge \<Rightarrow> bool" where
  "menu_active s \<longleftrightarrow> menuEnabled s \<and> \<not> bit (TIMSK1 s) OCIE1A"

definition bridge_ok :: "bridge \<Rightarrow> bool" where
  "bridge_ok s \<longleftrightarrow> menu_ok (dev s) \<and> (host_active s \<or> menu_active s) \<and>
     length (buf_data (InputBuff s)) = 129 \<and> length (buf_data (OutputBuff s)) = 129"

lemma bridge_ok_dev: "bridge_ok s \<Longrightarrow> menu_same (dev s) d \<Longrightarrow> bridge_ok (s\<lparr>dev := d\<rparr>)"
  using menu_ok_same [of "dev s" d] by (simp add: bridge_ok_def host_active_def menu_active_def)

lemma bridge_ok_same: "usb_same s t \<Longrightarrow> bridge_ok s \<Longrightarrow> bridge_ok t"
  using menu_ok_same [of "dev s" "dev t"]
  by (auto simp: usb_same_def bridge_ok_def host_active_def menu_active_def)

lemma led_menu_same: "menu_same s (led_setState l b s)"
  by (simp add: led_setState_def menu_same_def)

lemma timer_ok: "bridge_ok s \<Longrightarrow> bridge_ok (timerSetEnabled b s)"
  by (auto simp: timerSetEnabled_def bridge_ok_def host_active_def menu_active_def Let_def port_simps)

lemma timerSetEnabled_sel [simp]:
  "dev (timerSetEnabled b s) = dev s" "menuEnabled (timerSetEnabled b s) = (\<not> b)"
  "InputBuff (timerSetEnabled b s) = InputBuff s" "OutputBuff (timerSetEnabled b s) = OutputBuff s"
  "bit (TIMSK1 (timerSetEnabled b s)) (Suc 0) = b"
  by (simp_all add: timerSetEnabled_def Let_def port_simps)

lemma clrscr_menu_same: "menu_same s (lcd_clrscr busy s)"
  by (simp add: menu_same_def clrscr_same)

lemma timerReset_sel:
  "dev (timerReset busy s) = (if menuEnabled s then lcd_clrscr busy (dev s) else dev s)"
  "menuEnabled (timerReset busy s) = False" "bit (TIMSK1 (timerReset busy s)) (Suc 0)"
  "InputBuff (timerReset busy s) = InputBuff s" "OutputBuff (timerReset busy s) = OutputBuff s"
  by (simp_all add: timerReset_def Let_def)

text \<open>The state in which the commands of a packet are executed.\<close>

definition packet_loaded :: "usb_env \<Rightarrow> u8 list \<Rightarrow> bridge \<Rightarrow> bridge" where
  "packet_loaded env bytes s =
     (let s = timerReset (env_busy env) (s\<lparr>dev := led_setState YELLOW True (dev s)\<rparr>)
      in s\<lparr>InputBuff := \<lparr>buf_data = memcpy (buf_data (InputBuff s)) (take 128 bytes), buf_length = 128,
            buf_pos = 1\<rparr>, OutputBuff := buffer_init (OutputBuff s)\<rparr>)"

lemma usb_poll_packet:
  "usb_poll env (Some bytes) s = map_sum id
     (\<lambda>s. (Some (take 64 (buf_data (OutputBuff s))),
       s\<lparr>responseReady := True, dev := led_setState YELLOW False (dev s)\<rparr>))
     (exec_loop 130 env (packet_loaded env bytes s))"
proof -
  define t where "t = timerReset (env_busy env) (s\<lparr>dev := led_setState YELLOW True (dev s)\<rparr>)"
  have "b\<lparr>buf_length := 128, buf_data := x, buf_pos := 1\<rparr> = \<lparr>buf_data = x, buf_length = 128, buf_pos = 1\<rparr>"
    for b :: usb_buffer and x by (cases b) simp
  then have "t\<lparr>OutputBuff := buffer_init (OutputBuff t), InputBuff := (InputBuff t)\<lparr>buf_length := 128,
      buf_data := memcpy (buf_data (InputBuff t)) (take 128 bytes), buf_pos := 1\<rparr>\<rparr> = packet_loaded env bytes s"
    by (simp add: packet_loaded_def Let_def flip: t_def)
  then show ?thesis
    by (cases "exec_loop 130 env (packet_loaded env bytes s)")
       (simp_all add: usb_poll_def executeCommandsFromUSB_def Let_def VENDOR_OUT_EPSIZE_def
        VENDOR_IN_EPSIZE_def HOST_TO_DEVICE_DATAPACKET_SIZE_def del: exec_loop.simps flip: t_def)
qed

lemma drop_128: "length xs = 129 \<Longrightarrow> \<exists>x. drop 128 xs = [x]"
  using length_Suc_conv [of "drop 128 xs" 0] by simp

lemma packet_loaded_facts:
  assumes "length (buf_data (InputBuff s)) = 129" and "length (buf_data (OutputBuff s)) = 129"
    and "length bytes = 128"
  shows "dev (packet_loaded env bytes s) =
      (if menuEnabled s then lcd_clrscr (env_busy env) (led_setState YELLOW True (dev s))
       else led_setState YELLOW True (dev s))"
    and "\<exists>x. in_at [] (bytes @ [x]) (packet_loaded env bytes s)"
    and "\<exists>x. out_holds (replicate 128 (request_code MESSAGE_END) @ [x]) (OutputBuff (packet_loaded env bytes s)) []"
    and "host_active (packet_loaded env bytes s)"
proof -
  obtain x where "drop 128 (buf_data (InputBuff s)) = [x]" using drop_128 assms(1) by blast
  then show "\<exists>x. in_at [] (bytes @ [x]) (packet_loaded env bytes s)"
    using assms(3) by (simp add: in_at_def packet_loaded_def Let_def timerReset_sel memcpy_def)
  obtain y where "drop 128 (buf_data (OutputBuff s)) = [y]" using drop_128 assms(2) by blast
  then show "\<exists>x. out_holds (replicate 128 (request_code MESSAGE_END) @ [x]) (OutputBuff (packet_loaded env bytes s)) []"
    by (intro exI [of _ y])
       (simp add: out_holds_def packet_loaded_def Let_def timerReset_sel memcpy_def buffer_init_def)
qed (simp_all add: packet_loaded_def Let_def timerReset_sel host_active_def)

lemma take_reply:
  "length out \<le> 129 \<Longrightarrow> take 64 (memcpy (replicate 128 e @ [x]) out) = take 64 (out @ replicate 64 e)"
  by (cases "length out \<le> 64") (simp_all add: memcpy_def)

section \<open>Properties of the USB side\<close>

lemma usb_packet_executed:
  fixes env :: usb_env and s :: bridge
  assumes "bridge_ok s" and "length (encode_cmds cs @ request_code MESSAGE_END # rest) = 128"
    and "list_all cmd_ok cs" and "sum_list (map reply_size cs) \<le> 129"
  defines "d0 \<equiv> (if menuEnabled s then lcd_clrscr (env_busy env) (led_setState YELLOW True (dev s))
                  else led_setState YELLOW True (dev s))"
  shows "case run_cmds env cs [] d0 of
      None \<Rightarrow> usb_poll env (Some (encode_cmds cs @ request_code MESSAGE_END # rest)) s = Inl StopReset
    | Some (out, d) \<Rightarrow> \<exists>t. usb_poll env (Some (encode_cmds cs @ request_code MESSAGE_END # rest)) s =
          Inr (Some (take 64 (out @ replicate 64 (request_code MESSAGE_END))), t) \<and>
        dev t = led_setState YELLOW False d \<and> host_active t"
proof -
  define bytes where "bytes = encode_cmds cs @ request_code MESSAGE_END # rest"
  define p where "p = packet_loaded env bytes s"
  have len: "length (buf_data (InputBuff s)) = 129" "length (buf_data (OutputBuff s)) = 129" "length bytes = 128"
    using assms(1,2) by (simp_all add: bridge_ok_def bytes_def)
  note facts = packet_loaded_facts [OF len, of env]
  obtain x where in_at: "in_at [] (encode_cmds cs @ request_code MESSAGE_END # (rest @ [x])) p"
    using facts(2) by (auto simp: bytes_def p_def)
  obtain y where out: "out_holds (replicate 128 (request_code MESSAGE_END) @ [y]) (OutputBuff p) []"
    using facts(3) by (auto simp: p_def)
  have enc: "length cs \<le> length (encode_cmds cs)"
    by (induction cs) (simp_all add: encode_cmd_split)
  then have "length cs + 2 \<le> 130" "length ([] :: u8 list) + length (encode_cmds cs) < 128"
    using assms(2) by simp_all
  note run = exec_loop_cmds [OF in_at this(2) assms(3) out _ this(1), of env]
  have d0: "dev p = d0" by (simp add: p_def facts(1) d0_def)
  note poll = usb_poll_packet [of env bytes s, folded p_def, unfolded bytes_def]
  show ?thesis
  proof (cases "run_cmds env cs [] d0")
    case None
    then have "exec_loop 130 env p = Inl StopReset" using run assms(4) by (simp add: d0 del: exec_loop.simps)
    then show ?thesis unfolding poll using None by (simp del: exec_loop.simps)
  next
    case (Some od)
    obtain o' d where od: "od = (o', d)" by (cases od)
    obtain b where b: "exec_loop 130 env p =
        Inr (p\<lparr>dev := d, OutputBuff := b, InputBuff := (InputBuff p)\<lparr>buf_pos := 130\<rparr>\<rparr>)"
      "out_holds (replicate 128 (request_code MESSAGE_END) @ [y]) b o'"
      using run assms(4) Some by (auto simp: d0 od simp del: exec_loop.simps)
    have "take 64 (buf_data b) = take 64 (o' @ replicate 64 (request_code MESSAGE_END))"
      using b(2) take_reply [of o' "request_code MESSAGE_END" y] by (simp add: out_holds_def)
    moreover have "host_active p" by (simp add: p_def facts(4))
    ultimately show ?thesis
      unfolding poll using b(1) Some by (simp add: od host_active_def del: exec_loop.simps)
  qed
qed

text \<open>C7: The bridge executes what the message says. When a packet of 128 bytes begins with the
  encoding of commands that the protocol can express, closed by \<open>MESSAGE_END\<close>, and the replies fit
  the output buffer, then the packet is processed to its end, the device goes through exactly the
  effects of the commands in their order, and the answer is the concatenation of their replies,
  padded with \<open>MESSAGE_END\<close> (cut to 64 bytes); afterwards the time-out timer supervises the host.
  A reset command stops the device instead.\<close>

theorem usb_message_executed:
  fixes env :: usb_env and s :: bridge
  assumes "bridge_ok s" and "length (encode_cmds cs @ request_code MESSAGE_END # rest) = 128"
    and "list_all cmd_ok cs" and "sum_list (map reply_size cs) \<le> 129"
  defines "d0 \<equiv> (if menuEnabled s then lcd_clrscr (env_busy env) (led_setState YELLOW True (dev s))
                  else led_setState YELLOW True (dev s))"
  shows "case run_cmds env cs [] d0 of
      None \<Rightarrow> usb_poll env (Some (encode_cmds cs @ request_code MESSAGE_END # rest)) s = Inl StopReset
    | Some (out, d) \<Rightarrow> \<exists>t. usb_poll env (Some (encode_cmds cs @ request_code MESSAGE_END # rest)) s =
          Inr (Some (take 64 (out @ replicate 64 (request_code MESSAGE_END))), t) \<and>
        dev t = led_setState YELLOW False d \<and> host_active t"
  unfolding d0_def using assms(1-4) by (rule usb_packet_executed)

definition quiet_env :: usb_env where
  "quiet_env = \<lparr>env_bus = (\<lambda>_. None), env_busy = (\<lambda>_. 0), env_button = False,
     env_pins = \<lparr>PINB = 255, PIND = 255, PINE = 255\<rparr>, env_pins30 = \<lparr>PINB = 255, PIND = 255, PINE = 255\<rparr>,
     env_adc = adc_static_init, env_uninit = (\<lambda>_. 0)\<rparr>"

lemma bridge_ok_static: "bridge_ok bridge_static_init"
  by (simp add: bridge_ok_def bridge_static_init_def menu_ok_def menu_static_init_def lcd.defs
      buffer_static_def menu_active_def)

lemma usb_message_executed_witness:
  "\<exists>t. usb_poll quiet_env (Some (encode_cmds [SetKillswitch 1, MotorGet 0] @
       request_code MESSAGE_END # replicate 123 0)) bridge_static_init =
     Inr (Some ([0, 0, 0x25] @ replicate 61 222), t) \<and> host_active t"
proof -
  have speed: "fst (motor_drv_getSpeed (\<lambda>_. None) 0 d) = 0x25" for d :: menu
    by (simp add: motor_drv_getSpeed_def case_prod_beta transactions_value bus_value_def addressToRead_def MOTOR_DRIVER_ADDRESS_def)
  have "take 64 ([0, 0, 0x25] @ replicate 64 (222 :: u8)) = [0, 0, 0x25] @ replicate 61 222"
    by simp
  then show ?thesis
    using usb_message_executed [OF bridge_ok_static, of "[SetKillswitch 1, MotorGet 0]" "replicate 123 0" quiet_env]
    by (auto simp: quiet_env_def Let_def case_prod_beta motor_state_bytes_def speed)
qed

text \<open>C39: The loop over a packet need not end. The position is a byte: a text whose length byte is 254
  moves it back to where it was, and no number of rounds finishes the packet.\<close>

theorem usb_long_text_never_ends:
  "exec_loop fuel env (packet_loaded env (200 # 254 # replicate 126 0) bridge_static_init) =
     Inl StopOutOfFuel"
proof -
  have "exec_loop fuel env s = Inl StopOutOfFuel" if "in_at [] (200 # 254 # 0 # rest) s" for rest s
    using that
  proof (induction fuel arbitrary: s)
    case 0
    then show ?case by simp
  next
    case (Suc fuel)
    define d where "d = lcd_clrscr (env_busy env) (dev s)"
    define t where "t = in_advance 1 (in_advance 255 (s\<lparr>dev := d\<rparr>))"
    have "lcd_puts (env_busy env) (0 # rest) 254 d = Some d"
      using lcd_puts.simps(3) [of "env_busy env" 0 rest 253 d] by simp
    then have "exec_request env BRIDGE_LCD_SET s = Inr (in_advance 255 (s\<lparr>dev := d\<rparr>))"
      using in_at_facts(4) [OF Suc.prems]
      by (simp add: exec_request_def in_byte_rest Let_def flip: d_def)
    then have "exec_loop (Suc fuel) env s = exec_loop fuel env t"
      using exec_loop_step [OF Suc.prems, of BRIDGE_LCD_SET fuel env]
      by (simp add: request_of_code_def t_def del: exec_loop.simps)
    moreover have "in_at [] (200 # 254 # 0 # rest) t"
      using Suc.prems by (simp add: t_def in_at_def)
    ultimately show ?case using Suc.IH by simp
  qed
  moreover obtain x where "in_at [] ((200 # 254 # replicate 126 0) @ [x])
      (packet_loaded env (200 # 254 # replicate 126 0) bridge_static_init)"
    using packet_loaded_facts(2) [of bridge_static_init "200 # 254 # replicate 126 0" env] bridge_ok_static
    by (auto simp: bridge_ok_def)
  ultimately show ?thesis by (simp add: numeral_eq_Suc)
qed

end
