(* ===== verification/Bridge_Main.thy ===== *)
theory Bridge_Main
  imports Bridge_Usb
begin

text \<open>
  The main program of the bridge (\<open>main.cpp\<close>): power-up, one round of the loop, the events between
  the rounds, and what holds in every state the running bridge reaches.
\<close>

section \<open>\<open>main.cpp\<close>\<close>

definition checkButtonsResetCombination :: "usb_env \<Rightarrow> bridge \<Rightarrow> exec_stop + bridge" where
  "checkButtonsResetCombination env s =
     (let btn = fst (getButtonsState id (env_pins env) (env_pins30 env) False s) in
      if b_down btn \<and> b_enter btn then Inl StopReset else Inr s)"

definition main_init :: "usb_env \<Rightarrow> bridge \<times> adc \<Rightarrow> bridge \<times> adc" where
  "main_init env = (\<lambda>(s, a).
     (let d = ks_init (env_button env) (dev s);
          d = led_init d;
          d = i2c_init d;
          d = lcd_init (env_busy env) d;
          d = buttons_init d;
          d = menu_init d;
          s = usb_init (s\<lparr>dev := d\<rparr>);
          s = s\<lparr>dev := lcd_putsp (env_busy env) (chars ''SZARK - Loading'' @ [10] @ chars ''2014 Slomkowski'') (dev s)\<rparr>;
          (d, a) = analog_init (dev s, a)
      in (s\<lparr>dev := d\<rparr>, a)))"

text \<open>One round of the main loop. \<open>None\<close> when the menu follows a null pointer.\<close>

definition main_step ::
  "u8 list \<Rightarrow> usb_env \<Rightarrow> u8 list option \<Rightarrow> bridge \<Rightarrow> (exec_stop + u8 list option \<times> bridge) option" where
  "main_step date env packet s =
     (let hw = env_button env;
          polled = (if isMenuEnabled s
                    then map_option (\<lambda>d. s\<lparr>dev := ks_wait 100 hw d\<rparr>)
                           (menu_poll (ks_wait5 hw) (ks_wait 30 hw) date (bridge_env.truncate env) (dev s))
                    else Some s)
      in map_option (\<lambda>s.
           (case usb_poll env packet s of
              Inl e \<Rightarrow> Inl e
            | Inr (reply, s) \<Rightarrow>
                (case checkButtonsResetCombination env s of
                   Inl e \<Rightarrow> Inl e
                 | Inr s \<Rightarrow> Inr (reply, s\<lparr>dev := ks_checkHardware hw (dev s)\<rparr>)))) polled)"

section \<open>Supervision of the host\<close>

lemma usb_poll_ok:
  assumes "bridge_ok s" and "usb_poll env packet s = Inr (reply, t)"
    and "\<And>bytes. packet = Some bytes \<Longrightarrow> length bytes = 128"
  shows "bridge_ok t"
proof (cases packet)
  case None
  with assms show ?thesis by (simp add: usb_poll_def)
next
  case (Some bytes)
  define p where "p = packet_loaded env bytes s"
  obtain u where u: "exec_loop 130 env p = Inr u" "t = u\<lparr>responseReady := True, dev := led_setState YELLOW False (dev u)\<rparr>"
    using assms(2) by (cases "exec_loop 130 env p")
      (auto simp: Some usb_poll_packet simp del: exec_loop.simps simp flip: p_def)
  have "menu_same (dev s) (dev p)"
    by (simp add: p_def packet_loaded_def Let_def timerReset_sel menu_same_def clrscr_same)
       (simp add: led_setState_def)
  then have "menu_ok (dev p)" using assms(1) menu_ok_same by (auto simp: bridge_ok_def)
  moreover have "host_active p" "length (buf_data (InputBuff p)) = 129" "length (buf_data (OutputBuff p)) = 129"
    using assms(1,3) Some
    by (simp_all add: p_def packet_loaded_def Let_def timerReset_sel host_active_def bridge_ok_def buffer_init_def)
  ultimately have "bridge_ok p" by (simp add: bridge_ok_def)
  then have "bridge_ok u" using exec_loop_same [OF u(1)] bridge_ok_same by blast
  then have "bridge_ok (u\<lparr>dev := led_setState YELLOW False (dev u)\<rparr>)"
    by (rule bridge_ok_dev) (rule led_menu_same)
  then show ?thesis by (simp add: u(2) bridge_ok_def host_active_def menu_active_def)
qed

lemma main_step_polled:
  fixes env :: usb_env
  assumes "bridge_ok s"
  defines "hw \<equiv> env_button env"
  shows "\<exists>u. (if isMenuEnabled s
      then map_option (\<lambda>d. s\<lparr>dev := ks_wait 100 hw d\<rparr>)
        (menu_poll (ks_wait5 hw) (ks_wait 30 hw) date (bridge_env.truncate env) (dev s))
      else Some s) = Some u \<and> bridge_ok u"
proof (cases "isMenuEnabled s")
  case False
  with assms(1) show ?thesis by simp
next
  case True
  have hw: "hw = env_button (bridge_env.truncate env)" by (simp add: hw_def bridge_env.truncate_def)
  obtain d where "menu_poll (ks_wait5 hw) (ks_wait 30 hw) date (bridge_env.truncate env) (dev s) = Some d"
    "menu_ok d"
    using menu_poll_ok [of "dev s" "bridge_env.truncate env" date] assms(1) by (auto simp: hw bridge_ok_def)
  moreover from this(2) have "menu_ok (ks_wait 100 hw d)"
    using menu_ok_same [of d "ks_wait 100 hw d"] wait_menu_same [of 100 d d hw] by (simp add: menu_same_def)
  ultimately show ?thesis using True assms(1)
    by (simp add: bridge_ok_def host_active_def menu_active_def)
qed

lemma main_step_ok:
  assumes "bridge_ok s" and "\<And>bytes. packet = Some bytes \<Longrightarrow> length bytes = 128"
  shows "\<exists>r. main_step date env packet s = Some r \<and> (\<forall>reply t. r = Inr (reply, t) \<longrightarrow> bridge_ok t)"
proof -
  obtain u where u: "(if isMenuEnabled s
      then map_option (\<lambda>d. s\<lparr>dev := ks_wait 100 (env_button env) d\<rparr>)
        (menu_poll (ks_wait5 (env_button env)) (ks_wait 30 (env_button env)) date (bridge_env.truncate env) (dev s))
      else Some s) = Some u" "bridge_ok u"
    using main_step_polled [OF assms(1), of env date] by blast
  define r where "r = (case usb_poll env packet u of Inl e \<Rightarrow> Inl e
    | Inr (reply, s) \<Rightarrow> (case checkButtonsResetCombination env s of Inl e \<Rightarrow> Inl e
      | Inr s \<Rightarrow> Inr (reply, s\<lparr>dev := ks_checkHardware (env_button env) (dev s)\<rparr>)))"
  have "main_step date env packet s = Some r" unfolding main_step_def Let_def u(1) by (simp add: r_def)
  moreover have "bridge_ok t" if r: "r = Inr (reply, t)" for reply t
  proof -
    obtain v where v: "usb_poll env packet u = Inr (reply, v)"
      "t = v\<lparr>dev := ks_checkHardware (env_button env) (dev v)\<rparr>"
      using r by (auto simp: r_def checkButtonsResetCombination_def Let_def split: sum.splits if_splits)
    have "bridge_ok v" using usb_poll_ok [OF u(2) v(1) assms(2)] .
    then show ?thesis unfolding v(2)
      by (rule bridge_ok_dev) (simp add: check_menu_same menu_same_def [of "dev v" "dev v"])
  qed
  ultimately show ?thesis by blast
qed

text \<open>The running bridge: rounds of the main loop, the events of the USB library, and the timer
  interrupt, which can occur while it is enabled.\<close>

inductive bridge_reaches :: "u8 list \<Rightarrow> bridge \<Rightarrow> bool" for date :: "u8 list" where
  power_up: "bridge_reaches date (fst (main_init env (bridge_static_init, adc_static_init)))"
| round: "bridge_reaches date s \<Longrightarrow> packet = None \<or> (\<exists>bytes. packet = Some bytes \<and> length bytes = 128) \<Longrightarrow>
    main_step date env packet s = Some (Inr (reply, t)) \<Longrightarrow> bridge_reaches date t"
| timeout: "bridge_reaches date s \<Longrightarrow> bit (TIMSK1 s) OCIE1A \<Longrightarrow> bridge_reaches date (TIMER1_COMPA_vect env s)"
| connect: "bridge_reaches date s \<Longrightarrow> bridge_reaches date (EVENT_USB_Device_Connect s)"
| disconnect: "bridge_reaches date s \<Longrightarrow> bridge_reaches date (EVENT_USB_Device_Disconnect s)"
| configured: "bridge_reaches date s \<Longrightarrow>
    bridge_reaches date (EVENT_USB_Device_ConfigurationChanged inOk outOk s)"

lemma led_events_ok:
  assumes "bridge_ok s"
  shows "bridge_ok (EVENT_USB_Device_Connect s)" "bridge_ok (EVENT_USB_Device_Disconnect s)"
    "bridge_ok (EVENT_USB_Device_ConfigurationChanged a b s)"
proof -
  note led = bridge_ok_dev [OF _ led_menu_same]
  show "bridge_ok (EVENT_USB_Device_Connect s)" "bridge_ok (EVENT_USB_Device_Disconnect s)"
    "bridge_ok (EVENT_USB_Device_ConfigurationChanged a b s)"
    unfolding EVENT_USB_Device_Connect_def EVENT_USB_Device_Disconnect_def
      EVENT_USB_Device_ConfigurationChanged_def Let_def
    by (intro led timer_ok assms)+
qed

lemma timeout_effect:
  "ks_latched (dev (TIMER1_COMPA_vect env s))" "menu_active (TIMER1_COMPA_vect env s)"
  "menu_actual (dev (TIMER1_COMPA_vect env s)) = Some MainMenu" "\<not> isInMenu (dev (TIMER1_COMPA_vect env s))"
proof -
  let ?d = "ks_setActive (ks_wait5 (env_button env)) (env_button env) True (dev s)"
  have "ks_latched ?d" by (simp add: ks_setActive_def)
  then have "ks_latched (lcd_putsp busy str (lcd_clrscr busy' ?d))" for busy str busy'
    using dev_upd_latched [OF dev_upd_putsp [OF dev_upd_text(1) [OF dev_upd_refl]]] by blast
  then show "ks_latched (dev (TIMER1_COMPA_vect env s))"
    by (simp add: TIMER1_COMPA_vect_def Let_def reinitMenu_def ks_latched_def)
qed (simp_all add: TIMER1_COMPA_vect_def Let_def reinitMenu_def menu_active_def)

lemma bridge_ok_timeout:
  assumes "bridge_ok s"
  shows "bridge_ok (TIMER1_COMPA_vect env s)"
proof -
  let ?d = "ks_setActive (ks_wait5 (env_button env)) (env_button env) True (dev s)"
  have "menu_same ?d (lcd_putsp busy str (lcd_clrscr busy' ?d))" for busy str busy'
    by (rule dev_upd_menu_same) (intro dev_intros)
  moreover have "menu_same (dev s) ?d" by (rule setActive_menu_same) (simp add: menu_same_def)
  ultimately have "menu_ok (lcd_putsp busy str (lcd_clrscr busy' ?d))" for busy str busy'
    using assms menu_ok_same unfolding bridge_ok_def by blast
  then show ?thesis using assms timeout_effect(2) [of env s]
    by (simp add: bridge_ok_def TIMER1_COMPA_vect_def Let_def reinitMenu_def menu_ok_def)
qed

lemma lcd_init_upd:
  "dev_upd (s\<lparr>DDRF := sbi LCD_RW (sbi LCD_RS (DDRF s))\<rparr>) (lcd_init busy s)"
proof -
  let ?s = "s\<lparr>DDRB := sbi LCD_E (DDRB s), DDRF := sbi LCD_RW (sbi LCD_RS (DDRF s))\<rparr>"
  have "dev_upd (s\<lparr>DDRF := sbi LCD_RW (sbi LCD_RS (DDRF s))\<rparr>) ?s"
    by (cases s) (simp add: dev_upd_def)
  moreover have "dev_upd ?s (lcd_init busy s)"
    unfolding lcd_init_def Let_def lcd_pulseE_def by (simp add: dev_intros)
  ultimately show ?thesis by (rule dev_upd_trans)
qed

lemma power_up_dev:
  fixes env :: usb_env
  defines "d \<equiv> dev (fst (main_init env (bridge_static_init, adc_static_init)))"
  shows "menu_ok d" "ks_latched d" "\<not> isInMenu d"
proof -
  define d0 where "d0 = i2c_init (led_init (ks_init (env_button env) menu_static_init))"
  define d1 where "d1 = lcd_init (env_busy env) d0"
  define d2 where "d2 = led_setState GREEN False (led_setState YELLOW False (menu_init (buttons_init d1)))"
  define d3 where "d3 = lcd_putsp (env_busy env) (chars ''SZARK - Loading'' @ [10] @ chars ''2014 Slomkowski'') d2"
  have d: "d = fst (analog_init (d3, adc_static_init))"
    by (simp add: d_def main_init_def usb_init_def bridge_static_init_def case_prod_beta Let_def d3_def d2_def
        d1_def d0_def analog_init_def)
  have pos: "menu_position d1 = (\<lambda>_. 0)" "menu_inSub d1 = (\<lambda>_. False)"
    using dev_upd_menu_same [OF lcd_init_upd [of d0 "env_busy env"]]
    by (simp_all add: d1_def d0_def menu_same_def i2c_init_def led_init_def ks_init_def ks_setActive_def
        ks_activate_def menu_static_init_def lcd.defs Let_def)
  have "ks_latched (ks_init (env_button env) menu_static_init)" by (simp add: ks_init_def ks_setActive_def)
  then have "ks_latched d0" by (simp add: d0_def i2c_init_def Let_def ks_latched_def led_init_def port_simps)
  then have "ks_latched d1"
    using dev_upd_latched [OF lcd_init_upd [of d0 "env_busy env"]] by (simp add: d1_def ks_latched_def)
  then have lat2: "ks_latched d2" by (simp add: d2_def menu_init_def reinitMenu_def ks_latched_def
      led_setState_def buttons_init_def Let_def port_simps)
  have menu2: "menu_ok d2" "\<not> isInMenu d2"
    using pos by (simp_all add: d2_def led_setState_def menu_ok_def menu_init_def reinitMenu_def buttons_init_def Let_def)
  have upd: "dev_upd d2 d3" unfolding d3_def by (intro dev_intros)
  have "menu_ok d3" "\<not> isInMenu d3" "ks_latched d3"
    using dev_upd_menu_same [OF upd] menu_ok_same menu2 lat2 dev_upd_latched [OF upd]
    by (blast, simp_all add: menu_same_def)
  then show "menu_ok d" "ks_latched d" "\<not> isInMenu d"
    by (simp_all add: d analog_init_def Let_def menu_ok_def ks_latched_def)
qed

lemma reaches_ok: "bridge_reaches date s \<Longrightarrow> bridge_ok s"
proof (induction rule: bridge_reaches.induct)
  case (power_up env)
  have "menu_active (fst (main_init env (bridge_static_init, adc_static_init)))"
    "length (buf_data (InputBuff (fst (main_init env (bridge_static_init, adc_static_init))))) = 129"
    "length (buf_data (OutputBuff (fst (main_init env (bridge_static_init, adc_static_init))))) = 129"
    by (simp_all add: main_init_def usb_init_def bridge_static_init_def case_prod_beta Let_def
        menu_active_def buffer_static_def)
  then show ?case using power_up_dev(1) [of env] by (simp add: bridge_ok_def)
next
  case (round s packet env reply t)
  then show ?case using main_step_ok [of s packet date env] by fastforce
qed (simp_all add: bridge_ok_timeout led_events_ok)

lemma run_cmds_reset: "run_cmds env cs out d = None \<longleftrightarrow> ResetDevice \<in> set cs"
  by (induction cs arbitrary: out d) (auto split: prod.split)

text \<open>A round without a packet, and one with a packet that the protocol can express.\<close>

definition wellformed_packet :: "usb_cmd list \<Rightarrow> u8 list \<Rightarrow> bool" where
  "wellformed_packet cs bytes \<longleftrightarrow> (\<exists>rest. bytes = encode_cmds cs @ request_code MESSAGE_END # rest) \<and> length bytes = 128 \<and>
     list_all cmd_ok cs \<and> sum_list (map reply_size cs) \<le> 129"

lemma usb_poll_wellformed:
  assumes "bridge_ok s" and "packet = None \<and> cs = [] \<or> (\<exists>bytes. packet = Some bytes \<and> wellformed_packet cs bytes)"
  shows "if ResetDevice \<in> set cs then usb_poll env packet s = Inl StopReset
    else \<exists>reply t. usb_poll env packet s = Inr (reply, t) \<and> (packet \<noteq> None \<longrightarrow> host_active t)"
proof (cases packet)
  case None
  then show ?thesis using assms(2) by (simp add: usb_poll_def)
next
  case (Some bytes)
  define d where "d = (if menuEnabled s then lcd_clrscr (env_busy env) (led_setState YELLOW True (dev s)) else led_setState YELLOW True (dev s))"
  obtain rest where "bytes = encode_cmds cs @ request_code MESSAGE_END # rest" "length bytes = 128" "list_all cmd_ok cs"
      "sum_list (map reply_size cs) \<le> 129"
    using assms(2) Some by (auto simp: wellformed_packet_def)
  then show ?thesis
    using usb_packet_executed [OF assms(1), of cs rest env, folded d_def] run_cmds_reset [of env cs "[]" d]
    by (auto simp: Some split: option.splits)
qed

lemma main_step_outcome:
  assumes "bridge_ok s" and "packet = None \<and> cs = [] \<or> (\<exists>bytes. packet = Some bytes \<and> wellformed_packet cs bytes)"
  shows "if ResetDevice \<in> set cs \<or> b_down (read_buttons (env_pins env)) \<and> b_enter (read_buttons (env_pins env))
    then main_step date env packet s = Some (Inl StopReset)
    else \<exists>reply t. main_step date env packet s = Some (Inr (reply, t)) \<and> (packet \<noteq> None \<longrightarrow> host_active t)"
proof -
  obtain u where u: "(if isMenuEnabled s
      then map_option (\<lambda>d. s\<lparr>dev := ks_wait 100 (env_button env) d\<rparr>)
        (menu_poll (ks_wait5 (env_button env)) (ks_wait 30 (env_button env)) date (bridge_env.truncate env) (dev s))
      else Some s) = Some u" "bridge_ok u"
    using main_step_polled [OF assms(1), of env date] by blast
  have step: "main_step date env packet s = Some (case usb_poll env packet u of Inl e \<Rightarrow> Inl e
    | Inr (reply, s) \<Rightarrow> (case checkButtonsResetCombination env s of Inl e \<Rightarrow> Inl e
      | Inr s \<Rightarrow> Inr (reply, s\<lparr>dev := ks_checkHardware (env_button env) (dev s)\<rparr>)))"
    unfolding main_step_def Let_def u(1) by simp
  show ?thesis
    using usb_poll_wellformed [OF u(2) assms(2), of env]
    by (auto simp: step checkButtonsResetCombination_def getButtonsState_def host_active_def split: if_splits)
qed

text \<open>C35: Supervision of the host. In every state the running bridge can reach, either the menu is in
  control and the time-out interrupt is off, or the host is and the interrupt is on. The next round
  of the main loop, without a packet or with one that the protocol can express (encoded commands closed
  by \<open>MESSAGE_END\<close>, whose replies fit the output buffer; C39 shows another one), ends: with the
  reset of the device when a command or the buttons for down and enter ask for it, and otherwise with
  the next state of the running bridge, in which after a packet the host is in control and supervised. And if the
  interrupt occurs, it hands control back to the menu, at its top, with the kill switch engaged by the
  firmware.\<close>

theorem host_is_supervised:
  fixes env :: usb_env
  assumes "bridge_reaches date s" and "packet = None \<and> cs = [] \<or> (\<exists>bytes. packet = Some bytes \<and> wellformed_packet cs bytes)"
  defines "reset \<equiv> ResetDevice \<in> set cs \<or> b_down (read_buttons (env_pins env)) \<and> b_enter (read_buttons (env_pins env))"
  shows "(menuEnabled s \<noteq> bit (TIMSK1 s) 1) \<and>
    (if reset then main_step date env packet s = Some (Inl StopReset)
     else \<exists>reply t. main_step date env packet s = Some (Inr (reply, t)) \<and> bridge_reaches date t \<and>
       (packet \<noteq> None \<longrightarrow> \<not> menuEnabled t \<and> bit (TIMSK1 t) 1)) \<and>
    ks_latched (dev (TIMER1_COMPA_vect env s)) \<and> isMenuEnabled (TIMER1_COMPA_vect env s) \<and>
    \<not> bit (TIMSK1 (TIMER1_COMPA_vect env s)) 1 \<and>
    menu_actual (dev (TIMER1_COMPA_vect env s)) = Some MainMenu"
proof -
  have ok: "bridge_ok s" using assms(1) by (rule reaches_ok)
  have "packet = None \<or> (\<exists>bytes. packet = Some bytes \<and> length bytes = 128)"
    using assms(2) by (auto simp: wellformed_packet_def)
  note next_state = bridge_reaches.round [OF assms(1) this]
  have "if reset then main_step date env packet s = Some (Inl StopReset)
     else \<exists>reply t. main_step date env packet s = Some (Inr (reply, t)) \<and> bridge_reaches date t \<and>
       (packet \<noteq> None \<longrightarrow> \<not> menuEnabled t \<and> bit (TIMSK1 t) 1)"
    using main_step_outcome [OF ok assms(2), of env date, folded reset_def] next_state
    by (auto simp: host_active_def split: if_splits)
  moreover have "menuEnabled s \<noteq> bit (TIMSK1 s) 1"
    using ok unfolding bridge_ok_def host_active_def menu_active_def by blast
  ultimately show ?thesis using timeout_effect [of env s] by (simp add: menu_active_def isMenuEnabled_def)
qed

text \<open>The witness: after power-up a packet hands control to the host; the time-out takes it back.\<close>

lemma host_is_supervised_witness:
  "\<exists>reply t. main_step [] quiet_env (Some (encode_cmds [SetKillswitch 0, MotorGet 0] @ request_code MESSAGE_END # replicate 123 0))
      (fst (main_init quiet_env (bridge_static_init, adc_static_init))) = Some (Inr (reply, t)) \<and> \<not> menuEnabled t \<and> bit (TIMSK1 t) 1 \<and>
    ks_latched (dev (TIMER1_COMPA_vect quiet_env t)) \<and> isMenuEnabled (TIMER1_COMPA_vect quiet_env t)"
proof -
  let ?bytes = "encode_cmds [SetKillswitch 0, MotorGet 0] @ request_code MESSAGE_END # replicate 123 0"
  have quiet: "\<not> b_down (read_buttons (env_pins quiet_env))" by (simp add: quiet_env_def read_buttons_def port_simps)
  have packet: "\<exists>bytes. Some ?bytes = Some bytes \<and> wellformed_packet [SetKillswitch 0, MotorGet 0] bytes"
    by (auto simp: wellformed_packet_def)
  from host_is_supervised [OF bridge_reaches.power_up [of "[]" quiet_env] disjI2, OF packet, of quiet_env] quiet
  obtain reply t where t: "main_step [] quiet_env (Some ?bytes) (fst (main_init quiet_env (bridge_static_init, adc_static_init))) = Some (Inr (reply, t))"
      "bridge_reaches [] t" "\<not> menuEnabled t" "bit (TIMSK1 t) 1"
    by auto
  moreover have "ks_latched (dev (TIMER1_COMPA_vect quiet_env t)) \<and> isMenuEnabled (TIMER1_COMPA_vect quiet_env t)"
    using host_is_supervised [OF t(2), of None "[]" quiet_env] by simp
  ultimately show ?thesis by blast
qed








end
