(* ===== verification/Motor_Driver.thy ===== *)
theory Motor_Driver
  imports Protocol
begin

text \<open>
  The motor part of the wheel driver firmware (\<open>firmware/motor_driver\<close>, an ATtiny2313): \<open>motor.cpp\<close>
  with its speed tables, direction pins, encoder and timer interrupts, and the PD controller of
  \<open>controller.cpp\<close>. \<open>int16_t\<close> values are integers; every arithmetic operation on them, which the
  compiler does in 16 bits, is followed by \<^const>\<open>wrap16\<close>.
\<close>

section \<open>Tables and state\<close>

definition TIMER_INTERVAL :: u16 where "TIMER_INTERVAL = 500"
definition FIXED_DRIVE_CYCLES :: u8 where "FIXED_DRIVE_CYCLES = 3"

definition REF_SPEEDS :: "u8 list" where
  "REF_SPEEDS = [0, 10, 20, 28, 36, 46, 54, 66, 74, 84, 92, 255]"

definition M1_SPEEDS :: "u8 list" where
  "M1_SPEEDS = [0, 40, 50, 60, 75, 100, 130, 160, 180, 200, 230, 255]"

definition M2_SPEEDS :: "u8 list" where
  "M2_SPEEDS = [0, 65, 75, 90, 100, 125, 150, 170, 190, 215, 240, 255]"

definition NO_SPEEDS :: nat where "NO_SPEEDS = length REF_SPEEDS"

record motor_struct =
  m_direction :: u8
  m_refSpeed :: u8
  m_counter :: u16
  m_prevError :: int
  m_fixedDriveCycleCounter :: u8

text \<open>The two motors and the registers; \<open>OCR0A\<close> and \<open>OCR0B\<close> hold the PWM values.\<close>

record wheels =
  motor1 :: motor_struct
  motor2 :: motor_struct
  w_PORTB :: u8
  w_DDRB :: u8
  w_PORTD :: u8
  w_DDRD :: u8
  w_TCCR0A :: u8
  w_TCCR0B :: u8
  w_OCR0A :: u8
  w_OCR0B :: u8
  w_TCCR1A :: u8
  w_TCCR1B :: u8
  w_OCR1A :: u16
  w_TIMSK :: u8
  w_MCUCR :: u8
  w_GIMSK :: u8

definition motor_zero :: motor_struct where
  "motor_zero = \<lparr>m_direction = 0, m_refSpeed = 0, m_counter = 0, m_prevError = 0, m_fixedDriveCycleCounter = 0\<rparr>"

definition wheels_reset :: wheels where
  "wheels_reset = \<lparr>motor1 = motor_zero, motor2 = motor_zero, w_PORTB = 0, w_DDRB = 0, w_PORTD = 0, w_DDRD = 0,
     w_TCCR0A = 0, w_TCCR0B = 0, w_OCR0A = 0, w_OCR0B = 0, w_TCCR1A = 0, w_TCCR1B = 0, w_OCR1A = 0,
     w_TIMSK = 0, w_MCUCR = 0, w_GIMSK = 0\<rparr>"

abbreviation (input) MOTOR1_FORWARD_PIN :: nat where "MOTOR1_FORWARD_PIN \<equiv> 1"
abbreviation (input) MOTOR1_BACKWARD_PIN :: nat where "MOTOR1_BACKWARD_PIN \<equiv> 0"
abbreviation (input) MOTOR1_PWM_PIN :: nat where "MOTOR1_PWM_PIN \<equiv> 2"
abbreviation (input) MOTOR2_FORWARD_PIN :: nat where "MOTOR2_FORWARD_PIN \<equiv> 4"
abbreviation (input) MOTOR2_BACKWARD_PIN :: nat where "MOTOR2_BACKWARD_PIN \<equiv> 6"
abbreviation (input) MOTOR2_PWM_PIN :: nat where "MOTOR2_PWM_PIN \<equiv> 5"
abbreviation (input) ENCODER1_PIN :: nat where "ENCODER1_PIN \<equiv> 2"
abbreviation (input) ENCODER2_PIN :: nat where "ENCODER2_PIN \<equiv> 3"
abbreviation (input) COM0A1 :: nat where "COM0A1 \<equiv> 7"
abbreviation (input) COM0B1 :: nat where "COM0B1 \<equiv> 5"

section \<open>\<open>controller.cpp\<close>\<close>

definition limit8bit :: "int \<Rightarrow> u8" where
  "limit8bit v = (if v < 0 then 0 else if v > 0xff then 0xff else of_int v)"

definition CONTROLLER_P_REG :: int where "CONTROLLER_P_REG = 60"
definition CONTROLLER_D_REG :: int where "CONTROLLER_D_REG = 30"

definition regulate :: "u8 \<Rightarrow> motor_struct \<Rightarrow> u8 \<times> motor_struct" where
  "regulate actualPwmReg m =
     (if m_direction m \<noteq> D_STOP
      then
        (let error = wrap16 (uint (m_counter m) - uint (m_refSpeed m));
             p = tdiv (wrap16 (CONTROLLER_P_REG * error)) 100;
             d = tdiv (wrap16 (CONTROLLER_D_REG * wrap16 (error - m_prevError m))) 100;
             output = wrap16 (uint actualPwmReg - wrap16 (p + d));
             m = m\<lparr>m_prevError := error\<rparr>;
             m = m\<lparr>m_counter := 0\<rparr>
         in (limit8bit output, m))
      else (0, m\<lparr>m_prevError := 0\<rparr>))"

section \<open>\<open>motor.cpp\<close>\<close>

definition mot_getSpeed :: "u8 \<Rightarrow> 'a wheels_scheme \<Rightarrow> u8" where
  "mot_getSpeed motor w = (if motor = MOTOR1 then w_OCR0A w else w_OCR0B w)"

definition mot_getDirection :: "u8 \<Rightarrow> 'a wheels_scheme \<Rightarrow> u8" where
  "mot_getDirection motor w = (if motor = MOTOR1 then m_direction (motor1 w) else m_direction (motor2 w))"

text \<open>\<open>DEBUG\<close> is true: the characters \<open>0\<close> and \<open>m\<close> are speeds, too.\<close>

definition mot_setSpeed :: "u8 \<Rightarrow> u8 \<Rightarrow> 'a wheels_scheme \<Rightarrow> 'a wheels_scheme" where
  "mot_setSpeed motor speed w =
     (let newRefSpeed =
            (if speed = of_char (CHR ''0'') then REF_SPEEDS ! 0
             else if speed = of_char (CHR ''m'') then REF_SPEEDS ! (NO_SPEEDS - 1)
             else REF_SPEEDS ! (unat speed mod NO_SPEEDS))
      in if motor = MOTOR1
         then
           (if newRefSpeed \<noteq> m_refSpeed (motor1 w)
            then w\<lparr>w_OCR0A := M1_SPEEDS ! (unat speed mod NO_SPEEDS),
                   motor1 := (motor1 w)\<lparr>m_fixedDriveCycleCounter := FIXED_DRIVE_CYCLES, m_refSpeed := newRefSpeed\<rparr>\<rparr>
            else w)
         else
           (if newRefSpeed \<noteq> m_refSpeed (motor2 w)
            then w\<lparr>w_OCR0B := M2_SPEEDS ! (unat speed mod NO_SPEEDS),
                   motor2 := (motor2 w)\<lparr>m_fixedDriveCycleCounter := FIXED_DRIVE_CYCLES, m_refSpeed := newRefSpeed\<rparr>\<rparr>
            else w))"

definition updateDirectionPins :: "u8 \<Rightarrow> u8 \<Rightarrow> 'a wheels_scheme \<Rightarrow> 'a wheels_scheme" where
  "updateDirectionPins motor direction w =
     (if motor = MOTOR1
      then
        (if direction = D_FORWARD
         then (let w = w\<lparr>w_PORTB := sbi MOTOR1_FORWARD_PIN (w_PORTB w)\<rparr>
               in w\<lparr>w_PORTB := cbi MOTOR1_BACKWARD_PIN (w_PORTB w)\<rparr>)
         else if direction = D_BACKWARD
         then (let w = w\<lparr>w_PORTB := cbi MOTOR1_FORWARD_PIN (w_PORTB w)\<rparr>
               in w\<lparr>w_PORTB := sbi MOTOR1_BACKWARD_PIN (w_PORTB w)\<rparr>)
         else (let w = w\<lparr>w_PORTB := sbi MOTOR1_FORWARD_PIN (w_PORTB w)\<rparr>
               in w\<lparr>w_PORTB := sbi MOTOR1_BACKWARD_PIN (w_PORTB w)\<rparr>))
      else
        (if direction = D_FORWARD
         then (let w = w\<lparr>w_PORTD := sbi MOTOR2_FORWARD_PIN (w_PORTD w)\<rparr>
               in w\<lparr>w_PORTD := cbi MOTOR2_BACKWARD_PIN (w_PORTD w)\<rparr>)
         else if direction = D_BACKWARD
         then (let w = w\<lparr>w_PORTD := cbi MOTOR2_FORWARD_PIN (w_PORTD w)\<rparr>
               in w\<lparr>w_PORTD := sbi MOTOR2_BACKWARD_PIN (w_PORTD w)\<rparr>)
         else (let w = w\<lparr>w_PORTD := sbi MOTOR2_FORWARD_PIN (w_PORTD w)\<rparr>
               in w\<lparr>w_PORTD := sbi MOTOR2_BACKWARD_PIN (w_PORTD w)\<rparr>)))"

text \<open>The search loop for the table index of the reference speed; 0 when it is not there.\<close>

fun find_speed :: "u8 list \<Rightarrow> nat \<Rightarrow> u8 \<Rightarrow> nat" where
  "find_speed [] i ref = 0"
| "find_speed (r # rs) i ref = (if r = ref then i else find_speed rs (i + 1) ref)"

definition mot_setDirection :: "u8 \<Rightarrow> u8 \<Rightarrow> 'a wheels_scheme \<Rightarrow> 'a wheels_scheme" where
  "mot_setDirection motor direction w =
     (let reg = (if motor = MOTOR1 then COM0A1 else COM0B1);
          m = (if motor = MOTOR1 then motor1 w else motor2 w);
          (w, newDirection) =
            (if direction = D_FORWARD \<or> direction = D_BACKWARD
             then (w\<lparr>w_TCCR0A := sbi reg (w_TCCR0A w)\<rparr>, direction)
             else (w\<lparr>w_TCCR0A := cbi reg (w_TCCR0A w)\<rparr>, D_STOP));
          speedIdx = find_speed REF_SPEEDS 0 (m_refSpeed m)
      in if newDirection \<noteq> m_direction m
         then
           (let w = (if motor = MOTOR1 then w\<lparr>w_OCR0A := M1_SPEEDS ! speedIdx\<rparr>
                     else w\<lparr>w_OCR0B := M2_SPEEDS ! speedIdx\<rparr>);
                m = m\<lparr>m_fixedDriveCycleCounter := FIXED_DRIVE_CYCLES, m_direction := newDirection, m_counter := 0\<rparr>;
                w = (if motor = MOTOR1 then w\<lparr>motor1 := m\<rparr> else w\<lparr>motor2 := m\<rparr>)
            in updateDirectionPins motor direction w)
         else w)"

definition mot_init :: "'a wheels_scheme \<Rightarrow> 'a wheels_scheme" where
  "mot_init w =
     (let w = w\<lparr>w_DDRB := w_DDRB w OR (push_bit MOTOR1_FORWARD_PIN 1 OR push_bit MOTOR1_BACKWARD_PIN 1 OR push_bit MOTOR1_PWM_PIN 1)\<rparr>;
          w = w\<lparr>w_DDRD := w_DDRD w OR (push_bit MOTOR2_FORWARD_PIN 1 OR push_bit MOTOR2_BACKWARD_PIN 1 OR push_bit MOTOR2_PWM_PIN 1)\<rparr>;
          w = w\<lparr>w_DDRD := w_DDRD w AND (NOT (push_bit ENCODER1_PIN 1) AND NOT (push_bit ENCODER2_PIN 1))\<rparr>;
          w = w\<lparr>w_PORTD := w_PORTD w OR (push_bit ENCODER1_PIN 1 OR push_bit ENCODER2_PIN 1)\<rparr>;
          w = mot_setDirection MOTOR1 D_STOP w;
          w = mot_setDirection MOTOR2 D_STOP w;
          w = w\<lparr>w_TCCR0A := push_bit 0 1\<rparr>;
          w = w\<lparr>w_TCCR0B := push_bit 1 1 OR push_bit 0 1\<rparr>;
          w = w\<lparr>w_MCUCR := w_MCUCR w OR (push_bit 2 1 OR push_bit 0 1)\<rparr>;
          w = w\<lparr>w_TCCR1A := 0\<rparr>;
          w = w\<lparr>w_TCCR1B := push_bit 3 1 OR push_bit 2 1 OR push_bit 0 1\<rparr>;
          w = w\<lparr>w_TIMSK := w_TIMSK w OR push_bit 6 1\<rparr>;
          w = w\<lparr>w_OCR1A := TIMER_INTERVAL\<rparr>
      in w\<lparr>w_GIMSK := w_GIMSK w OR (push_bit 6 1 OR push_bit 7 1)\<rparr>)"

definition ENCODER1_INTERRUPT :: "'a wheels_scheme \<Rightarrow> 'a wheels_scheme" where
  "ENCODER1_INTERRUPT w = w\<lparr>motor1 := (motor1 w)\<lparr>m_counter := m_counter (motor1 w) + 1\<rparr>\<rparr>"

definition ENCODER2_INTERRUPT :: "'a wheels_scheme \<Rightarrow> 'a wheels_scheme" where
  "ENCODER2_INTERRUPT w = w\<lparr>motor2 := (motor2 w)\<lparr>m_counter := m_counter (motor2 w) + 1\<rparr>\<rparr>"

definition mot_TIMER1_COMPA_vect :: "'a wheels_scheme \<Rightarrow> 'a wheels_scheme" where
  "mot_TIMER1_COMPA_vect w =
     (let w = (if m_fixedDriveCycleCounter (motor1 w) = 0
               then (let (pwm, m) = regulate (w_OCR0A w) (motor1 w) in w\<lparr>w_OCR0A := pwm, motor1 := m\<rparr>)
               else w\<lparr>motor1 := (motor1 w)\<lparr>m_fixedDriveCycleCounter := m_fixedDriveCycleCounter (motor1 w) - 1\<rparr>\<rparr>)
      in if m_fixedDriveCycleCounter (motor2 w) = 0
         then (let (pwm, m) = regulate (w_OCR0B w) (motor2 w) in w\<lparr>w_OCR0B := pwm, motor2 := m\<rparr>)
         else w\<lparr>motor2 := (motor2 w)\<lparr>m_fixedDriveCycleCounter := m_fixedDriveCycleCounter (motor2 w) - 1\<rparr>\<rparr>)"

section \<open>The invariant of the wheels\<close>

text \<open>What the wheels see: calls from the command loop, encoder edges and timer ticks.\<close>

datatype wheel_event = WSpeed u8 u8 | WDirection u8 u8 | WEncoder1 | WEncoder2 | WTimer

fun wheel_step :: "'a wheels_scheme \<Rightarrow> wheel_event \<Rightarrow> 'a wheels_scheme" where
  "wheel_step w (WSpeed m v) = mot_setSpeed m v w"
| "wheel_step w (WDirection m d) = mot_setDirection m d w"
| "wheel_step w WEncoder1 = ENCODER1_INTERRUPT w"
| "wheel_step w WEncoder2 = ENCODER2_INTERRUPT w"
| "wheel_step w WTimer = mot_TIMER1_COMPA_vect w"

fun wheel_run :: "'a wheels_scheme \<Rightarrow> wheel_event list \<Rightarrow> 'a wheels_scheme" where
  "wheel_run w [] = w"
| "wheel_run w (e # es) = wheel_run (wheel_step w e) es"

text \<open>Output pins of one motor against its recorded direction: the bridge drives forwards or
  backwards exactly when the direction says so, and otherwise both inputs are equal (coasting
  before the first movement, braking afterwards); the PWM output is connected while it moves.\<close>

definition pins_agree :: "u8 \<Rightarrow> bool \<Rightarrow> bool \<Rightarrow> bool \<Rightarrow> bool" where
  "pins_agree direction forward backward pwm \<longleftrightarrow>
     (direction = D_FORWARD \<and> forward \<and> \<not> backward \<and> pwm) \<or>
     (direction = D_BACKWARD \<and> \<not> forward \<and> backward \<and> pwm) \<or>
     (direction = D_STOP \<and> forward = backward \<and> \<not> pwm)"

definition motor_ok :: "motor_struct \<Rightarrow> bool" where
  "motor_ok m \<longleftrightarrow> m_refSpeed m \<in> set REF_SPEEDS \<and> unat (m_fixedDriveCycleCounter m) \<le> 3 \<and>
     - 32768 \<le> m_prevError m \<and> m_prevError m < 32768"

definition wheels_ok :: "'a wheels_scheme \<Rightarrow> bool" where
  "wheels_ok w \<longleftrightarrow> motor_ok (motor1 w) \<and> motor_ok (motor2 w) \<and>
     pins_agree (m_direction (motor1 w)) (bit (w_PORTB w) 1) (bit (w_PORTB w) 0) (bit (w_TCCR0A w) 7) \<and>
     pins_agree (m_direction (motor2 w)) (bit (w_PORTD w) 4) (bit (w_PORTD w) 6) (bit (w_TCCR0A w) 5)"

lemma motor_ok_updates:
  "motor_ok m \<Longrightarrow> motor_ok (m\<lparr>m_counter := c\<rparr>)"
  "motor_ok m \<Longrightarrow> motor_ok (m\<lparr>m_direction := d\<rparr>)"
  "motor_ok m \<Longrightarrow> motor_ok (m\<lparr>m_prevError := wrap16 i\<rparr>)"
  "motor_ok m \<Longrightarrow> motor_ok (m\<lparr>m_prevError := 0\<rparr>)"
  "motor_ok m \<Longrightarrow> unat f \<le> 3 \<Longrightarrow> motor_ok (m\<lparr>m_fixedDriveCycleCounter := f\<rparr>)"
  "motor_ok m \<Longrightarrow> r \<in> set REF_SPEEDS \<Longrightarrow> motor_ok (m\<lparr>m_refSpeed := r\<rparr>)"
  using wrap16_bounds [of i] by (simp_all add: motor_ok_def)

lemma table_entry: "i < 12 \<Longrightarrow> REF_SPEEDS ! i \<in> set REF_SPEEDS"
  by (rule nth_mem) (simp add: REF_SPEEDS_def)

lemma NO_SPEEDS_12: "NO_SPEEDS = 12"
  by (simp add: NO_SPEEDS_def REF_SPEEDS_def)

lemma setSpeed_ok:
  assumes "wheels_ok w"
  shows "wheels_ok (mot_setSpeed m v w)"
proof -
  define r where "r = (if v = of_char (CHR ''0'') then REF_SPEEDS ! 0
    else if v = of_char (CHR ''m'') then REF_SPEEDS ! (NO_SPEEDS - 1)
    else REF_SPEEDS ! (unat v mod NO_SPEEDS))"
  have "r \<in> set REF_SPEEDS"
    by (simp add: r_def NO_SPEEDS_12 table_entry)
  then have "motor_ok (mm\<lparr>m_fixedDriveCycleCounter := FIXED_DRIVE_CYCLES, m_refSpeed := r\<rparr>)" if "motor_ok mm" for mm
    using that by (simp add: motor_ok_def FIXED_DRIVE_CYCLES_def)
  then show ?thesis using assms
    unfolding mot_setSpeed_def Let_def r_def [symmetric] by (auto simp: wheels_ok_def)
qed

lemma setDirection_ok: "wheels_ok w \<Longrightarrow> wheels_ok (mot_setDirection m d w)"
  by (auto simp: mot_setDirection_def updateDirectionPins_def Let_def wheels_ok_def motor_ok_updates
      FIXED_DRIVE_CYCLES_def port_simps pins_agree_def)

lemma regulate_ok: "motor_ok m \<Longrightarrow> motor_ok (snd (regulate p m))"
  by (simp add: regulate_def Let_def motor_ok_updates)

lemma regulate_direction [simp]: "m_direction (snd (regulate p m)) = m_direction m"
  by (simp add: regulate_def Let_def)

lemma countdown_ok:
  assumes "motor_ok m" and "m_fixedDriveCycleCounter m \<noteq> 0"
  shows "motor_ok (m\<lparr>m_fixedDriveCycleCounter := m_fixedDriveCycleCounter m - 1\<rparr>)"
proof (rule motor_ok_updates(5) [OF assms(1)])
  have "unat (m_fixedDriveCycleCounter m) \<le> 3" using assms(1) by (simp add: motor_ok_def)
  then show "unat (m_fixedDriveCycleCounter m - 1) \<le> 3" using assms(2) by unat_arith
qed

lemma timer_tick_ok: "wheels_ok w \<Longrightarrow> wheels_ok (mot_TIMER1_COMPA_vect w)"
  by (simp add: mot_TIMER1_COMPA_vect_def Let_def case_prod_beta wheels_ok_def regulate_ok countdown_ok)

lemma encoders_ok:
  "wheels_ok w \<Longrightarrow> wheels_ok (ENCODER1_INTERRUPT w)"
  "wheels_ok w \<Longrightarrow> wheels_ok (ENCODER2_INTERRUPT w)"
  by (simp_all add: ENCODER1_INTERRUPT_def ENCODER2_INTERRUPT_def wheels_ok_def motor_ok_updates)

lemma wheel_step_ok: "wheels_ok w \<Longrightarrow> wheels_ok (wheel_step w e)"
  by (cases e) (simp_all add: setSpeed_ok setDirection_ok timer_tick_ok encoders_ok)

lemma wheel_run_ok: "wheels_ok w \<Longrightarrow> wheels_ok (wheel_run w es)"
  by (induction es arbitrary: w) (simp_all add: wheel_step_ok)

lemma wheels_init_ok:
  assumes "motor1 w = motor_zero" "motor2 w = motor_zero" "w_PORTB w = 0" "w_PORTD w = 0"
  shows "wheels_ok (mot_init w)"
proof -
  have "motor_ok motor_zero" by (simp add: motor_ok_def motor_zero_def REF_SPEEDS_def)
  with assms show ?thesis
    by (simp add: mot_init_def mot_setDirection_def Let_def wheels_ok_def pins_agree_def bit_or_iff)
       (simp add: motor_zero_def)
qed

section \<open>Properties\<close>

text \<open>The protocol header allows speeds from 0 to 255; the driver has twelve levels and takes every
  byte modulo 12, with one exception: the byte of the character m selects the reference of the
  highest level with the PWM value of level 1.\<close>

theorem wheel_speed_modulo_12:
  assumes "v \<noteq> of_char (CHR ''m'')"
  shows "mot_setSpeed motor v w = mot_setSpeed motor (v mod 12) w"
proof -
  have v12: "unat (v mod 12) = unat v mod 12" by (simp add: unat_mod_distrib)
  then have lt: "unat (v mod 12) < 12" by simp
  have "v mod 12 \<noteq> 48"
  proof
    assume "v mod 12 = 48"
    then show False using lt by simp
  qed
  moreover have "v mod 12 \<noteq> 109"
  proof
    assume "v mod 12 = 109"
    then show False using lt by simp
  qed
  moreover have "REF_SPEEDS ! (unat v mod 12) = REF_SPEEDS ! 0" if "v = 48" using that by simp
  ultimately show ?thesis
    using assms by (auto simp: mot_setSpeed_def NO_SPEEDS_def REF_SPEEDS_def v12 Let_def)
qed

lemma wheel_speed_modulo_12_witness:
  "mot_setSpeed MOTOR1 255 wheels_reset = mot_setSpeed MOTOR1 3 wheels_reset"
  using wheel_speed_modulo_12 [of 255 MOTOR1 wheels_reset] by simp

text \<open>C40: The controller inside its range. When a wheel has made at most 546 encoder steps since the
  counter was cleared and the previous error was in range, the regulator computes the PD law over
  the integers, cut to a byte; the new error is in range again and the counter is cleared.\<close>

theorem regulate_exact:
  fixes m :: motor_struct and pwm :: u8
  assumes "m_direction m \<noteq> D_STOP" and "uint (m_counter m) \<le> 546"
    and "- 255 \<le> m_prevError m" and "m_prevError m \<le> 546"
  defines "e \<equiv> uint (m_counter m) - uint (m_refSpeed m)"
  shows "regulate pwm m =
      (of_int (max 0 (min 255 (uint pwm - (tdiv (60 * e) 100 + tdiv (30 * (e - m_prevError m)) 100)))),
       m\<lparr>m_prevError := e, m_counter := 0\<rparr>) \<and> - 255 \<le> e \<and> e \<le> 546"
proof -
  have ref: "0 \<le> uint (m_refSpeed m)" "uint (m_refSpeed m) \<le> 255" "0 \<le> uint pwm" "uint pwm \<le> 255"
    using uint_bounded [of "m_refSpeed m"] uint_bounded [of pwm] by simp_all
  have "0 \<le> uint (m_counter m)" by simp
  with ref have e: "- 255 \<le> e" "e \<le> 546" using assms(2) unfolding e_def by linarith+
  have p: "\<bar>tdiv (60 * e) 100\<bar> \<le> 328" using e by (intro tdiv_bounds) auto
  have d: "\<bar>tdiv (30 * (e - m_prevError m)) 100\<bar> \<le> 241" using e assms(3,4) by (intro tdiv_bounds) auto
  have "wrap16 e = e" "wrap16 (60 * e) = 60 * e" "wrap16 (e - m_prevError m) = e - m_prevError m"
    "wrap16 (30 * (e - m_prevError m)) = 30 * (e - m_prevError m)"
    using e assms(3,4) by (simp_all add: wrap16_id)
  moreover have "wrap16 (tdiv (60 * e) 100 + tdiv (30 * (e - m_prevError m)) 100) =
      tdiv (60 * e) 100 + tdiv (30 * (e - m_prevError m)) 100"
    using p d by (intro wrap16_id) auto
  moreover have "wrap16 (uint pwm - (tdiv (60 * e) 100 + tdiv (30 * (e - m_prevError m)) 100)) =
      uint pwm - (tdiv (60 * e) 100 + tdiv (30 * (e - m_prevError m)) 100)"
    using p d ref by (intro wrap16_id) linarith+
  ultimately show ?thesis
    using assms(1) e
    by (simp add: regulate_def Let_def CONTROLLER_P_REG_def CONTROLLER_D_REG_def limit8bit_def min_def max_def
        flip: e_def)
qed

lemma regulate_exact_witness:
  "fst (regulate 100 \<lparr>m_direction = 1, m_refSpeed = 46, m_counter = 66, m_prevError = 0,
     m_fixedDriveCycleCounter = 0\<rparr>) = 82"
  using regulate_exact [of "\<lparr>m_direction = 1, m_refSpeed = 46, m_counter = 66, m_prevError = 0,
     m_fixedDriveCycleCounter = 0\<rparr>" 100] by (simp add: tdiv_def)

lemma wheel_run_append: "wheel_run w (es @ fs) = wheel_run (wheel_run w es) fs"
  by (induction es arbitrary: w) simp_all

lemma wheel_run_encoder:
  "wheel_run w (replicate n WEncoder1) = w\<lparr>motor1 := (motor1 w)\<lparr>m_counter := m_counter (motor1 w) + of_nat n\<rparr>\<rparr>"
  by (induction n arbitrary: w) (simp_all add: ENCODER1_INTERRUPT_def ac_simps)

text \<open>The controller outside its range. A wheel set to forward at level 1 that makes 600 encoder steps
  before the fixed drive phase is over turns much too fast; the product with the proportional
  constant overflows and the controller quadruples the PWM value from 40 to 164.\<close>

theorem regulate_overflow_accelerates:
  fixes es :: "wheel_event list"
  defines "es \<equiv> [WDirection MOTOR1 D_FORWARD, WSpeed MOTOR1 1] @ replicate 600 WEncoder1 @ [WTimer, WTimer, WTimer]"
  shows "mot_getSpeed MOTOR1 (wheel_run (mot_init wheels_reset) es) = 40 \<and>
    mot_getSpeed MOTOR1 (wheel_run (mot_init wheels_reset) (es @ [WTimer])) = 164"
proof -
  define w where "w = wheel_run (mot_init wheels_reset) [WDirection MOTOR1 D_FORWARD, WSpeed MOTOR1 1]"
  have w: "motor1 w = \<lparr>m_direction = 1, m_refSpeed = 10, m_counter = 0, m_prevError = 0, m_fixedDriveCycleCounter = 3\<rparr>"
    "w_OCR0A w = 40"
    by (simp_all add: w_def mot_init_def wheels_reset_def mot_setDirection_def mot_setSpeed_def Let_def
        motor_zero_def updateDirectionPins_def REF_SPEEDS_def M1_SPEEDS_def NO_SPEEDS_12 FIXED_DRIVE_CYCLES_def)
  define v where "v = wheel_run w (replicate 600 WEncoder1)"
  have v: "motor1 v = \<lparr>m_direction = 1, m_refSpeed = 10, m_counter = 600, m_prevError = 0, m_fixedDriveCycleCounter = 3\<rparr>"
    "w_OCR0A v = 40"
    by (simp_all add: v_def wheel_run_encoder w)
  have run: "wheel_run (mot_init wheels_reset) es = wheel_run v [WTimer, WTimer, WTimer]"
    by (simp only: es_def wheel_run_append v_def w_def)
  have r: "regulate 40 \<lparr>m_direction = 1, m_refSpeed = 10, m_counter = 600, m_prevError = 0, m_fixedDriveCycleCounter = 0\<rparr> =
      (164, \<lparr>m_direction = 1, m_refSpeed = 10, m_counter = 0, m_prevError = 590, m_fixedDriveCycleCounter = 0\<rparr>)"
    by (simp add: regulate_def Let_def CONTROLLER_P_REG_def CONTROLLER_D_REG_def wrap16_def tdiv_def limit8bit_def)
  define u where "u = wheel_run v [WTimer, WTimer, WTimer]"
  have u: "motor1 u = \<lparr>m_direction = 1, m_refSpeed = 10, m_counter = 600, m_prevError = 0, m_fixedDriveCycleCounter = 0\<rparr>"
    "w_OCR0A u = 40"
    by (simp_all add: u_def mot_TIMER1_COMPA_vect_def Let_def case_prod_beta v)
  have "w_OCR0A (wheel_run u [WTimer]) = 164"
    by (simp add: mot_TIMER1_COMPA_vect_def Let_def case_prod_beta u r)
  with u show ?thesis by (simp only: wheel_run_append run mot_getSpeed_def if_P simp_thms flip: u_def)
qed

end
