(* ===== verification/Usi_Slave.thy ===== *)
theory Usi_Slave
  imports Motor_Driver
begin

text \<open>
  The I2C slave of the wheel driver (\<open>motor_driver/i2c-slave.cpp\<close>, on the USI of the ATtiny2313)
  and its main loop (\<open>motor_driver/main.cpp\<close>). The slave shares port B with the first motor, so its
  state extends that of the motors. An overflow interrupt gets the byte that the master has shifted
  into the data register as an argument; \<open>None\<close> is a read outside the reply buffer.
\<close>

section \<open>State\<close>

record driver = wheels +
  i2c_address :: u8
  i2c_rdbuf :: "u8 list"
  i2c_rdlen :: u8
  i2c_rdptr :: u8
  i2c_wrbuf :: "u8 list"
  i2c_wrlen :: u8
  usi_state :: u8
  USIDR :: u8
  USISR :: u8
  USICR :: u8
  irq_enabled :: bool

abbreviation (input) I2C_RDSIZE :: nat where "I2C_RDSIZE \<equiv> 4"
abbreviation (input) I2C_WRSIZE :: nat where "I2C_WRSIZE \<equiv> 4"
definition I2C_SLAVE_ADDRESS :: u8 where "I2C_SLAVE_ADDRESS = 0x12"

abbreviation (input) USI_Stopped :: u8 where "USI_Stopped \<equiv> 0"
abbreviation (input) USI_CheckAddress :: u8 where "USI_CheckAddress \<equiv> 1"
abbreviation (input) USI_SendData :: u8 where "USI_SendData \<equiv> 2"
abbreviation (input) USI_RequestReply :: u8 where "USI_RequestReply \<equiv> 4"
abbreviation (input) USI_CheckReply :: u8 where "USI_CheckReply \<equiv> 8"
abbreviation (input) USI_RequestData :: u8 where "USI_RequestData \<equiv> 16"
abbreviation (input) USI_SendAck :: u8 where "USI_SendAck \<equiv> 32"

definition USI_MasterRead :: u8 where "USI_MasterRead = USI_SendData OR USI_RequestReply OR USI_CheckReply"
definition USI_MasterWrite :: u8 where "USI_MasterWrite = USI_RequestData OR USI_SendAck"

abbreviation (input) USI_SDA :: nat where "USI_SDA \<equiv> 5"
abbreviation (input) USI_SCL :: nat where "USI_SCL \<equiv> 7"
abbreviation (input) USIPF :: nat where "USIPF \<equiv> 5"

definition driver_reset :: driver where
  "driver_reset = wheels.extend wheels_reset
     \<lparr>i2c_address = 0, i2c_rdbuf = replicate I2C_RDSIZE 0, i2c_rdlen = 0, i2c_rdptr = 0,
      i2c_wrbuf = replicate I2C_WRSIZE 0, i2c_wrlen = 0, usi_state = 0, USIDR = 0, USISR = 0, USICR = 0,
      irq_enabled = False\<rparr>"

section \<open>The USI registers\<close>

definition setInput :: "driver \<Rightarrow> driver" where
  "setInput s = s\<lparr>w_DDRB := cbi USI_SDA (w_DDRB s)\<rparr>"

definition setOutput :: "driver \<Rightarrow> driver" where
  "setOutput s = s\<lparr>w_DDRB := sbi USI_SDA (w_DDRB s)\<rparr>"

definition setUSICR :: "bool \<Rightarrow> bool \<Rightarrow> driver \<Rightarrow> driver" where
  "setUSICR start ovf s = s\<lparr>USICR := push_bit 7 (bool_byte start) OR push_bit 6 (bool_byte ovf) OR
     push_bit 5 1 OR push_bit 4 (bool_byte ovf) OR push_bit 3 1\<rparr>"

text \<open>Writing the status register clears the flags written as one (\<open>USISIF\<close>, \<open>USIOIF\<close>, \<open>USIPF\<close>) and
  sets the counter in its low half.\<close>

definition setUSISR :: "bool \<Rightarrow> bool \<Rightarrow> u8 \<Rightarrow> driver \<Rightarrow> driver" where
  "setUSISR start stop bits s =
     (let v = push_bit 7 (bool_byte start) OR push_bit 6 1 OR push_bit 5 (bool_byte stop) OR (16 - 2 * bits)
      in s\<lparr>USISR := (USISR s AND NOT v AND 0xF0) OR (v AND 0x0F)\<rparr>)"

definition enableStart_disableOverflow :: "driver \<Rightarrow> driver" where
  "enableStart_disableOverflow s = setUSICR True False s"

definition enableStart_enableOverflow :: "driver \<Rightarrow> driver" where
  "enableStart_enableOverflow s = setUSICR True True s"

definition clearStartStop_setCounter :: "u8 \<Rightarrow> driver \<Rightarrow> driver" where
  "clearStartStop_setCounter n s = setUSISR True True n s"

definition setTransmit :: "u8 \<Rightarrow> driver \<Rightarrow> driver" where
  "setTransmit n s = setUSISR False False n (setOutput s)"

definition setReceive :: "u8 \<Rightarrow> driver \<Rightarrow> driver" where
  "setReceive n s = setUSISR False False n (setInput s)"

section \<open>\<open>i2c-slave.cpp\<close>\<close>

definition usi_reset :: "driver \<Rightarrow> driver" where
  "usi_reset s =
     (let s = s\<lparr>usi_state := USI_Stopped\<rparr>;
          s = setInput s;
          s = enableStart_disableOverflow s
      in clearStartStop_setCounter 1 s)"

definition i2c_initialize :: "u8 \<Rightarrow> driver \<Rightarrow> driver" where
  "i2c_initialize addr s =
     (let s = s\<lparr>i2c_address := addr\<rparr>;
          s = s\<lparr>w_PORTB := sbi USI_SCL (w_PORTB s)\<rparr>;
          s = s\<lparr>w_PORTB := sbi USI_SDA (w_PORTB s)\<rparr>;
          s = s\<lparr>w_DDRB := sbi USI_SCL (w_DDRB s)\<rparr>;
          s = s\<lparr>i2c_rdlen := 0\<rparr>;
          s = s\<lparr>i2c_wrlen := 0\<rparr>
      in usi_reset s)"

definition i2c_idle :: "driver \<Rightarrow> bool" where
  "i2c_idle s \<longleftrightarrow> usi_state s = USI_Stopped"

definition i2c_message_ready :: "driver \<Rightarrow> u8 \<times> driver" where
  "i2c_message_ready s =
     (let r = i2c_wrlen s;
          s = s\<lparr>irq_enabled := False\<rparr>;
          (r, s) =
            (if usi_state s \<noteq> USI_Stopped
             then
               (if bit_is_set (USISR s) USIPF then (r, usi_reset s)
                else if usi_state s AND USI_MasterWrite \<noteq> 0 then (0, s)
                else (r, s))
             else (r, s))
      in (r, s\<lparr>irq_enabled := True\<rparr>))"

definition i2c_message_done :: "driver \<Rightarrow> driver" where
  "i2c_message_done s = s\<lparr>i2c_wrlen := 0\<rparr>"

definition i2c_reply_ready :: "driver \<Rightarrow> bool \<times> driver" where
  "i2c_reply_ready s =
     (let s = s\<lparr>irq_enabled := False\<rparr>
      in if usi_state s AND USI_MasterRead \<noteq> 0 then (False, s\<lparr>irq_enabled := True\<rparr>) else (True, s))"

definition i2c_reply_done :: "u8 \<Rightarrow> driver \<Rightarrow> driver" where
  "i2c_reply_done n s = s\<lparr>i2c_rdlen := n, irq_enabled := True\<rparr>"

text \<open>\<open>aborted\<close>: a stop condition is seen while the interrupt waits for SCL to fall.\<close>

definition USI_START_vect :: "bool \<Rightarrow> driver \<Rightarrow> driver" where
  "USI_START_vect aborted s =
     (let s = setInput s in
      if aborted then usi_reset s
      else (let s = clearStartStop_setCounter 8 s;
                s = enableStart_enableOverflow s
            in s\<lparr>usi_state := USI_CheckAddress\<rparr>))"

definition usi_send :: "driver \<Rightarrow> driver option" where
  "usi_send s =
     map_option (\<lambda>b.
       (let s = s\<lparr>USIDR := b\<rparr>;
            s = s\<lparr>i2c_rdptr := i2c_rdptr s + 1\<rparr>;
            s = (if i2c_rdptr s \<ge> i2c_rdlen s then s\<lparr>i2c_rdptr := 0\<rparr> else s);
            s = setTransmit 8 s
        in s\<lparr>usi_state := USI_RequestReply\<rparr>)) (peek (i2c_rdbuf s) (unat (i2c_rdptr s)))"

text \<open>The slave address has been received.\<close>

definition usi_check_address :: "driver \<Rightarrow> driver" where
  "usi_check_address s =
     (let addr = USIDR s in
      if addr = 0 \<or> addr AND NOT 1 = i2c_address s
      then
        (if addr AND 1 \<noteq> 0
         then
           (if i2c_rdlen s = 0 then usi_reset s
            else setTransmit 1 (s\<lparr>i2c_rdptr := 0, usi_state := USI_SendData, USIDR := 0\<rparr>))
         else
           (if i2c_wrlen s \<noteq> 0 then usi_reset s
            else setTransmit 1 (s\<lparr>i2c_rdlen := 0, usi_state := USI_RequestData, USIDR := 0\<rparr>)))
      else usi_reset s)"

text \<open>A data byte has been received.\<close>

definition usi_store :: "driver \<Rightarrow> driver" where
  "usi_store s =
     (if unat (i2c_wrlen s) \<ge> I2C_WRSIZE then usi_reset s
      else (let s = s\<lparr>i2c_wrbuf := (i2c_wrbuf s)[unat (i2c_wrlen s) := USIDR s]\<rparr>;
                s = s\<lparr>i2c_wrlen := i2c_wrlen s + 1\<rparr>;
                s = s\<lparr>USIDR := 0\<rparr>;
                s = setTransmit 1 s
            in s\<lparr>usi_state := USI_RequestData\<rparr>))"

definition USI_OVERFLOW_vect :: "u8 \<Rightarrow> driver \<Rightarrow> driver option" where
  "USI_OVERFLOW_vect shifted s =
     (let s = s\<lparr>USIDR := shifted\<rparr> in
      if usi_state s = USI_CheckAddress then Some (usi_check_address s)
      else if usi_state s = USI_SendData then usi_send s
      else if usi_state s = USI_RequestReply
      then Some ((setReceive 1 (s\<lparr>USIDR := 0\<rparr>))\<lparr>usi_state := USI_CheckReply\<rparr>)
      else if usi_state s = USI_CheckReply then (if USIDR s \<noteq> 0 then Some (usi_reset s) else usi_send s)
      else if usi_state s = USI_RequestData then Some ((setReceive 8 s)\<lparr>usi_state := USI_SendAck\<rparr>)
      else if usi_state s = USI_SendAck then Some (usi_store s)
      else Some s)"

section \<open>\<open>main.cpp\<close>\<close>

definition driver_init :: "driver \<Rightarrow> driver" where
  "driver_init s =
     (let s = s\<lparr>w_DDRD := sbi 0 (w_DDRD s)\<rparr>;
          s = mot_init s;
          s = i2c_initialize (push_bit 1 I2C_SLAVE_ADDRESS) s
      in s\<lparr>irq_enabled := True\<rparr>)"

text \<open>One round of the main loop: the reply first, then a complete message.\<close>

definition driver_reply :: "driver \<Rightarrow> driver" where
  "driver_reply s =
     (let (ready, s) = i2c_reply_ready s in
      if ready
      then
        (let motor = i2c_wrbuf s ! 1;
             s = (if i2c_wrbuf s ! 0 = motor_command_code M_GET_SPEED
                  then s\<lparr>i2c_rdbuf := (i2c_rdbuf s)[0 := mot_getSpeed motor s]\<rparr>
                  else s\<lparr>i2c_rdbuf := (i2c_rdbuf s)[0 := mot_getDirection motor s]\<rparr>)
         in i2c_reply_done 1 s)
      else s)"

definition driver_command :: "driver \<Rightarrow> driver" where
  "driver_command s =
     (let motor = i2c_wrbuf s ! 1 in
      if i2c_wrbuf s ! 0 = motor_command_code M_BRAKE
      then mot_setDirection MOTOR2 D_STOP (mot_setDirection MOTOR1 D_STOP s)
      else if i2c_wrbuf s ! 0 = motor_command_code M_SET_SPEED then mot_setSpeed motor (i2c_wrbuf s ! 2) s
      else if i2c_wrbuf s ! 0 = motor_command_code M_SET_DIRECTION then mot_setDirection motor (i2c_wrbuf s ! 2) s
      else s)"

definition driver_round :: "driver \<Rightarrow> driver" where
  "driver_round s =
     (let s = driver_reply s;
          (ready, s) = i2c_message_ready s
      in if ready \<noteq> 0 then i2c_message_done (driver_command s) else s)"

section \<open>Runs of the driver\<close>

text \<open>What the driver sees: start conditions, counter overflows with the byte shifted in, stop
  conditions (which only set the flag), rounds of the main loop, encoder edges and timer ticks.\<close>

datatype driver_event =
    DStart bool
  | DOverflow u8
  | DStop
  | DRound
  | DEncoder1
  | DEncoder2
  | DTimer

fun driver_step :: "driver_event \<Rightarrow> driver \<Rightarrow> driver option" where
  "driver_step (DStart aborted) s = Some (USI_START_vect aborted s)"
| "driver_step (DOverflow b) s = USI_OVERFLOW_vect b s"
| "driver_step DStop s = Some (s\<lparr>USISR := sbi USIPF (USISR s)\<rparr>)"
| "driver_step DRound s = Some (driver_round s)"
| "driver_step DEncoder1 s = Some (ENCODER1_INTERRUPT s)"
| "driver_step DEncoder2 s = Some (ENCODER2_INTERRUPT s)"
| "driver_step DTimer s = Some (mot_TIMER1_COMPA_vect s)"

fun driver_run :: "driver_event list \<Rightarrow> driver \<Rightarrow> driver option" where
  "driver_run [] s = Some s"
| "driver_run (e # es) s = Option.bind (driver_step e s) (driver_run es)"

lemma driver_run_append: "driver_run (es @ fs) s = Option.bind (driver_run es s) (driver_run fs)"
  by (induction es arbitrary: s) (simp_all split: Option.bind_split)

text \<open>The register operations leave the motors alone.\<close>

definition same_wheels :: "'a wheels_scheme \<Rightarrow> 'b wheels_scheme \<Rightarrow> bool" where
  "same_wheels s t \<longleftrightarrow> motor1 t = motor1 s \<and> motor2 t = motor2 s \<and> w_PORTB t = w_PORTB s \<and>
     w_PORTD t = w_PORTD s \<and> w_TCCR0A t = w_TCCR0A s \<and> w_OCR0A t = w_OCR0A s \<and> w_OCR0B t = w_OCR0B s"

lemma same_wheels_ok: "same_wheels s t \<Longrightarrow> wheels_ok s \<Longrightarrow> wheels_ok t"
  by (simp add: same_wheels_def wheels_ok_def)

lemmas usi_register_defs = setInput_def setOutput_def setUSICR_def setUSISR_def setTransmit_def
  setReceive_def enableStart_disableOverflow_def enableStart_enableOverflow_def
  clearStartStop_setCounter_def Let_def

lemma usi_register_frame [simp]:
  "same_wheels s (setUSISR a b n s)" "same_wheels s (setTransmit n s)" "same_wheels s (setReceive n s)"
  "same_wheels s (usi_reset s)"
  by (simp_all add: usi_register_defs usi_reset_def same_wheels_def)

section \<open>The invariant of the driver\<close>

definition driver_ok :: "driver \<Rightarrow> bool" where
  "driver_ok s \<longleftrightarrow> wheels_ok s \<and> length (i2c_rdbuf s) = I2C_RDSIZE \<and> length (i2c_wrbuf s) = I2C_WRSIZE \<and>
     unat (i2c_wrlen s) \<le> I2C_WRSIZE \<and> i2c_rdlen s \<le> 1 \<and> i2c_rdptr s = 0"

lemma driver_ok_reset: "driver_ok s \<Longrightarrow> driver_ok (usi_reset s)"
  using same_wheels_ok [of s "usi_reset s"]
  by (simp add: driver_ok_def) (simp add: usi_reset_def usi_register_defs)

lemma driver_ok_transfer:
  assumes "driver_ok s"
  shows "driver_ok (setTransmit n s)" "driver_ok (setReceive n s)"
  using assms same_wheels_ok [of s "setTransmit n s"] same_wheels_ok [of s "setReceive n s"]
  by (simp_all add: driver_ok_def) (simp_all add: usi_register_defs)

lemma driver_ok_fields:
  assumes "driver_ok s"
  shows "driver_ok (s\<lparr>USIDR := b\<rparr>)" "driver_ok (s\<lparr>usi_state := st\<rparr>)" "driver_ok (s\<lparr>i2c_rdptr := 0\<rparr>)"
    "driver_ok (s\<lparr>i2c_rdlen := 0\<rparr>)" "driver_ok (s\<lparr>USISR := r\<rparr>)" "driver_ok (s\<lparr>irq_enabled := q\<rparr>)"
    "driver_ok (s\<lparr>i2c_wrlen := 0\<rparr>)"
  using assms by (simp_all add: driver_ok_def wheels_ok_def)

lemma driver_ok_wheels:
  assumes "driver_ok s"
  shows "driver_ok (mot_setSpeed m v s)" "driver_ok (mot_setDirection m d s)" "driver_ok (ENCODER1_INTERRUPT s)"
    "driver_ok (ENCODER2_INTERRUPT s)" "driver_ok (mot_TIMER1_COMPA_vect s)"
  using assms setSpeed_ok [of s m v] setDirection_ok [of s m d] encoders_ok [of s] timer_tick_ok [of s]
  unfolding driver_ok_def
  by (auto simp: mot_setSpeed_def mot_setDirection_def updateDirectionPins_def ENCODER1_INTERRUPT_def
      ENCODER2_INTERRUPT_def mot_TIMER1_COMPA_vect_def Let_def case_prod_beta)

lemma usi_send_ok:
  assumes "driver_ok s"
  shows "\<exists>t. usi_send s = Some t \<and> driver_ok t \<and> USIDR t = i2c_rdbuf s ! 0 \<and> usi_state t = USI_RequestReply \<and>
    same_wheels s t"
proof -
  have s: "unat (i2c_rdptr s) < length (i2c_rdbuf s)" "i2c_rdptr s = 0" "1 \<ge> i2c_rdlen s"
    using assms by (simp_all add: driver_ok_def)
  define u where "u = s\<lparr>USIDR := i2c_rdbuf s ! 0, i2c_rdptr := 0\<rparr>"
  have "driver_ok u" using assms by (simp add: u_def driver_ok_def wheels_ok_def)
  then have "driver_ok ((setTransmit 8 u)\<lparr>usi_state := USI_RequestReply\<rparr>)"
    by (intro driver_ok_fields driver_ok_transfer)
  moreover have "usi_send s = Some ((setTransmit 8 u)\<lparr>usi_state := USI_RequestReply\<rparr>)"
    using s by (simp add: usi_send_def Let_def u_def)
  ultimately show ?thesis by (simp add: usi_register_defs same_wheels_def u_def)
qed

lemma check_address_ok:
  assumes "driver_ok s"
  shows "driver_ok (usi_check_address s)"
proof -
  have "driver_ok (s\<lparr>i2c_rdptr := 0, usi_state := x, USIDR := 0\<rparr>)"
    "driver_ok (s\<lparr>i2c_rdlen := 0, usi_state := x, USIDR := 0\<rparr>)" for x
    using assms by (simp_all add: driver_ok_def wheels_ok_def)
  then show ?thesis using assms driver_ok_reset driver_ok_transfer(1) by (simp add: usi_check_address_def Let_def)
qed

lemma store_ok:
  assumes "driver_ok s"
  shows "driver_ok (usi_store s)"
proof (cases "4 \<le> unat (i2c_wrlen s)")
  case True
  with assms show ?thesis by (simp add: usi_store_def driver_ok_reset)
next
  case False
  define u where "u = s\<lparr>i2c_wrbuf := (i2c_wrbuf s)[unat (i2c_wrlen s) := USIDR s],
    i2c_wrlen := i2c_wrlen s + 1, USIDR := 0\<rparr>"
  have "unat (i2c_wrlen s + 1) \<le> 4" using False by unat_arith
  with assms have "driver_ok u" by (simp add: driver_ok_def wheels_ok_def u_def)
  then have "driver_ok ((setTransmit 1 u)\<lparr>usi_state := USI_RequestData\<rparr>)"
    by (intro driver_ok_fields driver_ok_transfer)
  then show ?thesis using False by (simp add: usi_store_def Let_def u_def)
qed

lemma overflow_ok:
  assumes "driver_ok s"
  shows "\<exists>t. USI_OVERFLOW_vect b s = Some t \<and> driver_ok t"
proof -
  define u where "u = s\<lparr>USIDR := b\<rparr>"
  have u: "driver_ok u" "driver_ok (u\<lparr>USIDR := 0\<rparr>)" using assms by (simp_all add: u_def driver_ok_fields)
  obtain t where t: "usi_send u = Some t" "driver_ok t" using usi_send_ok [OF u(1)] by blast
  show ?thesis
    unfolding USI_OVERFLOW_vect_def Let_def u_def [symmetric] t(1)
    using u t(2)
    by (simp add: check_address_ok store_ok driver_ok_reset driver_ok_fields(2) driver_ok_transfer(2) split: if_split)
qed

lemma driver_round_ok:
  assumes "driver_ok s"
  shows "driver_ok (driver_round s)"
proof -
  have reply: "driver_ok (driver_reply s)"
    using assms by (simp add: driver_reply_def i2c_reply_ready_def i2c_reply_done_def Let_def case_prod_beta
        driver_ok_def wheels_ok_def)
  have ready: "driver_ok (snd (i2c_message_ready u))" if "driver_ok u" for u
    using that driver_ok_reset by (simp add: i2c_message_ready_def Let_def driver_ok_fields)
  have command: "driver_ok (driver_command u)" if "driver_ok u" for u
    using that by (simp add: driver_command_def Let_def driver_ok_wheels)
  show ?thesis
    using ready [OF reply] command
    by (simp add: driver_round_def Let_def case_prod_beta i2c_message_done_def driver_ok_fields)
qed

lemma driver_step_ok: "driver_ok s \<Longrightarrow> \<exists>t. driver_step e s = Some t \<and> driver_ok t"
proof (cases e)
  case (DStart aborted)
  assume s: "driver_ok s"
  have "driver_ok (setInput s)" using s by (simp add: setInput_def driver_ok_def wheels_ok_def)
  then have "driver_ok (USI_START_vect aborted s)"
    using driver_ok_reset [of "setInput s"]
    by (simp add: USI_START_vect_def Let_def)
       (simp add: clearStartStop_setCounter_def enableStart_enableOverflow_def setUSISR_def setUSICR_def Let_def
        driver_ok_def wheels_ok_def)
  then show ?thesis by (simp add: DStart)
qed (simp_all add: overflow_ok driver_round_ok driver_ok_wheels driver_ok_fields)

lemma driver_run_ok: "driver_ok s \<Longrightarrow> \<exists>t. driver_run es s = Some t \<and> driver_ok t"
proof (induction es arbitrary: s)
  case (Cons e es)
  then show ?case using driver_step_ok [OF Cons.prems, of e] by auto
qed simp

lemma driver_init_ok: "driver_ok (driver_init driver_reset)"
proof -
  have "wheels_ok (mot_init (driver_reset\<lparr>w_DDRD := sbi 0 (w_DDRD driver_reset)\<rparr>))"
    by (rule wheels_init_ok) (simp_all add: driver_reset_def wheels.defs wheels_reset_def)
  then have "driver_ok (i2c_initialize a (mot_init (driver_reset\<lparr>w_DDRD := sbi 0 (w_DDRD driver_reset)\<rparr>)))" for a
    by (simp add: i2c_initialize_def Let_def usi_reset_def usi_register_defs driver_ok_def wheels_ok_def port_simps)
       (simp add: mot_init_def mot_setDirection_def updateDirectionPins_def Let_def driver_reset_def wheels.defs)
  then show ?thesis by (simp add: driver_init_def Let_def driver_ok_fields)
qed

section \<open>Properties\<close>

text \<open>C28: In every state the wheel driver reaches from power-up, by any traffic on the bus, rounds of the
  main loop, encoder edges and timer ticks, no byte outside the buffers is read or written; the
  direction of each motor is stop, forward or backward, and its two direction pins and PWM output
  say the same, so a motor is never driven against its recorded direction; and its reference speed
  is an entry of the speed table.\<close>

theorem driver_outputs_follow_direction:
  fixes es :: "driver_event list"
  shows "\<exists>s. driver_run es (driver_init driver_reset) = Some s \<and> unat (i2c_wrlen s) \<le> length (i2c_wrbuf s) \<and>
    pins_agree (mot_getDirection MOTOR1 s) (bit (w_PORTB s) 1) (bit (w_PORTB s) 0) (bit (w_TCCR0A s) 7) \<and>
    pins_agree (mot_getDirection MOTOR2 s) (bit (w_PORTD s) 4) (bit (w_PORTD s) 6) (bit (w_TCCR0A s) 5) \<and>
    m_refSpeed (motor1 s) \<in> set REF_SPEEDS \<and> m_refSpeed (motor2 s) \<in> set REF_SPEEDS"
proof -
  obtain s where "driver_run es (driver_init driver_reset) = Some s" "driver_ok s"
    using driver_run_ok [OF driver_init_ok] by blast
  then show ?thesis
    by (intro exI [of _ s]) (simp add: driver_ok_def wheels_ok_def motor_ok_def mot_getDirection_def)
qed

end
