(* ===== verification/Wheel_Link.thy ===== *)
theory Wheel_Link
  imports Bridge_I2c Usi_Slave
begin

text \<open>
  The bridge and the wheel driver on one I2C bus. \<open>wire\<close> is the traffic a sequence of master
  operations causes at the slave; the properties say that a call of the bridge's motor module has
  exactly the effect of the function of the same name in the driver, and what a getter returns.
\<close>

section \<open>The wire\<close>

text \<open>The position of the master in a transaction: after a start condition the next byte is the
  address, whose lowest bit says in which direction the following bytes go.\<close>

datatype wire_pos = AwaitAddress | Writing | FirstRead | NextRead

text \<open>\<open>j\<close> is the content of the slave's data register after an acknowledge bit or a byte sent, which
  the slave does not look at. A byte written is two counter overflows (acknowledge bit, byte), a
  byte read is the byte and the acknowledge, before the first byte read also the acknowledge of the
  address.\<close>

fun wire :: "u8 \<Rightarrow> wire_pos \<Rightarrow> i2c_op list \<Rightarrow> driver_event list" where
  "wire j p [] = []"
| "wire j p (I2C_START # ops) = DStart False # wire j AwaitAddress ops"
| "wire j p (I2C_STOP # ops) = DStop # wire j p ops"
| "wire j AwaitAddress (I2C_WRITE b # ops) = DOverflow b # wire j (if bit b 0 then FirstRead else Writing) ops"
| "wire j p (I2C_WRITE b # ops) = DOverflow j # DOverflow b # wire j p ops"
| "wire j FirstRead (I2C_READ ack # ops) =
     DOverflow j # DOverflow j # DOverflow (if ack then 0 else 1) # wire j NextRead ops"
| "wire j p (I2C_READ ack # ops) = DOverflow j # DOverflow (if ack then 0 else 1) # wire j NextRead ops"

section \<open>Receiving bytes\<close>

definition data_events :: "u8 \<Rightarrow> u8 list \<Rightarrow> driver_event list" where
  "data_events j bs = concat (map (\<lambda>b. [DOverflow j, DOverflow b]) bs)"

lemma data_events_Cons: "data_events j (c # cs) = [DOverflow j, DOverflow c] @ data_events j cs"
  by (simp add: data_events_def)

text \<open>The slave has received the bytes \<open>bs\<close> of a write transaction and waits for more; \<open>old\<close> is what
  the buffer held before.\<close>

definition received :: "u8 list \<Rightarrow> u8 list \<Rightarrow> driver \<Rightarrow> bool" where
  "received old bs s \<longleftrightarrow> usi_state s = USI_RequestData \<and> length old = 4 \<and> length bs \<le> 4 \<and>
     i2c_wrbuf s = bs @ drop (length bs) old \<and> i2c_wrlen s = of_nat (length bs) \<and>
     length (i2c_rdbuf s) = 4"

text \<open>What the bus traffic leaves alone: motors, address and reply buffer.\<close>

definition link_same :: "driver \<Rightarrow> driver \<Rightarrow> bool" where
  "link_same s t \<longleftrightarrow> same_wheels s t \<and> i2c_address t = i2c_address s \<and> i2c_rdbuf t = i2c_rdbuf s"

lemma link_same_refl: "link_same s s"
  by (simp add: link_same_def same_wheels_def)

lemma link_same_trans: "link_same s t \<Longrightarrow> link_same t u \<Longrightarrow> link_same s u"
  by (simp add: link_same_def same_wheels_def)

lemma receive_byte:
  assumes "received old bs s" and "length bs < 4"
  shows "\<exists>t. driver_run [DOverflow j, DOverflow b] s = Some t \<and> received old (bs @ [b]) t \<and>
    link_same s t \<and> i2c_rdlen t = i2c_rdlen s"
proof -
  have "unat (of_nat (length bs) :: u8) = length bs" using assms(2) by (simp add: unat_of_nat)
  then have len: "unat (i2c_wrlen s) = length bs" using assms(1) by (simp add: received_def)
  have "length bs < length old" using assms by (simp add: received_def)
  then have "drop (length bs) old = old ! length bs # drop (Suc (length bs)) old"
    by (rule Cons_nth_drop_Suc [symmetric])
  then have "(bs @ drop (length bs) old)[length bs := b] = (bs @ [b]) @ drop (length (bs @ [b])) old"
    by (simp add: list_update_append)
  note buf = this
  define s1 where "s1 = (setReceive 8 (s\<lparr>USIDR := j\<rparr>))\<lparr>usi_state := USI_SendAck\<rparr>"
  have s1: "USI_OVERFLOW_vect j s = Some s1" "usi_state s1 = USI_SendAck"
    using assms(1) by (simp_all add: received_def USI_OVERFLOW_vect_def s1_def)
  have frame1: "link_same s s1" "i2c_rdlen s1 = i2c_rdlen s" "i2c_wrbuf s1 = i2c_wrbuf s" "i2c_wrlen s1 = i2c_wrlen s"
    by (simp_all add: s1_def usi_register_defs link_same_def same_wheels_def)
  define t where "t = usi_store (s1\<lparr>USIDR := b\<rparr>)"
  have t: "USI_OVERFLOW_vect b s1 = Some t" using s1(2) by (simp add: USI_OVERFLOW_vect_def t_def)
  have n: "\<not> unat (i2c_wrlen s1) \<ge> 4" using len frame1(4) assms(2) by simp
  have frame2: "link_same s1 t" "i2c_rdlen t = i2c_rdlen s1" "usi_state t = USI_RequestData"
    "i2c_wrbuf t = (i2c_wrbuf s1)[length bs := b]" "i2c_wrlen t = i2c_wrlen s1 + 1"
    using n len frame1(4)
    by (simp_all add: t_def usi_store_def Let_def usi_register_defs link_same_def same_wheels_def)
  have "received old (bs @ [b]) t"
    using assms frame1 frame2 buf by (simp add: received_def link_same_def ac_simps)
  moreover have "driver_run [DOverflow j, DOverflow b] s = Some t" by (simp add: s1(1) t)
  ultimately show ?thesis using frame1 frame2 link_same_trans by metis
qed

lemma receive_bytes:
  assumes "received old bs s" and "length bs + length cs \<le> 4"
  shows "\<exists>t. driver_run (data_events j cs) s = Some t \<and> received old (bs @ cs) t \<and> link_same s t \<and>
    i2c_rdlen t = i2c_rdlen s"
  using assms
proof (induction cs arbitrary: bs s)
  case Nil
  then show ?case by (simp add: data_events_def link_same_refl)
next
  case (Cons c cs)
  obtain t where t: "driver_run [DOverflow j, DOverflow c] s = Some t" "received old (bs @ [c]) t" "link_same s t"
    "i2c_rdlen t = i2c_rdlen s"
    using receive_byte [OF Cons.prems(1), of j c] Cons.prems(2) by auto
  obtain u where "driver_run (data_events j cs) t = Some u" "received old (bs @ [c] @ cs) u" "link_same t u"
    "i2c_rdlen u = i2c_rdlen t"
    using Cons.IH [OF t(2)] Cons.prems(2) by auto
  moreover have "driver_run (data_events j (c # cs)) s = driver_run (data_events j cs) t"
    unfolding data_events_Cons driver_run_append t(1) by simp
  ultimately show ?case using t link_same_trans by auto
qed

text \<open>A write transaction to the driver's own address.\<close>

lemma wire_writes: "wire j Writing (map I2C_WRITE bs @ ops) = data_events j bs @ wire j Writing ops"
  by (induction bs) (simp_all add: data_events_def)

lemma write_start:
  assumes "i2c_wrlen s = 0" and "i2c_address s = 0x24" and "length (i2c_wrbuf s) = 4" and "length (i2c_rdbuf s) = 4"
  shows "\<exists>t. driver_run [DStart False, DOverflow 0x24] s = Some t \<and> received (i2c_wrbuf s) [] t \<and> link_same s t \<and>
    i2c_rdlen t = 0"
  using assms
  by (simp add: received_def USI_OVERFLOW_vect_def usi_check_address_def USI_START_vect_def Let_def link_same_def
      same_wheels_def usi_register_defs)

lemma write_transaction:
  assumes "i2c_wrlen s = 0" and "i2c_address s = 0x24" and "length (i2c_wrbuf s) = 4" and "length (i2c_rdbuf s) = 4"
    and "length bs \<le> 4"
  shows "\<exists>t. driver_run (wire j p (I2C_START # I2C_WRITE 0x24 # map I2C_WRITE bs)) s = Some t \<and>
    received (i2c_wrbuf s) bs t \<and> link_same s t \<and> i2c_rdlen t = 0"
proof -
  obtain t where t: "driver_run [DStart False, DOverflow 0x24] s = Some t" "received (i2c_wrbuf s) [] t" "link_same s t"
    "i2c_rdlen t = 0"
    using write_start [OF assms(1-4)] by blast
  obtain u where u: "driver_run (data_events j bs) t = Some u" "received (i2c_wrbuf s) bs u" "link_same t u" "i2c_rdlen u = 0"
    using receive_bytes [OF t(2), of bs j] assms(5) t(4) by auto
  have "\<not> bit (0x24 :: u8) 0" by simp
  then have "wire j p (I2C_START # I2C_WRITE 0x24 # map I2C_WRITE bs) = [DStart False, DOverflow 0x24] @ data_events j bs"
    using wire_writes [of j bs "[]"] by simp
  then show ?thesis
    unfolding driver_run_append [of "[DStart False, DOverflow 0x24]"]
    using t u link_same_trans by (simp only: driver_run_append) auto
qed

section \<open>A round of the main loop after a message\<close>

lemma same_setSpeed: "same_wheels s t \<Longrightarrow> same_wheels (mot_setSpeed m v s) (mot_setSpeed m v t)"
  unfolding same_wheels_def mot_setSpeed_def Let_def by simp

lemma same_updateDirectionPins:
  "same_wheels s t \<Longrightarrow> same_wheels (updateDirectionPins m d s) (updateDirectionPins m d t)"
  by (cases "m = MOTOR1"; cases "d = D_FORWARD"; cases "d = D_BACKWARD")
     (simp_all add: same_wheels_def updateDirectionPins_def)

lemma same_updates:
  assumes "same_wheels s t"
  shows "same_wheels (s\<lparr>w_TCCR0A := x\<rparr>) (t\<lparr>w_TCCR0A := x\<rparr>)" "same_wheels (s\<lparr>w_OCR0A := x\<rparr>) (t\<lparr>w_OCR0A := x\<rparr>)"
    "same_wheels (s\<lparr>w_OCR0B := x\<rparr>) (t\<lparr>w_OCR0B := x\<rparr>)" "same_wheels (s\<lparr>motor1 := m\<rparr>) (t\<lparr>motor1 := m\<rparr>)"
    "same_wheels (s\<lparr>motor2 := m\<rparr>) (t\<lparr>motor2 := m\<rparr>)"
  using assms by (simp_all add: same_wheels_def)

lemma same_setDirection:
  assumes "same_wheels s t"
  shows "same_wheels (mot_setDirection m d s) (mot_setDirection m d t)"
proof -
  have eqs: "motor1 t = motor1 s" "motor2 t = motor2 s" "w_TCCR0A t = w_TCCR0A s"
    using assms by (simp_all add: same_wheels_def)
  show ?thesis
    by (cases "m = MOTOR1"; cases "d = D_FORWARD \<or> d = D_BACKWARD")
       (simp_all only: mot_setDirection_def Let_def eqs if_True if_False case_prod_conv simp_thms split: if_split,
        auto intro!: same_updateDirectionPins same_updates assms)
qed

lemma usi_keep [simp]:
  "i2c_wrbuf (usi_reset s) = i2c_wrbuf s" "i2c_wrlen (usi_reset s) = i2c_wrlen s"
  "usi_state (usi_reset s) = USI_Stopped"
  by (simp_all add: usi_reset_def usi_register_defs)

lemma usi_state_wheels [simp]:
  "usi_state (mot_setSpeed m v s) = usi_state s" "usi_state (mot_setDirection m d s) = usi_state s"
  by (simp_all add: mot_setSpeed_def mot_setDirection_def updateDirectionPins_def Let_def)

lemma message_ready_stop:
  assumes "usi_state s = USI_RequestData" and "bit (USISR s) USIPF"
  shows "i2c_message_ready s = (i2c_wrlen s, (usi_reset (s\<lparr>irq_enabled := False\<rparr>))\<lparr>irq_enabled := True\<rparr>)"
  using assms by (simp add: i2c_message_ready_def Let_def port_simps)

lemma reply_writing:
  assumes "usi_state s = USI_RequestData" and "length (i2c_rdbuf s) = 4"
  shows "driver_reply s = s\<lparr>i2c_rdbuf := (i2c_rdbuf s)[0 :=
      if i2c_wrbuf s ! 0 = motor_command_code M_GET_SPEED then mot_getSpeed (i2c_wrbuf s ! 1) s
      else mot_getDirection (i2c_wrbuf s ! 1) s], i2c_rdlen := 1, irq_enabled := True\<rparr>"
  using assms by (simp add: driver_reply_def i2c_reply_ready_def i2c_reply_done_def USI_MasterRead_def Let_def
      mot_getSpeed_def mot_getDirection_def)

lemma round_after_stop:
  assumes "received old bs t" and "bs \<noteq> []"
  shows "\<exists>u. driver_run [DStop, DRound] t = Some (i2c_message_done (driver_command u)) \<and> same_wheels t u \<and>
    i2c_wrbuf u = i2c_wrbuf t \<and> usi_state u = USI_Stopped"
proof -
  define t' where "t' = t\<lparr>USISR := sbi USIPF (USISR t)\<rparr>"
  define r where "r = driver_reply t'"
  define u where "u = (usi_reset (r\<lparr>irq_enabled := False\<rparr>))\<lparr>irq_enabled := True\<rparr>"
  have t': "usi_state t' = USI_RequestData" "length (i2c_rdbuf t') = 4" "bit (USISR t') USIPF"
    using assms(1) by (simp_all add: t'_def received_def port_simps)
  have r: "usi_state r = USI_RequestData" "bit (USISR r) USIPF" "i2c_wrlen r = of_nat (length bs)"
    "i2c_wrbuf r = i2c_wrbuf t" "same_wheels t r"
    using t' assms(1) unfolding r_def reply_writing [OF t'(1,2)]
    by (simp_all add: received_def t'_def same_wheels_def)
  have ready: "i2c_message_ready r = (of_nat (length bs), u)"
    using message_ready_stop [OF r(1,2)] r(3) by (simp add: u_def)
  have "(of_nat (length bs) :: u8) \<noteq> 0"
    using assms by (auto simp: received_def word_of_nat_eq_0_iff dest!: dvd_imp_le)
  then have "driver_round t' = i2c_message_done (driver_command u)"
    by (simp add: driver_round_def ready flip: r_def)
  moreover have "same_wheels r u"
    by (simp add: u_def usi_reset_def usi_register_defs same_wheels_def)
  ultimately show ?thesis
    using r by (intro exI [of _ u]) (simp add: t'_def u_def same_wheels_def)
qed

text \<open>The driver is idle, has no message waiting and has its address.\<close>

definition driver_listening :: "driver \<Rightarrow> bool" where
  "driver_listening s \<longleftrightarrow> i2c_wrlen s = 0 \<and> i2c_address s = 0x24 \<and> length (i2c_wrbuf s) = 4 \<and>
     length (i2c_rdbuf s) = 4"

lemma command_transaction:
  assumes "driver_listening s" and "bs \<noteq> []" and "length bs \<le> 4"
  shows "\<exists>t. driver_run (wire j p (I2C_START # I2C_WRITE 0x24 # map I2C_WRITE bs @ [I2C_STOP]) @ [DRound]) s =
      Some (i2c_message_done (driver_command t)) \<and> same_wheels s t \<and>
    i2c_wrbuf t = bs @ drop (length bs) (i2c_wrbuf s) \<and> usi_state t = USI_Stopped"
proof -
  obtain t where t: "driver_run (wire j p (I2C_START # I2C_WRITE 0x24 # map I2C_WRITE bs)) s = Some t"
    "received (i2c_wrbuf s) bs t" "link_same s t"
    using write_transaction [of s bs j p] assms by (auto simp: driver_listening_def)
  obtain u where u: "driver_run [DStop, DRound] t = Some (i2c_message_done (driver_command u))" "same_wheels t u"
    "i2c_wrbuf u = i2c_wrbuf t" "usi_state u = USI_Stopped"
    using round_after_stop [OF t(2) assms(2)] by blast
  have w: "wire j Writing (map I2C_WRITE bs @ [I2C_STOP]) = wire j Writing (map I2C_WRITE bs) @ [DStop]"
    using wire_writes [of j bs "[I2C_STOP]"] wire_writes [of j bs "[]"] by simp
  then have "wire j p (I2C_START # I2C_WRITE 0x24 # map I2C_WRITE bs @ [I2C_STOP]) @ [DRound] =
      wire j p (I2C_START # I2C_WRITE 0x24 # map I2C_WRITE bs) @ [DStop, DRound]"
    by simp
  then show ?thesis
    using t u by (simp only: driver_run_append) (auto simp: received_def link_same_def same_wheels_def)
qed

section \<open>Properties\<close>

lemma done_same: "same_wheels s t \<Longrightarrow> same_wheels s (i2c_message_done t)"
  by (simp add: i2c_message_done_def same_wheels_def)

lemma idle_done: "usi_state t = USI_Stopped \<Longrightarrow> i2c_idle (i2c_message_done t) \<and> i2c_wrlen (i2c_message_done t) = 0"
  by (simp add: i2c_message_done_def i2c_idle_def)

lemma command_arrives:
  assumes "driver_listening s" and "bs \<noteq> []" and "length bs \<le> 4"
    and "\<And>t. same_wheels s t \<Longrightarrow> i2c_wrbuf t = bs @ drop (length bs) (i2c_wrbuf s) \<Longrightarrow>
      same_wheels (f s) (driver_command t) \<and> usi_state (driver_command t) = usi_state t"
  shows "\<exists>t. driver_run (wire j p (I2C_START # I2C_WRITE 0x24 # map I2C_WRITE bs @ [I2C_STOP]) @ [DRound]) s = Some t \<and>
    same_wheels (f s) t \<and> i2c_idle t \<and> i2c_wrlen t = 0"
  using command_transaction [OF assms(1-3), of j p] assms(4) done_same idle_done by metis

text \<open>C27: Commands from the bridge to the wheels. The traffic that the bridge's \<open>setSpeed\<close>, \<open>setDirection\<close>
  and \<open>brake\<close> put on the bus, followed by one round of the driver's main loop, leaves the motors
  and their outputs as the driver's own function of the same arguments does, and the driver ready
  for the next message, whatever the master's bus looked like.\<close>

theorem wheel_commands_arrive:
  fixes b :: "'a i2c_scheme" and s :: driver and bus :: i2c_bus and m v j :: u8
  assumes "driver_listening s"
  defines "sent \<equiv> \<lambda>b'. wire j AwaitAddress (drop (length (i2c_log b)) (i2c_log b')) @ [DRound]"
  shows "(\<exists>t. driver_run (sent (motor_drv_setSpeed bus m v b)) s = Some t \<and>
      same_wheels (mot_setSpeed m v s) t \<and> i2c_idle t \<and> i2c_wrlen t = 0) \<and>
    (\<exists>t. driver_run (sent (motor_drv_setDirection bus m v b)) s = Some t \<and>
      same_wheels (mot_setDirection m v s) t \<and> i2c_idle t \<and> i2c_wrlen t = 0) \<and>
    (\<exists>t. driver_run (sent (motor_drv_brake bus b)) s = Some t \<and>
      same_wheels (mot_setDirection MOTOR2 D_STOP (mot_setDirection MOTOR1 D_STOP s)) t \<and>
      i2c_idle t \<and> i2c_wrlen t = 0)"
proof -
  have "bus_write MOTOR_DRIVER_ADDRESS bs = I2C_START # I2C_WRITE 0x24 # map I2C_WRITE bs @ [I2C_STOP]" for bs
    by (simp add: bus_write_def addressToWrite_def MOTOR_DRIVER_ADDRESS_def)
  then have logs:
    "sent (motor_drv_setSpeed bus m v b) = wire j AwaitAddress (I2C_START # I2C_WRITE 0x24 # map I2C_WRITE [2, m, v] @ [I2C_STOP]) @ [DRound]"
    "sent (motor_drv_setDirection bus m v b) = wire j AwaitAddress (I2C_START # I2C_WRITE 0x24 # map I2C_WRITE [4, m, v] @ [I2C_STOP]) @ [DRound]"
    "sent (motor_drv_brake bus b) = wire j AwaitAddress (I2C_START # I2C_WRITE 0x24 # map I2C_WRITE [5] @ [I2C_STOP]) @ [DRound]"
    unfolding sent_def by (simp_all add: motor_drv_setSpeed_def motor_drv_setDirection_def)
  show ?thesis
    unfolding logs
    by (intro conjI command_arrives [OF assms(1)])
       (simp_all add: driver_command_def same_setSpeed same_setDirection)
qed

text \<open>A driver that has its address and nothing to do.\<close>

definition driver_addressed :: driver where
  "driver_addressed = driver_reset\<lparr>i2c_address := 0x24\<rparr>"

lemma driver_addressed_listening: "driver_listening driver_addressed"
  by (simp add: driver_addressed_def driver_listening_def driver_reset_def wheels.defs)

theorem wheel_commands_arrive_witness:
  "\<exists>t. driver_run (wire 0 AwaitAddress (drop (length (i2c_log i2c_static_init))
       (i2c_log (motor_drv_setSpeed (\<lambda>_. Some 0) MOTOR1 5 i2c_static_init))) @ [DRound]) driver_addressed = Some t \<and>
     same_wheels (mot_setSpeed MOTOR1 5 driver_addressed) t \<and> i2c_idle t \<and> i2c_wrlen t = 0"
  using wheel_commands_arrive [OF driver_addressed_listening, of 0 i2c_static_init "\<lambda>_. Some 0" MOTOR1 5] by blast

section \<open>Queries\<close>

text \<open>A round of the main loop while a write transaction is open computes the reply from what the
  buffer holds, and does nothing else.\<close>

definition driver_answer :: "u8 \<Rightarrow> u8 \<Rightarrow> 'a wheels_scheme \<Rightarrow> u8" where
  "driver_answer c m s = (if c = motor_command_code M_GET_SPEED then mot_getSpeed m s else mot_getDirection m s)"

lemma same_answer: "same_wheels s t \<Longrightarrow> driver_answer c m t = driver_answer c m s"
  by (simp add: same_wheels_def driver_answer_def mot_getSpeed_def mot_getDirection_def)

lemma round_while_writing:
  assumes "received old bs s" and "\<not> bit (USISR s) USIPF"
  shows "\<exists>t. driver_run [DRound] s = Some t \<and> received old bs t \<and> same_wheels s t \<and> i2c_address t = i2c_address s \<and>
    i2c_rdlen t = 1 \<and> i2c_rdbuf t ! 0 = driver_answer (i2c_wrbuf s ! 0) (i2c_wrbuf s ! 1) s"
proof -
  have st: "usi_state s = USI_RequestData" "length (i2c_rdbuf s) = 4" using assms(1) by (simp_all add: received_def)
  define r where "r = driver_reply s"
  have r: "usi_state r = USI_RequestData" "\<not> bit_is_set (USISR r) USIPF" "i2c_rdlen r = 1" "received old bs r" "same_wheels s r"
    "i2c_address r = i2c_address s" "i2c_rdbuf r ! 0 = driver_answer (i2c_wrbuf s ! 0) (i2c_wrbuf s ! 1) s"
    using assms st unfolding r_def reply_writing [OF st]
    by (simp_all add: received_def same_wheels_def driver_answer_def port_simps)
  have "driver_round s = r\<lparr>irq_enabled := True\<rparr>"
    using r(1,2) by (simp add: driver_round_def i2c_message_ready_def USI_MasterWrite_def flip: r_def)
  then show ?thesis using r by (simp add: received_def same_wheels_def)
qed

text \<open>The master reads one byte after a repeated start.\<close>

lemma read_byte:
  assumes "i2c_rdlen s = 1" and "i2c_address s = 0x24" and "length (i2c_rdbuf s) = 4"
  shows "\<exists>t. driver_run [DStart False, DOverflow 0x25, DOverflow j] s = Some t \<and> USIDR t = i2c_rdbuf s ! 0 \<and>
    usi_state t = USI_RequestReply \<and> same_wheels s t \<and> i2c_wrbuf t = i2c_wrbuf s \<and> i2c_wrlen t = i2c_wrlen s"
  using assms
  by (simp add: USI_OVERFLOW_vect_def usi_check_address_def USI_START_vect_def usi_send_def Let_def same_wheels_def
      usi_register_defs)

text \<open>The stop flag stays clear while bytes arrive.\<close>

definition no_stop :: "driver \<Rightarrow> bool" where
  "no_stop s \<longleftrightarrow> \<not> bit (USISR s) 5"

lemma no_stop_registers:
  assumes "no_stop s"
  shows "no_stop (setUSISR a b n s)" "no_stop (setUSICR a b s)" "no_stop (setInput s)" "no_stop (setOutput s)"
    "no_stop (s\<lparr>usi_state := x\<rparr>)" "no_stop (s\<lparr>USIDR := y\<rparr>)" "no_stop (s\<lparr>i2c_rdptr := p\<rparr>)"
    "no_stop (s\<lparr>i2c_rdlen := l\<rparr>)" "no_stop (s\<lparr>i2c_wrlen := l\<rparr>)" "no_stop (s\<lparr>i2c_wrbuf := bs\<rparr>)"
  using assms
  by (simp_all add: no_stop_def setUSISR_def setUSICR_def setInput_def setOutput_def Let_def bit_or_iff bit_and_iff
      bit_numeral_rec)

lemma no_stop_moves:
  assumes "no_stop s"
  shows "no_stop (usi_reset s)" "no_stop (setTransmit n s)" "no_stop (setReceive n s)"
  using assms
  by (simp_all add: usi_reset_def clearStartStop_setCounter_def enableStart_disableOverflow_def setTransmit_def
      setReceive_def Let_def no_stop_registers)

lemma overflow_no_stop:
  assumes "no_stop s"
  shows "pred_option no_stop (USI_OVERFLOW_vect b s)"
proof -
  have send: "pred_option no_stop (usi_send u)" if "no_stop u" for u
    using that by (simp add: usi_send_def Let_def option.pred_map comp_def no_stop_registers no_stop_moves peek_def)
  have check: "no_stop (usi_check_address u)" and store: "no_stop (usi_store u)" if "no_stop u" for u
    using that by (simp_all add: usi_check_address_def usi_store_def Let_def no_stop_registers no_stop_moves)
  show ?thesis
    using assms by (simp add: USI_OVERFLOW_vect_def Let_def send check store no_stop_registers no_stop_moves)
qed

lemma data_no_stop:
  assumes "driver_run (data_events j bs) s = Some t" and "no_stop s"
  shows "no_stop t"
  using assms
proof (induction bs arbitrary: s)
  case (Cons c cs)
  from Cons.prems(1) obtain u v where "USI_OVERFLOW_vect j s = Some u" "USI_OVERFLOW_vect c u = Some v"
    "driver_run (data_events j cs) v = Some t"
    by (auto simp: data_events_Cons split: Option.bind_splits)
  then show ?case using Cons.IH overflow_no_stop Cons.prems(2) by (metis option.pred_inject(2))
qed (simp add: data_events_def)

text \<open>The end of a read: the driver sees the master's negative acknowledge, the stop condition, and in the
  next round a complete message, which is the query itself and changes nothing.\<close>

lemma query_end:
  assumes "usi_state s = USI_RequestReply" and "i2c_wrlen s \<noteq> 0"
    and "i2c_wrbuf s ! 0 \<notin> {motor_command_code M_BRAKE, motor_command_code M_SET_SPEED, motor_command_code M_SET_DIRECTION}"
  shows "\<exists>t. driver_run [DOverflow j, DOverflow 1, DStop, DRound] s = Some t \<and> same_wheels s t \<and> i2c_idle t \<and>
    i2c_wrlen t = 0"
proof -
  define u where "u = usi_reset (((setReceive 1 (s\<lparr>USIDR := j, USIDR := 0\<rparr>))\<lparr>usi_state := USI_CheckReply\<rparr>)\<lparr>USIDR := 1\<rparr>)"
  have u: "usi_state u = USI_Stopped" "i2c_wrlen u = i2c_wrlen s" "i2c_wrbuf u = i2c_wrbuf s" "same_wheels s u"
    by (simp_all add: u_def usi_reset_def usi_register_defs same_wheels_def)
  have run: "driver_run [DOverflow j, DOverflow 1] s = Some u"
    using assms(1) by (simp add: USI_OVERFLOW_vect_def Let_def u_def setReceive_def setUSISR_def setInput_def)
  define v where "v = u\<lparr>USISR := sbi USIPF (USISR u)\<rparr>"
  have v: "usi_state v = USI_Stopped" "i2c_wrlen v = i2c_wrlen s" "i2c_wrbuf v = i2c_wrbuf s" "same_wheels s v"
    using u by (simp_all add: v_def same_wheels_def)
  define w where "w = driver_reply v"
  have w: "usi_state w = USI_Stopped" "i2c_wrlen w = i2c_wrlen s" "i2c_wrbuf w = i2c_wrbuf s" "same_wheels s w"
    using v by (simp_all add: w_def driver_reply_def i2c_reply_ready_def i2c_reply_done_def Let_def same_wheels_def)
  have "driver_round v = i2c_message_done (driver_command (w\<lparr>irq_enabled := True\<rparr>))"
    using w assms(2) by (simp add: driver_round_def i2c_message_ready_def flip: w_def)
  also have "driver_command (w\<lparr>irq_enabled := True\<rparr>) = w\<lparr>irq_enabled := True\<rparr>"
    using w assms(3) by (simp add: driver_command_def)
  finally have round: "driver_round v = i2c_message_done (w\<lparr>irq_enabled := True\<rparr>)" .
  have "driver_run [DOverflow j, DOverflow 1, DStop, DRound] s = Some (i2c_message_done (w\<lparr>irq_enabled := True\<rparr>))"
    unfolding driver_run_append [of "[DOverflow j, DOverflow 1]" "[DStop, DRound]", simplified append.simps] run
    by (simp add: round flip: v_def)
  then show ?thesis using w by (simp add: i2c_message_done_def same_wheels_def i2c_idle_def)
qed

lemma write_transaction_no_stop:
  assumes "driver_run (wire j p (I2C_START # I2C_WRITE 0x24 # map I2C_WRITE bs)) s = Some t"
  shows "no_stop t"
proof -
  define u where "u = USI_START_vect False s"
  have "no_stop u"
    by (simp add: u_def USI_START_vect_def no_stop_def usi_register_defs bit_or_iff bit_and_iff bit_not_iff bool_byte_def
        bit_numeral_rec)
  have "\<not> bit (0x24 :: u8) 0" by simp
  then have "driver_run (DOverflow 0x24 # data_events j bs) u = Some t"
    using assms wire_writes [of j bs "[]"] by (simp add: u_def)
  then show ?thesis
    using overflow_no_stop [OF \<open>no_stop u\<close>, of "0x24"] data_no_stop by (auto split: Option.bind_splits)
qed

text \<open>A round after the bytes \<open>bs\<close>, the bytes \<open>cs\<close>, and the read.\<close>

lemma query_transaction:
  assumes "driver_listening s" and "length bs + length cs \<le> 4" and "bs @ cs \<noteq> []"
    and "(bs @ cs @ drop (length (bs @ cs)) (i2c_wrbuf s)) ! 0 \<notin>
      {motor_command_code M_BRAKE, motor_command_code M_SET_SPEED, motor_command_code M_SET_DIRECTION}"
  defines "old \<equiv> bs @ drop (length bs) (i2c_wrbuf s)"
  shows "\<exists>t u. driver_run (wire j p (I2C_START # I2C_WRITE 0x24 # map I2C_WRITE bs) @ [DRound] @ data_events j cs @
      [DStart False, DOverflow 0x25, DOverflow j]) s = Some t \<and> USIDR t = driver_answer (old ! 0) (old ! 1) s \<and>
    driver_run [DOverflow j, DOverflow 1, DStop, DRound] t = Some u \<and> same_wheels s u \<and> i2c_idle u \<and>
    i2c_wrlen u = 0"
proof -
  have lengths: "length (i2c_wrbuf s) = 4" using assms(1) by (simp add: driver_listening_def)
  obtain t where t: "driver_run (wire j p (I2C_START # I2C_WRITE 0x24 # map I2C_WRITE bs)) s = Some t"
    "received (i2c_wrbuf s) bs t" "link_same s t"
    using write_transaction [of s bs j p] assms(1,2) by (auto simp: driver_listening_def)
  have "\<not> bit (USISR t) USIPF" using write_transaction_no_stop [OF t(1)] by (simp add: no_stop_def)
  then obtain u where u: "driver_run [DRound] t = Some u" "received (i2c_wrbuf s) bs u" "same_wheels t u"
    "i2c_address u = i2c_address t" "i2c_rdlen u = 1" "i2c_rdbuf u ! 0 = driver_answer (old ! 0) (old ! 1) t"
    using round_while_writing [OF t(2)] t(2) by (auto simp: received_def old_def)
  obtain v where v: "driver_run (data_events j cs) u = Some v" "received (i2c_wrbuf s) (bs @ cs) v" "link_same u v"
    "i2c_rdlen v = 1"
    using receive_bytes [OF u(2), of cs j] assms(2) u(5) by auto
  have vs: "same_wheels s v" "i2c_address v = 0x24" "length (i2c_rdbuf v) = 4" "i2c_rdbuf v ! 0 = driver_answer (old ! 0) (old ! 1) s"
    using assms(1) t(3) u(3,4,6) v(2,3) same_answer [of s t]
    by (simp_all add: link_same_def same_wheels_def driver_listening_def received_def)
  obtain w where w: "driver_run [DStart False, DOverflow 0x25, DOverflow j] v = Some w" "USIDR w = i2c_rdbuf v ! 0"
    "usi_state w = USI_RequestReply" "same_wheels v w" "i2c_wrbuf w = i2c_wrbuf v" "i2c_wrlen w = i2c_wrlen v"
    using read_byte [OF v(4) vs(2,3)] by blast
  have "i2c_wrlen v \<noteq> 0"
    using v(2) assms(2,3) by (auto simp: received_def word_of_nat_eq_0_iff dest!: dvd_imp_le simp flip: of_nat_add)
  moreover have "i2c_wrbuf v ! 0 = (bs @ cs @ drop (length (bs @ cs)) (i2c_wrbuf s)) ! 0"
    using v(2) by (simp add: received_def)
  ultimately obtain x where x: "driver_run [DOverflow j, DOverflow 1, DStop, DRound] w = Some x" "same_wheels w x"
    "i2c_idle x" "i2c_wrlen x = 0"
    using query_end [OF w(3)] assms(4) w(5,6) by metis
  have "driver_run (wire j p (I2C_START # I2C_WRITE 0x24 # map I2C_WRITE bs) @ [DRound] @ data_events j cs @
      [DStart False, DOverflow 0x25, DOverflow j]) s = Some w"
    by (simp only: driver_run_append t(1) u(1) v(1) w(1) Option.bind.bind_lunit)
  then show ?thesis
    using x w vs same_wheels_def by (intro exI [of _ w] exI [of _ x]) (simp add: same_wheels_def)
qed

text \<open>Queries from the bridge. When the driver's main loop makes a round between the bytes of a query and
  the repeated start, the byte the driver puts on the bus is the speed or the direction of the
  motor asked for, nothing about the motors changes, and after the stop condition and one more
  round the driver is ready for the next message.\<close>

theorem wheel_queries_answered:
  fixes b :: "'a i2c_scheme" and s :: driver and bus :: i2c_bus and m j :: u8
  assumes "driver_listening s"
  defines "answered \<equiv> \<lambda>b' value.
    (let ops = drop (length (i2c_log b)) (i2c_log b');
         read = wire j Writing (drop 4 ops)
     in \<exists>t u. driver_run (wire j AwaitAddress (take 4 ops) @ [DRound] @ take 3 read) s = Some t \<and> USIDR t = value \<and>
          driver_run (drop 3 read @ [DRound]) t = Some u \<and> same_wheels s u \<and> i2c_idle u \<and> i2c_wrlen u = 0)"
  shows "answered (snd (motor_drv_getSpeed bus m b)) (mot_getSpeed m s) \<and>
    answered (snd (motor_drv_getDirection bus m b)) (mot_getDirection m s)"
proof -
  have "bus_read MOTOR_DRIVER_ADDRESS [c, m] = (I2C_START # I2C_WRITE 0x24 # map I2C_WRITE [c, m]) @
      [I2C_START, I2C_WRITE 0x25, I2C_READ False, I2C_STOP]" for c
    by (simp add: bus_read_def addressToWrite_def addressToRead_def MOTOR_DRIVER_ADDRESS_def)
  moreover have "wire j Writing [I2C_START, I2C_WRITE 0x25, I2C_READ False, I2C_STOP] =
      [DStart False, DOverflow 0x25, DOverflow j, DOverflow j, DOverflow 1, DStop]"
    by simp
  moreover have q: "\<exists>t u. driver_run (wire j AwaitAddress (I2C_START # I2C_WRITE 0x24 # map I2C_WRITE [c, m]) @ [DRound] @
        [DStart False, DOverflow 0x25, DOverflow j]) s = Some t \<and> USIDR t = driver_answer c m s \<and>
      driver_run [DOverflow j, DOverflow 1, DStop, DRound] t = Some u \<and> same_wheels s u \<and> i2c_idle u \<and> i2c_wrlen u = 0"
    if "c = 1 \<or> c = 3" for c
    using query_transaction [OF assms(1), of "[c, m]" "[]" j AwaitAddress] that
    by (auto simp: data_events_def simp del: driver_run.simps wire.simps)
  ultimately show ?thesis
    using q [of 1] q [of 3]
    by (simp add: answered_def motor_drv_getSpeed_def motor_drv_getDirection_def driver_answer_def Let_def
        del: driver_run.simps wire.simps)
qed

theorem wheel_queries_answered_witness:
  "\<exists>t. driver_run (wire 0 AwaitAddress [I2C_START, I2C_WRITE 0x24, I2C_WRITE 3, I2C_WRITE MOTOR2] @ [DRound] @
     [DStart False, DOverflow 0x25, DOverflow 0]) driver_addressed = Some t \<and> USIDR t = D_STOP"
  using wheel_queries_answered [OF driver_addressed_listening, where b = i2c_static_init and j = 0 and bus = "\<lambda>_. Some 0" and m = MOTOR2]
  by (auto simp: motor_drv_getSpeed_def motor_drv_getDirection_def Let_def bus_read_def addressToWrite_def
      addressToRead_def MOTOR_DRIVER_ADDRESS_def mot_getDirection_def driver_addressed_def driver_reset_def
      wheels.defs wheels_reset_def motor_zero_def simp del: driver_run.simps)

text \<open>A race in the main loop of the wheel driver. The reply is computed in every round, also between the
  command byte and the motor byte of a query; if the main loop then makes no further round before
  the repeated start, the driver answers for the motor of the message before.\<close>

theorem wheel_query_race:
  fixes s :: driver and m j :: u8
  assumes "driver_listening s"
  shows "\<exists>t. driver_run (wire j AwaitAddress [I2C_START, I2C_WRITE 0x24, I2C_WRITE (motor_command_code M_GET_SPEED)] @
      [DRound] @ wire j Writing [I2C_WRITE m, I2C_START, I2C_WRITE 0x25] @ [DOverflow j]) s = Some t \<and>
    USIDR t = mot_getSpeed (i2c_wrbuf s ! 1) s"
proof -
  have "length (i2c_wrbuf s) = 4" using assms by (simp add: driver_listening_def)
  moreover have "wire j Writing [I2C_WRITE m, I2C_START, I2C_WRITE 0x25] = data_events j [m] @ [DStart False, DOverflow 0x25]"
    by (simp add: data_events_def)
  ultimately show ?thesis
    using query_transaction [OF assms, of "[1]" "[m]" j AwaitAddress]
    by (auto simp: driver_answer_def simp del: driver_run.simps wire.simps)
qed

theorem wheel_query_race_witness:
  "\<exists>t. driver_run (wire 0 AwaitAddress [I2C_START, I2C_WRITE 0x24, I2C_WRITE 1] @ [DRound] @
      wire 0 Writing [I2C_WRITE MOTOR1, I2C_START, I2C_WRITE 0x25] @ [DOverflow 0])
      (driver_addressed\<lparr>i2c_wrbuf := [2, MOTOR2, 7, 0], w_OCR0A := 40, w_OCR0B := 170\<rparr>) = Some t \<and> USIDR t = 170"
proof -
  have "driver_listening (driver_addressed\<lparr>i2c_wrbuf := [2, MOTOR2, 7, 0], w_OCR0A := 40, w_OCR0B := 170\<rparr>)"
    using driver_addressed_listening by (simp add: driver_listening_def)
  from wheel_query_race [OF this, of 0 MOTOR1] show ?thesis by (simp add: mot_getSpeed_def del: driver_run.simps wire.simps)
qed

end
