(* ===== verification/Arm_Joint.thy ===== *)
theory Arm_Joint
  imports Protocol
begin

text \<open>
  The joints of the arm driver firmware (\<open>firmware/arm_driver/joint.cpp\<close>, an ATmega with three
  joints, \<open>WRIST_ENABLED\<close> 0): the \<open>joints\<close> table, setters with their output pins and PWM
  registers, limit switch and encoder handling in the timer interrupt, and the calibration.
  The table has a fourth entry that no joint uses but every loop visits. It lies in \<open>.noinit\<close>
  memory, so its initial contents are arbitrary. Operations work on every extension of the record.
\<close>

section \<open>State\<close>

record joint =
  j_currPos :: u8
  j_destPos :: u8
  j_maxPos :: u8
  j_allowedDir :: u8
  j_currDir :: u8
  j_currSpeed :: u8
  j_initSpeed :: u8
  j_calibrated :: bool
  j_mode :: u8
  j_msCounter :: u8
  j_msCurrState :: bool
  j_encoderState :: bool
  j_prevEncoderState :: bool

text \<open>Where the main program is: in its loop, or in one of the three waiting loops of \<open>calibrate\<close>.\<close>

datatype phase = Idle | Leaving | Approaching | Seeking

record arm =
  joints :: "joint list"
  arm_calibrated :: bool
  interruptCalibration :: bool
  startCalibration :: bool
  timerNotClear :: bool
  timerOneShot :: bool
  phase :: phase
  a_PORTB :: u8
  a_PORTC :: u8
  a_PORTD :: u8
  a_DDRB :: u8
  a_DDRC :: u8
  a_DDRD :: u8
  a_PINB :: u8
  a_PINC :: u8
  a_OCR0A :: u8
  a_OCR2A :: u8
  a_OCR2B :: u8
  a_TCCR0A :: u8
  a_TCCR0B :: u8
  a_TCCR2A :: u8
  a_TCCR2B :: u8
  a_TCCR1A :: u8
  a_TCCR1B :: u8
  a_OCR1A :: u16
  a_TCNT1 :: u16
  a_TIMSK1 :: u8

abbreviation (input) S_SHOULDER :: nat where "S_SHOULDER \<equiv> 0"
abbreviation (input) S_ELBOW :: nat where "S_ELBOW \<equiv> 1"
abbreviation (input) S_GRIPPER :: nat where "S_GRIPPER \<equiv> 2"

abbreviation (input) CAL_SPEED_SHOULDER :: u8 where "CAL_SPEED_SHOULDER \<equiv> 220"
abbreviation (input) CAL_SPEED_ELBOW :: u8 where "CAL_SPEED_ELBOW \<equiv> 180"
abbreviation (input) CAL_SPEED_GRIPPER :: u8 where "CAL_SPEED_GRIPPER \<equiv> 10"
abbreviation (input) POS_MAX_SHOULDER :: u8 where "POS_MAX_SHOULDER \<equiv> 79"
abbreviation (input) POS_MAX_ELBOW :: u8 where "POS_MAX_ELBOW \<equiv> 105"
abbreviation (input) POS_MAX_GRIPPER :: u8 where "POS_MAX_GRIPPER \<equiv> 255"
abbreviation (input) MS_DEBOUNCE_COUNTER :: u8 where "MS_DEBOUNCE_COUNTER \<equiv> 5"
abbreviation (input) TIMER_MS_INTERVAL :: nat where "TIMER_MS_INTERVAL \<equiv> 2"

abbreviation (input) SHOULDER_MS :: nat where "SHOULDER_MS \<equiv> 5"
abbreviation (input) ELBOW_MS :: nat where "ELBOW_MS \<equiv> 4"
abbreviation (input) WRIST_MS :: nat where "WRIST_MS \<equiv> 2"
abbreviation (input) GRIPPER_MS :: nat where "GRIPPER_MS \<equiv> 1"
abbreviation (input) SHOULDER_ENC :: nat where "SHOULDER_ENC \<equiv> 0"
abbreviation (input) ELBOW_ENC :: nat where "ELBOW_ENC \<equiv> 1"
abbreviation (input) WRIST_ENC :: nat where "WRIST_ENC \<equiv> 2"
abbreviation (input) GRIPPER_ENC :: nat where "GRIPPER_ENC \<equiv> 3"
abbreviation (input) OCIE1A :: nat where "OCIE1A \<equiv> 1"

text \<open>An assignment to fields of one table entry.\<close>

definition set_joint :: "nat \<Rightarrow> (joint \<Rightarrow> joint) \<Rightarrow> 'a arm_scheme \<Rightarrow> 'a arm_scheme" where
  "set_joint i f s = s\<lparr>joints := (joints s)[i := f (joints s ! i)]\<rparr>"

section \<open>Indices and getters\<close>

definition toJoint :: "u8 \<Rightarrow> nat" where
  "toJoint motor = (if motor = SHOULDER then S_SHOULDER else if motor = GRIPPER then S_GRIPPER else S_ELBOW)"

definition toMotors :: "nat \<Rightarrow> u8" where
  "toMotors index = (if index = S_SHOULDER then SHOULDER else if index = S_GRIPPER then GRIPPER else ELBOW)"

definition arm_getSpeed :: "u8 \<Rightarrow> 'a arm_scheme \<Rightarrow> u8" where
  "arm_getSpeed motor s = j_currSpeed (joints s ! toJoint motor)"

definition arm_getDirection :: "u8 \<Rightarrow> 'a arm_scheme \<Rightarrow> u8" where
  "arm_getDirection motor s = j_currDir (joints s ! toJoint motor)"

definition arm_getPosition :: "u8 \<Rightarrow> 'a arm_scheme \<Rightarrow> u8" where
  "arm_getPosition motor s = j_currPos (joints s ! toJoint motor)"

definition arm_getMode :: "u8 \<Rightarrow> 'a arm_scheme \<Rightarrow> u8" where
  "arm_getMode motor s = j_mode (joints s ! toJoint motor)"

definition getMsState :: "nat \<Rightarrow> 'a arm_scheme \<Rightarrow> bool" where
  "getMsState index s =
     (if index = S_SHOULDER then bit_is_set (a_PINB s) SHOULDER_MS
      else if index = S_GRIPPER then bit_is_set (a_PINB s) GRIPPER_MS
      else if index = S_ELBOW then bit_is_set (a_PINB s) ELBOW_MS
      else False)"

section \<open>Setters\<close>

definition arm_setSpeed :: "u8 \<Rightarrow> u8 \<Rightarrow> 'a arm_scheme \<Rightarrow> 'a arm_scheme" where
  "arm_setSpeed motor speed s =
     (let s = set_joint (toJoint motor) (\<lambda>j. j\<lparr>j_currSpeed := speed\<rparr>) s
      in if motor = SHOULDER then s\<lparr>a_OCR2A := push_bit 4 speed\<rparr>
         else if motor = ELBOW then s\<lparr>a_OCR2B := push_bit 4 speed\<rparr>
         else if motor = GRIPPER then s\<lparr>a_OCR0A := push_bit 4 speed\<rparr>
         else s)"

text \<open>The output pins of \<open>setDirection\<close>, one \<open>case\<close> per motor and no \<open>default\<close>.\<close>

definition direction_pins :: "u8 \<Rightarrow> u8 \<Rightarrow> 'a arm_scheme \<Rightarrow> 'a arm_scheme" where
  "direction_pins motor currentDir s =
     (if motor = SHOULDER
      then
        (if currentDir = D_FORWARD then s\<lparr>a_PORTD := cbi 1 (sbi 0 (a_PORTD s))\<rparr>
         else if currentDir = D_BACKWARD then s\<lparr>a_PORTD := sbi 1 (cbi 0 (a_PORTD s))\<rparr>
         else s\<lparr>a_PORTD := sbi 1 (sbi 0 (a_PORTD s))\<rparr>)
      else if motor = ELBOW
      then
        (if currentDir = D_FORWARD then s\<lparr>a_PORTD := cbi 4 (sbi 2 (a_PORTD s))\<rparr>
         else if currentDir = D_BACKWARD then s\<lparr>a_PORTD := sbi 4 (cbi 2 (a_PORTD s))\<rparr>
         else s\<lparr>a_PORTD := sbi 4 (sbi 2 (a_PORTD s))\<rparr>)
      else if motor = GRIPPER
      then
        (if currentDir = D_FORWARD then s\<lparr>a_PORTB := sbi 0 (a_PORTB s), a_PORTD := cbi 7 (a_PORTD s)\<rparr>
         else if currentDir = D_BACKWARD then s\<lparr>a_PORTB := cbi 0 (a_PORTB s), a_PORTD := sbi 7 (a_PORTD s)\<rparr>
         else s\<lparr>a_PORTB := sbi 0 (a_PORTB s), a_PORTD := sbi 7 (a_PORTD s)\<rparr>)
      else s)"

definition arm_setDirection :: "u8 \<Rightarrow> u8 \<Rightarrow> 'a arm_scheme \<Rightarrow> 'a arm_scheme" where
  "arm_setDirection motor direction s =
     (let idx = toJoint motor;
          s = (if j_mode (joints s ! idx) = MODE_POS then set_joint idx (\<lambda>j. j\<lparr>j_mode := MODE_DIR\<rparr>) s else s);
          s = (if ((direction = D_FORWARD \<or> direction = D_BACKWARD) \<and> j_allowedDir (joints s ! idx) = D_BOTH) \<or>
                  j_allowedDir (joints s ! idx) = direction
               then set_joint idx (\<lambda>j. j\<lparr>j_currDir := direction\<rparr>) s
               else set_joint idx (\<lambda>j. j\<lparr>j_currDir := D_STOP\<rparr>) s);
          currentDir = j_currDir (joints s ! idx)
      in direction_pins motor currentDir s)"

definition arm_setPosition :: "u8 \<Rightarrow> u8 \<Rightarrow> 'a arm_scheme \<Rightarrow> 'a arm_scheme" where
  "arm_setPosition motor position s =
     (let idx = toJoint motor in
      if \<not> j_calibrated (joints s ! idx) then s
      else if j_maxPos (joints s ! idx) < position then s
      else
        (let position = (if idx = S_GRIPPER \<and> position > 0 then j_maxPos (joints s ! S_GRIPPER) else position);
             s = set_joint idx (\<lambda>j. j\<lparr>j_destPos := position\<rparr>) s
         in if j_currPos (joints s ! idx) < position
            then set_joint idx (\<lambda>j. j\<lparr>j_mode := MODE_POS\<rparr>) (arm_setDirection motor D_FORWARD s)
            else if j_currPos (joints s ! idx) > position
            then set_joint idx (\<lambda>j. j\<lparr>j_mode := MODE_POS\<rparr>) (arm_setDirection motor D_BACKWARD s)
            else set_joint idx (\<lambda>j. j\<lparr>j_mode := MODE_DIR\<rparr>) (arm_setDirection motor D_STOP s)))"

definition brake_joint :: "nat \<Rightarrow> 'a arm_scheme \<Rightarrow> 'a arm_scheme" where
  "brake_joint i s = arm_setDirection (toMotors i) D_STOP (arm_setSpeed (toMotors i) 0 s)"

definition brake :: "'a arm_scheme \<Rightarrow> 'a arm_scheme" where
  "brake s = fold brake_joint [0..<4] s"

section \<open>Initialisation\<close>

definition init_pinouts :: "'a arm_scheme \<Rightarrow> 'a arm_scheme" where
  "init_pinouts s =
     (let s = s\<lparr>a_DDRB := sbi 3 (a_DDRB s), a_DDRD := sbi 1 (sbi 0 (a_DDRD s))\<rparr>;
          s = s\<lparr>a_DDRD := sbi 4 (sbi 2 (sbi 3 (a_DDRD s)))\<rparr>;
          s = s\<lparr>a_DDRD := sbi 5 (a_DDRD s), a_DDRB := sbi 7 (sbi 6 (a_DDRB s))\<rparr>;
          s = s\<lparr>a_DDRD := sbi 7 (sbi 6 (a_DDRD s)), a_DDRB := sbi 0 (a_DDRB s)\<rparr>;
          s = s\<lparr>a_TCCR0A := push_bit 7 1 OR push_bit 5 1 OR push_bit 0 1\<rparr>;
          s = s\<lparr>a_TCCR0B := push_bit 1 1 OR push_bit 0 1\<rparr>;
          s = s\<lparr>a_TCCR2A := push_bit 7 1 OR push_bit 5 1 OR push_bit 0 1\<rparr>;
          s = s\<lparr>a_TCCR2B := push_bit 2 1\<rparr>;
          s = s\<lparr>a_DDRC := cbi SHOULDER_ENC (a_DDRC s), a_DDRB := cbi SHOULDER_MS (a_DDRB s)\<rparr>;
          s = s\<lparr>a_DDRC := cbi ELBOW_ENC (a_DDRC s), a_DDRB := cbi ELBOW_MS (a_DDRB s)\<rparr>;
          s = s\<lparr>a_DDRC := cbi WRIST_ENC (a_DDRC s), a_DDRB := cbi WRIST_MS (a_DDRB s)\<rparr>;
          s = s\<lparr>a_DDRC := cbi GRIPPER_ENC (a_DDRC s), a_DDRB := cbi GRIPPER_MS (a_DDRB s)\<rparr>;
          s = s\<lparr>a_PORTC := sbi SHOULDER_ENC (a_PORTC s), a_PORTB := sbi SHOULDER_MS (a_PORTB s)\<rparr>;
          s = s\<lparr>a_PORTC := sbi ELBOW_ENC (a_PORTC s), a_PORTB := sbi ELBOW_MS (a_PORTB s)\<rparr>;
          s = s\<lparr>a_PORTC := sbi WRIST_ENC (a_PORTC s), a_PORTB := sbi WRIST_MS (a_PORTB s)\<rparr>
      in s\<lparr>a_PORTC := sbi GRIPPER_ENC (a_PORTC s), a_PORTB := sbi GRIPPER_MS (a_PORTB s)\<rparr>)"

definition init_structure :: "'a arm_scheme \<Rightarrow> 'a arm_scheme" where
  "init_structure s =
     (let s = set_joint S_SHOULDER (\<lambda>j. j\<lparr>j_maxPos := POS_MAX_SHOULDER, j_initSpeed := CAL_SPEED_SHOULDER\<rparr>) s;
          s = set_joint S_ELBOW (\<lambda>j. j\<lparr>j_maxPos := POS_MAX_ELBOW, j_initSpeed := CAL_SPEED_ELBOW\<rparr>) s;
          s = set_joint S_GRIPPER (\<lambda>j. j\<lparr>j_maxPos := POS_MAX_GRIPPER, j_initSpeed := CAL_SPEED_GRIPPER\<rparr>) s
      in fold (\<lambda>i. set_joint i (\<lambda>j. j\<lparr>j_currDir := D_STOP, j_currSpeed := 0, j_mode := MODE_DIR\<rparr>)) [0..<4] s)"

text \<open>\<open>interval / 0.128\<close> in the arithmetic of the AVR compiler, whose \<open>double\<close> is a 32-bit float: the
  constant is 8589935 divided by the 26th power of two. Rounding of the quotient itself does not
  change the integer for the three intervals the program uses.\<close>

definition timer_ticks :: "nat \<Rightarrow> u16" where
  "timer_ticks interval = of_nat (interval * 2 ^ 26 div 8589935)"

definition setTimerMs :: "nat \<Rightarrow> 'a arm_scheme \<Rightarrow> 'a arm_scheme" where
  "setTimerMs interval s =
     s\<lparr>timerNotClear := True, timerOneShot := True, a_OCR1A := timer_ticks interval, a_TCNT1 := 0,
       a_TIMSK1 := sbi OCIE1A (a_TIMSK1 s)\<rparr>"

definition setTimerContinuous :: "'a arm_scheme \<Rightarrow> 'a arm_scheme" where
  "setTimerContinuous s =
     s\<lparr>timerOneShot := False, a_OCR1A := timer_ticks TIMER_MS_INTERVAL, a_TCNT1 := 0,
       a_TIMSK1 := sbi OCIE1A (a_TIMSK1 s)\<rparr>"

definition init_encoder :: "nat \<Rightarrow> nat \<Rightarrow> 'a arm_scheme \<Rightarrow> 'a arm_scheme" where
  "init_encoder i pin s =
     set_joint i (\<lambda>j. j\<lparr>j_encoderState := bit_is_set (a_PINC s) pin, j_prevEncoderState := bit_is_set (a_PINC s) pin\<rparr>) s"

definition arm_init :: "'a arm_scheme \<Rightarrow> 'a arm_scheme" where
  "arm_init s =
     (let s = init_pinouts s;
          s = init_structure s;
          s = s\<lparr>startCalibration := False, interruptCalibration := False\<rparr>;
          s = s\<lparr>a_TCCR1A := 0, a_TCCR1B := push_bit 3 1 OR push_bit 2 1 OR push_bit 0 1\<rparr>;
          s = setTimerContinuous s;
          s = init_encoder S_ELBOW ELBOW_ENC s
      in init_encoder S_SHOULDER SHOULDER_ENC s)"

section \<open>Calibration\<close>

text \<open>\<open>calibrate\<close> waits three times; each part up to the next wait is one definition, and interrupts
  happen between the parts.\<close>

definition abortCalibration :: "'a arm_scheme \<Rightarrow> 'a arm_scheme" where
  "abortCalibration s = (brake s)\<lparr>arm_calibrated := False\<rparr>"

definition cal_prepare :: "nat \<Rightarrow> 'a arm_scheme \<Rightarrow> 'a arm_scheme" where
  "cal_prepare i s =
     (let s = arm_setSpeed (toMotors i) (j_initSpeed (joints s ! i)) s
      in set_joint i (\<lambda>j. j\<lparr>j_allowedDir := D_BOTH, j_calibrated := False, j_mode := MODE_CAL\<rparr>) s)"

text \<open>Until the first wait: away from the switches that are closed.\<close>

definition cal_begin :: "'a arm_scheme \<Rightarrow> 'a arm_scheme" where
  "cal_begin s =
     (let s = brake s;
          s = fold cal_prepare [0..<4] s;
          s = s\<lparr>arm_calibrated := False, interruptCalibration := False, startCalibration := False\<rparr>;
          s = (if bit_is_set (a_PINB s) ELBOW_MS then arm_setDirection ELBOW D_FORWARD s else s);
          s = (if bit_is_set (a_PINB s) SHOULDER_MS then arm_setDirection SHOULDER D_BACKWARD s else s);
          s = (if bit_is_set (a_PINB s) GRIPPER_MS then arm_setDirection GRIPPER D_BACKWARD s else s)
      in (setTimerMs 800 s)\<lparr>phase := Leaving\<rparr>)"

definition cal_second :: "'a arm_scheme \<Rightarrow> 'a arm_scheme" where
  "cal_second s =
     (if interruptCalibration s then (abortCalibration s)\<lparr>phase := Idle\<rparr>
      else
        (let s = arm_setDirection ELBOW D_STOP s;
             s = arm_setDirection SHOULDER D_STOP s;
             s = arm_setDirection GRIPPER D_STOP s;
             s = (if getMsState S_ELBOW s then arm_setDirection ELBOW D_BACKWARD s
                  else arm_setDirection ELBOW D_FORWARD s);
             s = (if getMsState S_SHOULDER s then arm_setDirection SHOULDER D_FORWARD s
                  else arm_setDirection SHOULDER D_BACKWARD s);
             s = (if getMsState S_GRIPPER s then arm_setDirection GRIPPER D_FORWARD s
                  else arm_setDirection GRIPPER D_BACKWARD s)
         in (setTimerMs 700 s)\<lparr>phase := Approaching\<rparr>))"

definition cal_third :: "'a arm_scheme \<Rightarrow> 'a arm_scheme" where
  "cal_third s =
     (let s = arm_setDirection SHOULDER D_BACKWARD s;
          s = arm_setDirection GRIPPER D_BACKWARD s;
          s = arm_setDirection ELBOW D_FORWARD s
      in if interruptCalibration s then (abortCalibration s)\<lparr>phase := Idle\<rparr>
         else (setTimerContinuous s)\<lparr>phase := Seeking\<rparr>)"

definition all_calibrated :: "'a arm_scheme \<Rightarrow> bool" where
  "all_calibrated s \<longleftrightarrow> j_calibrated (joints s ! S_ELBOW) \<and> j_calibrated (joints s ! S_SHOULDER) \<and>
     j_calibrated (joints s ! S_GRIPPER)"

definition cal_finish :: "'a arm_scheme \<Rightarrow> 'a arm_scheme" where
  "cal_finish s =
     (if interruptCalibration s then (abortCalibration s)\<lparr>phase := Idle\<rparr>
      else
        (let s = set_joint S_SHOULDER (\<lambda>j. j\<lparr>j_currPos := 0\<rparr>) s;
             s = set_joint S_GRIPPER (\<lambda>j. j\<lparr>j_currPos := 0\<rparr>) s;
             s = set_joint S_ELBOW (\<lambda>j. j\<lparr>j_currPos := j_maxPos j\<rparr>) s;
             s = fold (\<lambda>i. set_joint i (\<lambda>j. j\<lparr>j_mode := MODE_DIR\<rparr>)) [0..<4] s;
             s = brake s
         in s\<lparr>arm_calibrated := True, phase := Idle\<rparr>))"

text \<open>One round of the main loop, or of the waiting loop \<open>calibrate\<close> is in.\<close>

definition arm_round :: "'a arm_scheme \<Rightarrow> 'a arm_scheme" where
  "arm_round s =
     (case phase s of
        Idle \<Rightarrow> if startCalibration s then cal_begin s else s
      | Leaving \<Rightarrow> if timerNotClear s \<and> \<not> interruptCalibration s then s else cal_second s
      | Approaching \<Rightarrow> if timerNotClear s \<and> \<not> interruptCalibration s then s else cal_third s
      | Seeking \<Rightarrow> if \<not> interruptCalibration s \<and> \<not> all_calibrated s then s else cal_finish s)"

section \<open>The timer interrupt\<close>

text \<open>Limit switch of one joint: a change counts when it has been seen in six ticks.\<close>

definition ms_closed :: "nat \<Rightarrow> 'a arm_scheme \<Rightarrow> 'a arm_scheme" where
  "ms_closed idx s =
     (let s = set_joint idx (\<lambda>j. j\<lparr>j_calibrated := True\<rparr>) s;
          s = (if j_currDir (joints s ! idx) = D_BACKWARD
               then set_joint idx (\<lambda>j. j\<lparr>j_allowedDir := D_FORWARD, j_currPos := 0\<rparr>) s
               else if j_currDir (joints s ! idx) = D_FORWARD
               then set_joint idx (\<lambda>j. j\<lparr>j_allowedDir := D_BACKWARD, j_currPos := j_maxPos j\<rparr>) s
               else s);
          s = arm_setDirection (toMotors idx) D_STOP s
      in set_joint idx (\<lambda>j. j\<lparr>j_msCurrState := True, j_msCounter := 0\<rparr>) s)"

definition ms_opened :: "nat \<Rightarrow> 'a arm_scheme \<Rightarrow> 'a arm_scheme" where
  "ms_opened idx s =
     (let s = set_joint idx (\<lambda>j. j\<lparr>j_allowedDir := D_BOTH\<rparr>) s;
          s = (if idx = S_GRIPPER then set_joint S_GRIPPER (\<lambda>j. j\<lparr>j_currPos := j_maxPos j\<rparr>) s else s)
      in set_joint idx (\<lambda>j. j\<lparr>j_msCurrState := False, j_msCounter := 0\<rparr>) s)"

definition ms_tick :: "nat \<Rightarrow> 'a arm_scheme \<Rightarrow> 'a arm_scheme" where
  "ms_tick idx s =
     (if getMsState idx s \<and> \<not> j_msCurrState (joints s ! idx)
      then
        (if j_msCounter (joints s ! idx) = MS_DEBOUNCE_COUNTER then ms_closed idx s
         else set_joint idx (\<lambda>j. j\<lparr>j_msCounter := j_msCounter j + 1\<rparr>) s)
      else if \<not> getMsState idx s \<and> j_msCurrState (joints s ! idx)
      then
        (if j_msCounter (joints s ! idx) = MS_DEBOUNCE_COUNTER then ms_opened idx s
         else set_joint idx (\<lambda>j. j\<lparr>j_msCounter := j_msCounter j + 1\<rparr>) s)
      else s)"

definition enc_count :: "joint \<Rightarrow> joint" where
  "enc_count j =
     (if j_currDir j = D_FORWARD
      then j\<lparr>j_currPos := if j_currPos j \<ge> j_maxPos j then j_maxPos j else j_currPos j + 1\<rparr>
      else if j_currDir j = D_BACKWARD
      then j\<lparr>j_currPos := if j_currPos j = 0 then 0 else j_currPos j - 1\<rparr>
      else j)"

definition enc_tick :: "nat \<Rightarrow> 'a arm_scheme \<Rightarrow> 'a arm_scheme" where
  "enc_tick i s =
     (if j_prevEncoderState (joints s ! i) \<noteq> j_encoderState (joints s ! i) \<and> i \<noteq> S_GRIPPER
      then
        (let s = (if j_mode (joints s ! i) = MODE_POS \<and> j_destPos (joints s ! i) = j_currPos (joints s ! i)
                  then set_joint i (\<lambda>j. j\<lparr>j_mode := MODE_DIR\<rparr>) (arm_setDirection (toMotors i) D_STOP s)
                  else s)
         in set_joint i enc_count s)
      else s)"

definition enc_sample :: "'a arm_scheme \<Rightarrow> 'a arm_scheme" where
  "enc_sample s =
     (let s = fold (\<lambda>i. set_joint i (\<lambda>j. j\<lparr>j_prevEncoderState := j_encoderState j\<rparr>)) [0..<4] s;
          s = set_joint S_ELBOW (\<lambda>j. j\<lparr>j_encoderState := bit_is_set (a_PINC s) ELBOW_ENC\<rparr>) s
      in set_joint S_SHOULDER (\<lambda>j. j\<lparr>j_encoderState := bit_is_set (a_PINC s) SHOULDER_ENC\<rparr>) s)"

definition arm_TIMER1_COMPA_vect :: "'a arm_scheme \<Rightarrow> 'a arm_scheme" where
  "arm_TIMER1_COMPA_vect s =
     (if timerOneShot s then s\<lparr>a_TIMSK1 := cbi OCIE1A (a_TIMSK1 s), timerNotClear := False\<rparr>
      else
        (let s = fold ms_tick [0..<4] s;
             s = enc_sample s
         in fold enc_tick [0..<4] s))"

end
