(* ===== verification/Arm_Main.thy ===== *)
theory Arm_Main
  imports Arm_Joint
begin

text \<open>
  The command interpreter of the arm driver (\<open>firmware/arm_driver/main.cpp\<close>), runs of the whole
  driver, and the properties of its joints: outputs against recorded state, limit switches,
  positioning and calibration.
\<close>

section \<open>\<open>main.cpp\<close>\<close>

text \<open>The reply buffer is the buffer of the command; what is read from it is read before the reply
  is written.\<close>

definition processCommands :: "u8 list \<Rightarrow> u8 list \<Rightarrow> 'a arm_scheme \<Rightarrow> u8 list \<times> 'a arm_scheme" where
  "processCommands rx tx s =
     (let motor = rx ! 1; interrupted = s\<lparr>interruptCalibration := True\<rparr> in
      case arm_command_of_code (rx ! 0) of
        Some A_GET_SPEED \<Rightarrow> (tx[0 := arm_getSpeed motor s], s)
      | Some A_SET_SPEED \<Rightarrow> (tx, arm_setSpeed motor (rx ! 2) interrupted)
      | Some A_SET_DIRECTION \<Rightarrow> (tx, arm_setDirection motor (rx ! 2) interrupted)
      | Some A_GET_DIRECTION \<Rightarrow> (tx[0 := arm_getDirection motor s], s)
      | Some A_GET_POSITION \<Rightarrow> (tx[0 := arm_getPosition motor s], s)
      | Some A_GET_MODE \<Rightarrow> (tx[0 := arm_getMode motor s], s)
      | Some A_IS_CALIBRATED \<Rightarrow> (tx[0 := bool_byte (arm_calibrated s)], s)
      | Some A_SET_POSITION \<Rightarrow> (tx, arm_setPosition motor (rx ! 2) interrupted)
      | Some A_BRAKE \<Rightarrow> (tx, brake interrupted)
      | Some A_CALIBRATE \<Rightarrow> (tx, interrupted\<lparr>startCalibration := True\<rparr>)
      | None \<Rightarrow> (tx, s))"

section \<open>Runs\<close>

text \<open>What the driver sees: rounds of the main program, timer compare matches (which interrupt only when
  enabled), complete commands from the bus, and changes of the sensor inputs.\<close>

datatype arm_event = AMain | ATimer | ACommand "u8 list" | ASensors u8 u8

definition timer_match :: "'a arm_scheme \<Rightarrow> 'a arm_scheme" where
  "timer_match s = (if bit (a_TIMSK1 s) OCIE1A then arm_TIMER1_COMPA_vect s else s)"

fun arm_step :: "arm_event \<Rightarrow> 'a arm_scheme \<Rightarrow> 'a arm_scheme" where
  "arm_step AMain s = arm_round s"
| "arm_step ATimer s = timer_match s"
| "arm_step (ACommand rx) s = snd (processCommands rx rx s)"
| "arm_step (ASensors b c) s = s\<lparr>a_PINB := b, a_PINC := c\<rparr>"

definition arm_run :: "arm_event list \<Rightarrow> 'a arm_scheme \<Rightarrow> 'a arm_scheme" where
  "arm_run es s = fold arm_step es s"

lemma arm_run_simps [simp]:
  "arm_run [] s = s" "arm_run (e # es) s = arm_run es (arm_step e s)"
  "arm_run (es @ fs) s = arm_run fs (arm_run es s)"
  by (simp_all add: arm_run_def)

section \<open>Table entries\<close>

lemma set_joint_frame [simp]:
  "length (joints (set_joint i f s)) = length (joints s)"
  "arm_calibrated (set_joint i f s) = arm_calibrated s"
  "interruptCalibration (set_joint i f s) = interruptCalibration s"
  "startCalibration (set_joint i f s) = startCalibration s"
  "timerNotClear (set_joint i f s) = timerNotClear s" "timerOneShot (set_joint i f s) = timerOneShot s"
  "phase (set_joint i f s) = phase s" "a_PORTB (set_joint i f s) = a_PORTB s" "a_PORTD (set_joint i f s) = a_PORTD s"
  "a_PINB (set_joint i f s) = a_PINB s" "a_PINC (set_joint i f s) = a_PINC s" "a_OCR0A (set_joint i f s) = a_OCR0A s"
  "a_OCR2A (set_joint i f s) = a_OCR2A s" "a_OCR2B (set_joint i f s) = a_OCR2B s" "a_TIMSK1 (set_joint i f s) = a_TIMSK1 s"
  by (simp_all add: set_joint_def)

lemma set_joint_nth:
  "k < length (joints s) \<Longrightarrow> joints (set_joint i f s) ! k = (if k = i then f (joints s ! k) else joints s ! k)"
  by (simp add: set_joint_def nth_list_update)

lemma toJoint_bound [simp]: "toJoint m < 4"
  by (simp add: toJoint_def)

lemma toJoint_toMotors: "i < 3 \<Longrightarrow> toJoint (toMotors i) = i"
  by (auto simp: toJoint_def toMotors_def)

lemma toMotors_toJoint: "m = SHOULDER \<or> m = ELBOW \<or> m = GRIPPER \<Longrightarrow> toMotors (toJoint m) = m"
  by (auto simp: toJoint_def toMotors_def)

lemma pins_frame [simp]:
  "joints (direction_pins m d s) = joints s" "arm_calibrated (direction_pins m d s) = arm_calibrated s"
  "interruptCalibration (direction_pins m d s) = interruptCalibration s"
  "startCalibration (direction_pins m d s) = startCalibration s" "timerNotClear (direction_pins m d s) = timerNotClear s"
  "timerOneShot (direction_pins m d s) = timerOneShot s" "phase (direction_pins m d s) = phase s"
  "a_PINB (direction_pins m d s) = a_PINB s" "a_PINC (direction_pins m d s) = a_PINC s"
  "a_OCR0A (direction_pins m d s) = a_OCR0A s" "a_OCR2A (direction_pins m d s) = a_OCR2A s"
  "a_OCR2B (direction_pins m d s) = a_OCR2B s" "a_TIMSK1 (direction_pins m d s) = a_TIMSK1 s"
  by (simp_all add: direction_pins_def)

text \<open>The setters change one entry each.\<close>

definition direct :: "u8 \<Rightarrow> joint \<Rightarrow> joint" where
  "direct d j = j\<lparr>j_mode := if j_mode j = MODE_POS then MODE_DIR else j_mode j,
     j_currDir := if ((d = D_FORWARD \<or> d = D_BACKWARD) \<and> j_allowedDir j = D_BOTH) \<or> j_allowedDir j = d then d else D_STOP\<rparr>"

lemma setDirection_direct:
  "length (joints s) = 4 \<Longrightarrow> arm_setDirection m d s =
     direction_pins m (j_currDir (direct d (joints s ! toJoint m))) (set_joint (toJoint m) (direct d) s)"
  by (auto simp: arm_setDirection_def Let_def set_joint_def direct_def)

lemma setDirection_frame [simp]:
  "length (joints (arm_setDirection m d s)) = length (joints s)"
  "arm_calibrated (arm_setDirection m d s) = arm_calibrated s"
  "interruptCalibration (arm_setDirection m d s) = interruptCalibration s"
  "startCalibration (arm_setDirection m d s) = startCalibration s" "timerNotClear (arm_setDirection m d s) = timerNotClear s"
  "timerOneShot (arm_setDirection m d s) = timerOneShot s" "phase (arm_setDirection m d s) = phase s"
  "a_PINB (arm_setDirection m d s) = a_PINB s" "a_PINC (arm_setDirection m d s) = a_PINC s"
  "a_TIMSK1 (arm_setDirection m d s) = a_TIMSK1 s"
  by (simp_all add: arm_setDirection_def Let_def)

lemma setDirection_nth:
  "length (joints s) = 4 \<Longrightarrow> k < 4 \<Longrightarrow> joints (arm_setDirection m d s) ! k =
     (if k = toJoint m then direct d (joints s ! k) else joints s ! k)"
  by (simp add: setDirection_direct set_joint_nth)

lemma setSpeed_frame [simp]:
  "length (joints (arm_setSpeed m v s)) = length (joints s)"
  "arm_calibrated (arm_setSpeed m v s) = arm_calibrated s"
  "interruptCalibration (arm_setSpeed m v s) = interruptCalibration s"
  "startCalibration (arm_setSpeed m v s) = startCalibration s" "timerNotClear (arm_setSpeed m v s) = timerNotClear s"
  "timerOneShot (arm_setSpeed m v s) = timerOneShot s" "phase (arm_setSpeed m v s) = phase s"
  "a_PORTB (arm_setSpeed m v s) = a_PORTB s" "a_PORTD (arm_setSpeed m v s) = a_PORTD s"
  "a_PINB (arm_setSpeed m v s) = a_PINB s" "a_PINC (arm_setSpeed m v s) = a_PINC s"
  "a_TIMSK1 (arm_setSpeed m v s) = a_TIMSK1 s"
  by (simp_all add: arm_setSpeed_def Let_def)

lemma setSpeed_nth:
  "length (joints s) = 4 \<Longrightarrow> k < 4 \<Longrightarrow> joints (arm_setSpeed m v s) ! k =
     (if k = toJoint m then (joints s ! k)\<lparr>j_currSpeed := v\<rparr> else joints s ! k)"
  by (simp add: arm_setSpeed_def Let_def set_joint_nth)

lemma direct_fields [simp]:
  "j_currPos (direct d j) = j_currPos j" "j_destPos (direct d j) = j_destPos j" "j_maxPos (direct d j) = j_maxPos j"
  "j_allowedDir (direct d j) = j_allowedDir j" "j_currSpeed (direct d j) = j_currSpeed j"
  "j_calibrated (direct d j) = j_calibrated j" "j_msCounter (direct d j) = j_msCounter j"
  "j_msCurrState (direct d j) = j_msCurrState j" "j_encoderState (direct d j) = j_encoderState j"
  "j_prevEncoderState (direct d j) = j_prevEncoderState j" "j_initSpeed (direct d j) = j_initSpeed j"
  "j_currDir (direct D_STOP j) = D_STOP"
  by (simp_all add: direct_def)

lemma getMs_frame [simp]:
  "getMsState i (set_joint k f s) = getMsState i s" "getMsState i (arm_setDirection m d s) = getMsState i s"
  "getMsState i (arm_setSpeed m d s) = getMsState i s" "getMsState i (s\<lparr>arm_calibrated := b\<rparr>) = getMsState i s"
  "getMsState i (s\<lparr>interruptCalibration := b\<rparr>) = getMsState i s" "getMsState i (s\<lparr>phase := p\<rparr>) = getMsState i s"
  "getMsState i (setTimerMs n s) = getMsState i s" "getMsState i (setTimerContinuous s) = getMsState i s"
  "getMsState i (s\<lparr>a_TIMSK1 := t, timerNotClear := b\<rparr>) = getMsState i s"
  by (simp_all add: getMsState_def setTimerMs_def setTimerContinuous_def)

lemma upt_4: "[0..<4] = [0, 1, 2, 3 :: nat]"
  by (simp add: upt_rec)

section \<open>A contract for invariants of the joints\<close>

text \<open>What stays as it is in the entries the program only keeps books about.\<close>

definition keeps :: "joint \<Rightarrow> joint \<Rightarrow> bool" where
  "keeps j j' \<longleftrightarrow> j_currDir j' = j_currDir j \<and> j_currSpeed j' = j_currSpeed j \<and> j_allowedDir j' = j_allowedDir j \<and>
     j_msCurrState j' = j_msCurrState j"

text \<open>
  A property of the driver's state that every basic operation keeps. \<open>known\<close> says for which motor
  numbers the setters keep it; the three motors of the arm are among them. Everything built from
  the basic operations then keeps it: braking, positioning, the parts of the calibration, the
  timer interrupt, commands.
\<close>

locale joint_discipline =
  fixes inv :: "'a arm_scheme \<Rightarrow> bool"
    and known :: "u8 \<Rightarrow> bool"
  assumes known_motor: "known (toMotors i)"
    and keep_direction: "inv s \<Longrightarrow> known m \<Longrightarrow> inv (arm_setDirection m d s)"
    and keep_speed: "inv s \<Longrightarrow> known m \<Longrightarrow> inv (arm_setSpeed m v s)"
    and keep_books: "inv s \<Longrightarrow> (\<And>j. keeps j (f j)) \<Longrightarrow> inv (set_joint i f s)"
    and keep_flags: "inv s \<Longrightarrow> inv (s\<lparr>arm_calibrated := b\<rparr>)" "inv s \<Longrightarrow> inv (s\<lparr>interruptCalibration := b\<rparr>)"
      "inv s \<Longrightarrow> inv (s\<lparr>phase := p\<rparr>)"
    and keep_timer: "inv s \<Longrightarrow> inv (setTimerMs n s)" "inv s \<Longrightarrow> inv (setTimerContinuous s)"
      "inv s \<Longrightarrow> inv (s\<lparr>a_TIMSK1 := t, timerNotClear := b\<rparr>)"
    and keep_switch: "inv s \<Longrightarrow> i < 4 \<Longrightarrow> inv (ms_tick i s)"
    and keep_begin: "inv s \<Longrightarrow> startCalibration s \<Longrightarrow> inv (cal_begin s)"
begin

lemma known_motors [simp]: "known SHOULDER" "known ELBOW" "known GRIPPER"
  using known_motor [of 0] known_motor [of 1] known_motor [of 2] by (simp_all add: toMotors_def)

lemma keep_brake: "inv s \<Longrightarrow> inv (brake s)"
  by (simp add: brake_def upt_4 brake_joint_def keep_direction keep_speed known_motor)

lemma keep_abort: "inv s \<Longrightarrow> inv (abortCalibration s)"
  by (simp add: abortCalibration_def keep_brake keep_flags)

lemma keep_setPosition: "inv s \<Longrightarrow> known m \<Longrightarrow> inv (arm_setPosition m p s)"
  unfolding arm_setPosition_def Let_def
  by (simp add: keep_books keep_direction keeps_def)

lemma keep_second: "inv s \<Longrightarrow> inv (cal_second s)"
  by (simp add: cal_second_def Let_def keep_abort keep_flags keep_timer keep_direction)

lemma keep_third: "inv s \<Longrightarrow> inv (cal_third s)"
  by (simp add: cal_third_def Let_def keep_abort keep_flags keep_timer keep_direction)

lemma keep_finish: "inv s \<Longrightarrow> inv (cal_finish s)"
  by (simp add: cal_finish_def Let_def keep_abort keep_flags keep_brake keep_books keeps_def upt_4)

lemma keep_round: "inv s \<Longrightarrow> inv (arm_round s)"
  by (cases "phase s") (simp_all add: arm_round_def keep_begin keep_second keep_third keep_finish)

lemma keep_encoder: "inv s \<Longrightarrow> inv (enc_tick i s)"
  unfolding enc_tick_def Let_def
  by (simp add: keep_books keep_direction keeps_def enc_count_def known_motor)

lemma keep_sample: "inv s \<Longrightarrow> inv (enc_sample s)"
  by (simp add: enc_sample_def Let_def keep_books keeps_def upt_4)

lemma keep_match: "inv s \<Longrightarrow> inv (timer_match s)"
  unfolding timer_match_def arm_TIMER1_COMPA_vect_def Let_def upt_4
  by (simp add: keep_timer keep_encoder keep_sample keep_switch)

lemma keep_command:
  assumes "inv s" and "known (rx ! 1)" and "rx ! 0 \<noteq> arm_command_code A_CALIBRATE"
  shows "inv (snd (processCommands rx tx s))"
proof -
  have "arm_command_of_code (rx ! 0) \<noteq> Some A_CALIBRATE" using assms(3) by (simp add: arm_command_of_code_def)
  then show ?thesis
    using assms(1,2)
    by (simp add: processCommands_def Let_def keep_direction keep_speed keep_flags keep_setPosition keep_brake
        split: option.split arm_command.split)
qed

end

section \<open>Outputs\<close>

text \<open>The direction pins of one joint against its recorded direction: driven forward or backward exactly
  when the record says so; otherwise both pins are equal, which leaves the motor coasting or braked.\<close>

definition driven_as :: "u8 \<Rightarrow> bool \<Rightarrow> bool \<Rightarrow> bool" where
  "driven_as d forward backward \<longleftrightarrow>
     (if d = D_FORWARD then forward \<and> \<not> backward else if d = D_BACKWARD then \<not> forward \<and> backward
      else forward = backward)"

definition outputs_ok :: "'a arm_scheme \<Rightarrow> bool" where
  "outputs_ok s \<longleftrightarrow> length (joints s) = 4 \<and>
     driven_as (arm_getDirection SHOULDER s) (bit (a_PORTD s) 0) (bit (a_PORTD s) 1) \<and>
     driven_as (arm_getDirection ELBOW s) (bit (a_PORTD s) 2) (bit (a_PORTD s) 4) \<and>
     driven_as (arm_getDirection GRIPPER s) (bit (a_PORTB s) 0) (bit (a_PORTD s) 7) \<and>
     a_OCR2A s = push_bit 4 (arm_getSpeed SHOULDER s) \<and> a_OCR2B s = push_bit 4 (arm_getSpeed ELBOW s) \<and>
     a_OCR0A s = push_bit 4 (arm_getSpeed GRIPPER s)"

definition arm_motor :: "u8 \<Rightarrow> bool" where
  "arm_motor m \<longleftrightarrow> m = SHOULDER \<or> m = ELBOW \<or> m = GRIPPER"

lemmas getter_defs = arm_getDirection_def arm_getSpeed_def arm_getPosition_def arm_getMode_def

lemma outputs_direction:
  assumes "outputs_ok s" and "arm_motor m"
  shows "outputs_ok (arm_setDirection m d s)"
proof -
  have len: "length (joints s) = 4" using assms(1) by (simp add: outputs_ok_def)
  define e where "e = j_currDir (direct d (joints s ! toJoint m))"
  consider "e = D_FORWARD" | "e = D_BACKWARD" | "e \<noteq> D_FORWARD" "e \<noteq> D_BACKWARD" by blast
  then have pins: "outputs_ok (direction_pins m e (set_joint (toJoint m) (direct d) s))"
    using assms(2) unfolding arm_motor_def
    by cases (elim disjE; use assms(1) e_def in \<open>simp add: outputs_ok_def getter_defs toJoint_def set_joint_nth
        direction_pins_def driven_as_def port_simps\<close>)+
  then show ?thesis by (simp add: setDirection_direct [OF len] e_def)
qed

lemma outputs_speed:
  assumes "outputs_ok s" and "arm_motor m"
  shows "outputs_ok (arm_setSpeed m v s)"
  using assms
  by (auto simp: outputs_ok_def arm_setSpeed_def Let_def arm_motor_def getter_defs toJoint_def set_joint_nth)

lemma outputs_books:
  assumes "outputs_ok s" and "\<And>j. j_currDir (f j) = j_currDir j \<and> j_currSpeed (f j) = j_currSpeed j"
  shows "outputs_ok (set_joint i f s)"
proof -
  have "j_currDir (joints (set_joint i f s) ! k) = j_currDir (joints s ! k)"
    "j_currSpeed (joints (set_joint i f s) ! k) = j_currSpeed (joints s ! k)" if "k < 4" for k
    using that assms by (simp_all add: set_joint_nth outputs_ok_def)
  then show ?thesis using assms(1) by (simp add: outputs_ok_def getter_defs toJoint_def)
qed

lemma outputs_switch:
  assumes "outputs_ok s"
  shows "outputs_ok (ms_tick i s)"
proof -
  have "arm_motor (toMotors i)" by (simp add: arm_motor_def toMotors_def)
  then show ?thesis
    using assms by (simp add: ms_tick_def ms_closed_def ms_opened_def Let_def outputs_books outputs_direction)
qed

lemma outputs_fields:
  assumes "outputs_ok s"
  shows "outputs_ok (s\<lparr>arm_calibrated := b\<rparr>)" "outputs_ok (s\<lparr>interruptCalibration := b\<rparr>)"
    "outputs_ok (s\<lparr>startCalibration := b\<rparr>)" "outputs_ok (s\<lparr>phase := p\<rparr>)" "outputs_ok (setTimerMs n s)"
    "outputs_ok (setTimerContinuous s)" "outputs_ok (s\<lparr>a_TIMSK1 := t, timerNotClear := b\<rparr>)"
    "outputs_ok (s\<lparr>a_PINB := x, a_PINC := y\<rparr>)"
  using assms by (simp_all add: outputs_ok_def getter_defs setTimerMs_def setTimerContinuous_def)

lemma outputs_begin:
  assumes "outputs_ok s"
  shows "outputs_ok (cal_begin s)"
proof -
  have m: "arm_motor (toMotors i)" for i by (simp add: arm_motor_def toMotors_def)
  have brake: "outputs_ok (brake u)" if "outputs_ok u" for u :: "'a arm_scheme"
    using that by (simp add: brake_def upt_4 brake_joint_def outputs_direction outputs_speed m)
  have prepare: "outputs_ok (cal_prepare i u)" if "outputs_ok u" for i and u :: "'a arm_scheme"
    using that by (simp add: cal_prepare_def Let_def outputs_books outputs_speed m)
  have "arm_motor SHOULDER" "arm_motor ELBOW" "arm_motor GRIPPER" by (simp_all add: arm_motor_def)
  then show ?thesis
    using assms by (simp add: cal_begin_def Let_def upt_4 outputs_fields brake prepare outputs_direction)
qed

interpretation outputs: joint_discipline outputs_ok arm_motor
proof
  show "arm_motor (toMotors i)" for i by (simp add: arm_motor_def toMotors_def)
qed (simp_all add: outputs_direction outputs_speed outputs_books outputs_switch outputs_fields outputs_begin keeps_def)

text \<open>Commands name an existing motor.\<close>

fun names_motor :: "arm_event \<Rightarrow> bool" where
  "names_motor (ACommand rx) \<longleftrightarrow> arm_motor (rx ! 1)"
| "names_motor _ \<longleftrightarrow> True"

lemma outputs_step: "outputs_ok s \<Longrightarrow> names_motor e \<Longrightarrow> outputs_ok (arm_step e s)"
proof (cases e)
  case (ACommand rx)
  assume "outputs_ok s" and "names_motor e"
  then show ?thesis
    using outputs.keep_command [of s rx rx]
    by (cases "rx ! 0 = arm_command_code A_CALIBRATE")
       (simp_all add: ACommand processCommands_def arm_command_of_code_def outputs_fields)
qed (simp_all add: outputs.keep_round outputs.keep_match outputs_fields)

lemma outputs_run: "outputs_ok s \<Longrightarrow> list_all names_motor es \<Longrightarrow> outputs_ok (arm_run es s)"
  by (induction es arbitrary: s) (simp_all add: outputs_step)

text \<open>The driver after a reset: registers are cleared, the table in \<open>.noinit\<close> memory and the other
  variables hold anything.\<close>

definition after_reset :: "'a arm_scheme \<Rightarrow> bool" where
  "after_reset s \<longleftrightarrow> length (joints s) = 4 \<and> a_PORTB s = 0 \<and> a_PORTC s = 0 \<and> a_PORTD s = 0 \<and> a_OCR0A s = 0 \<and>
     a_OCR2A s = 0 \<and> a_OCR2B s = 0 \<and> a_TIMSK1 s = 0 \<and> phase s = Idle"

lemma init_pinouts_frame:
  "joints (init_pinouts s) = joints s" "a_OCR0A (init_pinouts s) = a_OCR0A s" "a_OCR2A (init_pinouts s) = a_OCR2A s"
  "a_OCR2B (init_pinouts s) = a_OCR2B s" "a_PORTD (init_pinouts s) = a_PORTD s" "phase (init_pinouts s) = phase s"
  "bit (a_PORTB (init_pinouts s)) 0 = bit (a_PORTB s) 0"
  by (simp_all add: init_pinouts_def Let_def port_simps)

lemma outputs_init:
  assumes "after_reset s"
  shows "outputs_ok (arm_init s)"
proof -
  define t where "t = init_structure (init_pinouts s)"
  have "outputs_ok t"
    using assms
    by (simp add: t_def init_structure_def Let_def upt_4 outputs_ok_def getter_defs toJoint_def set_joint_nth
        after_reset_def init_pinouts_frame driven_as_def)
  moreover have "arm_init s = init_encoder S_SHOULDER SHOULDER_ENC (init_encoder S_ELBOW ELBOW_ENC (setTimerContinuous
      (t\<lparr>startCalibration := False, interruptCalibration := False, a_TCCR1A := 0,
         a_TCCR1B := push_bit 3 1 OR push_bit 2 1 OR push_bit 0 1\<rparr>)))"
    by (simp add: arm_init_def t_def Let_def)
  moreover have "outputs_ok (u\<lparr>startCalibration := False, interruptCalibration := False, a_TCCR1A := x, a_TCCR1B := y\<rparr>)"
    if "outputs_ok u" for u :: "'a arm_scheme" and x y
    using that by (simp add: outputs_ok_def getter_defs)
  ultimately show ?thesis
    by (simp add: init_encoder_def outputs_books outputs_fields)
qed

text \<open>A driver just after a reset, with a table full of zeros.\<close>

definition joint_zero :: joint where
  "joint_zero = \<lparr>j_currPos = 0, j_destPos = 0, j_maxPos = 0, j_allowedDir = 0, j_currDir = 0, j_currSpeed = 0,
     j_initSpeed = 0, j_calibrated = False, j_mode = 0, j_msCounter = 0, j_msCurrState = False,
     j_encoderState = False, j_prevEncoderState = False\<rparr>"

definition arm_cleared :: arm where
  "arm_cleared = \<lparr>joints = replicate 4 joint_zero, arm_calibrated = False, interruptCalibration = False,
     startCalibration = False, timerNotClear = True, timerOneShot = True, phase = Idle, a_PORTB = 0, a_PORTC = 0,
     a_PORTD = 0, a_DDRB = 0, a_DDRC = 0, a_DDRD = 0, a_PINB = 0, a_PINC = 0, a_OCR0A = 0, a_OCR2A = 0, a_OCR2B = 0,
     a_TCCR0A = 0, a_TCCR0B = 0, a_TCCR2A = 0, a_TCCR2B = 0, a_TCCR1A = 0, a_TCCR1B = 0, a_OCR1A = 0, a_TCNT1 = 0,
     a_TIMSK1 = 0\<rparr>"

lemma arm_cleared_reset: "after_reset arm_cleared"
  by (simp add: after_reset_def arm_cleared_def)

section \<open>Properties\<close>

text \<open>C31: The outputs of the arm. Whatever the uninitialised table held at power-up, after any sequence of main
  loop rounds, timer interrupts, sensor changes and commands that name one of the three motors, a
  calibration in progress included, each motor's direction pins are driven forward or backward
  exactly when its recorded direction says so, and its PWM register holds the recorded speed
  shifted left by four bits.\<close>

theorem arm_outputs_follow_record:
  fixes es :: "arm_event list" and s0 :: arm
  assumes "after_reset s0" and "list_all names_motor es"
  defines "s \<equiv> arm_run es (arm_init s0)"
  shows "driven_as (arm_getDirection SHOULDER s) (bit (a_PORTD s) 0) (bit (a_PORTD s) 1) \<and>
    driven_as (arm_getDirection ELBOW s) (bit (a_PORTD s) 2) (bit (a_PORTD s) 4) \<and>
    driven_as (arm_getDirection GRIPPER s) (bit (a_PORTB s) 0) (bit (a_PORTD s) 7) \<and>
    a_OCR2A s = push_bit 4 (arm_getSpeed SHOULDER s) \<and> a_OCR2B s = push_bit 4 (arm_getSpeed ELBOW s) \<and>
    a_OCR0A s = push_bit 4 (arm_getSpeed GRIPPER s)"
  using outputs_run [OF outputs_init [OF assms(1)] assms(2)] by (simp only: s_def outputs_ok_def)

theorem arm_outputs_follow_record_witness:
  "a_OCR2A (arm_run [ACommand [8, 0, 0], AMain, ATimer, AMain] (arm_init arm_cleared)) =
     push_bit 4 (arm_getSpeed SHOULDER (arm_run [ACommand [8, 0, 0], AMain, ATimer, AMain] (arm_init arm_cleared)))"
  using arm_outputs_follow_record [OF arm_cleared_reset, of "[ACommand [8, 0, 0], AMain, ATimer, AMain]"]
  by (simp add: arm_motor_def)

end
