(* ===== verification/Arm_Limits.thy ===== *)
theory Arm_Limits
  imports Arm_Main
begin

text \<open>
  Limit switches and positioning of the arm: a joint that reaches its switch is stopped and stays off
  it, and a joint sent to a position arrives there. Both rest on \<open>tick_entry\<close>, which says what one
  tick of the timer does to the entry of one joint.
\<close>

section \<open>Limit switches\<close>

definition opposite :: "u8 \<Rightarrow> u8" where
  "opposite d = (if d = D_FORWARD then D_BACKWARD else D_FORWARD)"

text \<open>The switch of joint \<open>idx\<close> is closed and has been noticed while the joint moved in direction \<open>d\<close>.\<close>

definition limit_held :: "nat \<Rightarrow> u8 \<Rightarrow> 'a arm_scheme \<Rightarrow> bool" where
  "limit_held idx d s \<longleftrightarrow> length (joints s) = 4 \<and> idx < 3 \<and> (d = D_FORWARD \<or> d = D_BACKWARD) \<and> getMsState idx s \<and>
     j_msCurrState (joints s ! idx) \<and> j_allowedDir (joints s ! idx) = opposite d \<and>
     j_currDir (joints s ! idx) \<noteq> d \<and> \<not> startCalibration s"

lemma direct_not_allowed:
  "j_allowedDir j = opposite d \<Longrightarrow> d = D_FORWARD \<or> d = D_BACKWARD \<Longrightarrow> j_currDir (direct e j) \<noteq> d"
  by (auto simp: direct_def opposite_def)

lemma limit_direction: "limit_held idx d s \<Longrightarrow> limit_held idx d (arm_setDirection m e s)"
  by (auto simp: limit_held_def setDirection_nth direct_not_allowed)

lemma limit_speed: "limit_held idx d s \<Longrightarrow> limit_held idx d (arm_setSpeed m v s)"
  by (auto simp: limit_held_def setSpeed_nth getMsState_def)

lemma limit_books: "limit_held idx d s \<Longrightarrow> (\<And>j. keeps j (f j)) \<Longrightarrow> limit_held idx d (set_joint i f s)"
  by (auto simp: limit_held_def set_joint_nth keeps_def)

lemma limit_others: "limit_held idx d s \<Longrightarrow> i \<noteq> idx \<Longrightarrow> limit_held idx d (set_joint i f s)"
  by (auto simp: limit_held_def set_joint_nth)

lemma limit_switch:
  assumes "limit_held idx d s"
  shows "limit_held idx d (ms_tick i s)"
proof (cases "i = idx")
  case True
  then show ?thesis using assms by (simp add: ms_tick_def limit_held_def)
next
  case False
  then show ?thesis
    using assms limit_others [where 'a = 'a] limit_direction [where 'a = 'a]
    by (auto simp: ms_tick_def ms_closed_def ms_opened_def Let_def)
qed

interpretation limit: joint_discipline "limit_held idx d" "\<lambda>_. True" for idx d
proof
  fix s :: "'a arm_scheme"
  assume "limit_held idx d s" and "startCalibration s"
  then show "limit_held idx d (cal_begin s)" by (simp add: limit_held_def)
qed (simp_all add: limit_direction limit_speed limit_books limit_switch,
     simp_all add: limit_held_def, simp_all add: setTimerMs_def setTimerContinuous_def)

text \<open>No calibration is asked for, and the switch of joint \<open>idx\<close> stays closed.\<close>

fun undisturbed :: "nat \<Rightarrow> arm_event \<Rightarrow> bool" where
  "undisturbed idx (ACommand rx) \<longleftrightarrow> rx ! 0 \<noteq> arm_command_code A_CALIBRATE"
| "undisturbed idx (ASensors b c) \<longleftrightarrow> bit b (if idx = S_SHOULDER then SHOULDER_MS else if idx = S_GRIPPER then GRIPPER_MS else ELBOW_MS)"
| "undisturbed idx _ \<longleftrightarrow> True"

lemma limit_run: "limit_held idx d s \<Longrightarrow> list_all (undisturbed idx) es \<Longrightarrow> limit_held idx d (arm_run es s)"
proof (induction es arbitrary: s)
  case (Cons e es)
  have "limit_held idx d (arm_step e s)"
  proof (cases e)
    case (ASensors b c)
    with Cons.prems have "getMsState idx (arm_step e s)"
      by (auto simp: getMsState_def limit_held_def port_simps)
    then show ?thesis using Cons.prems(1) by (simp add: ASensors limit_held_def)
  qed (use Cons.prems in \<open>simp_all add: limit.keep_round limit.keep_match limit.keep_command\<close>)
  then show ?case using Cons by simp
qed simp

section \<open>One tick, joint by joint\<close>

text \<open>What a tick of the continuous timer does to the entry of one joint: first its switch, then its
  encoder.\<close>

definition at_limit :: "joint \<Rightarrow> joint" where
  "at_limit j =
     (if j_currDir j = D_BACKWARD then j\<lparr>j_allowedDir := D_FORWARD, j_currPos := 0\<rparr>
      else if j_currDir j = D_FORWARD then j\<lparr>j_allowedDir := D_BACKWARD, j_currPos := j_maxPos j\<rparr>
      else j)"

definition ms_entry :: "nat \<Rightarrow> bool \<Rightarrow> joint \<Rightarrow> joint" where
  "ms_entry idx shut j =
     (if shut \<and> \<not> j_msCurrState j
      then (if j_msCounter j = MS_DEBOUNCE_COUNTER
            then (direct D_STOP (at_limit (j\<lparr>j_calibrated := True\<rparr>)))\<lparr>j_msCurrState := True, j_msCounter := 0\<rparr>
            else j\<lparr>j_msCounter := j_msCounter j + 1\<rparr>)
      else if \<not> shut \<and> j_msCurrState j
      then (if j_msCounter j = MS_DEBOUNCE_COUNTER
            then j\<lparr>j_allowedDir := D_BOTH, j_currPos := (if idx = S_GRIPPER then j_maxPos j else j_currPos j),
                   j_msCurrState := False, j_msCounter := 0\<rparr>
            else j\<lparr>j_msCounter := j_msCounter j + 1\<rparr>)
      else j)"

definition enc_entry :: "bool \<Rightarrow> joint \<Rightarrow> joint" where
  "enc_entry pin j =
     (let j = j\<lparr>j_prevEncoderState := j_encoderState j, j_encoderState := pin\<rparr>
      in if j_prevEncoderState j \<noteq> j_encoderState j
         then enc_count (if j_mode j = MODE_POS \<and> j_destPos j = j_currPos j then (direct D_STOP j)\<lparr>j_mode := MODE_DIR\<rparr> else j)
         else j)"

definition joint_tick :: "nat \<Rightarrow> 'a arm_scheme \<Rightarrow> joint \<Rightarrow> joint" where
  "joint_tick idx s j =
     (let j = ms_entry idx (getMsState idx s) j
      in if idx = S_GRIPPER then j\<lparr>j_prevEncoderState := j_encoderState j\<rparr>
         else enc_entry (bit_is_set (a_PINC s) (if idx = S_SHOULDER then SHOULDER_ENC else ELBOW_ENC)) j)"

text \<open>The encoder part of a tick concerns shoulder and elbow only.\<close>

lemma enc_tick_nth: "length (joints s) = 4 \<Longrightarrow> i < 3 \<Longrightarrow> k < 4 \<Longrightarrow> k \<noteq> i \<Longrightarrow> joints (enc_tick i s) ! k = joints s ! k"
  by (simp add: enc_tick_def Let_def set_joint_nth setDirection_nth toJoint_toMotors)

lemma enc_tick_length [simp]: "length (joints (enc_tick i s)) = length (joints s)"
  by (simp add: enc_tick_def Let_def)

lemma enc_sample_nth:
  "length (joints s) = 4 \<Longrightarrow> k < 4 \<Longrightarrow> joints (enc_sample s) ! k =
     (joints s ! k)\<lparr>j_prevEncoderState := j_encoderState (joints s ! k),
       j_encoderState := if k = S_SHOULDER then bit_is_set (a_PINC s) SHOULDER_ENC
         else if k = S_ELBOW then bit_is_set (a_PINC s) ELBOW_ENC else j_encoderState (joints s ! k)\<rparr>"
  by (auto simp: enc_sample_def Let_def upt_4 set_joint_nth)

lemma enc_sample_length [simp]: "length (joints (enc_sample s)) = length (joints s)"
  by (simp add: enc_sample_def Let_def upt_4)

lemma tick_encoders:
  assumes "length (joints s) = 4"
  shows "fold enc_tick [0..<4] (enc_sample s) = enc_tick S_ELBOW (enc_tick S_SHOULDER (enc_sample s))"
proof -
  define t where "t = enc_tick S_ELBOW (enc_tick S_SHOULDER (enc_sample s))"
  have "joints t ! 3 = joints (enc_sample s) ! 3" using assms by (simp add: t_def enc_tick_nth)
  then have "enc_tick 3 t = t" "enc_tick S_GRIPPER t = t" using assms by (simp_all add: enc_tick_def enc_sample_nth)
  then show ?thesis by (simp add: upt_4 t_def)
qed

lemma enc_tick_same:
  assumes "length (joints s) = 4" and "i < 3" and "i \<noteq> S_GRIPPER"
  shows "joints (enc_tick i s) ! i =
    (let j = joints s ! i
     in if j_prevEncoderState j \<noteq> j_encoderState j
        then enc_count (if j_mode j = MODE_POS \<and> j_destPos j = j_currPos j then (direct D_STOP j)\<lparr>j_mode := MODE_DIR\<rparr> else j)
        else j)"
  using assms by (simp add: enc_tick_def Let_def set_joint_nth setDirection_nth toJoint_toMotors)

lemma ms_tick_length [simp]: "length (joints (ms_tick i s)) = length (joints s)"
  by (simp add: ms_tick_def ms_closed_def ms_opened_def Let_def)

lemma ms_tick_pins [simp]:
  "a_PINB (ms_tick i s) = a_PINB s" "a_PINC (ms_tick i s) = a_PINC s" "getMsState k (ms_tick i s) = getMsState k s"
  "phase (ms_tick i s) = phase s" "timerOneShot (ms_tick i s) = timerOneShot s" "a_TIMSK1 (ms_tick i s) = a_TIMSK1 s"
  "startCalibration (ms_tick i s) = startCalibration s" "interruptCalibration (ms_tick i s) = interruptCalibration s"
  by (simp_all add: ms_tick_def ms_closed_def ms_opened_def Let_def)

lemma ms_tick_nth:
  assumes "length (joints s) = 4" and "i < 4" and "k < 4" and "k \<noteq> i"
  shows "joints (ms_tick i s) ! k = joints s ! k"
proof (cases "i = 3")
  case True
  then show ?thesis using assms by (simp add: ms_tick_def ms_opened_def Let_def getMsState_def set_joint_nth)
next
  case False
  then have "toJoint (toMotors i) = i" using assms(2) by (simp add: toJoint_toMotors)
  then show ?thesis
    using assms by (simp add: ms_tick_def ms_closed_def ms_opened_def Let_def set_joint_nth setDirection_nth)
qed

lemma ms_tick_same:
  assumes "length (joints s) = 4" and "i < 3"
  shows "joints (ms_tick i s) ! i = ms_entry i (getMsState i s) (joints s ! i)"
  using assms
  by (simp add: ms_tick_def ms_closed_def ms_opened_def ms_entry_def at_limit_def Let_def set_joint_nth setDirection_nth
      toJoint_toMotors)

lemma tick_entry:
  assumes "length (joints s) = 4" and "idx < 3" and "\<not> timerOneShot s" and "bit (a_TIMSK1 s) OCIE1A"
  shows "joints (timer_match s) ! idx = joint_tick idx s (joints s ! idx)"
proof -
  define t where "t = ms_tick 3 (ms_tick 2 (ms_tick 1 (ms_tick 0 s)))"
  have t: "length (joints t) = 4" "a_PINC t = a_PINC s" using assms(1) by (simp_all add: t_def)
  have tj: "joints t ! k = ms_entry k (getMsState k s) (joints s ! k)" if k: "k < 3" for k
  proof -
    consider "k = 0" | "k = 1" | "k = 2" using k by linarith
    then show ?thesis by cases (simp_all add: t_def ms_tick_nth ms_tick_same assms(1))
  qed
  have "timer_match s = fold enc_tick [0..<4] (enc_sample t)"
    using assms(3,4) by (simp add: timer_match_def arm_TIMER1_COMPA_vect_def Let_def t_def upt_4)
  then have m: "timer_match s = enc_tick S_ELBOW (enc_tick S_SHOULDER (enc_sample t))"
    using tick_encoders [OF t(1)] by simp
  consider "idx = 0" | "idx = 1" | "idx = 2" using assms(2) by linarith
  then show ?thesis
    by cases (simp_all add: m enc_tick_nth enc_tick_same enc_sample_nth t tj joint_tick_def enc_entry_def Let_def)
qed

lemma enc_tick_frame [simp]:
  "a_PINB (enc_tick i s) = a_PINB s" "a_PINC (enc_tick i s) = a_PINC s" "getMsState k (enc_tick i s) = getMsState k s"
  "phase (enc_tick i s) = phase s" "timerOneShot (enc_tick i s) = timerOneShot s" "a_TIMSK1 (enc_tick i s) = a_TIMSK1 s"
  "startCalibration (enc_tick i s) = startCalibration s" "interruptCalibration (enc_tick i s) = interruptCalibration s"
  by (simp_all add: enc_tick_def Let_def)

lemma enc_sample_frame [simp]:
  "a_PINB (enc_sample s) = a_PINB s" "a_PINC (enc_sample s) = a_PINC s" "getMsState k (enc_sample s) = getMsState k s"
  "phase (enc_sample s) = phase s" "timerOneShot (enc_sample s) = timerOneShot s" "a_TIMSK1 (enc_sample s) = a_TIMSK1 s"
  "startCalibration (enc_sample s) = startCalibration s" "interruptCalibration (enc_sample s) = interruptCalibration s"
  by (simp_all add: enc_sample_def Let_def upt_4)

lemma tick_frame:
  assumes "\<not> timerOneShot s"
  shows "a_PINB (timer_match s) = a_PINB s" "a_PINC (timer_match s) = a_PINC s"
    "getMsState k (timer_match s) = getMsState k s" "phase (timer_match s) = phase s"
    "timerOneShot (timer_match s) = timerOneShot s" "a_TIMSK1 (timer_match s) = a_TIMSK1 s"
    "startCalibration (timer_match s) = startCalibration s" "length (joints (timer_match s)) = length (joints s)"
  using assms by (simp_all add: timer_match_def arm_TIMER1_COMPA_vect_def Let_def upt_4)

text \<open>The timer runs continuously, and no calibration is asked for.\<close>

definition ticking :: "'a arm_scheme \<Rightarrow> bool" where
  "ticking s \<longleftrightarrow> length (joints s) = 4 \<and> \<not> timerOneShot s \<and> bit (a_TIMSK1 s) OCIE1A"

lemma ticking_match: "ticking s \<Longrightarrow> ticking (timer_match s)"
  by (simp add: ticking_def tick_frame)

text \<open>A joint that moves with its switch closed, seen in \<open>n\<close> ticks.\<close>

definition closing :: "u8 \<Rightarrow> u8 \<Rightarrow> joint \<Rightarrow> bool" where
  "closing d n j \<longleftrightarrow> \<not> j_msCurrState j \<and> j_msCounter j = n \<and> j_currDir j = d \<and> j_mode j \<noteq> MODE_POS"

lemma closing_tick:
  assumes "closing d n j" and "n \<noteq> MS_DEBOUNCE_COUNTER" and "getMsState idx s"
  shows "closing d (n + 1) (joint_tick idx s j)"
  using assms by (simp add: closing_def joint_tick_def ms_entry_def enc_entry_def enc_count_def Let_def)

lemma closing_last:
  assumes "closing d MS_DEBOUNCE_COUNTER j" and "getMsState idx s" and "d = D_FORWARD \<or> d = D_BACKWARD"
  defines "j' \<equiv> joint_tick idx s j"
  shows "j_currDir j' = D_STOP \<and> j_allowedDir j' = opposite d \<and> j_calibrated j' \<and> j_msCurrState j' \<and>
    j_currPos j' = (if d = D_FORWARD then j_maxPos j else 0)"
proof -
  define k where "k = (direct D_STOP (at_limit (j\<lparr>j_calibrated := True\<rparr>)))\<lparr>j_msCurrState := True, j_msCounter := 0\<rparr>"
  have k: "j_currDir k = D_STOP" "j_allowedDir k = opposite d" "j_calibrated k" "j_msCurrState k"
    "j_currPos k = (if d = D_FORWARD then j_maxPos j else 0)"
    using assms(1,3) by (auto simp: k_def at_limit_def closing_def opposite_def)
  have "ms_entry idx True j = k" using assms(1) by (simp add: ms_entry_def closing_def k_def)
  then have "j' = (if idx = S_GRIPPER then k\<lparr>j_prevEncoderState := j_encoderState k\<rparr>
      else enc_entry (bit_is_set (a_PINC s) (if idx = S_SHOULDER then SHOULDER_ENC else ELBOW_ENC)) k)"
    using assms(2) by (simp add: j'_def joint_tick_def)
  moreover have "j_currDir (enc_entry p k) = D_STOP" "j_allowedDir (enc_entry p k) = j_allowedDir k"
    "j_calibrated (enc_entry p k) = j_calibrated k" "j_msCurrState (enc_entry p k) = j_msCurrState k"
    "j_currPos (enc_entry p k) = j_currPos k" for p
    using k(1) by (simp_all add: enc_entry_def enc_count_def Let_def)
  ultimately show ?thesis using k by simp
qed

lemma entry_max [simp]: "j_maxPos (ms_entry idx b j) = j_maxPos j" "j_maxPos (enc_entry p j) = j_maxPos j"
  by (simp add: ms_entry_def at_limit_def) (simp add: enc_entry_def enc_count_def Let_def)

lemma joint_tick_max: "j_maxPos (joint_tick idx s j) = j_maxPos j"
  by (simp add: joint_tick_def Let_def)

lemma closing_ticks:
  assumes "ticking s" and "idx < 3" and "getMsState idx s" and "closing d 0 (joints s ! idx)" and "n \<le> 5"
  defines "t \<equiv> arm_run (replicate n ATimer) s"
  shows "ticking t \<and> getMsState idx t \<and> closing d (of_nat n) (joints t ! idx) \<and> startCalibration t = startCalibration s \<and>
    j_maxPos (joints t ! idx) = j_maxPos (joints s ! idx)"
  unfolding t_def using assms(5)
proof (induction n)
  case 0
  then show ?case using assms(1-4) by simp
next
  case (Suc n)
  define u where "u = arm_run (replicate n ATimer) s"
  have u: "ticking u" "getMsState idx u" "closing d (of_nat n) (joints u ! idx)" "startCalibration u = startCalibration s"
    "j_maxPos (joints u ! idx) = j_maxPos (joints s ! idx)"
    using Suc by (simp_all add: u_def)
  have "replicate (Suc n) ATimer = replicate n ATimer @ [ATimer]" by (simp add: replicate_append_same)
  then have step: "arm_run (replicate (Suc n) ATimer) s = timer_match u"
    by (simp only: u_def arm_run_simps arm_step.simps)
  have entry: "joints (timer_match u) ! idx = joint_tick idx u (joints u ! idx)"
    using u(1) assms(2) by (intro tick_entry) (simp_all add: ticking_def)
  have "n < 5" using Suc.prems by simp
  then have "unat (of_nat n :: u8) = n" by (simp add: unat_of_nat)
  with \<open>n < 5\<close> have "(of_nat n :: u8) \<noteq> 5" by auto
  then have "closing d (of_nat (Suc n)) (joint_tick idx u (joints u ! idx))"
    using closing_tick [OF u(3) _ u(2)] by (simp add: ac_simps)
  moreover have "j_maxPos (joint_tick idx u (joints u ! idx)) = j_maxPos (joints u ! idx)"
    by (rule joint_tick_max)
  moreover have "\<not> timerOneShot u" using u(1) by (simp add: ticking_def)
  ultimately show ?case
    using u ticking_match [OF u(1)] unfolding step entry by (simp add: tick_frame)
qed

section \<open>Positioning\<close>

text \<open>\<open>n\<close> edges of one encoder, each followed by a tick; \<open>b\<close> and \<open>c\<close> are the sensor ports before.\<close>

fun encoder_edges :: "nat \<Rightarrow> u8 \<Rightarrow> u8 \<Rightarrow> nat \<Rightarrow> arm_event list" where
  "encoder_edges pin b c 0 = []"
| "encoder_edges pin b c (Suc n) = ASensors b (flip_bit pin c) # ATimer # encoder_edges pin b (flip_bit pin c) n"

text \<open>Shoulder or elbow between two edges: switch and encoder have been seen as they are.\<close>

definition settled :: "nat \<Rightarrow> 'a arm_scheme \<Rightarrow> bool" where
  "settled idx s \<longleftrightarrow> ticking s \<and> idx < 2 \<and> j_msCurrState (joints s ! idx) = getMsState idx s \<and>
     j_encoderState (joints s ! idx) = bit (a_PINC s) idx"

definition enc_move :: "joint \<Rightarrow> joint" where
  "enc_move j = enc_count (if j_mode j = MODE_POS \<and> j_destPos j = j_currPos j then (direct D_STOP j)\<lparr>j_mode := MODE_DIR\<rparr> else j)"

text \<open>The fields positioning is about.\<close>

definition course :: "joint \<Rightarrow> u8 \<times> u8 \<times> u8 \<times> u8 \<times> u8" where
  "course j = (j_currPos j, j_destPos j, j_maxPos j, j_currDir j, j_mode j)"

lemma course_enc_move:
  "course j = course k \<Longrightarrow> course (enc_move j) = course (enc_move k)"
  by (auto simp: course_def enc_move_def enc_count_def direct_def)

lemma course_edges: "course j = course k \<Longrightarrow> course ((enc_move ^^ n) j) = course ((enc_move ^^ n) k)"
  by (induction n) (auto intro: course_enc_move)

lemma edge:
  assumes "settled idx s"
  defines "t \<equiv> arm_run [ASensors (a_PINB s) (flip_bit idx (a_PINC s)), ATimer] s"
  shows "settled idx t" "course (joints t ! idx) = course (enc_move (joints s ! idx))"
    "a_PINB t = a_PINB s" "a_PINC t = flip_bit idx (a_PINC s)"
proof -
  define u where "u = s\<lparr>a_PINB := a_PINB s, a_PINC := flip_bit idx (a_PINC s)\<rparr>"
  have tu: "t = timer_match u" by (simp add: t_def u_def)
  have u: "ticking u" "getMsState idx u = getMsState idx s" "joints u = joints s" "a_PINC u = flip_bit idx (a_PINC s)"
    "a_PINB u = a_PINB s"
    using assms(1) by (simp_all add: settled_def ticking_def u_def getMsState_def)
  have idx: "idx < 2" using assms(1) by (simp add: settled_def)
  have entry: "joints t ! idx = joint_tick idx u (joints s ! idx)"
    unfolding tu u(3) [symmetric] using u(1) idx by (intro tick_entry) (simp_all add: ticking_def)
  have "bit (flip_bit idx (a_PINC s)) idx = (\<not> bit (a_PINC s) idx)"
    using idx by (simp add: bit_flip_bit_iff)
  moreover have "(if idx = S_SHOULDER then SHOULDER_ENC else ELBOW_ENC) = idx" using idx by auto
  moreover have "ms_entry idx (getMsState idx s) (joints s ! idx) = joints s ! idx"
    using assms(1) by (simp add: ms_entry_def settled_def)
  ultimately have tick: "joint_tick idx u (joints s ! idx) =
      enc_move ((joints s ! idx)\<lparr>j_prevEncoderState := bit (a_PINC s) idx, j_encoderState := \<not> bit (a_PINC s) idx\<rparr>)"
    using assms(1) idx
    by (simp add: joint_tick_def enc_entry_def enc_move_def Let_def u port_simps settled_def)
  have frame: "j_msCurrState (enc_move j) = j_msCurrState j" "j_encoderState (enc_move j) = j_encoderState j" for j
    by (simp_all add: enc_move_def enc_count_def)
  have ticks: "\<not> timerOneShot u" using u(1) by (simp add: ticking_def)
  show "a_PINB t = a_PINB s" and pinc: "a_PINC t = flip_bit idx (a_PINC s)"
    using u by (simp_all add: tu tick_frame [OF ticks])
  show "settled idx t"
    using assms(1) ticking_match [OF u(1)] idx pinc
    by (simp add: settled_def entry tick frame bit_flip_bit_iff) (simp add: tu tick_frame [OF ticks] u)
  show "course (joints t ! idx) = course (enc_move (joints s ! idx))"
    unfolding entry tick by (rule course_enc_move) (simp add: course_def)
qed

lemma edges:
  assumes "settled idx s"
  defines "t n \<equiv> arm_run (encoder_edges idx (a_PINB s) (a_PINC s) n) s"
  shows "settled idx (t n) \<and> course (joints (t n) ! idx) = course ((enc_move ^^ n) (joints s ! idx))"
  using assms(1) unfolding t_def
proof (induction n arbitrary: s)
  case (Suc n)
  define u where "u = arm_run [ASensors (a_PINB s) (flip_bit idx (a_PINC s)), ATimer] s"
  note e = edge [OF Suc.prems, folded u_def]
  have "course ((enc_move ^^ n) (joints u ! idx)) = course ((enc_move ^^ n) (enc_move (joints s ! idx)))"
    by (rule course_edges) (rule e(2))
  moreover have "arm_run (encoder_edges idx (a_PINB s) (a_PINC s) (Suc n)) s =
      arm_run (encoder_edges idx (a_PINB u) (a_PINC u) n) u"
    using e(3,4) by (simp add: u_def)
  ultimately show ?case
    using Suc.IH [OF e(1)] by (simp add: funpow_swap1)
qed simp

text \<open>Counting towards the target.\<close>

lemma move_forward:
  "course j = (p, q, mx, D_FORWARD, MODE_POS) \<Longrightarrow> q \<noteq> p \<Longrightarrow> p < mx \<Longrightarrow>
   course (enc_move j) = (p + 1, q, mx, D_FORWARD, MODE_POS)"
  by (auto simp: course_def enc_move_def enc_count_def)

lemma move_backward:
  "course j = (p, q, mx, D_BACKWARD, MODE_POS) \<Longrightarrow> q \<noteq> p \<Longrightarrow> p \<noteq> 0 \<Longrightarrow>
   course (enc_move j) = (p - 1, q, mx, D_BACKWARD, MODE_POS)"
  by (auto simp: course_def enc_move_def enc_count_def)

lemma move_arrived:
  "course j = (q, q, mx, d, MODE_POS) \<Longrightarrow> course (enc_move j) = (q, q, mx, D_STOP, MODE_DIR)"
  by (auto simp: course_def enc_move_def enc_count_def)

lemma move_stopped:
  "course j = (q, q', mx, D_STOP, MODE_DIR) \<Longrightarrow> course (enc_move j) = (q, q', mx, D_STOP, MODE_DIR)"
  by (auto simp: course_def enc_move_def enc_count_def)

lemma forward_edges:
  assumes "course j = (p, q, mx, D_FORWARD, MODE_POS)" and "unat p + n \<le> unat q" and "q \<le> mx"
  shows "course ((enc_move ^^ n) j) = (p + of_nat n, q, mx, D_FORWARD, MODE_POS)"
  using assms(2)
proof (induction n)
  case 0
  then show ?case using assms(1) by simp
next
  case (Suc n)
  let ?k = "(enc_move ^^ n) j"
  have k: "course ?k = (p + of_nat n, q, mx, D_FORWARD, MODE_POS)" using Suc by simp
  have "unat q < 2 ^ LENGTH(8)" by (rule unsigned_less)
  then have "unat q < 256" by simp
  then have "unat (p + of_nat n) = unat p + n"
    using Suc.prems by (simp add: unat_word_ariths unat_of_nat)
  then have lt: "p + of_nat n < q" using Suc.prems by (simp add: word_less_nat_alt)
  then have "p + of_nat n < mx" using assms(3) by (rule less_le_trans)
  then show ?case
    using move_forward [OF k] lt by (auto simp: ac_simps)
qed

lemma backward_edges:
  assumes "course j = (p, q, mx, D_BACKWARD, MODE_POS)" and "unat q + n \<le> unat p"
  shows "course ((enc_move ^^ n) j) = (p - of_nat n, q, mx, D_BACKWARD, MODE_POS)"
  using assms(2)
proof (induction n)
  case 0
  then show ?case using assms(1) by simp
next
  case (Suc n)
  let ?k = "(enc_move ^^ n) j"
  have k: "course ?k = (p - of_nat n, q, mx, D_BACKWARD, MODE_POS)" using Suc by simp
  have "unat p < 2 ^ LENGTH(8)" by (rule unsigned_less)
  then have "unat p < 256" by simp
  then have "unat (of_nat n :: u8) = n" using Suc.prems by (simp add: unat_of_nat)
  moreover have "of_nat n \<le> p" using Suc.prems \<open>unat (of_nat n :: u8) = n\<close> by (simp add: word_le_nat_alt)
  ultimately have "unat (p - of_nat n) = unat p - n" by (simp add: unat_sub)
  then have "unat q < unat (p - of_nat n)" using Suc.prems by simp
  then have "q < p - of_nat n" by (simp add: word_less_nat_alt)
  then have "q \<noteq> p - of_nat n" "p - of_nat n \<noteq> 0" by (auto dest: leD)
  then show ?case
    using move_backward [OF k] by (simp add: diff_diff_eq ac_simps)
qed

text \<open>\<open>setPosition\<close> sets the course.\<close>

lemma position_course:
  assumes "length (joints s) = 4" and "idx < 2" and "j_calibrated (joints s ! idx)"
    and "j_allowedDir (joints s ! idx) = D_BOTH" and "p \<le> j_maxPos (joints s ! idx)"
  defines "j \<equiv> joints s ! idx"
  shows "course (joints (arm_setPosition (toMotors idx) p s) ! idx) =
    (j_currPos j, p, j_maxPos j,
     if j_currPos j < p then D_FORWARD else if p < j_currPos j then D_BACKWARD else D_STOP,
     if j_currPos j = p then MODE_DIR else MODE_POS)"
proof -
  have "toJoint (toMotors idx) = idx" using assms(2) by (simp add: toJoint_toMotors)
  moreover have "\<not> j_maxPos j < p" using assms(5) by (simp add: j_def leD)
  moreover have "(if idx = S_GRIPPER \<and> 0 < p then j_maxPos (joints s ! S_GRIPPER) else p) = p" using assms(2) by simp
  ultimately show ?thesis
    using assms(1-4)
    by (auto simp: arm_setPosition_def Let_def course_def set_joint_nth setDirection_nth direct_def simp flip: j_def)
qed

lemma position_frame:
  "getMsState k (arm_setPosition m p s) = getMsState k s" "a_PINB (arm_setPosition m p s) = a_PINB s"
  "a_PINC (arm_setPosition m p s) = a_PINC s" "timerOneShot (arm_setPosition m p s) = timerOneShot s"
  "a_TIMSK1 (arm_setPosition m p s) = a_TIMSK1 s" "length (joints (arm_setPosition m p s)) = length (joints s)"
  by (simp_all add: arm_setPosition_def Let_def)

lemma position_sensors:
  assumes "length (joints s) = 4" and "k < 4"
  shows "j_msCurrState (joints (arm_setPosition m p s) ! k) = j_msCurrState (joints s ! k)"
    "j_encoderState (joints (arm_setPosition m p s) ! k) = j_encoderState (joints s ! k)"
  using assms by (simp_all add: arm_setPosition_def Let_def set_joint_nth setDirection_nth)

lemma position_settled: "settled idx s \<Longrightarrow> settled idx (arm_setPosition m p s)"
  by (simp add: settled_def ticking_def position_frame position_sensors)

section \<open>Properties\<close>

text \<open>C32: Limit switches. When a joint that is not being positioned moves with its switch closed, the
  switch counts as open so far with its debounce counter at zero, the timer runs continuously and no
  calibration is asked for, then after six ticks the joint is stopped, counts as calibrated and has the
  position of that end. From then on no sequence of commands (short of a new calibration), main loop rounds, timer
  interrupts and changes of the other sensors drives it further in that direction while its
  switch stays closed.\<close>

theorem limit_switch_holds:
  fixes s :: "'a arm_scheme" and idx :: nat and d :: u8 and es :: "arm_event list"
  assumes "ticking s" and "idx < 3" and "getMsState idx s" and "closing d 0 (joints s ! idx)"
    and "d = D_FORWARD \<or> d = D_BACKWARD" and "\<not> startCalibration s" and "list_all (undisturbed idx) es"
  defines "t \<equiv> arm_run (replicate 6 ATimer) s"
  shows "arm_getDirection (toMotors idx) t = D_STOP \<and> j_calibrated (joints t ! idx) \<and>
    arm_getPosition (toMotors idx) t = (if d = D_FORWARD then j_maxPos (joints s ! idx) else 0) \<and>
    arm_getDirection (toMotors idx) (arm_run es t) \<noteq> d"
proof -
  define u where "u = arm_run (replicate 5 ATimer) s"
  have u: "ticking u" "getMsState idx u" "closing d 5 (joints u ! idx)" "startCalibration u = startCalibration s"
    "j_maxPos (joints u ! idx) = j_maxPos (joints s ! idx)"
    using closing_ticks [OF assms(1-4), of 5] by (simp_all add: u_def)
  have "replicate 6 ATimer = replicate 5 ATimer @ [ATimer]" by (simp add: numeral_eq_Suc)
  then have t: "t = timer_match u" by (simp only: t_def u_def arm_run_simps arm_step.simps)
  have entry: "joints t ! idx = joint_tick idx u (joints u ! idx)"
    unfolding t using u(1) assms(2) by (intro tick_entry) (simp_all add: ticking_def)
  note last = closing_last [OF u(3,2) assms(5), folded entry]
  have "\<not> timerOneShot u" using u(1) by (simp add: ticking_def)
  then have "limit_held idx d t"
    using last ticking_match [OF u(1)] u assms(2,5,6)
    by (auto simp: limit_held_def t ticking_def tick_frame)
  then have "limit_held idx d (arm_run es t)" by (rule limit_run) (rule assms(7))
  then show ?thesis
    using last u(5) assms(2) by (simp add: limit_held_def getter_defs toJoint_toMotors)
qed

text \<open>A shoulder that moves forward with its switch closed.\<close>

definition shoulder_closing :: arm where
  "shoulder_closing = arm_cleared\<lparr>joints := [joint_zero\<lparr>j_currDir := D_FORWARD, j_maxPos := 79\<rparr>, joint_zero, joint_zero, joint_zero],
     timerOneShot := False, a_TIMSK1 := 2, a_PINB := 0x20\<rparr>"

theorem limit_switch_holds_witness:
  "arm_getPosition SHOULDER (arm_run (replicate 6 ATimer) shoulder_closing) = 79 \<and>
   arm_getDirection SHOULDER (arm_run [ACommand [3, SHOULDER, D_FORWARD]] (arm_run (replicate 6 ATimer) shoulder_closing)) \<noteq> D_FORWARD"
proof -
  have "ticking shoulder_closing" "getMsState 0 shoulder_closing" "closing D_FORWARD 0 (joints shoulder_closing ! 0)"
    "\<not> startCalibration shoulder_closing" "list_all (undisturbed 0) [ACommand [3, SHOULDER, D_FORWARD]]"
    "j_maxPos (joints shoulder_closing ! 0) = 79"
    by (simp_all add: ticking_def shoulder_closing_def arm_cleared_def getMsState_def closing_def joint_zero_def port_simps
        bit_numeral_rec)
  then show ?thesis
    using limit_switch_holds [of shoulder_closing 0 D_FORWARD "[ACommand [3, SHOULDER, D_FORWARD]]"]
    by (simp add: toMotors_def del: arm_run_simps)
qed

text \<open>C33: Positioning. A calibrated shoulder or elbow that may move both ways and is sent to a position within
  its range arrives there: after as many encoder edges as the distance the recorded position is
  the one asked for, and with the next edge the joint stops and leaves the positional mode. (The
  comparison is made before the count, so the joint itself moves on for that one edge.)\<close>

theorem positioning_arrives:
  fixes s :: "'a arm_scheme" and idx :: nat and p :: u8
  assumes "settled idx s" and "j_calibrated (joints s ! idx)" and "j_allowedDir (joints s ! idx) = D_BOTH"
    and "p \<le> j_maxPos (joints s ! idx)"
  defines "from \<equiv> arm_getPosition (toMotors idx) s"
  defines "n \<equiv> (unat p - unat from) + (unat from - unat p)"
  defines "after k \<equiv> arm_run (encoder_edges idx (a_PINB s) (a_PINC s) k) (arm_setPosition (toMotors idx) p s)"
  shows "arm_getPosition (toMotors idx) (after n) = p \<and> (from \<noteq> p \<longrightarrow> arm_getMode (toMotors idx) (after n) = MODE_POS) \<and>
    arm_getPosition (toMotors idx) (after (n + 1)) = p \<and> arm_getDirection (toMotors idx) (after (n + 1)) = D_STOP \<and>
    arm_getMode (toMotors idx) (after (n + 1)) = MODE_DIR"
proof -
  define t where "t = arm_setPosition (toMotors idx) p s"
  define j where "j = joints t ! idx"
  have idx: "idx < 2" "length (joints s) = 4" using assms(1) by (simp_all add: settled_def ticking_def)
  then have index: "toJoint (toMotors idx) = idx" by (simp add: toJoint_toMotors)
  have j: "course j = (from, p, j_maxPos (joints s ! idx), if from < p then D_FORWARD else if p < from then D_BACKWARD
      else D_STOP, if from = p then MODE_DIR else MODE_POS)"
    using position_course [OF idx(2,1) assms(2-4)] by (simp add: j_def t_def from_def arm_getPosition_def index)
  have "settled idx t" unfolding t_def by (rule position_settled) (rule assms(1))
  then have run: "course (joints (after k) ! idx) = course ((enc_move ^^ k) j)" for k
    using edges [of idx t k] by (simp add: after_def j_def t_def position_frame)
  have top: "p \<le> j_maxPos (joints s ! idx)" by (rule assms(4))
  consider "from < p" | "p < from" | "from = p" using less_linear by blast
  then have "course ((enc_move ^^ n) j) = (p, p, j_maxPos (joints s ! idx), snd (snd (snd (course j)))) \<and>
      course ((enc_move ^^ (n + 1)) j) = (p, p, j_maxPos (joints s ! idx), D_STOP, MODE_DIR)"
  proof cases
    case 1
    then have n: "n = unat p - unat from" "unat from \<le> unat p" by (simp_all add: n_def word_less_nat_alt)
    then have "from + of_nat n = p" by (simp add: of_nat_diff)
    then have "course ((enc_move ^^ n) j) = (p, p, j_maxPos (joints s ! idx), D_FORWARD, MODE_POS)"
      using forward_edges [of j "from" p "j_maxPos (joints s ! idx)" n] j 1 n top by auto
    then show ?thesis using j 1 move_arrived by auto
  next
    case 2
    then have n: "n = unat from - unat p" "unat p \<le> unat from" by (simp_all add: n_def word_less_nat_alt)
    then have fp: "from - of_nat n = p" by (simp add: of_nat_diff)
    have "\<not> from < p" "from \<noteq> p" using 2 by (auto dest: less_asym)
    then have cj: "course j = (from, p, j_maxPos (joints s ! idx), D_BACKWARD, MODE_POS)" using j 2 by simp
    have "course ((enc_move ^^ n) j) = (p, p, j_maxPos (joints s ! idx), D_BACKWARD, MODE_POS)"
      using backward_edges [OF cj, of n] n fp by simp
    then show ?thesis using cj move_arrived by auto
  next
    case 3
    then show ?thesis using j move_stopped by (auto simp: n_def)
  qed
  then show ?thesis
    using run [of n] run [of "n + 1"] j by (simp add: course_def getter_defs index)
qed

text \<open>An elbow at position 3 of 105.\<close>

definition elbow_ready :: arm where
  "elbow_ready = arm_cleared\<lparr>joints := [joint_zero, joint_zero\<lparr>j_currPos := 3, j_maxPos := 105, j_allowedDir := D_BOTH,
       j_calibrated := True\<rparr>, joint_zero, joint_zero], timerOneShot := False, a_TIMSK1 := 2\<rparr>"

theorem positioning_arrives_witness:
  "arm_getPosition ELBOW (arm_run (encoder_edges 1 0 0 98) (arm_setPosition ELBOW 100 elbow_ready)) = 100 \<and>
   arm_getDirection ELBOW (arm_run (encoder_edges 1 0 0 98) (arm_setPosition ELBOW 100 elbow_ready)) = D_STOP"
proof -
  have "settled 1 elbow_ready" "j_calibrated (joints elbow_ready ! 1)" "j_allowedDir (joints elbow_ready ! 1) = D_BOTH"
    "100 \<le> j_maxPos (joints elbow_ready ! 1)"
    by (simp_all add: settled_def ticking_def elbow_ready_def arm_cleared_def getMsState_def joint_zero_def bit_is_set_def
        bit_numeral_rec)
  moreover have "arm_getPosition (toMotors 1) elbow_ready = 3" "toMotors 1 = ELBOW" "a_PINB elbow_ready = 0" "a_PINC elbow_ready = 0"
    by (simp_all add: toMotors_def getter_defs toJoint_def elbow_ready_def arm_cleared_def)
  ultimately show ?thesis
    using positioning_arrives [of 1 elbow_ready 100] by (simp del: arm_run_simps encoder_edges.simps)
qed

end
