(* ===== verification/Arm_Calibration.thy ===== *)
theory Arm_Calibration
  imports Arm_Limits
begin

text \<open>
  The calibration of the arm: how it ends, with which speed the elbow moves, and what an interrupted
  calibration leaves behind.
\<close>

section \<open>Braking\<close>

text \<open>All joints stopped: recorded so, PWM registers zero, and all direction pins set (braking).\<close>

definition arm_stopped :: "'a arm_scheme \<Rightarrow> bool" where
  "arm_stopped s \<longleftrightarrow>
     arm_getDirection SHOULDER s = D_STOP \<and> arm_getDirection ELBOW s = D_STOP \<and> arm_getDirection GRIPPER s = D_STOP \<and>
     arm_getSpeed SHOULDER s = 0 \<and> arm_getSpeed ELBOW s = 0 \<and> arm_getSpeed GRIPPER s = 0 \<and>
     a_OCR2A s = 0 \<and> a_OCR2B s = 0 \<and> a_OCR0A s = 0 \<and>
     bit (a_PORTD s) 0 \<and> bit (a_PORTD s) 1 \<and> bit (a_PORTD s) 2 \<and> bit (a_PORTD s) 4 \<and> bit (a_PORTB s) 0 \<and> bit (a_PORTD s) 7"

lemma brake_joint_length [simp]: "length (joints (brake_joint i s)) = length (joints s)"
  by (simp add: brake_joint_def)

lemma brake_length [simp]: "length (joints (brake s)) = length (joints s)"
  by (simp add: brake_def upt_4)

lemma brake_frame [simp]:
  "interruptCalibration (brake s) = interruptCalibration s" "startCalibration (brake s) = startCalibration s"
  "timerOneShot (brake s) = timerOneShot s" "phase (brake s) = phase s" "a_PINB (brake s) = a_PINB s"
  "arm_calibrated (brake s) = arm_calibrated s"
  by (simp_all add: brake_def upt_4 brake_joint_def)

lemma brake_joint_nth:
  "length (joints s) = 4 \<Longrightarrow> k < 4 \<Longrightarrow> joints (brake_joint i s) ! k =
     (if k = toJoint (toMotors i) then direct D_STOP ((joints s ! k)\<lparr>j_currSpeed := 0\<rparr>) else joints s ! k)"
  by (simp add: brake_joint_def setDirection_nth setSpeed_nth)

lemma direct_twice: "direct D_STOP ((direct D_STOP (j\<lparr>j_currSpeed := 0\<rparr>))\<lparr>j_currSpeed := 0\<rparr>) = direct D_STOP (j\<lparr>j_currSpeed := 0\<rparr>)"
  by (simp add: direct_def)

lemma brake_nth:
  assumes "length (joints s) = 4" and "k < 3"
  shows "joints (brake s) ! k = direct D_STOP ((joints s ! k)\<lparr>j_currSpeed := 0\<rparr>)"
proof -
  have m: "toJoint (toMotors 0) = 0" "toJoint (toMotors 1) = 1" "toJoint (toMotors 2) = 2" "toJoint (toMotors 3) = 1"
    by (simp_all add: toJoint_def toMotors_def)
  consider "k = 0" | "k = 1" | "k = 2" using assms(2) by linarith
  then show ?thesis
    by cases (simp_all add: brake_def upt_4 brake_joint_nth assms(1) m [simplified] direct_twice)
qed

lemma setDirection_pwm [simp]:
  "a_OCR2A (arm_setDirection m d s) = a_OCR2A s" "a_OCR2B (arm_setDirection m d s) = a_OCR2B s"
  "a_OCR0A (arm_setDirection m d s) = a_OCR0A s"
  by (simp_all add: arm_setDirection_def Let_def)

lemma setDirection_stop_pins:
  assumes "length (joints s) = 4"
  shows "a_PORTD (arm_setDirection m D_STOP s) = a_PORTD (direction_pins m D_STOP s)"
    "a_PORTB (arm_setDirection m D_STOP s) = a_PORTB (direction_pins m D_STOP s)"
  using assms by (simp_all add: setDirection_direct) (simp_all add: direction_pins_def)

lemma brake_joint_outputs:
  assumes "length (joints s) = 4"
  shows "a_OCR2A (brake_joint i s) = (if i = 0 then 0 else a_OCR2A s)"
    "a_OCR0A (brake_joint i s) = (if i = 2 then 0 else a_OCR0A s)"
    "a_OCR2B (brake_joint i s) = (if i = 0 \<or> i = 2 then a_OCR2B s else 0)"
    "bit (a_PORTD (brake_joint i s)) n \<longleftrightarrow> bit (a_PORTD s) n \<or> i = 0 \<and> (n = 0 \<or> n = 1) \<or> i = 2 \<and> n = 7 \<or>
       i \<noteq> 0 \<and> i \<noteq> 2 \<and> (n = 2 \<or> n = 4)"
    "bit (a_PORTB (brake_joint i s)) n \<longleftrightarrow> bit (a_PORTB s) n \<or> i = 2 \<and> n = 0"
proof -
  have speed: "length (joints (arm_setSpeed m 0 s)) = 4" for m using assms by simp
  show "a_OCR2A (brake_joint i s) = (if i = 0 then 0 else a_OCR2A s)"
    "a_OCR0A (brake_joint i s) = (if i = 2 then 0 else a_OCR0A s)"
    "a_OCR2B (brake_joint i s) = (if i = 0 \<or> i = 2 then a_OCR2B s else 0)"
    by (simp_all add: brake_joint_def arm_setSpeed_def Let_def toMotors_def)
  show "bit (a_PORTD (brake_joint i s)) n \<longleftrightarrow> bit (a_PORTD s) n \<or> i = 0 \<and> (n = 0 \<or> n = 1) \<or> i = 2 \<and> n = 7 \<or>
       i \<noteq> 0 \<and> i \<noteq> 2 \<and> (n = 2 \<or> n = 4)"
    "bit (a_PORTB (brake_joint i s)) n \<longleftrightarrow> bit (a_PORTB s) n \<or> i = 2 \<and> n = 0"
    by (auto simp: brake_joint_def setDirection_stop_pins [OF speed] toMotors_def direction_pins_def port_simps)
qed

lemma brake_stops:
  assumes "length (joints s) = 4"
  shows "arm_stopped (brake s)"
proof -
  have "arm_getDirection m (brake s) = D_STOP \<and> arm_getSpeed m (brake s) = 0" for m
  proof -
    have "toJoint m < 3" by (simp add: toJoint_def)
    then show ?thesis using assms by (simp add: getter_defs brake_nth)
  qed
  moreover have "brake s = brake_joint 3 (brake_joint 2 (brake_joint 1 (brake_joint 0 s)))"
    by (simp add: brake_def upt_4)
  ultimately show ?thesis using assms by (simp add: arm_stopped_def brake_joint_outputs)
qed

lemma stopped_fields:
  assumes "arm_stopped s"
  shows "arm_stopped (s\<lparr>arm_calibrated := b\<rparr>)" "arm_stopped (s\<lparr>phase := p\<rparr>)"
  using assms by (simp_all add: arm_stopped_def getter_defs)

section \<open>How a calibration ends\<close>

lemma abort_ends:
  assumes "length (joints s) = 4"
  shows "arm_stopped ((abortCalibration s)\<lparr>phase := Idle\<rparr>)" "\<not> arm_calibrated ((abortCalibration s)\<lparr>phase := Idle\<rparr>)"
  using assms by (simp_all add: abortCalibration_def stopped_fields brake_stops)

lemma interrupted_round:
  assumes "phase s \<noteq> Idle" and "interruptCalibration s"
  shows "\<exists>t. arm_round s = (abortCalibration t)\<lparr>phase := Idle\<rparr> \<and> length (joints t) = length (joints s)"
  using assms by (cases "phase s") (auto simp: arm_round_def cal_second_def cal_third_def cal_finish_def Let_def)

lemma finish_entries:
  assumes "length (joints s) = 4" and "\<not> interruptCalibration s" and "k < 3"
  shows "joints (cal_finish s) ! k = direct D_STOP ((joints s ! k)\<lparr>j_currPos := if k = S_ELBOW then j_maxPos (joints s ! k) else 0,
    j_mode := MODE_DIR, j_currSpeed := 0\<rparr>)"
proof -
  define t where "t = fold (\<lambda>i. set_joint i (\<lambda>j. j\<lparr>j_mode := MODE_DIR\<rparr>)) [0..<4] (set_joint S_ELBOW (\<lambda>j. j\<lparr>j_currPos := j_maxPos j\<rparr>)
    (set_joint S_GRIPPER (\<lambda>j. j\<lparr>j_currPos := 0\<rparr>) (set_joint S_SHOULDER (\<lambda>j. j\<lparr>j_currPos := 0\<rparr>) s)))"
  have "length (joints t) = 4" using assms(1) by (simp add: t_def upt_4)
  moreover have "joints (cal_finish s) = joints (brake t)" using assms(2) by (simp add: cal_finish_def t_def Let_def)
  moreover consider "k = 0" | "k = 1" | "k = 2" using assms(3) by linarith
  then have "joints t ! k = (joints s ! k)\<lparr>j_currPos := if k = S_ELBOW then j_maxPos (joints s ! k) else 0, j_mode := MODE_DIR\<rparr>"
    using assms(1) by cases (simp_all add: t_def upt_4 set_joint_nth)
  ultimately show ?thesis using assms(3) by (simp add: brake_nth)
qed

lemma calibrated_round:
  assumes "arm_calibrated (arm_round s)" and "\<not> arm_calibrated s" and "length (joints s) = 4"
  shows "phase s = Seeking \<and> \<not> interruptCalibration s \<and> all_calibrated s"
proof -
  have "\<not> arm_calibrated (cal_begin s)"
    by (simp add: cal_begin_def Let_def setTimerMs_def)
  moreover have "\<not> arm_calibrated (cal_second s)" "\<not> arm_calibrated (cal_third s)"
    using assms(2) by (simp_all add: cal_second_def cal_third_def abortCalibration_def Let_def setTimerMs_def setTimerContinuous_def)
  moreover have "interruptCalibration s \<Longrightarrow> \<not> arm_calibrated (cal_finish s)"
    by (simp add: cal_finish_def abortCalibration_def)
  ultimately show ?thesis
    using assms(1,2) by (cases "phase s") (auto simp: arm_round_def split: if_splits)
qed

text \<open>C34: How a calibration ends. In the round after an interruption it is over, the arm is braked with all
  PWM outputs at zero and does not count as calibrated. When all three joints have met their
  switches, it ends with the arm braked, calibrated, in direction mode and at the positions of
  the switches. In no other way does the arm become calibrated.\<close>

theorem calibration_outcome:
  fixes s :: "'a arm_scheme"
  assumes "length (joints s) = 4" and "phase s \<noteq> Idle"
  defines "t \<equiv> arm_round s"
  shows "(interruptCalibration s \<longrightarrow> phase t = Idle \<and> arm_stopped t \<and> \<not> arm_calibrated t) \<and>
    (phase s = Seeking \<and> \<not> interruptCalibration s \<and> all_calibrated s \<longrightarrow>
       phase t = Idle \<and> arm_stopped t \<and> arm_calibrated t \<and> all_calibrated t \<and>
       arm_getPosition SHOULDER t = 0 \<and> arm_getPosition GRIPPER t = 0 \<and>
       arm_getPosition ELBOW t = j_maxPos (joints s ! S_ELBOW) \<and>
       arm_getMode SHOULDER t = MODE_DIR \<and> arm_getMode ELBOW t = MODE_DIR \<and> arm_getMode GRIPPER t = MODE_DIR) \<and>
    (arm_calibrated t \<and> \<not> arm_calibrated s \<longrightarrow> phase s = Seeking \<and> \<not> interruptCalibration s \<and> all_calibrated s)"
proof (intro conjI impI)
  assume "interruptCalibration s"
  then obtain u where u: "t = (abortCalibration u)\<lparr>phase := Idle\<rparr>" "length (joints u) = length (joints s)"
    using interrupted_round assms(2) unfolding t_def by blast
  then show "phase t = Idle" "arm_stopped t" "\<not> arm_calibrated t" using abort_ends [of u] assms(1) by simp_all
next
  assume a: "phase s = Seeking \<and> \<not> interruptCalibration s \<and> all_calibrated s"
  then have t: "t = cal_finish s" by (simp add: t_def arm_round_def)
  note entries = finish_entries [OF assms(1), folded t]
  obtain u where u: "t = (brake u)\<lparr>arm_calibrated := True, phase := Idle\<rparr>" "length (joints u) = 4"
    using a assms(1) by (simp add: t cal_finish_def Let_def upt_4)
  then show "phase t = Idle" "arm_stopped t" "arm_calibrated t" by (simp_all add: stopped_fields brake_stops)
  show "all_calibrated t" "arm_getPosition SHOULDER t = 0" "arm_getPosition GRIPPER t = 0"
    "arm_getPosition ELBOW t = j_maxPos (joints s ! S_ELBOW)" "arm_getMode SHOULDER t = MODE_DIR"
    "arm_getMode ELBOW t = MODE_DIR" "arm_getMode GRIPPER t = MODE_DIR"
    using a entries by (simp_all add: all_calibrated_def getter_defs toJoint_def direct_def)
next
  assume "arm_calibrated t \<and> \<not> arm_calibrated s"
  then show "phase s = Seeking" "\<not> interruptCalibration s" "all_calibrated s"
    using calibrated_round [OF _ _ assms(1)] by (simp_all add: t_def)
qed

text \<open>All joints have met their switches.\<close>

definition arm_found :: arm where
  "arm_found = arm_cleared\<lparr>joints := replicate 4 (joint_zero\<lparr>j_calibrated := True, j_maxPos := 105, j_currDir := D_FORWARD,
     j_currSpeed := 9, j_mode := MODE_CAL\<rparr>), phase := Seeking\<rparr>"

theorem calibration_outcome_witness:
  "arm_calibrated (arm_round arm_found) \<and> arm_getPosition ELBOW (arm_round arm_found) = 105 \<and> arm_stopped (arm_round arm_found)"
  using calibration_outcome [of arm_found]
  by (simp add: arm_found_def arm_cleared_def all_calibrated_def joint_zero_def)

section \<open>How a calibration begins\<close>

lemma prepare_length [simp]: "length (joints (cal_prepare i s)) = length (joints s)"
  by (simp add: cal_prepare_def Let_def)

lemma prepare_nth:
  "length (joints s) = 4 \<Longrightarrow> i < 4 \<Longrightarrow> k < 4 \<Longrightarrow> joints (cal_prepare i s) ! k =
     (let j = (if k = toJoint (toMotors i) then (joints s ! k)\<lparr>j_currSpeed := j_initSpeed (joints s ! i)\<rparr> else joints s ! k)
      in if k = i then j\<lparr>j_allowedDir := D_BOTH, j_calibrated := False, j_mode := MODE_CAL\<rparr> else j)"
  by (simp add: cal_prepare_def Let_def set_joint_nth setSpeed_nth)

definition cal_prepared :: "'a arm_scheme \<Rightarrow> 'a arm_scheme" where
  "cal_prepared s = fold cal_prepare [0..<4] (brake s)"

lemma prepared_length [simp]: "length (joints (cal_prepared s)) = length (joints s)"
  by (simp add: cal_prepared_def upt_4)

lemma brake_initSpeed:
  assumes "length (joints s) = 4" and "k < 4"
  shows "j_initSpeed (joints (brake s) ! k) = j_initSpeed (joints s ! k)"
  using assms by (simp add: brake_def upt_4 brake_joint_nth)

lemma prepared_speed:
  assumes "length (joints s) = 4"
  shows "j_currSpeed (joints (cal_prepared s) ! 0) = j_initSpeed (joints s ! 0)"
    "j_currSpeed (joints (cal_prepared s) ! 1) = j_initSpeed (joints s ! 3)"
    "j_currSpeed (joints (cal_prepared s) ! 2) = j_initSpeed (joints s ! 2)"
  using assms brake_initSpeed [OF assms]
  by (simp_all add: cal_prepared_def upt_4 prepare_nth Let_def toJoint_def toMotors_def)

lemma prepared_allowed:
  assumes "length (joints s) = 4" and "k < 4"
  shows "j_allowedDir (joints (cal_prepared s) ! k) = D_BOTH"
proof -
  consider "k = 0" | "k = 1" | "k = 2" | "k = 3" using assms(2) by linarith
  then show ?thesis using assms(1) by cases (simp_all add: cal_prepared_def upt_4 prepare_nth Let_def)
qed

lemma begin_entries:
  assumes "length (joints s) = 4" and "k < 4"
  shows "j_currSpeed (joints (cal_begin s) ! k) = j_currSpeed (joints (cal_prepared s) ! k)"
    "j_allowedDir (joints (cal_begin s) ! k) = j_allowedDir (joints (cal_prepared s) ! k)"
    "j_currPos (joints (cal_begin s) ! k) = j_currPos (joints (cal_prepared s) ! k)"
  using assms
  by (simp_all add: cal_begin_def Let_def setTimerMs_def setDirection_nth flip: cal_prepared_def)

lemma begin_frame:
  "length (joints (cal_begin s)) = length (joints s)" "phase (cal_begin s) = Leaving" "timerOneShot (cal_begin s)"
  "\<not> startCalibration (cal_begin s)"
  by (simp_all add: cal_begin_def Let_def setTimerMs_def flip: cal_prepared_def)

text \<open>The table after initialisation.\<close>

lemma init_structure_initSpeed:
  assumes "length (joints s) = 4"
  shows "map j_initSpeed (joints (init_structure s)) = [220, 180, 10, j_initSpeed (joints s ! 3)]"
proof (rule nth_equalityI)
  fix i
  assume "i < length (map j_initSpeed (joints (init_structure s)))"
  then have "i < 4" using assms by (simp add: init_structure_def Let_def upt_4)
  then consider "i = 0" | "i = 1" | "i = 2" | "i = 3" by linarith
  then show "map j_initSpeed (joints (init_structure s)) ! i = [220, 180, 10, j_initSpeed (joints s ! 3)] ! i"
    using assms by cases (simp_all add: init_structure_def Let_def upt_4 set_joint_nth)
qed (use assms in \<open>simp add: init_structure_def Let_def upt_4\<close>)

lemma init_initSpeed:
  assumes "length (joints s) = 4"
  shows "map j_initSpeed (joints (arm_init s)) = [220, 180, 10, j_initSpeed (joints s ! 3)]"
proof -
  define t where "t = init_structure (init_pinouts s)"
  have "map j_initSpeed (joints (init_encoder i p u)) = map j_initSpeed (joints u)" for i p and u :: "'a arm_scheme"
  proof -
    have "(map j_initSpeed (joints u))[i := j_initSpeed (joints u ! i)] = map j_initSpeed (joints u)"
      using list_update_id [of "map j_initSpeed (joints u)" i] by (cases "i < length (joints u)") (simp_all add: list_update_beyond)
    then show ?thesis by (simp add: init_encoder_def set_joint_def map_update)
  qed
  moreover have "joints (setTimerContinuous u) = joints u" for u :: "'a arm_scheme"
    by (simp add: setTimerContinuous_def)
  ultimately show ?thesis
    using init_structure_initSpeed [of "init_pinouts s"] assms
    by (simp add: arm_init_def Let_def init_pinouts_frame)
qed

text \<open>The speed of the elbow during calibration. The loop that sets the calibration speeds runs over the
  fourth entry of the table, too, whose motor number is taken for the elbow; so the elbow moves
  with whatever that entry of the uninitialised table held at power-up instead of 180. The
  speeds of the shoulder (220) and of the elbow do not fit the four bits the PWM register leaves
  for them: the shoulder gets the PWM value 192.\<close>

theorem elbow_calibration_speed:
  fixes s0 :: arm
  assumes "after_reset s0"
  defines "s \<equiv> arm_run [ACommand [arm_command_code A_CALIBRATE], AMain] (arm_init s0)"
  shows "arm_getSpeed ELBOW s = j_initSpeed (joints s0 ! 3) \<and> a_OCR2B s = push_bit 4 (j_initSpeed (joints s0 ! 3)) \<and>
    arm_getSpeed SHOULDER s = 220 \<and> a_OCR2A s = 192 \<and> arm_getSpeed GRIPPER s = 10 \<and> a_OCR0A s = 160"
proof -
  define t where "t = (arm_init s0)\<lparr>interruptCalibration := True, startCalibration := True\<rparr>"
  have len0: "length (joints s0) = 4" using assms(1) by (simp add: after_reset_def)
  have "map j_initSpeed (joints t) = [220, 180, 10, j_initSpeed (joints s0 ! 3)]"
    using init_initSpeed [OF len0] by (simp add: t_def)
  moreover have len: "length (joints t) = 4"
    using arg_cong [OF init_initSpeed [OF len0], of length] by (simp add: t_def)
  ultimately have "j_initSpeed (joints t ! k) = [220, 180, 10, j_initSpeed (joints s0 ! 3)] ! k" if "k < 4" for k
    using that nth_map [of k "joints t" j_initSpeed] by simp
  from this [of 0] this [of 2] this [of 3]
  have speeds: "j_initSpeed (joints t ! 0) = 220" "j_initSpeed (joints t ! 2) = 10"
    "j_initSpeed (joints t ! 3) = j_initSpeed (joints s0 ! 3)"
    by simp_all
  have ok: "outputs_ok t" using outputs_init [OF assms(1)] by (simp add: t_def outputs_fields)
  have "phase (arm_init s0) = Idle"
    using assms(1) by (simp add: arm_init_def Let_def init_encoder_def setTimerContinuous_def init_structure_def upt_4
        init_pinouts_frame after_reset_def)
  then have s: "s = cal_begin t"
    by (simp add: s_def processCommands_def arm_command_of_code_def arm_round_def t_def)
  have "toJoint SHOULDER = 0" "toJoint ELBOW = 1" "toJoint GRIPPER = 2" by (simp_all add: toJoint_def)
  then have "arm_getSpeed SHOULDER s = 220" "arm_getSpeed ELBOW s = j_initSpeed (joints s0 ! 3)" "arm_getSpeed GRIPPER s = 10"
    using prepared_speed [OF len] speeds begin_entries(1) [OF len] by (simp_all add: s arm_getSpeed_def)
  moreover have "outputs_ok s" unfolding s using ok by (rule outputs_begin)
  ultimately show ?thesis by (simp add: outputs_ok_def)
qed

theorem elbow_calibration_speed_witness:
  "arm_getSpeed ELBOW (arm_run [ACommand [8], AMain] (arm_init (arm_cleared\<lparr>joints := [joint_zero, joint_zero, joint_zero,
     joint_zero\<lparr>j_initSpeed := 0x5A\<rparr>]\<rparr>))) = 0x5A"
proof -
  have "after_reset (arm_cleared\<lparr>joints := [joint_zero, joint_zero, joint_zero, joint_zero\<lparr>j_initSpeed := 0x5A\<rparr>]\<rparr>)"
    using arm_cleared_reset by (simp add: after_reset_def)
  from elbow_calibration_speed [OF this] show ?thesis by (simp del: arm_run_simps)
qed

section \<open>What an interrupted calibration leaves behind\<close>

text \<open>Allowed direction and position of the joints.\<close>

definition limits :: "'a arm_scheme \<Rightarrow> (u8 \<times> u8) list" where
  "limits s = map (\<lambda>j. (j_allowedDir j, j_currPos j)) (joints s)"

lemma limits_length: "limits s = xs \<Longrightarrow> length (joints s) = length xs"
  by (auto simp: limits_def)

lemma limits_nth: "limits s = xs \<Longrightarrow> k < length xs \<Longrightarrow> (j_allowedDir (joints s ! k), j_currPos (joints s ! k)) = xs ! k"
  by (auto simp: limits_def)

lemma limits_setters [simp]:
  "length (joints s) = 4 \<Longrightarrow> limits (arm_setDirection m d s) = limits s"
  "length (joints s) = 4 \<Longrightarrow> limits (arm_setSpeed m v s) = limits s"
  by (auto simp: limits_def setDirection_nth setSpeed_nth intro!: nth_equalityI)

lemma limits_set_joint:
  assumes "\<And>j. j_allowedDir (f j) = j_allowedDir j \<and> j_currPos (f j) = j_currPos j"
  shows "limits (set_joint i f s) = limits s"
  using assms by (auto simp: limits_def set_joint_nth intro!: nth_equalityI)

lemma limits_brake [simp]: "length (joints s) = 4 \<Longrightarrow> limits (brake s) = limits s"
  by (simp add: brake_def upt_4 brake_joint_def)

lemma limits_position: "length (joints s) = 4 \<Longrightarrow> limits (arm_setPosition m p s) = limits s"
  by (simp add: arm_setPosition_def Let_def limits_set_joint)

lemma limits_fields [simp]:
  "limits (s\<lparr>interruptCalibration := b\<rparr>) = limits s" "limits (s\<lparr>startCalibration := b\<rparr>) = limits s"
  "limits (s\<lparr>arm_calibrated := b\<rparr>) = limits s" "limits (s\<lparr>phase := p\<rparr>) = limits s"
  "limits (s\<lparr>a_PINB := x, a_PINC := y\<rparr>) = limits s" "limits (setTimerMs n s) = limits s"
  "limits (setTimerContinuous s) = limits s" "limits (s\<lparr>a_TIMSK1 := t, timerNotClear := b\<rparr>) = limits s"
  by (simp_all add: limits_def setTimerMs_def setTimerContinuous_def)

lemma limits_command:
  assumes "length (joints s) = 4"
  shows "limits (snd (processCommands rx tx s)) = limits s" "phase (snd (processCommands rx tx s)) = phase s"
    "timerOneShot (snd (processCommands rx tx s)) = timerOneShot s"
    "rx ! 0 \<noteq> arm_command_code A_CALIBRATE \<Longrightarrow> startCalibration (snd (processCommands rx tx s)) = startCalibration s"
proof -
  have frame: "phase (arm_setPosition m p u) = phase u" "timerOneShot (arm_setPosition m p u) = timerOneShot u"
    "startCalibration (arm_setPosition m p u) = startCalibration u" for m p and u :: "'a arm_scheme"
    by (simp_all add: arm_setPosition_def Let_def)
  show "limits (snd (processCommands rx tx s)) = limits s" "phase (snd (processCommands rx tx s)) = phase s"
    "timerOneShot (snd (processCommands rx tx s)) = timerOneShot s"
    using assms
    by (simp_all add: processCommands_def Let_def limits_position frame split: option.split arm_command.split)
  assume "rx ! 0 \<noteq> arm_command_code A_CALIBRATE"
  then have "arm_command_of_code (rx ! 0) \<noteq> Some A_CALIBRATE" by (simp add: arm_command_of_code_def)
  then show "startCalibration (snd (processCommands rx tx s)) = startCalibration s"
    by (simp add: processCommands_def Let_def frame split: option.split arm_command.split)
qed

text \<open>During the first two phases of a calibration the timer is in one-shot mode and every joint may move
  both ways.\<close>

definition timed_phase :: "'a arm_scheme \<Rightarrow> bool" where
  "timed_phase s \<longleftrightarrow> length (joints s) = 4 \<and>
     (phase s = Leaving \<or> phase s = Approaching \<longrightarrow> timerOneShot s \<and> list_all (\<lambda>(d, p). d = D_BOTH) (limits s))"

lemma begin_limits:
  assumes "length (joints s) = 4"
  shows "list_all (\<lambda>(d, p). d = D_BOTH) (limits (cal_begin s))"
  using assms by (simp add: list_all_length limits_def begin_entries begin_frame prepared_allowed)

lemma second_frame:
  assumes "length (joints s) = 4"
  shows "length (joints (cal_second s)) = 4" "limits (cal_second s) = limits s"
    "phase (cal_second s) = (if interruptCalibration s then Idle else Approaching)"
    "timerOneShot (cal_second s) = (if interruptCalibration s then timerOneShot s else True)"
  using assms by (simp_all add: cal_second_def abortCalibration_def Let_def)
     (simp_all add: setTimerMs_def)

lemma third_frame:
  assumes "length (joints s) = 4"
  shows "length (joints (cal_third s)) = 4" "limits (cal_third s) = limits s"
    "phase (cal_third s) = (if interruptCalibration s then Idle else Seeking)"
    "timerOneShot (cal_third s) = (if interruptCalibration s then timerOneShot s else False)"
  using assms by (simp_all add: cal_third_def abortCalibration_def Let_def)
     (simp_all add: setTimerContinuous_def)

lemma finish_frame:
  assumes "length (joints s) = 4"
  shows "length (joints (cal_finish s)) = 4" "phase (cal_finish s) = Idle"
  using assms by (simp_all add: cal_finish_def abortCalibration_def Let_def upt_4)

lemma timed_round: "timed_phase s \<Longrightarrow> timed_phase (arm_round s)"
  by (cases "phase s") (simp_all add: timed_phase_def arm_round_def begin_frame begin_limits second_frame third_frame finish_frame)

lemma one_shot_match:
  assumes "timerOneShot s"
  shows "limits (timer_match s) = limits s" "phase (timer_match s) = phase s" "timerOneShot (timer_match s)"
    "startCalibration (timer_match s) = startCalibration s" "length (joints (timer_match s)) = length (joints s)"
  using assms by (simp_all add: timer_match_def arm_TIMER1_COMPA_vect_def)

lemma timed_match: "timed_phase s \<Longrightarrow> timed_phase (timer_match s)"
  by (cases "timerOneShot s") (simp_all add: timed_phase_def one_shot_match tick_frame)

lemma timed_step: "timed_phase s \<Longrightarrow> timed_phase (arm_step e s)"
proof (cases e)
  case (ACommand rx)
  assume s: "timed_phase s"
  then have len: "length (joints s) = 4" by (simp add: timed_phase_def)
  have "length (joints (snd (processCommands rx rx s))) = length (joints s)"
    using arg_cong [OF limits_command(1) [OF len], of length] by (simp add: limits_def)
  then show ?thesis
    using s by (simp add: ACommand timed_phase_def limits_command)
qed (simp_all add: timed_round timed_match, simp add: timed_phase_def)

lemma timed_run: "timed_phase s \<Longrightarrow> timed_phase (arm_run es s)"
  by (induction es arbitrary: s) (simp_all add: timed_step)

lemma timed_init: "after_reset s \<Longrightarrow> timed_phase (arm_init s)"
  by (simp add: timed_phase_def after_reset_def arm_init_def Let_def init_encoder_def setTimerContinuous_def
      init_structure_def upt_4 init_pinouts_frame)

text \<open>The state after an interruption in one of these phases: switches and encoders are not looked at.\<close>

definition blind :: "(u8 \<times> u8) list \<Rightarrow> 'a arm_scheme \<Rightarrow> bool" where
  "blind ls s \<longleftrightarrow> length (joints s) = 4 \<and> limits s = ls \<and> phase s = Idle \<and> timerOneShot s \<and> \<not> startCalibration s"

fun no_calibration :: "arm_event \<Rightarrow> bool" where
  "no_calibration (ACommand rx) \<longleftrightarrow> rx ! 0 \<noteq> arm_command_code A_CALIBRATE"
| "no_calibration _ \<longleftrightarrow> True"

lemma blind_step:
  assumes "blind ls s" and "no_calibration e"
  shows "blind ls (arm_step e s)"
proof (cases e)
  case (ACommand rx)
  then have c: "rx ! 0 \<noteq> arm_command_code A_CALIBRATE" using assms(2) by simp
  have len: "length (joints s) = 4" using assms(1) by (simp add: blind_def)
  have "length (joints (snd (processCommands rx rx s))) = length (joints s)"
    using arg_cong [OF limits_command(1) [OF len], of length] by (simp add: limits_def)
  then show ?thesis
    using assms(1) limits_command [OF len, of rx rx] c by (simp add: ACommand blind_def)
qed (use assms in \<open>simp_all add: blind_def one_shot_match arm_round_def\<close>)

lemma blind_run: "blind ls s \<Longrightarrow> list_all no_calibration es \<Longrightarrow> blind ls (arm_run es s)"
  by (induction es arbitrary: s) (simp_all add: blind_step)

lemma abort_blind:
  assumes "timed_phase s" and "phase s = Leaving \<or> phase s = Approaching" and "interruptCalibration s"
    and "\<not> startCalibration s"
  shows "blind (limits s) (arm_round s)"
proof -
  have len: "length (joints s) = 4" and one: "timerOneShot s" using assms(1,2) by (auto simp: timed_phase_def)
  have "startCalibration (cal_second s) = startCalibration s" "startCalibration (cal_third s) = startCalibration s"
    using assms(3) by (simp_all add: cal_second_def cal_third_def abortCalibration_def Let_def)
  then show ?thesis
    using assms(2-4) len one by (auto simp: blind_def arm_round_def second_frame third_frame)
qed

text \<open>Interrupted calibration. A command that interrupts a calibration in one of its two timed phases
  leaves the timer in one-shot mode. Until the next calibration is started, no timer interrupt
  then looks at the limit switches or counts an encoder edge: the recorded positions stay as they
  are, and a command to move is obeyed in both directions whatever the switches say.\<close>

theorem interrupted_calibration_blinds:
  fixes s0 :: arm and es fs :: "arm_event list" and m d v :: u8
  assumes "after_reset s0"
  defines "s \<equiv> arm_run es (arm_init s0)"
  assumes "phase s = Leaving \<or> phase s = Approaching" and "interruptCalibration s" and "\<not> startCalibration s"
    and "list_all no_calibration fs" and "d = D_FORWARD \<or> d = D_BACKWARD"
  defines "t \<equiv> arm_run fs (arm_round s)"
  shows "arm_getDirection m (arm_step (ACommand [arm_command_code A_SET_DIRECTION, m, d]) t) = d \<and>
    arm_getPosition m t = arm_getPosition m s \<and> timerOneShot t"
proof -
  have timed: "timed_phase s" unfolding s_def using timed_init [OF assms(1)] by (rule timed_run)
  have t: "blind (limits s) t"
    unfolding t_def by (rule blind_run [OF abort_blind [OF timed assms(3-5)] assms(6)])
  then have len: "length (joints t) = 4" by (simp add: blind_def)
  have both: "list_all (\<lambda>(d, p). d = D_BOTH) (limits s)" and "length (joints s) = 4"
    using timed assms(3) by (auto simp: timed_phase_def)
  have eq: "limits t = limits s" using t by (simp add: blind_def)
  have k: "toJoint m < length (limits s)" using \<open>length (joints s) = 4\<close> by (simp add: limits_def)
  have "j_allowedDir (joints t ! toJoint m) = D_BOTH"
    using both k limits_nth [OF eq k] by (auto simp: list_all_length)
  moreover have "j_currPos (joints t ! toJoint m) = j_currPos (joints s ! toJoint m)"
    using limits_nth [OF eq k] limits_nth [OF refl k] by (metis prod.inject)
  moreover have "arm_step (ACommand [arm_command_code A_SET_DIRECTION, m, d]) t =
      arm_setDirection m d (t\<lparr>interruptCalibration := True\<rparr>)"
    by (simp add: processCommands_def arm_command_of_code_def)
  ultimately show ?thesis
    using t len assms(7) by (auto simp: blind_def arm_getDirection_def arm_getPosition_def setDirection_nth direct_def)
qed

theorem interrupted_calibration_blinds_witness:
  "arm_getDirection SHOULDER (arm_step (ACommand [3, SHOULDER, D_BACKWARD])
    (arm_run [ASensors 0x20 0, ATimer, ATimer, ATimer, ATimer, ATimer, ATimer]
      (arm_round (arm_run [ACommand [8, 0, 0], AMain, ACommand [7, 0, 0]] (arm_init arm_cleared))))) = D_BACKWARD"
proof -
  define s where "s = arm_run [ACommand [8, 0, 0], AMain, ACommand [7, 0, 0]] (arm_init arm_cleared)"
  define u where "u = (arm_init arm_cleared)\<lparr>interruptCalibration := True, startCalibration := True\<rparr>"
  have "phase (arm_init arm_cleared) = Idle"
    by (simp add: arm_init_def Let_def init_encoder_def setTimerContinuous_def init_structure_def upt_4
        init_pinouts_frame arm_cleared_def)
  then have "arm_run [ACommand [8, 0, 0], AMain] (arm_init arm_cleared) = cal_begin u"
    by (simp add: processCommands_def arm_command_of_code_def u_def arm_round_def)
  then have s: "s = brake ((cal_begin u)\<lparr>interruptCalibration := True\<rparr>)"
    unfolding s_def by (simp add: processCommands_def arm_command_of_code_def)
  then have "phase s = Leaving \<or> phase s = Approaching" "interruptCalibration s" "\<not> startCalibration s"
    by (simp_all add: begin_frame)
  then show ?thesis
    using interrupted_calibration_blinds [OF arm_cleared_reset, where es = "[ACommand [8, 0, 0], AMain, ACommand [7, 0, 0]]"
        and fs = "[ASensors 0x20 0, ATimer, ATimer, ATimer, ATimer, ATimer, ATimer]" and m = SHOULDER and d = D_BACKWARD,
        folded s_def]
    unfolding s_def [symmetric]
    by (simp del: arm_run_simps arm_step.simps)
qed

end
