(* ===== verification/Twi_Slave.thy ===== *)
theory Twi_Slave
  imports Arm_Main
begin

text \<open>
  The I2C slave of the arm driver (\<open>arm_driver/i2c-slave.cpp\<close>, on the TWI unit of the ATmega) and the
  start of its main program. The interrupt gets the status code and the content of the data
  register as arguments; the function called after a message is a parameter, to which \<open>main\<close>
  passes \<^const>\<open>processCommands\<close>. \<open>None\<close> is an access outside the five bytes of the buffer, or, for the
  functions that wait until the transceiver is not busy, that they are still waiting.
\<close>

section \<open>State\<close>

record twi = arm +
  TWI_buf :: "u8 list"
  TWI_msgSize :: u8
  TWI_busy :: bool
  lastTransOK :: bool
  RxDataInBuf :: bool
  genAddressCall :: bool
  TWI_bufPtr :: u8
  t_TWAR :: u8
  t_TWCR :: u8
  t_TWDR :: u8

abbreviation (input) I2C_BUFFER_SIZE :: nat where "I2C_BUFFER_SIZE \<equiv> 5"
definition ARM_SLAVE_ADDRESS :: u8 where "ARM_SLAVE_ADDRESS = 0x30"

abbreviation (input) TWI_STX_ADR_ACK :: u8 where "TWI_STX_ADR_ACK \<equiv> 0xA8"
abbreviation (input) TWI_STX_DATA_ACK :: u8 where "TWI_STX_DATA_ACK \<equiv> 0xB8"
abbreviation (input) TWI_STX_DATA_NACK :: u8 where "TWI_STX_DATA_NACK \<equiv> 0xC0"
abbreviation (input) TWI_STX_DATA_ACK_LAST_BYTE :: u8 where "TWI_STX_DATA_ACK_LAST_BYTE \<equiv> 0xC8"
abbreviation (input) TWI_SRX_ADR_ACK :: u8 where "TWI_SRX_ADR_ACK \<equiv> 0x60"
abbreviation (input) TWI_SRX_GEN_ACK :: u8 where "TWI_SRX_GEN_ACK \<equiv> 0x70"
abbreviation (input) TWI_SRX_ADR_DATA_ACK :: u8 where "TWI_SRX_ADR_DATA_ACK \<equiv> 0x80"
abbreviation (input) TWI_SRX_ADR_DATA_NACK :: u8 where "TWI_SRX_ADR_DATA_NACK \<equiv> 0x88"
abbreviation (input) TWI_SRX_GEN_DATA_ACK :: u8 where "TWI_SRX_GEN_DATA_ACK \<equiv> 0x90"
abbreviation (input) TWI_SRX_GEN_DATA_NACK :: u8 where "TWI_SRX_GEN_DATA_NACK \<equiv> 0x98"
abbreviation (input) TWI_SRX_STOP_RESTART :: u8 where "TWI_SRX_STOP_RESTART \<equiv> 0xA0"
abbreviation (input) TWI_BUS_ERROR :: u8 where "TWI_BUS_ERROR \<equiv> 0"

text \<open>\<open>(1 << TWEN) | (1 << TWIE) | (1 << TWINT) | (1 << TWEA)\<close>, which every branch but the error branch
  writes. Writing a one to \<open>TWINT\<close> clears the flag.\<close>

definition TWCR_LISTEN :: u8 where
  "TWCR_LISTEN = push_bit 2 1 OR push_bit 0 1 OR push_bit 7 1 OR push_bit 6 1"

definition set_TWCR :: "u8 \<Rightarrow> twi \<Rightarrow> twi" where
  "set_TWCR v s = s\<lparr>t_TWCR := cbi 7 v\<rparr>"

definition clear_statusReg :: "twi \<Rightarrow> twi" where
  "clear_statusReg s = s\<lparr>lastTransOK := False, RxDataInBuf := False, genAddressCall := False\<rparr>"

section \<open>Functions\<close>

definition TWI_Slave_Initialise :: "u8 \<Rightarrow> twi \<Rightarrow> twi" where
  "TWI_Slave_Initialise ownAddress s = (set_TWCR (push_bit 2 1) (s\<lparr>t_TWAR := ownAddress\<rparr>))\<lparr>TWI_busy := False\<rparr>"

definition TWI_Transceiver_Busy :: "twi \<Rightarrow> bool" where
  "TWI_Transceiver_Busy s = TWI_busy s"

definition copy_to_buffer :: "u8 list \<Rightarrow> twi \<Rightarrow> twi option" where
  "copy_to_buffer bytes s =
     (if length bytes \<le> I2C_BUFFER_SIZE then Some (s\<lparr>TWI_buf := memcpy (TWI_buf s) bytes\<rparr>) else None)"

definition TWI_Start_Transceiver_With_Data :: "u8 list \<Rightarrow> u8 \<Rightarrow> twi \<Rightarrow> twi option" where
  "TWI_Start_Transceiver_With_Data msg msgSize s =
     (if TWI_Transceiver_Busy s then None
      else map_option (\<lambda>s. (set_TWCR TWCR_LISTEN (clear_statusReg s))\<lparr>TWI_busy := True\<rparr>)
             (copy_to_buffer (take (unat msgSize) msg) (s\<lparr>TWI_msgSize := msgSize\<rparr>)))"

definition TWI_Start_Transceiver :: "twi \<Rightarrow> twi option" where
  "TWI_Start_Transceiver s =
     (if TWI_Transceiver_Busy s then None
      else Some ((set_TWCR TWCR_LISTEN (clear_statusReg s))\<lparr>TWI_busy := False\<rparr>))"

text \<open>The bytes fetched into \<open>msg\<close> and the result.\<close>

definition TWI_Get_Data_From_Transceiver :: "u8 \<Rightarrow> twi \<Rightarrow> (u8 list \<times> bool \<times> twi) option" where
  "TWI_Get_Data_From_Transceiver msgSize s =
     (if TWI_Transceiver_Busy s then None
      else if lastTransOK s
      then (if unat msgSize \<le> I2C_BUFFER_SIZE
            then Some (take (unat msgSize) (TWI_buf s), True, s\<lparr>RxDataInBuf := False\<rparr>) else None)
      else Some ([], False, s))"

section \<open>The interrupt\<close>

definition twi_send :: "twi \<Rightarrow> twi option" where
  "twi_send s =
     map_option (\<lambda>b. (set_TWCR TWCR_LISTEN (s\<lparr>t_TWDR := b, TWI_bufPtr := TWI_bufPtr s + 1\<rparr>))\<lparr>TWI_busy := True\<rparr>)
       (peek (TWI_buf s) (unat (TWI_bufPtr s)))"

definition twi_receive :: "twi \<Rightarrow> twi option" where
  "twi_receive s =
     map_option (\<lambda>buf. (set_TWCR TWCR_LISTEN (s\<lparr>TWI_buf := buf, TWI_bufPtr := TWI_bufPtr s + 1, lastTransOK := True\<rparr>))
         \<lparr>TWI_busy := True\<rparr>)
       (poke (TWI_buf s) (unat (TWI_bufPtr s)) (t_TWDR s))"

definition twi_addressed :: "twi \<Rightarrow> twi" where
  "twi_addressed s = (set_TWCR TWCR_LISTEN (s\<lparr>RxDataInBuf := True, TWI_bufPtr := 0\<rparr>))\<lparr>TWI_busy := True\<rparr>"

definition twi_status :: "u8 \<Rightarrow> twi \<Rightarrow> twi option" where
  "twi_status twsr s =
     (if twsr = TWI_STX_ADR_ACK then twi_send (s\<lparr>TWI_bufPtr := 0\<rparr>)
      else if twsr = TWI_STX_DATA_ACK then twi_send s
      else if twsr = TWI_STX_DATA_NACK
      then (let s = (if TWI_bufPtr s = TWI_msgSize s then s\<lparr>lastTransOK := True\<rparr> else s)
            in Some ((set_TWCR TWCR_LISTEN s)\<lparr>TWI_busy := False\<rparr>))
      else if twsr = TWI_SRX_GEN_ACK then Some (twi_addressed (s\<lparr>genAddressCall := True\<rparr>))
      else if twsr = TWI_SRX_ADR_ACK then Some (twi_addressed s)
      else if twsr = TWI_SRX_ADR_DATA_ACK \<or> twsr = TWI_SRX_GEN_DATA_ACK then twi_receive s
      else if twsr = TWI_SRX_STOP_RESTART then Some ((set_TWCR TWCR_LISTEN s)\<lparr>TWI_busy := False\<rparr>)
      else if twsr = TWI_SRX_ADR_DATA_NACK \<or> twsr = TWI_SRX_GEN_DATA_NACK \<or> twsr = TWI_STX_DATA_ACK_LAST_BYTE \<or>
              twsr = TWI_BUS_ERROR
      then Some (set_TWCR (push_bit 4 1 OR push_bit 7 1) s)
      else Some ((set_TWCR TWCR_LISTEN s)\<lparr>TWI_busy := False\<rparr>))"

definition TWI_vect :: "(u8 list \<Rightarrow> u8 list \<Rightarrow> twi \<Rightarrow> u8 list \<times> twi) \<Rightarrow> u8 \<Rightarrow> u8 \<Rightarrow> twi \<Rightarrow> twi option" where
  "TWI_vect process twsr twdr s =
     map_option (\<lambda>s.
       if \<not> TWI_Transceiver_Busy s \<and> RxDataInBuf s
       then (let (buf, s) = process (TWI_buf s) (TWI_buf s) s in s\<lparr>TWI_buf := buf, RxDataInBuf := False\<rparr>)
       else s) (twi_status twsr (s\<lparr>t_TWDR := twdr\<rparr>))"

section \<open>The start of \<open>main\<close>\<close>

definition arm_main_init :: "twi \<Rightarrow> twi option" where
  "arm_main_init s =
     TWI_Start_Transceiver (TWI_Slave_Initialise (push_bit 1 ARM_SLAVE_ADDRESS OR push_bit 0 1) (arm_init s))"

end
