(* ===== verification/Arm_Link.thy ===== *)
theory Arm_Link
  imports Bridge_I2c Twi_Slave
begin

text \<open>
  The bridge and the arm driver on one I2C bus: what a sequence of master operations makes the TWI
  unit of the arm driver report, and that a call of the bridge's arm module has the effect of the
  function of the same name in the driver.
\<close>

section \<open>The wire\<close>

datatype arm_wire_pos = AwFree | AwAddress | AwWriting | AwReading

text \<open>Status codes and data register for each interrupt. \<open>j\<close> is the content of the data register where
  it does not matter. The bridge never makes a general call.\<close>

fun arm_wire :: "u8 \<Rightarrow> arm_wire_pos \<Rightarrow> i2c_op list \<Rightarrow> (u8 \<times> u8) list" where
  "arm_wire j p [] = []"
| "arm_wire j AwWriting (I2C_START # ops) = (TWI_SRX_STOP_RESTART, j) # arm_wire j AwAddress ops"
| "arm_wire j p (I2C_START # ops) = arm_wire j AwAddress ops"
| "arm_wire j AwWriting (I2C_STOP # ops) = (TWI_SRX_STOP_RESTART, j) # arm_wire j AwFree ops"
| "arm_wire j p (I2C_STOP # ops) = arm_wire j AwFree ops"
| "arm_wire j AwAddress (I2C_WRITE b # ops) =
     (if b = 0x60 then (TWI_SRX_ADR_ACK, b) # arm_wire j AwWriting ops
      else if b = 0x61 then (TWI_STX_ADR_ACK, b) # arm_wire j AwReading ops
      else arm_wire j AwFree ops)"
| "arm_wire j AwWriting (I2C_WRITE b # ops) = (TWI_SRX_ADR_DATA_ACK, b) # arm_wire j AwWriting ops"
| "arm_wire j p (I2C_WRITE b # ops) = arm_wire j p ops"
| "arm_wire j AwReading (I2C_READ ack # ops) =
     (if ack then (TWI_STX_DATA_ACK, j) # arm_wire j AwReading ops else (TWI_STX_DATA_NACK, j) # arm_wire j AwFree ops)"
| "arm_wire j p (I2C_READ ack # ops) = arm_wire j p ops"

fun twi_run :: "(u8 \<times> u8) list \<Rightarrow> twi \<Rightarrow> twi option" where
  "twi_run [] s = Some s"
| "twi_run ((st, d) # es) s = Option.bind (TWI_vect processCommands st d s) (twi_run es)"

lemma twi_run_append: "twi_run (es @ fs) s = Option.bind (twi_run es s) (twi_run fs)"
  by (induction es s rule: twi_run.induct) (simp_all split: Option.bind_split)

section \<open>The arm under the bus\<close>

text \<open>The operations of the arm do not see the bus.\<close>

lemma truncate_set_joint: "arm.truncate (set_joint i f s) = set_joint i f (arm.truncate s)"
  by (simp add: arm.truncate_def set_joint_def)

lemma truncate_get [simp]: "joints (arm.truncate s) = joints s" "arm_calibrated (arm.truncate s) = arm_calibrated s"
  by (simp_all add: arm.truncate_def)

lemma joints_truncate: "joints (set_joint i f s) = (joints s)[i := f (joints s ! i)]"
  by (simp add: set_joint_def)

lemma truncate_setSpeed: "arm.truncate (arm_setSpeed m v s) = arm_setSpeed m v (arm.truncate s)"
  by (simp add: arm_setSpeed_def Let_def truncate_set_joint [symmetric]) (simp add: arm.truncate_def)

lemma truncate_pins: "arm.truncate (direction_pins m d s) = direction_pins m d (arm.truncate s)"
  by (simp add: direction_pins_def arm.truncate_def)

lemma truncate_setDirection: "arm.truncate (arm_setDirection m d s) = arm_setDirection m d (arm.truncate s)"
  by (auto simp: arm_setDirection_def Let_def truncate_pins truncate_set_joint joints_truncate)

lemma truncate_setPosition: "arm.truncate (arm_setPosition m p s) = arm_setPosition m p (arm.truncate s)"
  by (simp add: arm_setPosition_def Let_def truncate_set_joint truncate_setDirection joints_truncate)

lemma truncate_brake: "arm.truncate (brake s) = brake (arm.truncate s)"
  by (simp add: brake_def upt_4 brake_joint_def truncate_setDirection truncate_setSpeed)

lemma truncate_flags:
  "arm.truncate (s\<lparr>interruptCalibration := b\<rparr>) = (arm.truncate s)\<lparr>interruptCalibration := b\<rparr>"
  "arm.truncate (s\<lparr>startCalibration := b\<rparr>) = (arm.truncate s)\<lparr>startCalibration := b\<rparr>"
  by (simp_all add: arm.truncate_def)

lemmas truncate_ops = truncate_setSpeed truncate_setDirection truncate_setPosition truncate_brake truncate_flags

definition arm_same :: "twi \<Rightarrow> twi \<Rightarrow> bool" where
  "arm_same s t \<longleftrightarrow> arm.truncate t = arm.truncate s"

lemma arm_same_refl: "arm_same s s"
  by (simp add: arm_same_def)

lemma arm_same_get:
  assumes "arm_same s t"
  shows "joints t = joints s" "arm_calibrated t = arm_calibrated s"
  using assms by (metis arm_same_def truncate_get)+

lemma arm_same_trans: "arm_same s t \<Longrightarrow> arm_same t u \<Longrightarrow> arm_same s u"
  by (simp add: arm_same_def)

section \<open>Transactions\<close>

text \<open>The bytes \<open>bs\<close> of a write transaction have arrived; \<open>old\<close> is what the buffer held before.\<close>

definition twi_received :: "u8 list \<Rightarrow> u8 list \<Rightarrow> twi \<Rightarrow> bool" where
  "twi_received old bs s \<longleftrightarrow> length old = 5 \<and> length bs \<le> 5 \<and> TWI_busy s \<and> RxDataInBuf s \<and>
     TWI_bufPtr s = of_nat (length bs) \<and> TWI_buf s = bs @ drop (length bs) old"

lemma twi_receive_byte:
  assumes "twi_received old bs s" and "length bs < 5"
  shows "\<exists>t. TWI_vect processCommands TWI_SRX_ADR_DATA_ACK b s = Some t \<and> twi_received old (bs @ [b]) t \<and> arm_same s t"
proof -
  have ptr: "unat (TWI_bufPtr s) = length bs" using assms by (simp add: twi_received_def unat_of_nat)
  have "length bs < length old" using assms by (simp add: twi_received_def)
  then have "drop (length bs) old = old ! length bs # drop (Suc (length bs)) old"
    by (rule Cons_nth_drop_Suc [symmetric])
  then have "(bs @ drop (length bs) old)[length bs := b] = (bs @ [b]) @ drop (length (bs @ [b])) old"
    by (simp add: list_update_append)
  then have "twi_received old (bs @ [b]) ((set_TWCR TWCR_LISTEN (s\<lparr>t_TWDR := b, TWI_buf := (TWI_buf s)[length bs := b],
      TWI_bufPtr := TWI_bufPtr s + 1, lastTransOK := True\<rparr>))\<lparr>TWI_busy := True\<rparr>)"
    using assms by (simp add: twi_received_def set_TWCR_def ac_simps)
  moreover have "length bs < length (TWI_buf s)" using assms by (simp add: twi_received_def)
  ultimately show ?thesis
    using ptr by (simp add: TWI_vect_def twi_status_def twi_receive_def TWI_Transceiver_Busy_def set_TWCR_def arm_same_def
        arm.truncate_def)
qed

lemma twi_receive_bytes:
  assumes "twi_received old bs s" and "length bs + length cs \<le> 5"
  shows "\<exists>t. twi_run (map (Pair TWI_SRX_ADR_DATA_ACK) cs) s = Some t \<and> twi_received old (bs @ cs) t \<and> arm_same s t"
  using assms
proof (induction cs arbitrary: bs s)
  case Nil
  then show ?case by (simp add: arm_same_refl)
next
  case (Cons c cs)
  obtain t where t: "TWI_vect processCommands TWI_SRX_ADR_DATA_ACK c s = Some t" "twi_received old (bs @ [c]) t" "arm_same s t"
    using twi_receive_byte [OF Cons.prems(1), of c] Cons.prems(2) by auto
  obtain u where "twi_run (map (Pair TWI_SRX_ADR_DATA_ACK) cs) t = Some u" "twi_received old (bs @ [c] @ cs) u" "arm_same t u"
    using Cons.IH [OF t(2)] Cons.prems(2) by auto
  then show ?case using t arm_same_trans by auto
qed

lemma twi_write_transaction:
  assumes "length (TWI_buf s) = 5" and "length bs \<le> 5"
  shows "\<exists>t. twi_run ((TWI_SRX_ADR_ACK, 0x60) # map (Pair TWI_SRX_ADR_DATA_ACK) bs) s = Some t \<and>
    twi_received (TWI_buf s) bs t \<and> arm_same s t"
proof -
  define u where "u = twi_addressed (s\<lparr>t_TWDR := 0x60\<rparr>)"
  have "TWI_vect processCommands TWI_SRX_ADR_ACK 0x60 s = Some u"
    by (simp add: TWI_vect_def twi_status_def u_def TWI_Transceiver_Busy_def twi_addressed_def)
  moreover have "twi_received (TWI_buf s) [] u" "arm_same s u"
    using assms(1) by (simp_all add: u_def twi_received_def twi_addressed_def set_TWCR_def arm_same_def arm.truncate_def)
  moreover from this obtain t where "twi_run (map (Pair TWI_SRX_ADR_DATA_ACK) bs) u = Some t" "twi_received (TWI_buf s) bs t" "arm_same u t"
    using twi_receive_bytes [of "TWI_buf s" "[]" u bs] assms(2) by auto
  ultimately show ?thesis using arm_same_trans by auto
qed

text \<open>Stop or repeated start: the message is executed inside the interrupt.\<close>

lemma twi_message_end:
  assumes "twi_received old bs s"
  defines "rx \<equiv> bs @ drop (length bs) old"
  shows "\<exists>t u. TWI_vect processCommands TWI_SRX_STOP_RESTART j s = Some t \<and> arm_same s u \<and>
    arm_same (snd (processCommands rx rx u)) t \<and> TWI_buf t = fst (processCommands rx rx u) \<and> \<not> RxDataInBuf t"
proof -
  define u where "u = (set_TWCR TWCR_LISTEN (s\<lparr>t_TWDR := j\<rparr>))\<lparr>TWI_busy := False\<rparr>"
  have u: "TWI_buf u = rx" "\<not> TWI_busy u" "RxDataInBuf u" "arm_same s u"
    using assms by (simp_all add: u_def twi_received_def set_TWCR_def arm_same_def arm.truncate_def)
  define t where "t = (snd (processCommands rx rx u))\<lparr>TWI_buf := fst (processCommands rx rx u), RxDataInBuf := False\<rparr>"
  have "TWI_vect processCommands TWI_SRX_STOP_RESTART j s = Some t"
    using u by (simp add: TWI_vect_def twi_status_def TWI_Transceiver_Busy_def case_prod_beta t_def flip: u_def)
  moreover have "arm_same (snd (processCommands rx rx u)) t"
    by (simp add: t_def arm_same_def arm.truncate_def)
  ultimately show ?thesis using u by (intro exI [of _ t] exI [of _ u]) (simp add: t_def)
qed

lemma arm_wire_writes:
  "arm_wire j AwWriting (map I2C_WRITE bs @ ops) = map (Pair TWI_SRX_ADR_DATA_ACK) bs @ arm_wire j AwWriting ops"
  by (induction bs) simp_all

lemma wire_write:
  "arm_wire j AwFree (bus_write ARM_DRIVER_ADDRESS bs) =
     ((TWI_SRX_ADR_ACK, 0x60) # map (Pair TWI_SRX_ADR_DATA_ACK) bs) @ [(TWI_SRX_STOP_RESTART, j)]"
  using arm_wire_writes [of j bs "[I2C_STOP]"]
  by (simp add: bus_write_def addressToWrite_def ARM_DRIVER_ADDRESS_def)

lemma wire_read:
  "arm_wire j AwFree (bus_read ARM_DRIVER_ADDRESS bs) =
     ((TWI_SRX_ADR_ACK, 0x60) # map (Pair TWI_SRX_ADR_DATA_ACK) bs) @
     [(TWI_SRX_STOP_RESTART, j), (TWI_STX_ADR_ACK, 0x61), (TWI_STX_DATA_NACK, j)]"
  using arm_wire_writes [of j bs "[I2C_START, I2C_WRITE 0x61, I2C_READ False, I2C_STOP]"]
  by (simp add: bus_read_def addressToWrite_def addressToRead_def ARM_DRIVER_ADDRESS_def)

lemma arm_message:
  assumes "length (TWI_buf s) = 5" and "length bs \<le> 5"
  defines "rx \<equiv> bs @ drop (length bs) (TWI_buf s)"
  shows "\<exists>t u. twi_run (((TWI_SRX_ADR_ACK, 0x60) # map (Pair TWI_SRX_ADR_DATA_ACK) bs) @ [(TWI_SRX_STOP_RESTART, j)]) s = Some t \<and>
    arm_same s u \<and> arm_same (snd (processCommands rx rx u)) t \<and> TWI_buf t = fst (processCommands rx rx u) \<and> \<not> RxDataInBuf t"
proof -
  obtain v where v: "twi_run ((TWI_SRX_ADR_ACK, 0x60) # map (Pair TWI_SRX_ADR_DATA_ACK) bs) s = Some v"
    "twi_received (TWI_buf s) bs v" "arm_same s v"
    using twi_write_transaction [OF assms(1,2)] by blast
  obtain t u where "TWI_vect processCommands TWI_SRX_STOP_RESTART j v = Some t" "arm_same v u"
    "arm_same (snd (processCommands rx rx u)) t" "TWI_buf t = fst (processCommands rx rx u)" "\<not> RxDataInBuf t"
    using twi_message_end [OF v(2), of j] unfolding rx_def by blast
  moreover have "twi_run (((TWI_SRX_ADR_ACK, 0x60) # map (Pair TWI_SRX_ADR_DATA_ACK) bs) @ [(TWI_SRX_STOP_RESTART, j)]) s = Some t"
    unfolding twi_run_append v(1) using calculation(1) by simp
  ultimately show ?thesis using v(3) arm_same_trans by blast
qed

lemma length_reply [simp]: "length (fst (processCommands rx tx s)) = length tx"
  by (simp add: processCommands_def Let_def split: option.split arm_command.split)

text \<open>A command whose execution is \<open>f\<close>.\<close>

lemma arm_command:
  assumes "length (TWI_buf s) = 5" and "length bs \<le> 5"
    and "\<And>u. snd (processCommands (bs @ drop (length bs) (TWI_buf s)) (bs @ drop (length bs) (TWI_buf s)) u) = f u"
    and "\<And>u. arm.truncate (f u) = g (arm.truncate u)"
  shows "\<exists>t. twi_run (arm_wire j AwFree (bus_write ARM_DRIVER_ADDRESS bs)) s = Some t \<and> arm_same (f s) t \<and>
    length (TWI_buf t) = 5"
proof -
  obtain t u where t: "twi_run (arm_wire j AwFree (bus_write ARM_DRIVER_ADDRESS bs)) s = Some t" "arm_same s u"
    "arm_same (f u) t" "length (TWI_buf t) = 5"
    using arm_message [OF assms(1,2), of j] assms(1,2) unfolding wire_write assms(3) by auto
  moreover have "arm_same (f s) (f u)" using t(2) by (simp add: arm_same_def assms(4))
  ultimately show ?thesis using arm_same_trans by blast
qed

lemma arm_query:
  fixes s :: twi and bs :: "u8 list" and j :: u8 and val :: "twi \<Rightarrow> u8"
  assumes "length (TWI_buf s) = 5" and "length bs \<le> 5"
  defines "rx \<equiv> bs @ drop (length bs) (TWI_buf s)"
  assumes "\<And>u. processCommands rx rx u = (rx[0 := val u], u)" and "\<And>u. arm_same s u \<Longrightarrow> val u = val s"
  defines "es \<equiv> arm_wire j AwFree (bus_read ARM_DRIVER_ADDRESS bs)"
  shows "\<exists>t u. twi_run (butlast es) s = Some t \<and> t_TWDR t = val s \<and> twi_run es s = Some u \<and> arm_same s u \<and>
    length (TWI_buf u) = 5"
proof -
  have len: "length rx = 5" using assms(1,2) by (simp add: rx_def)
  obtain v w where v: "twi_run (((TWI_SRX_ADR_ACK, 0x60) # map (Pair TWI_SRX_ADR_DATA_ACK) bs) @ [(TWI_SRX_STOP_RESTART, j)]) s = Some v"
    "arm_same s w" "arm_same w v" "TWI_buf v = rx[0 := val w]" "\<not> RxDataInBuf v"
    using arm_message [OF assms(1,2), of j] assms(4) unfolding rx_def by auto
  define t where "t = (set_TWCR TWCR_LISTEN (v\<lparr>t_TWDR := val s, TWI_bufPtr := 1\<rparr>))\<lparr>TWI_busy := True\<rparr>"
  have t: "TWI_vect processCommands TWI_STX_ADR_ACK 0x61 v = Some t"
    using v len assms(5) by (simp add: TWI_vect_def twi_status_def twi_send_def TWI_Transceiver_Busy_def t_def set_TWCR_def)
  have tf: "arm_same v t" "\<not> RxDataInBuf t" "TWI_buf t = TWI_buf v"
    using v(5) by (simp_all add: t_def set_TWCR_def arm_same_def arm.truncate_def)
  obtain u where u: "TWI_vect processCommands TWI_STX_DATA_NACK j t = Some u" "arm_same t u" "TWI_buf u = TWI_buf t"
    using tf(2) by (simp add: TWI_vect_def twi_status_def TWI_Transceiver_Busy_def set_TWCR_def arm_same_def arm.truncate_def
        split: if_split)
  define W where "W = ((TWI_SRX_ADR_ACK, 0x60) # map (Pair TWI_SRX_ADR_DATA_ACK) bs) @ [(TWI_SRX_STOP_RESTART, j)]"
  have "twi_run W s = Some v" unfolding W_def by (rule v(1))
  then have run: "twi_run (W @ fs) s = twi_run fs v" for fs by (simp add: twi_run_append)
  have es: "es = W @ [(TWI_STX_ADR_ACK, 0x61), (TWI_STX_DATA_NACK, j)]"
    by (simp add: es_def wire_read W_def)
  then have "butlast es = W @ [(TWI_STX_ADR_ACK, 0x61)]" by (simp add: butlast_append)
  then have "twi_run (butlast es) s = Some t" by (simp only: run) (simp add: t)
  moreover have "twi_run es s = Some u" by (simp only: es run) (simp add: t u(1))
  moreover have "arm_same s u" using v(2,3) tf(1) u(2) arm_same_trans by blast
  ultimately show ?thesis
    using len v(4) tf(3) u(3) by (intro exI [of _ t] exI [of _ u]) (simp add: t_def set_TWCR_def)
qed

section \<open>Properties\<close>

text \<open>C29: Commands from the bridge to the arm. The traffic that the bridge's \<open>setSpeed\<close>, \<open>setDirection\<close>,
  \<open>setPosition\<close>, \<open>brake\<close> and \<open>calibrate\<close> put on the bus makes the arm driver, in its interrupts alone,
  note the interruption of a calibration and execute its own function of the same arguments;
  nothing is read or written outside the five bytes of the buffer.\<close>

theorem arm_commands_arrive:
  fixes b :: "'a i2c_scheme" and s :: twi and bus :: i2c_bus and m v j :: u8
  assumes "length (TWI_buf s) = 5"
  defines "sent \<equiv> \<lambda>b'. arm_wire j AwFree (drop (length (i2c_log b)) (i2c_log b'))"
    and "c \<equiv> s\<lparr>interruptCalibration := True\<rparr>"
  shows "(\<exists>t. twi_run (sent (arm_drv_setSpeed bus m v b)) s = Some t \<and> arm_same (arm_setSpeed m v c) t) \<and>
    (\<exists>t. twi_run (sent (arm_drv_setDirection bus m v b)) s = Some t \<and> arm_same (arm_setDirection m v c) t) \<and>
    (\<exists>t. twi_run (sent (arm_drv_setPosition bus m v b)) s = Some t \<and> arm_same (arm_setPosition m v c) t) \<and>
    (\<exists>t. twi_run (sent (arm_drv_brake bus b)) s = Some t \<and> arm_same (brake c) t) \<and>
    (\<exists>t. twi_run (sent (arm_drv_calibrate bus b)) s = Some t \<and> arm_same (c\<lparr>startCalibration := True\<rparr>) t)"
proof -
  have logs:
    "sent (arm_drv_setSpeed bus m v b) = arm_wire j AwFree (bus_write ARM_DRIVER_ADDRESS [2, m, v])"
    "sent (arm_drv_setDirection bus m v b) = arm_wire j AwFree (bus_write ARM_DRIVER_ADDRESS [3, m, v])"
    "sent (arm_drv_setPosition bus m v b) = arm_wire j AwFree (bus_write ARM_DRIVER_ADDRESS [5, m, v])"
    "sent (arm_drv_brake bus b) = arm_wire j AwFree (bus_write ARM_DRIVER_ADDRESS [7])"
    "sent (arm_drv_calibrate bus b) = arm_wire j AwFree (bus_write ARM_DRIVER_ADDRESS [8])"
    unfolding sent_def
    by (simp_all add: arm_drv_setSpeed_def arm_drv_setDirection_def arm_drv_setPosition_def arm_drv_brake_def
        arm_drv_calibrate_def)
  note call = arm_command [OF assms(1)]
  have "\<exists>t. twi_run (arm_wire j AwFree (bus_write ARM_DRIVER_ADDRESS [2, m, v])) s = Some t \<and> arm_same (arm_setSpeed m v c) t"
    using call [of "[2, m, v]" "\<lambda>u. arm_setSpeed m v (u\<lparr>interruptCalibration := True\<rparr>)"
        "\<lambda>u. arm_setSpeed m v (u\<lparr>interruptCalibration := True\<rparr>)" j]
    by (auto simp: processCommands_def arm_command_of_code_def truncate_ops c_def)
  moreover have "\<exists>t. twi_run (arm_wire j AwFree (bus_write ARM_DRIVER_ADDRESS [3, m, v])) s = Some t \<and> arm_same (arm_setDirection m v c) t"
    using call [of "[3, m, v]" "\<lambda>u. arm_setDirection m v (u\<lparr>interruptCalibration := True\<rparr>)"
        "\<lambda>u. arm_setDirection m v (u\<lparr>interruptCalibration := True\<rparr>)" j]
    by (auto simp: processCommands_def arm_command_of_code_def truncate_ops c_def)
  moreover have "\<exists>t. twi_run (arm_wire j AwFree (bus_write ARM_DRIVER_ADDRESS [5, m, v])) s = Some t \<and> arm_same (arm_setPosition m v c) t"
    using call [of "[5, m, v]" "\<lambda>u. arm_setPosition m v (u\<lparr>interruptCalibration := True\<rparr>)"
        "\<lambda>u. arm_setPosition m v (u\<lparr>interruptCalibration := True\<rparr>)" j]
    by (auto simp: processCommands_def arm_command_of_code_def truncate_ops c_def)
  moreover have "\<exists>t. twi_run (arm_wire j AwFree (bus_write ARM_DRIVER_ADDRESS [7])) s = Some t \<and> arm_same (brake c) t"
    using call [of "[7]" "\<lambda>u. brake (u\<lparr>interruptCalibration := True\<rparr>)" "\<lambda>u. brake (u\<lparr>interruptCalibration := True\<rparr>)" j]
    by (auto simp: processCommands_def arm_command_of_code_def truncate_ops c_def)
  moreover have "\<exists>t. twi_run (arm_wire j AwFree (bus_write ARM_DRIVER_ADDRESS [8])) s = Some t \<and>
      arm_same (c\<lparr>startCalibration := True\<rparr>) t"
    using call [of "[8]" "\<lambda>u. u\<lparr>interruptCalibration := True, startCalibration := True\<rparr>"
        "\<lambda>u. u\<lparr>interruptCalibration := True, startCalibration := True\<rparr>" j]
    by (auto simp: processCommands_def arm_command_of_code_def truncate_ops c_def)
  ultimately show ?thesis unfolding logs by blast
qed

text \<open>A driver that has just been started.\<close>

definition twi_cleared :: twi where
  "twi_cleared = arm.extend arm_cleared
     \<lparr>TWI_buf = [0, 0, 0, 0, 0], TWI_msgSize = 0, TWI_busy = False, lastTransOK = False, RxDataInBuf = False,
      genAddressCall = False, TWI_bufPtr = 0, t_TWAR = 0, t_TWCR = 0, t_TWDR = 0\<rparr>"

lemma twi_cleared_buf: "length (TWI_buf twi_cleared) = 5"
  by (simp add: twi_cleared_def arm.defs)

theorem arm_commands_arrive_witness:
  "\<exists>t. twi_run (arm_wire 0 AwFree (drop (length (i2c_log i2c_static_init))
       (i2c_log (arm_drv_setSpeed (\<lambda>_. Some 0) ELBOW 9 i2c_static_init)))) twi_cleared = Some t \<and>
     arm_same (arm_setSpeed ELBOW 9 (twi_cleared\<lparr>interruptCalibration := True\<rparr>)) t"
  using arm_commands_arrive [OF twi_cleared_buf, where b = i2c_static_init and j = 0 and bus = "\<lambda>_. Some 0" and m = ELBOW and v = 9]
  by blast

text \<open>C30: Queries from the bridge to the arm. During the read that follows a query of speed, direction or
  position, or of the calibration, the data register of the driver holds the value of the motor
  asked for, and the transaction changes nothing about the arm.\<close>

theorem arm_queries_answered:
  fixes b :: "'a i2c_scheme" and s :: twi and bus :: i2c_bus and m j :: u8
  assumes "length (TWI_buf s) = 5"
  defines "answered \<equiv> \<lambda>b' value.
    (let es = arm_wire j AwFree (drop (length (i2c_log b)) (i2c_log b'))
     in \<exists>t u. twi_run (butlast es) s = Some t \<and> t_TWDR t = value \<and> twi_run es s = Some u \<and> arm_same s u)"
  shows "answered (snd (arm_drv_getSpeed bus m b)) (arm_getSpeed m s) \<and>
    answered (snd (arm_drv_getDirection bus m b)) (arm_getDirection m s) \<and>
    answered (snd (arm_drv_getPosition bus m b)) (arm_getPosition m s) \<and>
    answered (snd (arm_drv_isCalibrated bus b)) (bool_byte (arm_calibrated s))"
proof -
  have same: "arm_getSpeed m u = arm_getSpeed m s" "arm_getDirection m u = arm_getDirection m s"
    "arm_getPosition m u = arm_getPosition m s" "bool_byte (arm_calibrated u) = bool_byte (arm_calibrated s)"
    if "arm_same s u" for u
    using arm_same_get [OF that] by (simp_all add: getter_defs)
  note query = arm_query [OF assms(1), where j = j]
  have logs:
    "drop (length (i2c_log b)) (i2c_log (snd (arm_drv_getSpeed bus m b))) = bus_read ARM_DRIVER_ADDRESS [1, m]"
    "drop (length (i2c_log b)) (i2c_log (snd (arm_drv_getDirection bus m b))) = bus_read ARM_DRIVER_ADDRESS [4, m]"
    "drop (length (i2c_log b)) (i2c_log (snd (arm_drv_getPosition bus m b))) = bus_read ARM_DRIVER_ADDRESS [6, m]"
    "drop (length (i2c_log b)) (i2c_log (snd (arm_drv_isCalibrated bus b))) = bus_read ARM_DRIVER_ADDRESS [10]"
    by (simp_all add: arm_drv_getSpeed_def arm_drv_getDirection_def arm_drv_getPosition_def arm_drv_isCalibrated_def
        case_prod_beta)
  have "answered (snd (arm_drv_getSpeed bus m b)) (arm_getSpeed m s)"
    using query [where bs = "[1, m]" and val = "arm_getSpeed m"] same(1) unfolding answered_def logs Let_def
    by (auto simp: processCommands_def arm_command_of_code_def)
  moreover have "answered (snd (arm_drv_getDirection bus m b)) (arm_getDirection m s)"
    using query [where bs = "[4, m]" and val = "arm_getDirection m"] same(2) unfolding answered_def logs Let_def
    by (auto simp: processCommands_def arm_command_of_code_def)
  moreover have "answered (snd (arm_drv_getPosition bus m b)) (arm_getPosition m s)"
    using query [where bs = "[6, m]" and val = "arm_getPosition m"] same(3) unfolding answered_def logs Let_def
    by (auto simp: processCommands_def arm_command_of_code_def)
  moreover have "answered (snd (arm_drv_isCalibrated bus b)) (bool_byte (arm_calibrated s))"
    using query [where bs = "[10]" and val = "\<lambda>u. bool_byte (arm_calibrated u)"] same(4) unfolding answered_def logs Let_def
    by (auto simp: processCommands_def arm_command_of_code_def)
  ultimately show ?thesis by blast
qed

theorem arm_queries_answered_witness:
  "\<exists>t. twi_run (butlast (arm_wire 0 AwFree (bus_read ARM_DRIVER_ADDRESS [6, GRIPPER]))) twi_cleared = Some t \<and> t_TWDR t = 0"
  using arm_queries_answered [OF twi_cleared_buf, where b = i2c_static_init and j = 0 and bus = "\<lambda>_. Some 0" and m = GRIPPER]
  unfolding Let_def
  by (auto simp: arm_drv_getPosition_def getter_defs toJoint_def twi_cleared_def arm.defs arm_cleared_def joint_zero_def)

text \<open>The mode of the arm. The bridge asks for it without naming a motor, but the driver takes the motor
  number from its buffer: the answer is the mode of the joint that the second byte of the last
  longer message names, and that of the elbow when this byte is not the number of a motor.\<close>

theorem arm_mode_of_last_motor:
  fixes b :: "'a i2c_scheme" and s :: twi and bus :: i2c_bus and j :: u8
  assumes "length (TWI_buf s) = 5"
  defines "es \<equiv> arm_wire j AwFree (drop (length (i2c_log b)) (i2c_log (snd (arm_drv_getMode bus b))))"
  shows "\<exists>t u. twi_run (butlast es) s = Some t \<and> t_TWDR t = arm_getMode (TWI_buf s ! 1) s \<and>
    twi_run es s = Some u \<and> arm_same s u"
proof -
  have "drop (length (i2c_log b)) (i2c_log (snd (arm_drv_getMode bus b))) = bus_read ARM_DRIVER_ADDRESS [9]"
    by (simp add: arm_drv_getMode_def)
  moreover have "arm_getMode (TWI_buf s ! 1) u = arm_getMode (TWI_buf s ! 1) s" if "arm_same s u" for u
    using arm_same_get [OF that] by (simp add: getter_defs)
  ultimately show ?thesis
    using arm_query [OF assms(1), where j = j and bs = "[9]" and val = "arm_getMode (TWI_buf s ! 1)"] assms(1)
    unfolding es_def by (auto simp: processCommands_def arm_command_of_code_def)
qed

theorem arm_mode_of_last_motor_witness:
  "\<exists>t. twi_run (butlast (arm_wire 0 AwFree (bus_read ARM_DRIVER_ADDRESS [9])))
     (twi_cleared\<lparr>joints := [joint_zero, joint_zero\<lparr>j_mode := MODE_POS\<rparr>, joint_zero, joint_zero], TWI_buf := [6, ELBOW, 0, 0, 0]\<rparr>) =
       Some t \<and> t_TWDR t = MODE_POS"
  using arm_mode_of_last_motor [where s = "twi_cleared\<lparr>joints := [joint_zero, joint_zero\<lparr>j_mode := MODE_POS\<rparr>, joint_zero, joint_zero],
      TWI_buf := [6, ELBOW, 0, 0, 0]\<rparr>" and b = i2c_static_init and j = 0 and bus = "\<lambda>_. Some 0"]
  by (auto simp: arm_drv_getMode_def getter_defs toJoint_def)

end
