(* ===== verification/Priority_Queue.thy ===== *)
theory Priority_Queue
  imports Main "HOL-Library.Multiset"
begin

text \<open>
  \<open>std::priority_queue\<close> as its clients use it (\<open>InterfaceManager\<close>, \<open>RequestQueuer\<close>): the locale states
  what the container promises for a comparison by a rank (the element of least rank on top, none
  lost), and proves once what draining it yields. The implementation below keeps a sorted list;
  elements of equal rank, whose order the standard leaves open, come out in the order of insertion.
\<close>

locale priority_queue =
  fixes rank :: "'a \<Rightarrow> 'k::linorder"
    and empty :: 'q
    and push :: "'a \<Rightarrow> 'q \<Rightarrow> 'q"
    and top :: "'q \<Rightarrow> 'a"
    and pop :: "'q \<Rightarrow> 'q"
    and elems :: "'q \<Rightarrow> 'a multiset"
    and invar :: "'q \<Rightarrow> bool"
  assumes elems_empty: "elems empty = {#}"
    and invar_empty: "invar empty"
    and elems_push: "invar q \<Longrightarrow> elems (push x q) = add_mset x (elems q)"
    and invar_push: "invar q \<Longrightarrow> invar (push x q)"
    and top_in: "invar q \<Longrightarrow> elems q \<noteq> {#} \<Longrightarrow> top q \<in># elems q"
    and top_least: "invar q \<Longrightarrow> x \<in># elems q \<Longrightarrow> rank (top q) \<le> rank x"
    and elems_pop: "invar q \<Longrightarrow> elems q \<noteq> {#} \<Longrightarrow> elems (pop q) = elems q - {#top q#}"
    and invar_pop: "invar q \<Longrightarrow> elems q \<noteq> {#} \<Longrightarrow> invar (pop q)"
begin

lemma push_all:
  "invar q \<Longrightarrow> invar (fold push xs q) \<and> elems (fold push xs q) = mset xs + elems q"
  by (induction xs arbitrary: q) (simp_all add: invar_push elems_push)

lemma add_top_pop: "invar q \<Longrightarrow> elems q \<noteq> {#} \<Longrightarrow> add_mset (top q) (elems (pop q)) = elems q"
  by (simp add: elems_pop top_in)

lemma size_pop: "invar q \<Longrightarrow> elems q \<noteq> {#} \<Longrightarrow> size (elems (pop q)) < size (elems q)"
  by (simp add: elems_pop top_in size_Diff_singleton nonempty_has_size)

text \<open>Taking the top element away \<open>n\<close> times.\<close>

lemma drain:
  assumes "invar q"
  defines "ds n \<equiv> map (\<lambda>k. top ((pop ^^ k) q)) [0..<n]"
  shows "n \<le> size (elems q) \<Longrightarrow>
    invar ((pop ^^ n) q) \<and> mset (ds n) + elems ((pop ^^ n) q) = elems q \<and>
    sorted (map rank (ds n)) \<and> (\<forall>x \<in> set (ds n). \<forall>y \<in># elems ((pop ^^ n) q). rank x \<le> rank y)"
proof (induction n)
  case 0
  then show ?case using assms(1) by (simp add: ds_def)
next
  case (Suc n)
  let ?q = "(pop ^^ n) q"
  have ih: "invar ?q" "mset (ds n) + elems ?q = elems q" "sorted (map rank (ds n))"
    "\<forall>x \<in> set (ds n). \<forall>y \<in># elems ?q. rank x \<le> rank y"
    using Suc by auto
  have ne: "elems ?q \<noteq> {#}"
  proof
    assume "elems ?q = {#}"
    with ih(2) have "elems q = mset (ds n)" by simp
    then have "size (elems q) = n" by (simp only: size_mset) (simp add: ds_def)
    with Suc.prems show False by simp
  qed
  have ds: "ds (Suc n) = ds n @ [top ?q]" by (simp add: ds_def)
  have sub: "y \<in># elems ?q" if "y \<in># elems (pop ?q)" for y
    using that ih(1) ne by (simp add: elems_pop in_diffD)
  have "mset (ds (Suc n)) + elems (pop ?q) = elems q"
    unfolding ds ih(2) [symmetric] using add_top_pop [OF ih(1) ne]
    by (simp add: add.commute)
  then show ?case
    using ih(1,3,4) ne top_in [OF ih(1) ne] sub
    by (auto simp: ds sorted_append top_least invar_pop)
qed

end

section \<open>A sorted list\<close>

text \<open>\<open>cmp x y\<close> is the comparison object of the queue: \<open>y\<close> comes out before \<open>x\<close>.\<close>

fun pq_push :: "('a \<Rightarrow> 'a \<Rightarrow> bool) \<Rightarrow> 'a \<Rightarrow> 'a list \<Rightarrow> 'a list" where
  "pq_push cmp x [] = [x]"
| "pq_push cmp x (y # ys) = (if cmp y x then x # y # ys else y # pq_push cmp x ys)"

definition pq_top :: "'a list \<Rightarrow> 'a" where
  "pq_top q = hd q"

definition pq_pop :: "'a list \<Rightarrow> 'a list" where
  "pq_pop q = tl q"

lemma mset_pq_push [simp]: "mset (pq_push cmp x q) = add_mset x (mset q)"
  by (induction q) auto

lemma set_pq_push [simp]: "set (pq_push cmp x q) = insert x (set q)"
  by (induction q) auto

lemma length_pq_push [simp]: "length (pq_push cmp x q) = Suc (length q)"
  by (induction q) auto

lemma sorted_pq_push:
  fixes rank :: "'a \<Rightarrow> 'k::linorder"
  assumes "\<And>x y. cmp x y \<longleftrightarrow> rank y < rank x"
  shows "sorted (map rank q) \<Longrightarrow> sorted (map rank (pq_push cmp x q))"
  by (induction q) (auto simp: assms)

lemma pq_priority_queue:
  fixes rank :: "'a \<Rightarrow> 'k::linorder"
  assumes "\<And>x y. cmp x y \<longleftrightarrow> rank y < rank x"
  shows "priority_queue rank [] (pq_push cmp) pq_top pq_pop mset (\<lambda>q. sorted (map rank q))"
proof (unfold_locales, goal_cases)
  case (4 q x)
  then show ?case by (rule sorted_pq_push [OF assms])
next
  case (6 q x)
  then show ?case by (cases q) (auto simp: pq_top_def)
next
  case (7 q)
  then show ?case by (cases q) (simp_all add: pq_top_def pq_pop_def)
next
  case (8 q)
  then show ?case by (cases q) (simp_all add: pq_pop_def)
qed (simp_all add: pq_top_def)

end
