(* ===== verification/Request_Queuer.thy ===== *)
theory Request_Queuer
  imports Priority_Queue
begin

text \<open>
  The queue of client requests (\<open>server/control_server/src/RequestQueuer.cpp\<close>): \<open>addRequest\<close>, called by
  the network thread, and the executor thread, whose cycle is cut where it releases the mutex. The
  JSON reader, the clock and the request processors are parameters.
\<close>

section \<open>The JSON reader\<close>

text \<open>
  What \<open>minijson\<close> yields: a value is an object, given by the fields it delivers before it ends or a
  parse error is thrown (\<open>False\<close>), or anything else. The conversions are parameters; \<open>None\<close> is the
  exception of a value of another kind, which is not a \<open>parse_error\<close>.
\<close>

datatype 'v json = JAtom 'v | JObject "(string \<times> 'v json) list" bool

record 'v minijson =
  mj_parse :: "string \<Rightarrow> (string \<times> 'v json) list \<times> bool"
  mj_long :: "'v json \<Rightarrow> int option"
  mj_bool :: "'v json \<Rightarrow> bool option"
  mj_string :: "'v json \<Rightarrow> string option"

section \<open>State\<close>

record 'ip request =
  rq_internalId :: int
  rq_serial :: int
  rq_skipResponse :: bool
  rq_ipAddress :: "'ip option"
  rq_reqJson :: string
  rq_sendTimestamp :: string
  rq_receiveTimestamp :: string

definition new_request :: "'ip request" where
  "new_request = \<lparr>rq_internalId = -1, rq_serial = -1, rq_skipResponse = False, rq_ipAddress = None, rq_reqJson = [],
     rq_sendTimestamp = [], rq_receiveTimestamp = []\<rparr>"

text \<open>\<open>RequestValueComparer\<close>.\<close>

definition request_cmp :: "'ip request \<Rightarrow> 'ip request \<Rightarrow> bool" where
  "request_cmp r1 r2 \<longleftrightarrow> rq_serial r1 > rq_serial r2"

text \<open>The two callbacks matter by being set or not; \<open>q_current\<close> is the request the executor holds.\<close>

record 'ip queuer =
  q_requests :: "'ip request list"
  q_lastSerial :: int
  q_id :: int
  q_finishCycleThread :: bool
  q_responseSender :: bool
  q_rejectedRequestRemover :: bool
  q_current :: "'ip request option"

definition queuer_init :: "'ip queuer" where
  "queuer_init = \<lparr>q_requests = [], q_lastSerial = 0, q_id = 1, q_finishCycleThread = False, q_responseSender = False,
     q_rejectedRequestRemover = False, q_current = None\<rparr>"

datatype add_result = Added int | INVALID_MESSAGE | Thrown

text \<open>Calls of the callbacks: a response (\<open>None\<close>: the text is read beyond the end of its buffer) and
  whether it is to be transmitted, and the removal of a rejected request.\<close>

datatype queuer_call = CallSender int "string option" bool | CallRemover int

definition REQUEST_QUEUE_MAX_SIZE :: nat where "REQUEST_QUEUE_MAX_SIZE = 100"
definition REQUEST_QUEUE_OVERFLOW_BEHAVIOR :: bool where "REQUEST_QUEUE_OVERFLOW_BEHAVIOR = False"
definition RESPONSE_MAX_LENGTH :: nat where "RESPONSE_MAX_LENGTH = 512"

section \<open>\<open>addRequest\<close>\<close>

definition set_field :: "'v minijson \<Rightarrow> string \<times> 'v json \<Rightarrow> 'ip request \<Rightarrow> 'ip request option" where
  "set_field mj kv r =
     (let (k, v) = kv in
      if k = ''serial'' then map_option (\<lambda>x. r\<lparr>rq_serial := x\<rparr>) (mj_long mj v)
      else if k = ''skip_response'' then map_option (\<lambda>x. r\<lparr>rq_skipResponse := x\<rparr>) (mj_bool mj v)
      else if k = ''tss'' then map_option (\<lambda>x. r\<lparr>rq_sendTimestamp := x\<rparr>) (mj_string mj v)
      else Some r)"

fun set_fields :: "'v minijson \<Rightarrow> (string \<times> 'v json) list \<Rightarrow> 'ip request \<Rightarrow> 'ip request option" where
  "set_fields mj [] r = Some r"
| "set_fields mj (kv # kvs) r = Option.bind (set_field mj kv r) (set_fields mj kvs)"

text \<open>The loop that clears the queue compares its counter with the size that shrinks.\<close>

function clear_queue :: "nat \<Rightarrow> 'ip request list \<Rightarrow> 'ip request list" where
  "clear_queue i q = (if i < length q then clear_queue (i + 1) (pq_pop q) else q)"
  by auto
termination by (relation "measure (\<lambda>(i, q). length q)") (auto simp: pq_pop_def)

declare clear_queue.simps [simp del]

definition remove_oldest :: "'ip queuer \<Rightarrow> queuer_call list \<times> 'ip queuer" where
  "remove_oldest s =
     (if length (q_requests s) = REQUEST_QUEUE_MAX_SIZE
      then
        (let toppedRequest = pq_top (q_requests s);
             s = s\<lparr>q_requests := pq_pop (q_requests s)\<rparr>
         in (if q_rejectedRequestRemover s then [CallRemover (rq_internalId toppedRequest)] else [], s))
      else ([], s))"

definition reset_serials :: "'ip request \<Rightarrow> 'ip queuer \<Rightarrow> 'ip queuer" where
  "reset_serials request s =
     (if rq_serial request = 0 then s\<lparr>q_requests := clear_queue 0 (q_requests s), q_lastSerial := 0\<rparr> else s)"

definition nextId :: "'ip queuer \<Rightarrow> int \<times> 'ip queuer" where
  "nextId s = (let s = s\<lparr>q_id := q_id s + 1\<rparr> in (q_id s, s))"

definition addRequest ::
    "'v minijson \<Rightarrow> string \<Rightarrow> string \<Rightarrow> 'ip \<Rightarrow> 'ip queuer \<Rightarrow> add_result \<times> queuer_call list \<times> 'ip queuer" where
  "addRequest mj timestamp requestString address s =
     (if length (q_requests s) = REQUEST_QUEUE_MAX_SIZE \<and> REQUEST_QUEUE_OVERFLOW_BEHAVIOR then (INVALID_MESSAGE, [], s)
      else
        (let (fields, ok) = mj_parse mj requestString in
         case set_fields mj fields new_request of
           None \<Rightarrow> (Thrown, [], s)
         | Some request \<Rightarrow>
             if \<not> ok then (INVALID_MESSAGE, [], s)
             else if rq_serial request < 0 then (INVALID_MESSAGE, [], s)
             else if rq_serial request \<noteq> 0 \<and> rq_serial request \<le> q_lastSerial s then (INVALID_MESSAGE, [], s)
             else
               (let request = request\<lparr>rq_receiveTimestamp := timestamp\<rparr>;
                    (calls, s) = remove_oldest s;
                    s = reset_serials request s;
                    (id, s) = nextId s;
                    request = request\<lparr>rq_internalId := id, rq_ipAddress := Some address, rq_reqJson := requestString\<rparr>
                in (Added id, calls, s\<lparr>q_requests := pq_push request_cmp request (q_requests s)\<rparr>))))"

definition getNumOfMessages :: "'ip queuer \<Rightarrow> nat" where
  "getNumOfMessages s = length (q_requests s)"

section \<open>The executor thread\<close>

text \<open>With the mutex: wait for a request (or the end) and take it.\<close>

definition executor_take :: "'ip queuer \<Rightarrow> 'ip queuer" where
  "executor_take s =
     (if q_current s \<noteq> None \<or> q_finishCycleThread s \<or> q_requests s = [] then s
      else s\<lparr>q_current := Some (pq_top (q_requests s)), q_requests := pq_pop (q_requests s)\<rparr>)"

text \<open>The response buffer is cleared and passed on as a C string.\<close>

definition response_string :: "string \<Rightarrow> string option" where
  "response_string written = (if length written < RESPONSE_MAX_LENGTH then Some written else None)"

text \<open>Without it: the request is executed by the processors, whose response is the parameter.\<close>

definition executor_run :: "('ip request \<Rightarrow> string) \<Rightarrow> 'ip queuer \<Rightarrow> queuer_call list \<times> 'ip request list \<times> 'ip queuer" where
  "executor_run respond s =
     (case q_current s of
        None \<Rightarrow> ([], [], s)
      | Some request \<Rightarrow>
          (let s = s\<lparr>q_current := None\<rparr> in
           if rq_serial request < q_lastSerial s then ([], [], s)
           else
             (let s = s\<lparr>q_lastSerial := rq_serial request\<rparr>
              in (if q_responseSender s
                  then [CallSender (rq_internalId request) (response_string (respond request)) (\<not> rq_skipResponse request)]
                  else [], [request], s))))"

section \<open>The queue\<close>

interpretation requests: priority_queue rq_serial "[]" "pq_push request_cmp" pq_top pq_pop mset "\<lambda>q. sorted (map rq_serial q)"
  by (rule pq_priority_queue) (auto simp: request_cmp_def)

lemma clear_queue_drop: "clear_queue i q = drop ((length q - i + 1) div 2) q"
proof (induction i q rule: clear_queue.induct)
  case (1 i q)
  show ?case
  proof (cases "i < length q")
    case True
    have "(d - 2 + 1) div 2 + 1 = (d + 1) div 2" if "0 < d" for d :: nat
      using that by presburger
    from this [of "length q - i"] True
    have "(length (pq_pop q) - (i + 1) + 1) div 2 + 1 = (length q - i + 1) div 2"
      by (simp add: pq_pop_def)
    then have "drop ((length (pq_pop q) - (i + 1) + 1) div 2) (tl q) = drop ((length q - i + 1) div 2) q"
      by (metis Suc_eq_plus1 drop_Suc)
    then show ?thesis
      using 1 [OF True] True by (subst clear_queue.simps) (simp only: pq_pop_def if_True)
  qed (simp add: clear_queue.simps)
qed

text \<open>The queue is ordered, bounded, and its requests carry different numbers below the counter.\<close>

definition held :: "'ip queuer \<Rightarrow> 'ip request list" where
  "held s = (case q_current s of None \<Rightarrow> q_requests s | Some r \<Rightarrow> r # q_requests s)"

definition queuer_ok :: "'ip queuer \<Rightarrow> bool" where
  "queuer_ok s \<longleftrightarrow> sorted (map rq_serial (q_requests s)) \<and> length (q_requests s) \<le> REQUEST_QUEUE_MAX_SIZE \<and>
     distinct (map rq_internalId (held s)) \<and> (\<forall>r \<in> set (held s). rq_internalId r \<le> q_id s \<and> 0 \<le> rq_serial r)"

lemma queuer_init_ok: "queuer_ok queuer_init"
  by (simp add: queuer_ok_def queuer_init_def held_def)

lemma set_fields_id: "set_fields mj kvs r = Some r' \<Longrightarrow> rq_internalId r' = rq_internalId r"
  by (induction kvs arbitrary: r) (auto simp: set_field_def split: prod.splits if_splits Option.bind_splits)

text \<open>An accepted request: what the queue keeps and where the new one goes.\<close>

definition accepted :: "'v minijson \<Rightarrow> string \<Rightarrow> 'ip queuer \<Rightarrow> 'ip request \<Rightarrow> bool" where
  "accepted mj text s request \<longleftrightarrow>
     set_fields mj (fst (mj_parse mj text)) new_request = Some request \<and> snd (mj_parse mj text) \<and> 0 \<le> rq_serial request \<and>
     (rq_serial request = 0 \<or> q_lastSerial s < rq_serial request)"

definition kept :: "'ip request \<Rightarrow> 'ip queuer \<Rightarrow> 'ip request list" where
  "kept request s =
     (let q = (if length (q_requests s) = REQUEST_QUEUE_MAX_SIZE then pq_pop (q_requests s) else q_requests s)
      in if rq_serial request = 0 then drop ((length q + 1) div 2) q else q)"

definition completed :: "string \<Rightarrow> string \<Rightarrow> 'ip \<Rightarrow> 'ip queuer \<Rightarrow> 'ip request \<Rightarrow> 'ip request" where
  "completed timestamp text address s request =
     request\<lparr>rq_receiveTimestamp := timestamp, rq_internalId := q_id s + 1, rq_ipAddress := Some address, rq_reqJson := text\<rparr>"

lemma addRequest_accepted:
  assumes "accepted mj text s request"
  shows "addRequest mj timestamp text address s =
    (Added (q_id s + 1),
     if length (q_requests s) = REQUEST_QUEUE_MAX_SIZE \<and> q_rejectedRequestRemover s
     then [CallRemover (rq_internalId (pq_top (q_requests s)))] else [],
     s\<lparr>q_requests := pq_push request_cmp (completed timestamp text address s request) (kept request s),
       q_lastSerial := if rq_serial request = 0 then 0 else q_lastSerial s, q_id := q_id s + 1\<rparr>)"
  using assms
  by (auto simp: addRequest_def accepted_def REQUEST_QUEUE_OVERFLOW_BEHAVIOR_def remove_oldest_def reset_serials_def
      nextId_def kept_def completed_def Let_def clear_queue_drop case_prod_beta REQUEST_QUEUE_MAX_SIZE_def)

lemma addRequest_rejected:
  fixes s :: "'ip queuer"
  assumes "\<And>request. \<not> accepted mj text s request"
  shows "snd (addRequest mj timestamp text address s) = ([], s)" "fst (addRequest mj timestamp text address s) \<noteq> Added n"
proof -
  obtain fields ok where p: "mj_parse mj text = (fields, ok)" by fastforce
  have "addRequest mj timestamp text address s = (Thrown, [], s) \<or> addRequest mj timestamp text address s = (INVALID_MESSAGE, [], s)"
  proof (cases "set_fields mj fields (new_request :: 'ip request)")
    case None
    then show ?thesis by (simp add: addRequest_def p REQUEST_QUEUE_OVERFLOW_BEHAVIOR_def)
  next
    case (Some r)
    then consider "\<not> ok" | "rq_serial r < 0" | "rq_serial r \<noteq> 0" "rq_serial r \<le> q_lastSerial s"
      using assms [of r] by (auto simp: accepted_def p)
    then show ?thesis using Some by cases (simp_all add: addRequest_def p REQUEST_QUEUE_OVERFLOW_BEHAVIOR_def)
  qed
  then show "snd (addRequest mj timestamp text address s) = ([], s)" "fst (addRequest mj timestamp text address s) \<noteq> Added n"
    by auto
qed

lemma kept_drop: "\<exists>n. kept request s = drop n (q_requests s)"
proof -
  have "\<exists>n. tl q = drop n q" "\<exists>n. drop k (tl q) = drop n q" for k and q :: "'a request list"
    using drop_Suc [of 0 q] drop_Suc [of k q] by (metis drop_0)+
  moreover have "\<exists>n. q = drop n q" for q :: "'a request list" by (metis drop_0)
  moreover have "\<exists>n. drop k q = drop n q" for k and q :: "'a request list" by blast
  ultimately show ?thesis unfolding kept_def Let_def pq_pop_def by (simp split: if_split)
qed

lemma kept_subset: "set (kept request s) \<subseteq> set (q_requests s)"
  using kept_drop [of request s] by (metis set_drop_subset)

lemma kept_length: "length (q_requests s) \<le> REQUEST_QUEUE_MAX_SIZE \<Longrightarrow> length (kept request s) < REQUEST_QUEUE_MAX_SIZE"
  by (auto simp: kept_def Let_def pq_pop_def REQUEST_QUEUE_MAX_SIZE_def)

lemma add_ok:
  assumes "queuer_ok s"
  shows "queuer_ok (snd (snd (addRequest mj timestamp text address s)))"
proof (cases "\<exists>request. accepted mj text s request")
  case False
  then show ?thesis using addRequest_rejected(1) [of mj "text" s timestamp address] assms by simp
next
  case True
  then obtain request where req: "accepted mj text s request" by blast
  define r where "r = completed timestamp text address s request"
  obtain n where n: "kept request s = drop n (q_requests s)" using kept_drop by blast
  have r: "rq_internalId r = q_id s + 1" "0 \<le> rq_serial r" "rq_serial r = rq_serial request"
    using req by (simp_all add: r_def completed_def accepted_def)
  have sorted: "sorted (map rq_serial (kept request s))"
    using assms by (simp add: n queuer_ok_def drop_map [symmetric] sorted_wrt_drop)
  define t where "t = snd (snd (addRequest mj timestamp text address s))"
  have t: "q_requests t = pq_push request_cmp r (kept request s)" "q_current t = q_current s" "q_id t = q_id s + 1"
    by (simp_all add: t_def addRequest_accepted [OF req] r_def)
  have "distinct (map rq_internalId (held s))" "\<forall>x \<in> set (held s). rq_internalId x \<le> q_id s"
    using assms by (simp_all add: queuer_ok_def)
  then have fresh: "rq_internalId r \<notin> rq_internalId ` set (held s)"
    using r(1) by fastforce
  have kept_distinct: "distinct (map rq_internalId (case q_current s of None \<Rightarrow> kept request s | Some c \<Rightarrow> c # kept request s))"
    using \<open>distinct (map rq_internalId (held s))\<close> kept_subset [of request s]
    by (auto simp: held_def n drop_map [symmetric] distinct_drop split: option.splits dest!: in_set_dropD)
  have held: "mset (held t) = add_mset r (mset (case q_current s of None \<Rightarrow> kept request s | Some c \<Rightarrow> c # kept request s))"
    by (simp add: held_def t split: option.split)
  have sub: "set (case q_current s of None \<Rightarrow> kept request s | Some c \<Rightarrow> c # kept request s) \<subseteq> set (held s)"
    using kept_subset [of request s] by (auto simp: held_def split: option.splits)
  have "mset (map rq_internalId (held t)) =
      mset (rq_internalId r # map rq_internalId (case q_current s of None \<Rightarrow> kept request s | Some c \<Rightarrow> c # kept request s))"
    using held by simp
  from mset_eq_imp_distinct_iff [OF this] have "distinct (map rq_internalId (held t))"
    using fresh kept_distinct sub by auto
  moreover have "set (held t) = insert r (set (case q_current s of None \<Rightarrow> kept request s | Some c \<Rightarrow> c # kept request s))"
    using arg_cong [OF held, of set_mset] by simp
  then have "\<forall>x \<in> set (held t). rq_internalId x \<le> q_id t \<and> 0 \<le> rq_serial x"
    using sub assms r by (fastforce simp: queuer_ok_def t)
  moreover have "sorted (map rq_serial (q_requests t))" using sorted by (simp add: t requests.invar_push)
  moreover have "length (q_requests t) \<le> REQUEST_QUEUE_MAX_SIZE"
    using kept_length [of s request] assms by (simp add: t queuer_ok_def)
  ultimately show ?thesis by (simp add: queuer_ok_def flip: t_def)
qed

lemma take_ok: "queuer_ok s \<Longrightarrow> queuer_ok (executor_take s)"
  by (cases "q_requests s") (auto simp: queuer_ok_def executor_take_def held_def pq_top_def pq_pop_def)

lemma executor_run_frame:
  "q_requests (snd (snd (executor_run respond s))) = q_requests s" "q_id (snd (snd (executor_run respond s))) = q_id s"
  "q_current (snd (snd (executor_run respond s))) = None"
  by (simp_all add: executor_run_def Let_def split: option.split)

lemma run_ok: "queuer_ok s \<Longrightarrow> queuer_ok (snd (snd (executor_run respond s)))"
  by (auto simp: queuer_ok_def executor_run_frame held_def split: option.splits)

section \<open>Runs\<close>

text \<open>A request arrives (at a time, with a text, from an address), or the executor makes its next step.\<close>

datatype 'ip queuer_event = QAdd string string 'ip | QTake | QRun | QCallbacks

fun queuer_step ::
    "'v minijson \<Rightarrow> ('ip request \<Rightarrow> string) \<Rightarrow> 'ip queuer_event \<Rightarrow> 'ip queuer \<Rightarrow> 'ip request list \<times> 'ip queuer" where
  "queuer_step mj respond (QAdd timestamp msg address) s = ([], snd (snd (addRequest mj timestamp msg address s)))"
| "queuer_step mj respond QTake s = ([], executor_take s)"
| "queuer_step mj respond QRun s = snd (executor_run respond s)"
| "queuer_step mj respond QCallbacks s = ([], s\<lparr>q_responseSender := True, q_rejectedRequestRemover := True\<rparr>)"

text \<open>The requests executed in a run, in this order, and the state after it.\<close>

fun queuer_run ::
    "'v minijson \<Rightarrow> ('ip request \<Rightarrow> string) \<Rightarrow> 'ip queuer_event list \<Rightarrow> 'ip queuer \<Rightarrow> 'ip request list \<times> 'ip queuer" where
  "queuer_run mj respond [] s = ([], s)"
| "queuer_run mj respond (e # es) s =
     (let (done1, s) = queuer_step mj respond e s; (done2, s) = queuer_run mj respond es s in (done1 @ done2, s))"

lemma held_callbacks [simp]: "held (s\<lparr>q_responseSender := b, q_rejectedRequestRemover := c\<rparr>) = held s"
  by (simp add: held_def split: option.split)

lemma step_ok: "queuer_ok s \<Longrightarrow> queuer_ok (snd (queuer_step mj respond e s))"
  by (cases e) (simp_all add: add_ok take_ok run_ok, simp add: queuer_ok_def)

text \<open>No message that resets the serial counter.\<close>

fun no_reset :: "'v minijson \<Rightarrow> 'ip queuer_event \<Rightarrow> bool" where
  "no_reset mj (QAdd timestamp msg address) \<longleftrightarrow>
     (case set_fields mj (fst (mj_parse mj msg)) new_request of None \<Rightarrow> True | Some r \<Rightarrow> rq_serial (r :: 'ip request) \<noteq> 0)"
| "no_reset mj _ \<longleftrightarrow> True"

text \<open>One step: the counter does not fall, and what is executed is not behind it.\<close>

lemma step_serial:
  assumes "no_reset mj e"
  shows "q_lastSerial s \<le> q_lastSerial (snd (queuer_step mj respond e s)) \<and>
    (\<forall>r \<in> set (fst (queuer_step mj respond e s)). q_lastSerial s \<le> rq_serial r \<and>
       q_lastSerial (snd (queuer_step mj respond e s)) = rq_serial r)"
proof (cases e)
  case (QAdd timestamp msg address)
  show ?thesis
  proof (cases "\<exists>request. accepted mj msg s request")
    case True
    then obtain request where req: "accepted mj msg s request" by blast
    then have "rq_serial request \<noteq> 0" using assms by (simp add: QAdd accepted_def)
    then show ?thesis by (simp add: QAdd addRequest_accepted [OF req])
  next
    case False
    then show ?thesis by (simp add: QAdd addRequest_rejected(1))
  qed
qed (simp_all add: executor_take_def executor_run_def Let_def split: option.split)

lemma run_serials:
  assumes "list_all (no_reset mj) es"
  shows "sorted (map rq_serial (fst (queuer_run mj respond es s))) \<and>
    (\<forall>r \<in> set (fst (queuer_run mj respond es s)). q_lastSerial s \<le> rq_serial r)"
  using assms
proof (induction es arbitrary: s)
  case (Cons e es)
  define t where "t = snd (queuer_step mj respond e s)"
  have t: "q_lastSerial s \<le> q_lastSerial t" "\<forall>r \<in> set (fst (queuer_step mj respond e s)). q_lastSerial s \<le> rq_serial r \<and> q_lastSerial t = rq_serial r"
    using step_serial [of mj e s respond] Cons.prems by (simp_all add: t_def)
  have one: "length (fst (queuer_step mj respond e s)) \<le> 1"
    by (cases e) (simp_all add: executor_run_def Let_def split: option.split)
  have "queuer_run mj respond (e # es) s = (fst (queuer_step mj respond e s) @ fst (queuer_run mj respond es t), snd (queuer_run mj respond es t))"
    by (simp add: t_def case_prod_beta Let_def)
  moreover have "sorted (map rq_serial (fst (queuer_step mj respond e s)))"
    using one by (cases "fst (queuer_step mj respond e s)") simp_all
  moreover have "sorted (map rq_serial (fst (queuer_run mj respond es t)))" "\<forall>r \<in> set (fst (queuer_run mj respond es t)). q_lastSerial t \<le> rq_serial r"
    using Cons.IH [of t] Cons.prems by simp_all
  ultimately show ?case using t by (auto simp: sorted_append)
qed simp

text \<open>Numbers of executed requests.\<close>

lemma step_held:
  fixes s :: "'ip queuer" and e :: "'ip queuer_event" and mj :: "'v minijson" and respond :: "'ip request \<Rightarrow> string"
  assumes "queuer_ok s"
  defines "t \<equiv> snd (queuer_step mj respond e s)"
  shows "rq_internalId ` set (held t) \<subseteq> rq_internalId ` set (held s) \<union> {q_id s <..} \<and> q_id s \<le> q_id t \<and>
    rq_internalId ` set (fst (queuer_step mj respond e s)) \<subseteq> rq_internalId ` set (held s) - rq_internalId ` set (held t)"
proof (cases e)
  case (QAdd timestamp msg address)
  show ?thesis
  proof (cases "\<exists>request. accepted mj msg s request")
    case True
    then obtain request where req: "accepted mj msg s request" by blast
    show ?thesis
      using kept_subset [of request s]
      by (auto simp: t_def QAdd addRequest_accepted [OF req] held_def completed_def split: option.splits)
  next
    case False
    then show ?thesis by (simp add: t_def QAdd addRequest_rejected(1))
  qed
next
  case QTake
  then show ?thesis
    by (cases "q_requests s") (auto simp: t_def executor_take_def held_def pq_top_def pq_pop_def split: option.splits)
next
  case QRun
  then show ?thesis
    using assms(1)
    by (auto simp: t_def queuer_ok_def held_def executor_run_def Let_def split: option.splits if_splits)
qed (auto simp: t_def)

lemma run_held:
  fixes s :: "'ip queuer" and es :: "'ip queuer_event list" and mj :: "'v minijson" and respond :: "'ip request \<Rightarrow> string"
  assumes "queuer_ok s"
  shows "queuer_ok (snd (queuer_run mj respond es s)) \<and> distinct (map rq_internalId (fst (queuer_run mj respond es s))) \<and>
    rq_internalId ` set (fst (queuer_run mj respond es s)) \<subseteq> rq_internalId ` set (held s) \<union> {q_id s <..}"
  using assms
proof (induction es arbitrary: s)
  case (Cons e es)
  define t where "t = snd (queuer_step mj respond e s)"
  define xs where "xs = fst (queuer_step mj respond e s)"
  note step = step_held [OF Cons.prems, of mj respond e, folded t_def xs_def]
  have ok: "queuer_ok t" using step_ok [OF Cons.prems] by (simp add: t_def)
  note ih = Cons.IH [OF ok]
  have "\<forall>i \<in> rq_internalId ` set (held s). i \<le> q_id s" using Cons.prems by (auto simp: queuer_ok_def)
  then have "rq_internalId ` set xs \<inter> rq_internalId ` set (fst (queuer_run mj respond es t)) = {}"
    using step ih by fastforce
  moreover have "length xs \<le> 1"
    by (cases e) (simp_all add: xs_def executor_run_def Let_def split: option.split)
  then have "distinct (map rq_internalId xs)" by (cases xs) simp_all
  ultimately have dist: "distinct (map rq_internalId (xs @ fst (queuer_run mj respond es t)))"
    using ih by simp
  have eq: "queuer_run mj respond (e # es) s = (xs @ fst (queuer_run mj respond es t), snd (queuer_run mj respond es t))"
    by (simp add: t_def xs_def case_prod_beta Let_def)
  note ih3 = conjunct2 [OF conjunct2 [OF ih]]
  have "{q_id t <..} \<subseteq> {q_id s <..}" using conjunct1 [OF conjunct2 [OF step]] by auto
  then have "rq_internalId ` set (held t) \<union> {q_id t <..} \<subseteq> rq_internalId ` set (held s) \<union> {q_id s <..}"
    by (rule Un_least [OF conjunct1 [OF step] le_supI2])
  then have "rq_internalId ` set (fst (queuer_run mj respond es t)) \<subseteq> rq_internalId ` set (held s) \<union> {q_id s <..}"
    by (rule order_trans [OF ih3])
  moreover have "rq_internalId ` set xs \<subseteq> rq_internalId ` set (held s)" using conjunct2 [OF conjunct2 [OF step]] by blast
  ultimately have "rq_internalId ` set (xs @ fst (queuer_run mj respond es t)) \<subseteq> rq_internalId ` set (held s) \<union> {q_id s <..}"
    by (simp only: set_append image_Un) blast
  with conjunct1 [OF ih] dist show ?case unfolding eq fst_conv snd_conv by (intro conjI)
qed simp

text \<open>Executing everything that is queued.\<close>

lemma drain_round:
  assumes "q_current s = None" and "\<not> q_finishCycleThread s" and "q_requests s = r # rs" and "q_lastSerial s \<le> rq_serial r"
  shows "queuer_run mj respond [QTake, QRun] s = ([r], s\<lparr>q_requests := rs, q_lastSerial := rq_serial r\<rparr>)"
  using assms by (simp add: executor_take_def executor_run_def pq_top_def pq_pop_def Let_def)

lemma queuer_run_append:
  "queuer_run mj respond (es @ fs) s =
     (fst (queuer_run mj respond es s) @ fst (queuer_run mj respond fs (snd (queuer_run mj respond es s))),
      snd (queuer_run mj respond fs (snd (queuer_run mj respond es s))))"
  by (induction es arbitrary: s) (simp_all add: case_prod_beta Let_def)

lemma drain_all:
  assumes "q_current s = None" and "\<not> q_finishCycleThread s" and "sorted (map rq_serial (q_requests s))"
    and "\<forall>r \<in> set (q_requests s). q_lastSerial s \<le> rq_serial r"
  defines "es n \<equiv> concat (replicate n [QTake, QRun])"
  shows "queuer_run mj respond (es (length (q_requests s))) s =
    (q_requests s, s\<lparr>q_requests := [], q_lastSerial := last (q_lastSerial s # map rq_serial (q_requests s))\<rparr>)"
  using assms(1-4) unfolding es_def
proof (induction "q_requests s" arbitrary: s)
  case Nil
  then show ?case by (cases s) simp
next
  case (Cons r rs)
  define t where "t = s\<lparr>q_requests := rs, q_lastSerial := rq_serial r\<rparr>"
  have eq: "q_requests s = r # rs" using Cons.hyps(2) by simp
  have round: "queuer_run mj respond [QTake, QRun] s = ([r], t)"
    unfolding t_def using Cons.prems eq by (intro drain_round) simp_all
  have rest: "queuer_run mj respond (concat (replicate (length (q_requests t)) [QTake, QRun])) t =
      (q_requests t, t\<lparr>q_requests := [], q_lastSerial := last (q_lastSerial t # map rq_serial (q_requests t))\<rparr>)"
    using Cons.prems eq by (intro Cons.hyps(1)) (simp_all add: t_def)
  have more: "concat (replicate (length (q_requests s)) [QTake, QRun]) = [QTake, QRun] @ concat (replicate (length (q_requests t)) [QTake, QRun])"
    by (simp add: eq t_def)
  have "queuer_run mj respond (concat (replicate (length (q_requests s)) [QTake, QRun])) s =
      ([r] @ q_requests t, t\<lparr>q_requests := [], q_lastSerial := last (q_lastSerial t # map rq_serial (q_requests t))\<rparr>)"
    by (simp only: more queuer_run_append round rest fst_conv snd_conv)
  then show ?case by (simp add: t_def eq)
qed

section \<open>Properties\<close>

text \<open>C11: Requests in order. As long as no message resets the serial numbers, and in whatever order messages
  arrive and the executor is scheduled, requests are executed in the order of their serial
  numbers, none of them twice, and the queue never holds more than a hundred of them.\<close>

theorem requests_in_order:
  fixes es :: "'ip queuer_event list" and mj :: "'v minijson" and respond :: "'ip request \<Rightarrow> string"
  assumes "list_all (no_reset mj) es"
  defines "executed \<equiv> fst (queuer_run mj respond es queuer_init)" and "s \<equiv> snd (queuer_run mj respond es queuer_init)"
  shows "sorted (map rq_serial executed) \<and> distinct (map rq_internalId executed) \<and> getNumOfMessages s \<le> 100 \<and>
    sorted (map rq_serial (q_requests s))"
  using run_serials [OF assms(1), of respond queuer_init] run_held [OF queuer_init_ok, of mj respond es]
  by (simp add: executed_def s_def queuer_ok_def getNumOfMessages_def REQUEST_QUEUE_MAX_SIZE_def)

text \<open>A reader for the tests below: the text is the serial number in unary.\<close>

definition unary_reader :: "nat minijson" where
  "unary_reader = \<lparr>mj_parse = \<lambda>t. ([(''serial'', JAtom (length t))], True),
     mj_long = \<lambda>v. (case v of JAtom n \<Rightarrow> Some (int n) | JObject _ _ \<Rightarrow> None), mj_bool = \<lambda>_. None, mj_string = \<lambda>_. None\<rparr>"

theorem requests_in_order_witness:
  "sorted (map rq_serial (fst (queuer_run unary_reader (\<lambda>_. [])
     [QAdd [] ''ab'' (), QAdd [] ''a'' (), QTake, QRun, QTake, QRun] queuer_init)))"
  using requests_in_order [where mj = unary_reader and respond = "\<lambda>_. []"
      and es = "[QAdd [] ''ab'' (), QAdd [] ''a'' (), QTake, QRun, QTake, QRun]"]
  by (simp add: unary_reader_def set_field_def new_request_def del: queuer_run.simps)

text \<open>A reset of the serial numbers. A message with serial 0 is to clear the queue; it removes half of it,
  the requests with the lower serials. When the executor has worked off what is left, the counter
  stands at the highest old serial again, and every further message of the client up to that
  number is rejected.\<close>

theorem reset_keeps_half:
  fixes s :: "'ip queuer" and mj :: "'v minijson" and respond :: "'ip request \<Rightarrow> string" and address :: 'ip
    and zero after timestamp :: string and request following :: "'ip request"
  assumes "queuer_ok s" and "q_current s = None" and "\<not> q_finishCycleThread s"
    and "2 \<le> length (q_requests s)" and "length (q_requests s) < REQUEST_QUEUE_MAX_SIZE"
    and "accepted mj zero s request" and "rq_serial request = 0"
    and "set_fields mj (fst (mj_parse mj after)) new_request = Some following" and "snd (mj_parse mj after)"
    and "0 < rq_serial following" and "rq_serial following \<le> rq_serial (last (q_requests s))"
  defines "n \<equiv> length (q_requests s)"
  defines "t \<equiv> snd (snd (addRequest mj timestamp zero address s))"
  defines "u \<equiv> snd (queuer_run mj respond (concat (replicate (n div 2 + 1) [QTake, QRun])) t)"
  shows "length (q_requests t) = n div 2 + 1 \<and> q_requests u = [] \<and> q_lastSerial u = rq_serial (last (q_requests s)) \<and>
    addRequest mj timestamp after address u = (INVALID_MESSAGE, [], u)"
proof -
  define r where "r = completed timestamp zero address s request"
  define k where "k = drop ((n + 1) div 2) (q_requests s)"
  have "kept request s = k" using assms(5,7) by (simp add: kept_def k_def n_def Let_def)
  then have t: "t = s\<lparr>q_requests := pq_push request_cmp r k, q_lastSerial := 0, q_id := q_id s + 1\<rparr>"
    using assms(7) by (simp add: t_def addRequest_accepted [OF assms(6)] r_def)
  have k: "k \<noteq> []" "length k = n div 2" "last k = last (q_requests s)" "sorted (map rq_serial k)" "set k \<subseteq> set (q_requests s)"
    using assms(1,4) by (auto simp: k_def n_def queuer_ok_def drop_map [symmetric] sorted_wrt_drop dest: in_set_dropD)
  have nonneg: "\<forall>x \<in> set k. 0 \<le> rq_serial x" using k(5) assms(1,2) by (auto simp: queuer_ok_def held_def)
  have r: "rq_serial r = 0" using assms(7) by (simp add: r_def completed_def)
  have sorted: "sorted (map rq_serial (pq_push request_cmp r k))" using k(4) by (rule requests.invar_push)
  have "0 < rq_serial (last k)" using assms(10,11) k(3) by simp
  have ne: "pq_push request_cmp r xs \<noteq> []" for xs using length_pq_push [of request_cmp r xs] by (metis length_0_conv nat.distinct(1))
  have last: "rq_serial (last (pq_push request_cmp r k)) = rq_serial (last k)"
  proof -
    have "last (pq_push request_cmp r xs) = last xs" if "xs \<noteq> []" "0 < rq_serial (last xs)" for xs
      using that by (induction xs) (auto simp: request_cmp_def r ne split: if_splits)
    then show ?thesis using k(1) \<open>0 < rq_serial (last k)\<close> by simp
  qed
  have "queuer_run mj respond (concat (replicate (length (q_requests t)) [QTake, QRun])) t =
      (q_requests t, t\<lparr>q_requests := [], q_lastSerial := last (q_lastSerial t # map rq_serial (q_requests t))\<rparr>)"
    using assms(2,3) sorted nonneg r by (intro drain_all) (auto simp: t)
  then have u: "u = t\<lparr>q_requests := [], q_lastSerial := rq_serial (last (q_requests s))\<rparr>"
    using k(2,3) ne by (simp add: u_def t last_map last)
  moreover have "addRequest mj timestamp after address u = (INVALID_MESSAGE, [], u)"
    using assms(8-11) by (simp add: addRequest_def REQUEST_QUEUE_OVERFLOW_BEHAVIOR_def case_prod_beta u)
  ultimately show ?thesis using k(2) by (simp add: t)
qed

theorem reset_keeps_half_witness:
  "addRequest unary_reader [] ''ab'' ()
     (snd (queuer_run unary_reader (\<lambda>_. []) [QTake, QRun, QTake, QRun]
       (snd (snd (addRequest unary_reader [] [] ()
         (snd (queuer_run unary_reader (\<lambda>_. []) [QAdd [] ''ab'' (), QAdd [] ''abc'' ()] queuer_init)))))))
   = (INVALID_MESSAGE, [],
      snd (queuer_run unary_reader (\<lambda>_. []) [QTake, QRun, QTake, QRun]
       (snd (snd (addRequest unary_reader [] [] ()
         (snd (queuer_run unary_reader (\<lambda>_. []) [QAdd [] ''ab'' (), QAdd [] ''abc'' ()] queuer_init)))))))"
proof -
  define s where "s = snd (queuer_run unary_reader (\<lambda>_. []) [QAdd [] ''ab'' (), QAdd [] ''abc'' ()] queuer_init)"
  have ok: "queuer_ok s" unfolding s_def by (rule conjunct1 [OF run_held [OF queuer_init_ok]])
  have s: "map rq_serial (q_requests s) = [2, 3]" "q_current s = None" "\<not> q_finishCycleThread s" "q_lastSerial s = 0"
    by (simp_all add: s_def queuer_init_def unary_reader_def addRequest_def set_field_def new_request_def remove_oldest_def
        reset_serials_def nextId_def Let_def REQUEST_QUEUE_MAX_SIZE_def REQUEST_QUEUE_OVERFLOW_BEHAVIOR_def request_cmp_def)
  have len: "length (q_requests s) = 2" using s(1) by (metis length_map length_Cons list.size(3) numeral_2_eq_2)
  have last: "rq_serial (last (q_requests s)) = 3" using s(1) len by (cases "q_requests s") (auto simp: last_map [symmetric])
  have zero: "accepted unary_reader [] s (new_request\<lparr>rq_serial := 0\<rparr>)" and two: "snd (mj_parse unary_reader ''ab'')"
    "set_fields unary_reader (fst (mj_parse unary_reader ''ab'')) new_request = Some (new_request\<lparr>rq_serial := 2\<rparr>)"
    by (simp_all add: accepted_def unary_reader_def set_field_def)
  show ?thesis
    using reset_keeps_half [where timestamp = "[]" and address = "()" and respond = "\<lambda>_. []", OF ok s(2,3) _ _ zero _ two(2,1)] len last
    by (simp add: s_def [symmetric] REQUEST_QUEUE_MAX_SIZE_def numeral_2_eq_2 del: queuer_run.simps)
qed

end
