(* ===== verification/Net_Server.thy ===== *)
theory Net_Server
  imports Request_Queuer
begin

text \<open>
  The UDP front end (\<open>server/control_server/src/NetServer.cpp\<close>): the receive handler, \<open>sendResponse\<close>
  and \<open>removeFromRequestMap\<close>, together with the request queue they use. The handlers run one after
  another in the thread of the \<open>io_context\<close>; the executor thread of the queue calls
  \<open>sendResponse\<close>. Both threads are cut where the other one can get between: the handler between
  \<open>addRequest\<close> and its entry into \<open>sendersMap\<close>, the executor between taking a request and executing it.
\<close>

section \<open>State\<close>

text \<open>An exception that leaves a handler or the executor thread ends the program.\<close>

datatype net_exception = SendersMapMisses int | ParserThrew

text \<open>
  \<open>ns_handler\<close> is the receive handler after \<open>addRequest\<close>: the id to be entered (if any) and
  \<open>recvSenderEndpoint\<close>. \<open>ns_posted\<close> are the removals waiting in the \<open>io_context\<close>, \<open>ns_sent\<close> the
  packets sent.
\<close>

record ('ep, 'ip) net_server =
  ns_queuer :: "'ip queuer"
  ns_sendersMap :: "int \<rightharpoonup> 'ep"
  ns_handler :: "(int option \<times> 'ep) option"
  ns_posted :: "int list"
  ns_sent :: "('ep \<times> string option) list"
  ns_exception :: "net_exception option"

definition MAX_PACKET_SIZE :: nat where "MAX_PACKET_SIZE = 1200"

definition net_init :: "('ep, 'ip) net_server" where
  "net_init = \<lparr>ns_queuer = queuer_init, ns_sendersMap = Map.empty, ns_handler = None, ns_posted = [], ns_sent = [],
     ns_exception = None\<rparr>"

section \<open>Operations\<close>

definition removeFromRequestMap :: "int \<Rightarrow> ('ep, 'ip) net_server \<Rightarrow> ('ep, 'ip) net_server" where
  "removeFromRequestMap key s = s\<lparr>ns_posted := ns_posted s @ [key]\<rparr>"

text \<open>The posted function, run by the \<open>io_context\<close>.\<close>

definition erase_posted :: "('ep, 'ip) net_server \<Rightarrow> ('ep, 'ip) net_server" where
  "erase_posted s =
     (case ns_posted s of
        [] \<Rightarrow> s
      | key # rest \<Rightarrow> s\<lparr>ns_sendersMap := (ns_sendersMap s)(key := None), ns_posted := rest\<rparr>)"

definition sendResponse :: "int \<Rightarrow> string option \<Rightarrow> bool \<Rightarrow> ('ep, 'ip) net_server \<Rightarrow> ('ep, 'ip) net_server" where
  "sendResponse key response transmit s =
     (case ns_sendersMap s key of
        None \<Rightarrow> s\<lparr>ns_exception := Some (SendersMapMisses key)\<rparr>
      | Some endpoint \<Rightarrow>
          (let s = (if transmit then s\<lparr>ns_sent := ns_sent s @ [(endpoint, response)]\<rparr> else s)
           in removeFromRequestMap key s))"

definition call_back :: "queuer_call \<Rightarrow> ('ep, 'ip) net_server \<Rightarrow> ('ep, 'ip) net_server" where
  "call_back c s =
     (case c of CallSender key response transmit \<Rightarrow> sendResponse key response transmit s
      | CallRemover key \<Rightarrow> removeFromRequestMap key s)"

text \<open>
  The receive handler up to \<open>addRequest\<close>. The buffer takes 1200 bytes of a datagram, and
  \<open>string(buff.get(), 0, bytes_recvd)\<close> reads it as a C string first, so the text ends at a zero byte.
\<close>

definition received_text :: "string \<Rightarrow> string" where
  "received_text datagram = takeWhile (\<lambda>c. c \<noteq> CHR 0x00) (take MAX_PACKET_SIZE datagram)"

definition receive ::
    "'v minijson \<Rightarrow> ('ep \<Rightarrow> 'ip) \<Rightarrow> string \<Rightarrow> string \<Rightarrow> 'ep \<Rightarrow> ('ep, 'ip) net_server \<Rightarrow> ('ep, 'ip) net_server" where
  "receive mj address timestamp datagram sender s =
     (if datagram = [] then s
      else
        (let (result, calls, q) = addRequest mj timestamp (received_text datagram) (address sender) (ns_queuer s);
             s = fold call_back calls (s\<lparr>ns_queuer := q\<rparr>)
         in case result of
              Thrown \<Rightarrow> s\<lparr>ns_exception := Some ParserThrew\<rparr>
            | INVALID_MESSAGE \<Rightarrow> s\<lparr>ns_handler := Some (None, sender)\<rparr>
            | Added key \<Rightarrow> s\<lparr>ns_handler := Some (Some key, sender)\<rparr>))"

text \<open>The rest of the handler.\<close>

definition store_sender :: "('ep, 'ip) net_server \<Rightarrow> ('ep, 'ip) net_server" where
  "store_sender s =
     (case ns_handler s of
        None \<Rightarrow> s
      | Some (added, sender) \<Rightarrow>
          (let s = (case added of None \<Rightarrow> s | Some key \<Rightarrow> s\<lparr>ns_sendersMap := (ns_sendersMap s)(key \<mapsto> sender)\<rparr>)
           in s\<lparr>ns_handler := None, ns_queuer := (ns_queuer s)\<lparr>q_responseSender := True, q_rejectedRequestRemover := True\<rparr>\<rparr>))"

definition execute ::
    "('ip request \<Rightarrow> string) \<Rightarrow> ('ep, 'ip) net_server \<Rightarrow> 'ip request list \<times> ('ep, 'ip) net_server" where
  "execute respond s =
     (let (calls, executed, q) = executor_run respond (ns_queuer s)
      in (executed, fold call_back calls (s\<lparr>ns_queuer := q\<rparr>)))"

text \<open>
  The steps of the two threads. The \<open>io_context\<close> starts a handler when the one before has ended; the
  destructor of the queue is not among the steps.
\<close>

datatype 'ep net_event = NReceive string string 'ep | NStore | NErase | NTake | NExecute

definition net_step ::
    "'v minijson \<Rightarrow> ('ep \<Rightarrow> 'ip) \<Rightarrow> ('ip request \<Rightarrow> string) \<Rightarrow> 'ep net_event \<Rightarrow> ('ep, 'ip) net_server \<Rightarrow>
       'ip request list \<times> ('ep, 'ip) net_server" where
  "net_step mj address respond e s =
     (if ns_exception s \<noteq> None then ([], s)
      else case e of
        NReceive timestamp datagram sender \<Rightarrow>
          ([], if ns_handler s = None then receive mj address timestamp datagram sender s else s)
      | NStore \<Rightarrow> ([], store_sender s)
      | NErase \<Rightarrow> ([], if ns_handler s = None then erase_posted s else s)
      | NTake \<Rightarrow> ([], s\<lparr>ns_queuer := executor_take (ns_queuer s)\<rparr>)
      | NExecute \<Rightarrow> execute respond s)"

fun net_run ::
    "'v minijson \<Rightarrow> ('ep \<Rightarrow> 'ip) \<Rightarrow> ('ip request \<Rightarrow> string) \<Rightarrow> 'ep net_event list \<Rightarrow> ('ep, 'ip) net_server \<Rightarrow>
       'ip request list \<times> ('ep, 'ip) net_server" where
  "net_run mj address respond [] s = ([], s)"
| "net_run mj address respond (e # es) s =
     (let (done1, s) = net_step mj address respond e s; (done2, s) = net_run mj address respond es s in (done1 @ done2, s))"

section \<open>Ids of requests\<close>

text \<open>
  What the front end relies on: a request gets a number no request had before, and a number that is
  given up does not come back.
\<close>

locale ticket_office =
  fixes good :: "'s \<Rightarrow> bool" and outstanding :: "'s \<Rightarrow> int set" and counter :: "'s \<Rightarrow> int" and change :: "'e \<Rightarrow> 's \<Rightarrow> 's"
  assumes change_good: "good s \<Longrightarrow> good (change e s)"
    and outstanding_change: "good s \<Longrightarrow> outstanding (change e s) \<subseteq> outstanding s \<union> {counter s <..}"
    and counter_change: "good s \<Longrightarrow> counter s \<le> counter (change e s)"
begin

lemma changes_good: "good s \<Longrightarrow> good (fold change es s)"
  by (induction es arbitrary: s) (simp_all add: change_good)

lemma given_up:
  assumes "good s" "i \<notin> outstanding s" "i \<le> counter s"
  shows "i \<notin> outstanding (fold change es s) \<and> i \<le> counter (fold change es s)"
  using assms
proof (induction es arbitrary: s)
  case (Cons e es)
  have "i \<notin> outstanding (change e s)" using outstanding_change [of s e] Cons.prems by auto
  moreover have "i \<le> counter (change e s)" using counter_change [of s e] Cons.prems by simp
  ultimately show ?case using Cons.IH [of "change e s"] Cons.prems(1) by (simp add: change_good)
qed simp

end

interpretation tickets: ticket_office queuer_ok "\<lambda>s. rq_internalId ` set (held s)" q_id "\<lambda>e s. snd (queuer_step mj respond e s)"
  for mj respond
proof (unfold_locales, goal_cases)
  case (1 s e)
  then show ?case by (rule step_ok)
next
  case (2 s e)
  then show ?case by (rule conjunct1 [OF step_held])
next
  case (3 s e)
  then show ?case by (rule conjunct1 [OF conjunct2 [OF step_held]])
qed

text \<open>A step of the front end is at most one step of the queue.\<close>

fun queue_events :: "('ep \<Rightarrow> 'ip) \<Rightarrow> ('ep, 'ip) net_server \<Rightarrow> 'ep net_event \<Rightarrow> 'ip queuer_event list" where
  "queue_events address s (NReceive timestamp datagram sender) =
     (if ns_handler s = None \<and> datagram \<noteq> [] then [QAdd timestamp (received_text datagram) (address sender)] else [])"
| "queue_events address s NStore = (if ns_handler s = None then [] else [QCallbacks])"
| "queue_events address s NErase = []"
| "queue_events address s NTake = [QTake]"
| "queue_events address s NExecute = [QRun]"

lemma call_back_frame [simp]:
  "ns_queuer (call_back c s) = ns_queuer s" "ns_sendersMap (call_back c s) = ns_sendersMap s"
  "ns_handler (call_back c s) = ns_handler s"
  by (simp_all add: call_back_def sendResponse_def removeFromRequestMap_def Let_def split: queuer_call.split option.split)

lemma call_backs_frame [simp]:
  "ns_queuer (fold call_back cs s) = ns_queuer s" "ns_sendersMap (fold call_back cs s) = ns_sendersMap s"
  "ns_handler (fold call_back cs s) = ns_handler s"
  by (induction cs arbitrary: s) simp_all

lemma receive_queuer:
  "datagram \<noteq> [] \<Longrightarrow> ns_queuer (receive mj address timestamp datagram sender s) =
     snd (snd (addRequest mj timestamp (received_text datagram) (address sender) (ns_queuer s)))"
  by (simp add: receive_def Let_def case_prod_beta split: add_result.split)

lemma receive_nothing: "receive mj address timestamp [] sender s = s"
  by (simp add: receive_def)

lemma store_queuer:
  "ns_queuer (store_sender s) =
     (if ns_handler s = None then ns_queuer s else (ns_queuer s)\<lparr>q_responseSender := True, q_rejectedRequestRemover := True\<rparr>)"
  by (simp add: store_sender_def Let_def split: option.split)

lemma erase_queuer: "ns_queuer (erase_posted s) = ns_queuer s"
  by (simp add: erase_posted_def split: list.split)

lemma net_step_queuer:
  assumes "ns_exception s = None"
  shows "ns_queuer (snd (net_step mj address respond e s)) =
    fold (\<lambda>e s. snd (queuer_step mj respond e s)) (queue_events address s e) (ns_queuer s)"
  using assms
  by (cases e) (simp_all add: net_step_def receive_queuer store_queuer erase_queuer receive_nothing execute_def case_prod_beta Let_def)

lemma net_step_simps:
  "ns_exception s = None \<Longrightarrow> net_step mj address respond NStore s = ([], store_sender s)"
  "ns_exception s = None \<Longrightarrow> net_step mj address respond NTake s = ([], s\<lparr>ns_queuer := executor_take (ns_queuer s)\<rparr>)"
  "ns_exception s = None \<Longrightarrow> net_step mj address respond NExecute s = execute respond s"
  "ns_exception s \<noteq> None \<Longrightarrow> net_step mj address respond e s = ([], s)"
  by (simp_all add: net_step_def)

lemma net_run_append:
  "net_run mj address respond (es @ fs) s =
     (fst (net_run mj address respond es s) @ fst (net_run mj address respond fs (snd (net_run mj address respond es s))),
      snd (net_run mj address respond fs (snd (net_run mj address respond es s))))"
  by (induction es arbitrary: s) (simp_all add: case_prod_beta Let_def)

section \<open>The handler undisturbed\<close>

text \<open>
  Every request in the queue or in execution has its sender in the map, no removal of it is waiting,
  and the callbacks are set once there is a request.
\<close>

definition net_ok :: "('ep \<Rightarrow> 'ip) \<Rightarrow> ('ep, 'ip) net_server \<Rightarrow> bool" where
  "net_ok address s \<longleftrightarrow> queuer_ok (ns_queuer s) \<and> ns_handler s = None \<and>
     (\<forall>r \<in> set (held (ns_queuer s)). \<exists>ep. ns_sendersMap s (rq_internalId r) = Some ep \<and> rq_ipAddress r = Some (address ep)) \<and>
     (\<forall>i \<in> set (ns_posted s). i \<le> q_id (ns_queuer s) \<and> i \<notin> rq_internalId ` set (held (ns_queuer s))) \<and>
     (held (ns_queuer s) \<noteq> [] \<longrightarrow> q_responseSender (ns_queuer s)) \<and> (\<forall>i. ns_exception s \<noteq> Some (SendersMapMisses i))"

lemma net_init_ok: "net_ok address net_init"
  by (simp add: net_ok_def net_init_def queuer_init_ok) (simp add: queuer_init_def held_def)

lemma take_held: "set (held (executor_take q)) = set (held q)"
  by (cases "q_requests q") (auto simp: executor_take_def held_def pq_top_def pq_pop_def split: option.splits)

lemma take_frame: "q_id (executor_take q) = q_id q" "q_responseSender (executor_take q) = q_responseSender q"
  by (simp_all add: executor_take_def)

lemma take_ok_net:
  assumes "net_ok address s"
  shows "net_ok address (s\<lparr>ns_queuer := executor_take (ns_queuer s)\<rparr>)"
proof -
  have "held (executor_take (ns_queuer s)) = [] \<longleftrightarrow> held (ns_queuer s) = []"
    using take_held [of "ns_queuer s"] by (metis set_empty)
  then show ?thesis using assms by (simp add: net_ok_def take_held take_frame take_ok)
qed

lemma erase_ok_net: "net_ok address s \<Longrightarrow> net_ok address (erase_posted s)"
  by (cases "ns_posted s") (auto simp: net_ok_def erase_posted_def)

text \<open>The request that arrives.\<close>

lemma accepted_held:
  fixes q :: "'ip queuer" and mj :: "'v minijson" and msg timestamp :: string and ip :: 'ip
  assumes "queuer_ok q" and "accepted mj msg q request"
  defines "q' \<equiv> snd (snd (addRequest mj timestamp msg ip q))" and "calls \<equiv> fst (snd (addRequest mj timestamp msg ip q))"
  shows "set (held q') \<subseteq> insert (completed timestamp msg ip q request) (set (held q))"
    and "calls = [] \<or> (\<exists>r. calls = [CallRemover (rq_internalId r)] \<and> r \<in> set (held q) \<and> rq_internalId r \<notin> rq_internalId ` set (held q'))"
    and "q_id q' = q_id q + 1" "q_responseSender q' = q_responseSender q"
proof -
  have eq: "set (held q') = insert (completed timestamp msg ip q request)
      (set (kept request q) \<union> (case q_current q of None \<Rightarrow> {} | Some c \<Rightarrow> {c}))"
    by (auto simp: q'_def addRequest_accepted [OF assms(2)] held_def split: option.split)
  then show "set (held q') \<subseteq> insert (completed timestamp msg ip q request) (set (held q))"
    using kept_subset [of request q] by (auto simp: held_def split: option.splits)
  show "q_id q' = q_id q + 1" "q_responseSender q' = q_responseSender q"
    by (simp_all add: q'_def addRequest_accepted [OF assms(2)])
  show "calls = [] \<or> (\<exists>r. calls = [CallRemover (rq_internalId r)] \<and> r \<in> set (held q) \<and> rq_internalId r \<notin> rq_internalId ` set (held q'))"
  proof (cases "length (q_requests q) = REQUEST_QUEUE_MAX_SIZE \<and> q_rejectedRequestRemover q")
    case True
    then obtain r rs where q: "q_requests q = r # rs" by (cases "q_requests q") (auto simp: REQUEST_QUEUE_MAX_SIZE_def)
    have "calls = [CallRemover (rq_internalId r)]"
      using True by (simp add: calls_def addRequest_accepted [OF assms(2)] q pq_top_def)
    moreover have "r \<in> set (held q)" by (simp add: held_def q split: option.split)
    moreover have "set (kept request q) \<subseteq> set rs"
      using True by (auto simp: kept_def q pq_pop_def Let_def dest: in_set_dropD)
    moreover have "distinct (map rq_internalId (held q))" "rq_internalId r \<le> q_id q"
      using assms(1) by (simp_all add: queuer_ok_def held_def q split: option.splits)
    ultimately have "calls = [CallRemover (rq_internalId r)] \<and> r \<in> set (held q) \<and> rq_internalId r \<notin> rq_internalId ` set (held q')"
      unfolding eq by (auto simp: held_def q completed_def split: option.splits)
    then show ?thesis by blast
  next
    case False
    then have "calls = []" by (auto simp: calls_def addRequest_accepted [OF assms(2)])
    then show ?thesis by simp
  qed
qed

lemma receive_accepted:
  fixes s :: "('ep, 'ip) net_server" and address :: "'ep \<Rightarrow> 'ip" and mj :: "'v minijson"
    and datagram timestamp :: string and sender :: 'ep
  assumes "net_ok address s" and "ns_exception s = None" and "datagram \<noteq> []"
    and "accepted mj (received_text datagram) (ns_queuer s) request"
  defines "t \<equiv> store_sender (receive mj address timestamp datagram sender s)"
  shows "net_ok address t \<and> ns_sent t = ns_sent s"
proof -
  define q where "q = ns_queuer s"
  define r where "r = completed timestamp (received_text datagram) (address sender) q request"
  define calls where "calls = fst (snd (addRequest mj timestamp (received_text datagram) (address sender) q))"
  define q' where "q' = snd (snd (addRequest mj timestamp (received_text datagram) (address sender) q))"
  have ok: "queuer_ok q" using assms(1) by (simp add: net_ok_def q_def)
  note acc = accepted_held [OF ok assms(4) [folded q_def], of timestamp "address sender", folded r_def calls_def q'_def]
  have added: "fst (addRequest mj timestamp (received_text datagram) (address sender) q) = Added (q_id q + 1)"
    using addRequest_accepted [OF assms(4), of timestamp "address sender"] by (simp add: q_def)
  define posted where "posted = (case calls of [] \<Rightarrow> [] | c # cs \<Rightarrow> (case c of CallRemover i \<Rightarrow> [i] | _ \<Rightarrow> []))"
  have called: "fold call_back calls u = u\<lparr>ns_posted := ns_posted u @ posted\<rparr>" for u :: "('ep, 'ip) net_server"
    using acc(2) by (auto simp: posted_def call_back_def removeFromRequestMap_def)
  have t: "t = s\<lparr>ns_queuer := q'\<lparr>q_responseSender := True, q_rejectedRequestRemover := True\<rparr>,
      ns_sendersMap := (ns_sendersMap s)(q_id q + 1 \<mapsto> sender), ns_posted := ns_posted s @ posted\<rparr>"
    using assms(1,3) added
    by (simp add: t_def receive_def case_prod_beta Let_def called store_sender_def net_ok_def q_def [symmetric] calls_def [symmetric] q'_def [symmetric])
  have r: "rq_internalId r = q_id q + 1" "rq_ipAddress r = Some (address sender)" by (simp_all add: r_def completed_def)
  have old: "rq_internalId x \<le> q_id q" if "x \<in> set (held q)" for x using ok that by (simp add: queuer_ok_def)
  have "queuer_ok (q'\<lparr>q_responseSender := True, q_rejectedRequestRemover := True\<rparr>)"
    using add_ok [OF ok] by (simp add: q'_def queuer_ok_def)
  moreover have "\<exists>ep. ns_sendersMap t (rq_internalId x) = Some ep \<and> rq_ipAddress x = Some (address ep)" if "x \<in> set (held q')" for x
  proof (cases "x = r")
    case False
    then have "x \<in> set (held q)" using that acc(1) by blast
    then show ?thesis using assms(1) old [of x] by (auto simp: t net_ok_def q_def)
  qed (simp add: t r)
  moreover have "i \<le> q_id q' \<and> i \<notin> rq_internalId ` set (held q')" if "i \<in> set (ns_posted s)" for i
  proof -
    have i: "i \<le> q_id q" "i \<notin> rq_internalId ` set (held q)" using that assms(1) by (auto simp: net_ok_def q_def)
    then show ?thesis using acc(1,3) r(1) by fastforce
  qed
  moreover have "i \<le> q_id q' \<and> i \<notin> rq_internalId ` set (held q')" if posted: "i \<in> set posted" for i
  proof -
    obtain x where "calls = [CallRemover (rq_internalId x)]" "x \<in> set (held q)" "rq_internalId x \<notin> rq_internalId ` set (held q')"
      using posted acc(2) by (auto simp: posted_def)
    with posted acc(3) old [of x] show ?thesis by (simp add: posted_def)
  qed
  ultimately show ?thesis using assms(1,2) by (auto simp: net_ok_def t)
qed

text \<open>The whole handler.\<close>

lemma receive_handler:
  fixes s :: "('ep, 'ip) net_server" and address :: "'ep \<Rightarrow> 'ip" and mj :: "'v minijson" and respond :: "'ip request \<Rightarrow> string"
    and datagram timestamp :: string and sender :: 'ep
  assumes "net_ok address s" and "ns_exception s = None"
  defines "t \<equiv> snd (net_run mj address respond [NReceive timestamp datagram sender, NStore] s)"
  shows "ns_sent t = ns_sent s \<and> (net_ok address t \<or> ns_exception t = Some ParserThrew)"
proof -
  define u where "u = receive mj address timestamp datagram sender s"
  have handler: "ns_handler s = None" using assms(1) by (simp add: net_ok_def)
  have t: "t = (if ns_exception u = None then store_sender u else u)"
    using assms(2) handler by (simp add: t_def u_def net_step_def Let_def case_prod_beta)
  define q where "q = ns_queuer s"
  consider "datagram = []" | request where "datagram \<noteq> []" "accepted mj (received_text datagram) q request"
    | "datagram \<noteq> []" "\<And>request. \<not> accepted mj (received_text datagram) q request"
    by blast
  then show ?thesis
  proof cases
    case 1
    then have "u = s" by (simp add: u_def receive_nothing)
    then show ?thesis using assms handler by (simp add: t store_sender_def)
  next
    case 2
    have "ns_exception u = None"
      using 2(1) assms(2) addRequest_accepted [OF 2(2), of timestamp "address sender"]
      by (simp add: u_def receive_def q_def call_back_def removeFromRequestMap_def)
    then show ?thesis
      using receive_accepted [OF assms(1,2) 2(1) 2(2) [unfolded q_def], of timestamp sender] by (simp add: t u_def)
  next
    case 3
    from addRequest_rejected [OF 3(2), of timestamp "address sender"]
    consider "addRequest mj timestamp (received_text datagram) (address sender) q = (INVALID_MESSAGE, [], q)"
      | "addRequest mj timestamp (received_text datagram) (address sender) q = (Thrown, [], q)"
      by (metis add_result.exhaust prod.collapse)
    then show ?thesis
    proof cases
      case 1
      then have "u = s\<lparr>ns_handler := Some (None, sender)\<rparr>" using 3(1) by (simp add: u_def receive_def q_def)
      then have "t = s\<lparr>ns_queuer := q\<lparr>q_responseSender := True, q_rejectedRequestRemover := True\<rparr>\<rparr>"
        using assms(2) handler by (simp add: t store_sender_def q_def)
      then show ?thesis using assms(1) by (simp add: net_ok_def q_def queuer_ok_def)
    next
      case 2
      then show ?thesis using 3(1) assms(2) by (simp add: t u_def receive_def q_def)
    qed
  qed
qed

text \<open>The answers a run owes: one for each executed request that wants one.\<close>

definition answers :: "('ip request \<Rightarrow> string) \<Rightarrow> 'ip request list \<Rightarrow> ('ip \<times> string option) list" where
  "answers respond rs =
     map (\<lambda>r. (the (rq_ipAddress r), response_string (respond r))) (filter (\<lambda>r. \<not> rq_skipResponse r) rs)"

definition delivered :: "('ep \<Rightarrow> 'ip) \<Rightarrow> ('ep, 'ip) net_server \<Rightarrow> ('ip \<times> string option) list" where
  "delivered address s = map (\<lambda>(ep, response). (address ep, response)) (ns_sent s)"

lemma execute_ok_net:
  fixes s :: "('ep, 'ip) net_server"
  assumes "net_ok address s" and "ns_exception s = None"
  shows "net_ok address (snd (execute respond s)) \<and>
    delivered address (snd (execute respond s)) = delivered address s @ answers respond (fst (execute respond s))"
proof -
  define q where "q = ns_queuer s"
  have ok: "queuer_ok q" using assms(1) by (simp add: net_ok_def q_def)
  consider "q_current q = None" | r where "q_current q = Some r" "rq_serial r < q_lastSerial q"
    | r where "q_current q = Some r" "\<not> rq_serial r < q_lastSerial q"
    by (cases "q_current q") auto
  then show ?thesis
  proof cases
    case 1
    then have "execute respond s = ([], s)" by (simp add: execute_def executor_run_def q_def)
    then show ?thesis using assms(1) by (simp add: answers_def)
  next
    case 2
    then have "execute respond s = ([], s\<lparr>ns_queuer := q\<lparr>q_current := None\<rparr>\<rparr>)"
      by (simp add: execute_def executor_run_def q_def)
    moreover have "queuer_ok (q\<lparr>q_current := None\<rparr>)" using run_ok [OF ok, of respond] 2 by (simp add: executor_run_def)
    ultimately show ?thesis using assms(1) 2 by (simp add: answers_def delivered_def net_ok_def held_def q_def)
  next
    case 3
    then obtain ep where ep: "ns_sendersMap s (rq_internalId r) = Some ep" "rq_ipAddress r = Some (address ep)"
      using assms(1) by (auto simp: net_ok_def held_def q_def)
    have "q_responseSender q" using assms(1) 3 by (simp add: net_ok_def held_def q_def)
    then have eq: "execute respond s = ([r], s\<lparr>ns_queuer := q\<lparr>q_current := None, q_lastSerial := rq_serial r\<rparr>,
        ns_posted := ns_posted s @ [rq_internalId r],
        ns_sent := if rq_skipResponse r then ns_sent s else ns_sent s @ [(ep, response_string (respond r))]\<rparr>)"
      using 3 ep by (simp add: execute_def executor_run_def q_def [symmetric] call_back_def sendResponse_def removeFromRequestMap_def Let_def)
    have "queuer_ok (q\<lparr>q_current := None, q_lastSerial := rq_serial r\<rparr>)"
      using run_ok [OF ok, of respond] 3 by (simp add: executor_run_def Let_def)
    moreover have "rq_internalId r \<le> q_id q" "rq_internalId r \<notin> rq_internalId ` set (q_requests q)"
      using ok 3 by (simp_all add: queuer_ok_def held_def)
    ultimately have "net_ok address (snd (execute respond s))"
      unfolding eq using assms(1) 3 by (auto simp: net_ok_def held_def q_def)
    moreover have "delivered address (snd (execute respond s)) = delivered address s @ answers respond (fst (execute respond s))"
      using ep by (simp add: eq delivered_def answers_def)
    ultimately show ?thesis ..
  qed
qed

lemma net_run_stopped: "ns_exception s \<noteq> None \<Longrightarrow> net_run mj address respond es s = ([], s)"
  by (induction es) (auto simp: net_step_def)

text \<open>Runs in which no other step comes between the two parts of the receive handler.\<close>

fun whole_handler :: "'ep net_event \<Rightarrow> 'ep net_event list" where
  "whole_handler (NReceive timestamp datagram sender) = [NReceive timestamp datagram sender, NStore]"
| "whole_handler e = [e]"

lemma undisturbed_step:
  fixes s :: "('ep, 'ip) net_server" and address :: "'ep \<Rightarrow> 'ip" and mj :: "'v minijson" and respond :: "'ip request \<Rightarrow> string"
    and e :: "'ep net_event"
  assumes "net_ok address s" and "ns_exception s = None"
  defines "t \<equiv> snd (net_run mj address respond (whole_handler e) s)"
    and "executed \<equiv> fst (net_run mj address respond (whole_handler e) s)"
  shows "(net_ok address t \<or> ns_exception t = Some ParserThrew) \<and> delivered address t = delivered address s @ answers respond executed"
proof (cases e)
  case (NReceive timestamp datagram sender)
  have "executed = []" using assms(2) by (simp add: executed_def NReceive net_step_def Let_def case_prod_beta)
  then show ?thesis
    using receive_handler [OF assms(1,2), of mj respond timestamp datagram sender] by (simp add: t_def NReceive delivered_def answers_def)
next
  case NStore
  have "ns_handler s = None" using assms(1) by (simp add: net_ok_def)
  then show ?thesis using assms by (simp add: NStore net_step_def store_sender_def answers_def)
next
  case NErase
  have "ns_sent (erase_posted s) = ns_sent s" by (simp add: erase_posted_def split: list.split)
  then show ?thesis using assms erase_ok_net [OF assms(1)] by (simp add: NErase net_step_def answers_def delivered_def)
next
  case NTake
  then show ?thesis using assms take_ok_net [OF assms(1)] by (simp add: net_step_def answers_def delivered_def)
next
  case NExecute
  then show ?thesis using assms execute_ok_net [OF assms(1,2), of respond] by (simp add: net_step_def case_prod_beta)
qed

lemma undisturbed_run:
  assumes "net_ok address s \<or> ns_exception s = Some ParserThrew"
  shows "(net_ok address (snd (net_run mj address respond (concat (map whole_handler es)) s)) \<or>
      ns_exception (snd (net_run mj address respond (concat (map whole_handler es)) s)) = Some ParserThrew) \<and>
    delivered address (snd (net_run mj address respond (concat (map whole_handler es)) s)) =
      delivered address s @ answers respond (fst (net_run mj address respond (concat (map whole_handler es)) s))"
  using assms
proof (induction es arbitrary: s)
  case (Cons e es)
  show ?case
  proof (cases "ns_exception s = None")
    case True
    then have ok: "net_ok address s" using Cons.prems by simp
    note step = undisturbed_step [OF ok True, of mj respond e]
    show ?thesis
      using step Cons.IH [OF conjunct1 [OF step]]
      by (simp add: net_run_append answers_def)
  next
    case False
    then show ?thesis using Cons.prems by (simp add: net_run_stopped answers_def)
  qed
qed (simp add: answers_def)

section \<open>Properties\<close>

text \<open>C14: Answers go to the clients that asked. In every run from the start of the program in which no step of the
  executor comes between a call of \<open>addRequest\<close> and the entry of the sender, the packets sent are, in
  order, the responses of the executed requests that want one, each sent to the address its request
  came from, and \<open>sendResponse\<close> never misses a key.\<close>

theorem answers_reach_their_clients:
  fixes es :: "'ep net_event list" and address :: "'ep \<Rightarrow> 'ip" and mj :: "'v minijson" and respond :: "'ip request \<Rightarrow> string"
  defines "s \<equiv> snd (net_run mj address respond (concat (map whole_handler es)) net_init)"
    and "executed \<equiv> fst (net_run mj address respond (concat (map whole_handler es)) net_init)"
  shows "map (\<lambda>(ep, response). (address ep, response)) (ns_sent s) =
      map (\<lambda>r. (the (rq_ipAddress r), response_string (respond r))) (filter (\<lambda>r. \<not> rq_skipResponse r) executed) \<and>
    ns_exception s \<noteq> Some (SendersMapMisses i)"
proof -
  have "delivered address (net_init :: ('ep, 'ip) net_server) = []" by (simp add: delivered_def net_init_def)
  moreover have "ns_exception s \<noteq> Some (SendersMapMisses i)" if "net_ok address s \<or> ns_exception s = Some ParserThrew"
    using that by (auto simp: net_ok_def)
  ultimately show ?thesis
    using undisturbed_run [OF disjI1 [OF net_init_ok], of address mj respond es] unfolding s_def [symmetric] executed_def [symmetric]
    by (simp add: delivered_def answers_def)
qed

text \<open>The race. When the queue is idle and the executor takes and executes a new request before the receive
  handler has entered its sender, \<open>sendResponse\<close> throws and the program ends without an answer; with
  the entry made first, the same request is answered.\<close>

theorem executor_overtakes_handler:
  fixes s :: "('ep, 'ip) net_server" and address :: "'ep \<Rightarrow> 'ip" and mj :: "'v minijson" and respond :: "'ip request \<Rightarrow> string"
    and datagram timestamp :: string and sender :: 'ep and request :: "'ip request"
  assumes "ns_exception s = None" and "ns_handler s = None" and "datagram \<noteq> []"
    and "accepted mj (received_text datagram) (ns_queuer s) request" and "\<not> rq_skipResponse request"
    and "q_requests (ns_queuer s) = []" and "q_current (ns_queuer s) = None"
    and "q_responseSender (ns_queuer s)" and "\<not> q_finishCycleThread (ns_queuer s)"
    and "ns_sendersMap s (q_id (ns_queuer s) + 1) = None"
  defines "run es \<equiv> snd (net_run mj address respond es s)"
    and "r \<equiv> completed timestamp (received_text datagram) (address sender) (ns_queuer s) request"
  shows "ns_exception (run [NReceive timestamp datagram sender, NTake, NExecute, NStore]) =
      Some (SendersMapMisses (q_id (ns_queuer s) + 1)) \<and>
    ns_sent (run [NReceive timestamp datagram sender, NTake, NExecute, NStore]) = ns_sent s \<and>
    ns_exception (run [NReceive timestamp datagram sender, NTake, NStore, NExecute]) = None \<and>
    ns_sent (run [NReceive timestamp datagram sender, NTake, NStore, NExecute]) =
      ns_sent s @ [(sender, response_string (respond r))]"
proof -
  define q where "q = (ns_queuer s)\<lparr>q_requests := [r], q_lastSerial := if rq_serial request = 0 then 0 else q_lastSerial (ns_queuer s),
    q_id := q_id (ns_queuer s) + 1\<rparr>"
  have "kept request (ns_queuer s) = []" using assms(6) by (simp add: kept_def pq_pop_def)
  then have add: "addRequest mj timestamp (received_text datagram) (address sender) (ns_queuer s) = (Added (q_id (ns_queuer s) + 1), [], q)"
    using assms(6) by (simp add: addRequest_accepted [OF assms(4)] q_def r_def REQUEST_QUEUE_MAX_SIZE_def)
  have received: "net_step mj address respond (NReceive timestamp datagram sender) s =
      ([], s\<lparr>ns_queuer := q, ns_handler := Some (Some (q_id (ns_queuer s) + 1), sender)\<rparr>)"
    using assms(1-3) by (simp add: net_step_def receive_def add)
  have r: "rq_internalId r = q_id (ns_queuer s) + 1" "rq_serial r = rq_serial request" "rq_skipResponse r = rq_skipResponse request"
    by (simp_all add: r_def completed_def)
  have serial: "\<not> rq_serial request < q_lastSerial q"
    using assms(4) by (auto simp: accepted_def q_def)
  have take: "executor_take q = q\<lparr>q_requests := [], q_current := Some r\<rparr>"
    using assms(7,9) by (simp add: executor_take_def q_def pq_top_def pq_pop_def)
  have "ns_exception (run [NReceive timestamp datagram sender, NTake, NExecute, NStore]) = Some (SendersMapMisses (q_id (ns_queuer s) + 1)) \<and>
      ns_sent (run [NReceive timestamp datagram sender, NTake, NExecute, NStore]) = ns_sent s"
    using assms(1,8,10) serial
    by (simp add: run_def received take r net_step_simps execute_def executor_run_def call_back_def sendResponse_def Let_def) (simp add: q_def)
  moreover have "ns_exception (run [NReceive timestamp datagram sender, NTake, NStore, NExecute]) = None \<and>
      ns_sent (run [NReceive timestamp datagram sender, NTake, NStore, NExecute]) = ns_sent s @ [(sender, response_string (respond r))]"
    using assms(1,5) serial
    by (simp add: run_def received take r net_step_simps execute_def executor_run_def store_sender_def call_back_def sendResponse_def
        removeFromRequestMap_def Let_def)
  ultimately show ?thesis by blast
qed

theorem executor_overtakes_handler_witness:
  "ns_exception (snd (net_run unary_reader (\<lambda>ep. ep) (\<lambda>_. ''ok'')
     [NReceive [] ''ab'' (7 :: nat), NTake, NExecute, NStore]
     (net_init\<lparr>ns_queuer := queuer_init\<lparr>q_responseSender := True\<rparr>\<rparr>))) = Some (SendersMapMisses 2)"
  using executor_overtakes_handler [where s = "net_init\<lparr>ns_queuer := queuer_init\<lparr>q_responseSender := True\<rparr>\<rparr>" and datagram = "''ab''"
      and mj = unary_reader and address = "\<lambda>ep. ep" and respond = "\<lambda>_. ''ok''" and timestamp = "[]" and sender = "7 :: nat"
      and request = "new_request\<lparr>rq_serial := 2\<rparr>"]
  by (simp add: net_init_def queuer_init_def accepted_def unary_reader_def set_field_def new_request_def received_text_def
      MAX_PACKET_SIZE_def del: net_run.simps)

section \<open>What stays in the map\<close>

text \<open>A sender whose request is neither queued nor in execution, and whose removal is not waiting.\<close>

definition stranded :: "int \<Rightarrow> ('ep, 'ip) net_server \<Rightarrow> bool" where
  "stranded i s \<longleftrightarrow> queuer_ok (ns_queuer s) \<and> ns_sendersMap s i \<noteq> None \<and> i \<notin> set (ns_posted s) \<and>
     i \<notin> rq_internalId ` set (held (ns_queuer s)) \<and> i \<le> q_id (ns_queuer s)"

text \<open>Only numbers of requests the queue held are posted.\<close>

fun call_id :: "queuer_call \<Rightarrow> int" where
  "call_id (CallSender i response transmit) = i"
| "call_id (CallRemover i) = i"

lemma call_back_posted: "set (ns_posted (call_back c s)) \<subseteq> insert (call_id c) (set (ns_posted s))"
  by (cases c) (auto simp: call_back_def sendResponse_def removeFromRequestMap_def Let_def split: option.split)

lemma call_backs_posted: "set (ns_posted (fold call_back cs s)) \<subseteq> call_id ` set cs \<union> set (ns_posted s)"
proof (induction cs arbitrary: s)
  case (Cons c cs)
  show ?case using Cons.IH [of "call_back c s"] call_back_posted [of c s] by auto
qed simp

lemma add_call_ids:
  fixes q :: "'ip queuer"
  assumes "queuer_ok q"
  shows "call_id ` set (fst (snd (addRequest mj timestamp msg ip q))) \<subseteq> rq_internalId ` set (held q)"
proof (cases "\<exists>request. accepted mj msg q request")
  case True
  then obtain request where "accepted mj msg q request" by blast
  from accepted_held(2) [OF assms this, of timestamp ip] show ?thesis by auto
next
  case False
  then show ?thesis using addRequest_rejected(1) [of mj msg q timestamp ip] by simp
qed

lemma run_call_ids: "call_id ` set (fst (executor_run respond q)) \<subseteq> rq_internalId ` set (held q)"
  by (auto simp: executor_run_def held_def Let_def split: option.split)

lemma receive_posted:
  assumes "queuer_ok (ns_queuer s)"
  shows "set (ns_posted (receive mj address timestamp datagram sender s)) \<subseteq> rq_internalId ` set (held (ns_queuer s)) \<union> set (ns_posted s)"
proof -
  obtain result calls q where add: "addRequest mj timestamp (received_text datagram) (address sender) (ns_queuer s) = (result, calls, q)"
    by (cases "addRequest mj timestamp (received_text datagram) (address sender) (ns_queuer s)")
  have "set (ns_posted (fold call_back calls (s\<lparr>ns_queuer := q\<rparr>))) \<subseteq> rq_internalId ` set (held (ns_queuer s)) \<union> set (ns_posted s)"
    using call_backs_posted [of calls "s\<lparr>ns_queuer := q\<rparr>"] add_call_ids [OF assms, of mj timestamp "received_text datagram" "address sender"]
    by (auto simp: add)
  then show ?thesis by (cases result) (simp_all add: receive_def add)
qed

lemma execute_posted:
  "set (ns_posted (snd (execute respond s))) \<subseteq> rq_internalId ` set (held (ns_queuer s)) \<union> set (ns_posted s)"
proof -
  obtain calls executed q where run: "executor_run respond (ns_queuer s) = (calls, executed, q)"
    by (cases "executor_run respond (ns_queuer s)")
  show ?thesis
    using call_backs_posted [of calls "s\<lparr>ns_queuer := q\<rparr>"] run_call_ids [of respond "ns_queuer s"]
    by (auto simp: execute_def run)
qed

lemma receive_map: "ns_sendersMap (receive mj address timestamp datagram sender s) = ns_sendersMap s"
  by (simp add: receive_def Let_def case_prod_beta split: add_result.split)

lemma stranded_step:
  assumes "stranded i s"
  shows "stranded i (snd (net_step mj address respond e s))"
proof (cases "ns_exception s = None")
  case True
  define t where "t = snd (net_step mj address respond e s)"
  have queue: "ns_queuer t = fold (\<lambda>e s. snd (queuer_step mj respond e s)) (queue_events address s e) (ns_queuer s)"
    unfolding t_def using True by (rule net_step_queuer)
  have ok: "queuer_ok (ns_queuer s)" and i: "i \<notin> rq_internalId ` set (held (ns_queuer s))" "i \<le> q_id (ns_queuer s)"
    and s: "ns_sendersMap s i \<noteq> None" "i \<notin> set (ns_posted s)"
    using assms by (simp_all add: stranded_def)
  have "set (ns_posted t) \<subseteq> rq_internalId ` set (held (ns_queuer s)) \<union> set (ns_posted s)"
  proof (cases e)
    case (NReceive timestamp datagram sender)
    then show ?thesis using True receive_posted [OF ok, of mj address timestamp datagram sender] by (simp add: t_def net_step_def)
  next
    case NStore
    then show ?thesis by (auto simp: t_def net_step_def store_sender_def Let_def split: option.splits)
  next
    case NErase
    then show ?thesis by (auto simp: t_def net_step_def erase_posted_def split: list.splits)
  next
    case NExecute
    then show ?thesis using True execute_posted [of respond s] by (simp add: t_def net_step_simps)
  qed (simp add: t_def net_step_def)
  then have posted: "i \<notin> set (ns_posted t)" using i s by auto
  have "ns_sendersMap t i \<noteq> None"
    using s by (cases e) (auto simp: t_def net_step_def receive_map store_sender_def erase_posted_def execute_def Let_def case_prod_beta
        split: option.splits list.splits)
  with posted tickets.given_up [OF ok i, of mj respond "queue_events address s e"] tickets.changes_good [OF ok, of mj respond "queue_events address s e"]
  show ?thesis unfolding stranded_def t_def [symmetric] queue by simp
qed (use assms in \<open>simp add: net_step_def\<close>)

lemma stranded_run: "stranded i s \<Longrightarrow> stranded i (snd (net_run mj address respond es s))"
  by (induction es arbitrary: s) (simp_all add: case_prod_beta Let_def stranded_step)

text \<open>Senders of discarded requests. A message with serial 0 throws half of the queue away without a
  word to the front end: the entries of those requests stay in the map of senders in every later
  state, whatever happens, so the map grows without bound.\<close>

theorem discarded_requests_stay_in_map:
  fixes s :: "('ep, 'ip) net_server" and address :: "'ep \<Rightarrow> 'ip" and mj :: "'v minijson" and respond :: "'ip request \<Rightarrow> string"
    and datagram timestamp :: string and sender :: 'ep and request x :: "'ip request"
  assumes "net_ok address s" and "ns_exception s = None" and "datagram \<noteq> []"
    and "accepted mj (received_text datagram) (ns_queuer s) request" and "rq_serial request = 0"
    and "length (q_requests (ns_queuer s)) < REQUEST_QUEUE_MAX_SIZE"
    and "x \<in> set (take ((length (q_requests (ns_queuer s)) + 1) div 2) (q_requests (ns_queuer s)))"
  shows "ns_sendersMap (snd (net_run mj address respond (NReceive timestamp datagram sender # es) s)) (rq_internalId x) \<noteq> None"
proof -
  define q where "q = ns_queuer s"
  define n where "n = (length (q_requests q) + 1) div 2"
  define t where "t = snd (net_step mj address respond (NReceive timestamp datagram sender) s)"
  have x: "x \<in> set (take n (q_requests q))" and ok: "queuer_ok q" using assms(1,7) by (simp_all add: q_def n_def net_ok_def)
  then have xheld: "x \<in> set (held q)" by (auto simp: held_def dest: in_set_takeD split: option.split)
  have kept: "kept request q = drop n (q_requests q)" using assms(5,6) by (simp add: kept_def q_def n_def Let_def)
  have add: "addRequest mj timestamp (received_text datagram) (address sender) q =
      (Added (q_id q + 1), [], q\<lparr>q_requests := pq_push request_cmp (completed timestamp (received_text datagram) (address sender) q request)
        (drop n (q_requests q)), q_lastSerial := 0, q_id := q_id q + 1\<rparr>)"
    using assms(5,6) by (simp add: addRequest_accepted [OF assms(4) [folded q_def]] kept) (simp add: q_def)
  have t: "t = s\<lparr>ns_queuer := snd (snd (addRequest mj timestamp (received_text datagram) (address sender) q)),
      ns_handler := Some (Some (q_id q + 1), sender)\<rparr>"
    using assms(1-3) by (simp add: t_def net_step_def receive_def net_ok_def add flip: q_def)
  have new: "rq_internalId (completed timestamp (received_text datagram) (address sender) q request) = q_id q + 1"
    by (simp add: completed_def)
  have "distinct (map rq_internalId (take n (q_requests q) @ drop n (q_requests q)))"
    using ok by (simp add: queuer_ok_def held_def split: option.splits)
  then have "rq_internalId x \<notin> rq_internalId ` set (drop n (q_requests q))" using x by (simp only: map_append distinct_append) fastforce
  moreover have "\<forall>c. q_current q = Some c \<longrightarrow>
      rq_internalId c \<notin> rq_internalId ` set (q_requests q)" "rq_internalId x \<le> q_id q"
    using ok xheld by (auto simp: queuer_ok_def held_def split: option.splits)
  moreover have "rq_internalId x \<in> rq_internalId ` set (q_requests q)" using x by (auto dest: in_set_takeD)
  ultimately have gone: "rq_internalId x \<notin> rq_internalId ` set (held (ns_queuer t))"
    using new by (auto simp: t add held_def split: option.splits)
  have "queuer_ok (ns_queuer t)" using add_ok [OF ok] by (simp add: t)
  moreover have "ns_sendersMap t (rq_internalId x) \<noteq> None" "rq_internalId x \<notin> set (ns_posted t)"
    using assms(1) xheld by (auto simp: t net_ok_def q_def)
  moreover have "rq_internalId x \<le> q_id (ns_queuer t)"
    using \<open>rq_internalId x \<le> q_id q\<close> by (simp add: t add)
  ultimately have "stranded (rq_internalId x) t" using gone by (simp add: stranded_def)
  from stranded_run [OF this, of mj address respond es] show ?thesis
    by (simp add: stranded_def t_def case_prod_beta Let_def)
qed

theorem discarded_requests_stay_in_map_witness:
  "ns_sendersMap (snd (net_run unary_reader (\<lambda>ep. ep) (\<lambda>_. []) [NReceive [] [CHR 0x00] 5, NStore, NTake, NExecute, NErase]
     (snd (net_run unary_reader (\<lambda>ep. ep) (\<lambda>_. [])
       (concat (map whole_handler [NReceive [] ''ab'' (7 :: nat), NReceive [] ''abc'' 8])) net_init)))) 2 \<noteq> None"
proof -
  define s where "s = snd (net_run unary_reader (\<lambda>ep. ep) (\<lambda>_. [])
    (concat (map whole_handler [NReceive [] ''ab'' (7 :: nat), NReceive [] ''abc'' 8])) net_init)"
  have s: "ns_exception s = None" "map rq_internalId (q_requests (ns_queuer s)) = [2, 3]"
    by (simp_all add: s_def net_init_def net_step_def receive_def store_sender_def queuer_init_def unary_reader_def addRequest_def
        set_field_def new_request_def remove_oldest_def reset_serials_def nextId_def Let_def REQUEST_QUEUE_MAX_SIZE_def
        REQUEST_QUEUE_OVERFLOW_BEHAVIOR_def request_cmp_def received_text_def MAX_PACKET_SIZE_def)
  have ok: "net_ok (\<lambda>ep. ep) s"
    using undisturbed_run [OF disjI1 [OF net_init_ok], of "\<lambda>ep. ep" unary_reader "\<lambda>_. []" "[NReceive [] ''ab'' (7 :: nat), NReceive [] ''abc'' 8]"]
      s(1) unfolding s_def [symmetric] by simp
  obtain x y where q: "q_requests (ns_queuer s) = [x, y]" and x: "rq_internalId x = 2"
    using s(2) by (auto simp: map_eq_Cons_conv)
  have "accepted unary_reader (received_text [CHR 0x00]) (ns_queuer s) (new_request\<lparr>rq_serial := 0\<rparr>)"
    by (simp add: accepted_def unary_reader_def set_field_def received_text_def MAX_PACKET_SIZE_def)
  from discarded_requests_stay_in_map [OF ok s(1) _ this, of x "\<lambda>_. []" "[]" 5 "[NStore, NTake, NExecute, NErase]"] q x
  show ?thesis unfolding s_def [symmetric] by (simp add: REQUEST_QUEUE_MAX_SIZE_def del: net_run.simps)
qed

end
