(* ===== verification/Data_Holder.thy ===== *)
theory Data_Holder
  imports Protocol
begin

text \<open>
  \<open>server/common_lib/include/DataHolder.hpp\<close> and \<open>src/DataHolder.cpp\<close>: one USB request with its
  payload in a fixed array of 40 bytes. The constructors write only the bytes they are given, so
  each takes the uninitialised memory \<open>g\<close> its object is built in. The constructors and the copy
  operations write without bounds checks; the lemmas state the lengths for which they stay inside.
\<close>

definition DATAHOLDER_MAX_DATA_SIZE :: nat where
  "DATAHOLDER_MAX_DATA_SIZE = 40"

record data_holder =
  dh_data :: "u8 list"
  dh_length :: nat
  dh_priority :: int
  dh_killswitchDependent :: bool

section \<open>Constructors\<close>

definition dh_empty :: "u8 list \<Rightarrow> data_holder" where
  "dh_empty g = \<lparr>dh_data = g, dh_length = 0, dh_priority = 0, dh_killswitchDependent = False\<rparr>"

definition dh_initData :: "usb_request \<Rightarrow> int \<Rightarrow> bool \<Rightarrow> nat \<Rightarrow> data_holder \<Rightarrow> data_holder" where
  "dh_initData req pr ks dataSize d =
     d\<lparr>dh_priority := pr, dh_length := dataSize + 1,
       dh_data := (dh_data d)[0 := request_code req], dh_killswitchDependent := ks\<rparr>"

text \<open>The constructor for a single-byte request.\<close>

definition dh_request :: "u8 list \<Rightarrow> usb_request \<Rightarrow> int \<Rightarrow> bool \<Rightarrow> data_holder" where
  "dh_request g req pr ks = dh_initData req pr ks 0 (dh_empty g)"

text \<open>The constructor for a request with one byte.\<close>

definition dh_byte :: "u8 list \<Rightarrow> usb_request \<Rightarrow> int \<Rightarrow> bool \<Rightarrow> u8 \<Rightarrow> data_holder" where
  "dh_byte g req pr ks b =
     (let d = dh_initData req pr ks 1 (dh_empty g) in d\<lparr>dh_data := (dh_data d)[1 := b]\<rparr>)"

text \<open>
  The template constructor and the constructor from \<open>void *, int\<close>: the bytes of the structure are
  copied behind the request number.
\<close>

definition dh_struct :: "u8 list \<Rightarrow> usb_request \<Rightarrow> int \<Rightarrow> bool \<Rightarrow> u8 list \<Rightarrow> data_holder" where
  "dh_struct g req pr ks bytes =
     (let d = dh_initData req pr ks (length bytes) (dh_empty g)
      in d\<lparr>dh_data := take 1 (dh_data d) @ memcpy (drop 1 (dh_data d)) bytes\<rparr>)"

text \<open>The constructor from a vector: an index that counts up from 1.\<close>

fun dh_fill :: "nat \<Rightarrow> u8 list \<Rightarrow> u8 list \<Rightarrow> u8 list" where
  "dh_fill idx [] d = d"
| "dh_fill idx (v # vs) d = dh_fill (Suc idx) vs (d[idx := v])"

definition dh_vector :: "u8 list \<Rightarrow> usb_request \<Rightarrow> int \<Rightarrow> bool \<Rightarrow> u8 list \<Rightarrow> data_holder" where
  "dh_vector g req pr ks vec =
     (let d = dh_initData req pr ks (length vec) (dh_empty g)
      in d\<lparr>dh_data := dh_fill 1 vec (dh_data d)\<rparr>)"

section \<open>Copying, comparing, appending\<close>

text \<open>
  Assignment and the copy constructor, which differ only in the memory \<open>old\<close> they write over:
  \<open>_length + 1\<close> bytes are copied, one more than the request has.
\<close>

definition dh_assign :: "u8 list \<Rightarrow> data_holder \<Rightarrow> data_holder" where
  "dh_assign old d =
     \<lparr>dh_data = memcpy old (take (dh_length d + 1) (dh_data d)), dh_length = dh_length d,
      dh_priority = dh_priority d, dh_killswitchDependent = dh_killswitchDependent d\<rparr>"

definition dh_equals :: "data_holder \<Rightarrow> data_holder \<Rightarrow> bool" where
  "dh_equals a b =
     (if dh_priority a \<noteq> dh_priority b then False
      else if dh_length a \<noteq> dh_length b then False
      else if dh_killswitchDependent a \<noteq> dh_killswitchDependent b then False
      else if take (dh_length a + 1) (dh_data a) \<noteq> take (dh_length a + 1) (dh_data b) then False
      else True)"

definition dh_appendTo :: "data_holder \<Rightarrow> u8 list \<Rightarrow> u8 list" where
  "dh_appendTo d vec = vec @ take (dh_length d) (dh_data d)"

text \<open>\<open>DataHolderComparer\<close>: \<open>std::priority_queue\<close> puts the greatest element on top, hence the
  request with the smallest priority number.\<close>

definition dh_comparer :: "data_holder \<Rightarrow> data_holder \<Rightarrow> bool" where
  "dh_comparer lhs rhs \<longleftrightarrow> dh_priority lhs > dh_priority rhs"

section \<open>What a request carries\<close>

text \<open>The bytes that are sent, and everything about a request that is meant to be compared.\<close>

definition dh_bytes :: "data_holder \<Rightarrow> u8 list" where
  "dh_bytes d = take (dh_length d) (dh_data d)"

definition dh_view :: "data_holder \<Rightarrow> int \<times> bool \<times> u8 list" where
  "dh_view d = (dh_priority d, dh_killswitchDependent d, dh_bytes d)"

text \<open>The array keeps its size, and the request leaves room for the byte behind it.\<close>

definition dh_ok :: "data_holder \<Rightarrow> bool" where
  "dh_ok d \<longleftrightarrow> length (dh_data d) = DATAHOLDER_MAX_DATA_SIZE \<and> 0 < dh_length d \<and>
     dh_length d < DATAHOLDER_MAX_DATA_SIZE"

lemma length_dh_fill [simp]: "length (dh_fill i vs d) = length d"
  by (induction i vs d rule: dh_fill.induct) simp_all

lemma dh_fill_eq:
  "i + length vs \<le> length d \<Longrightarrow> dh_fill i vs d = take i d @ vs @ drop (i + length vs) d"
proof (induction i vs d rule: dh_fill.induct)
  case (1 idx d)
  then show ?case by simp
next
  case (2 idx v vs d)
  then show ?case by (simp add: take_Suc_conv_app_nth drop_update_cancel)
qed

lemma dh_struct_eq_vector:
  assumes "length bytes < length g"
  shows "dh_struct g req pr ks bytes = dh_vector g req pr ks bytes"
  using assms by (cases g)
    (simp_all add: dh_struct_def dh_vector_def Let_def dh_initData_def dh_empty_def dh_fill_eq memcpy_def)

lemma dh_byte_eq_vector: "dh_byte g req pr ks b = dh_vector g req pr ks [b]"
  by (simp add: dh_byte_def dh_vector_def Let_def)

lemma dh_request_eq_vector: "dh_request g req pr ks = dh_vector g req pr ks []"
  by (simp add: dh_request_def dh_vector_def Let_def)

lemma dh_vector_sel [simp]:
  "dh_priority (dh_vector g req pr ks vec) = pr"
  "dh_killswitchDependent (dh_vector g req pr ks vec) = ks"
  "dh_length (dh_vector g req pr ks vec) = length vec + 1"
  by (simp_all add: dh_vector_def Let_def dh_initData_def)

lemma dh_vector_data:
  assumes "length vec < length g"
  shows "dh_data (dh_vector g req pr ks vec) = request_code req # vec @ drop (length vec + 1) g"
  using assms by (cases g) (simp_all add: dh_vector_def Let_def dh_initData_def dh_empty_def dh_fill_eq)

lemma dh_bytes_vector [simp]:
  "length vec < length g \<Longrightarrow> dh_bytes (dh_vector g req pr ks vec) = request_code req # vec"
  by (simp add: dh_bytes_def dh_vector_data)

lemma dh_ok_vector:
  "length g = DATAHOLDER_MAX_DATA_SIZE \<Longrightarrow> length vec + 1 < DATAHOLDER_MAX_DATA_SIZE \<Longrightarrow>
   dh_ok (dh_vector g req pr ks vec)"
  by (simp add: dh_ok_def dh_vector_data)

lemmas dh_as_vector = dh_struct_eq_vector dh_byte_eq_vector dh_request_eq_vector

lemma dh_assign_sel [simp]:
  "dh_priority (dh_assign old d) = dh_priority d"
  "dh_killswitchDependent (dh_assign old d) = dh_killswitchDependent d"
  "dh_length (dh_assign old d) = dh_length d"
  by (simp_all add: dh_assign_def)

lemma dh_bytes_assign [simp]: "dh_ok d \<Longrightarrow> dh_bytes (dh_assign old d) = dh_bytes d"
  by (simp add: dh_bytes_def dh_assign_def memcpy_def dh_ok_def)

lemma dh_view_assign [simp]: "dh_ok d \<Longrightarrow> dh_view (dh_assign old d) = dh_view d"
  by (simp add: dh_view_def)

lemma dh_ok_assign [simp]:
  "length old = DATAHOLDER_MAX_DATA_SIZE \<Longrightarrow> dh_ok d \<Longrightarrow> dh_ok (dh_assign old d)"
  by (simp add: dh_ok_def dh_assign_def memcpy_def)

lemma dh_equals_refl [simp]: "dh_equals d d"
  by (simp add: dh_equals_def)

lemma dh_equals_iff:
  "dh_equals a b \<longleftrightarrow> dh_priority a = dh_priority b \<and> dh_length a = dh_length b \<and>
     dh_killswitchDependent a = dh_killswitchDependent b \<and>
     take (dh_length a + 1) (dh_data a) = take (dh_length a + 1) (dh_data b)"
  by (auto simp: dh_equals_def)

lemma dh_equals_prefix:
  "dh_equals a b \<Longrightarrow> take (dh_length a + 1) (dh_data a) = take (dh_length a + 1) (dh_data b)"
  unfolding dh_equals_iff by (elim conjE)

lemma dh_equals_view: "dh_equals a b \<Longrightarrow> dh_view a = dh_view b"
proof -
  assume e: "dh_equals a b"
  then have "take (dh_length a) (take (dh_length a + 1) (dh_data a)) =
    take (dh_length a) (take (dh_length a + 1) (dh_data b))"
    by (rule arg_cong [OF dh_equals_prefix])
  with e show ?thesis by (simp add: dh_equals_iff dh_view_def dh_bytes_def)
qed

lemma dh_equals_assign: "dh_ok d \<Longrightarrow> dh_equals (dh_assign old d) d"
  by (simp add: dh_equals_iff dh_assign_def memcpy_def dh_ok_def)

lemma dh_view_equals:
  assumes "dh_ok a" "dh_ok b" "dh_view a = dh_view b"
    "dh_data a ! dh_length a = dh_data b ! dh_length b"
  shows "dh_equals a b"
proof -
  have len: "dh_length a = dh_length b"
    using assms by (auto simp: dh_view_def dh_bytes_def dh_ok_def min_def dest!: arg_cong [of "take _ _" _ length])
  with assms show ?thesis
    by (simp add: dh_equals_iff dh_view_def dh_bytes_def dh_ok_def take_Suc_conv_app_nth)
qed

lemma dh_appendTo_bytes: "dh_appendTo d vec = vec @ dh_bytes d"
  by (simp add: dh_appendTo_def dh_bytes_def)

section \<open>Properties\<close>

text \<open>\<open>DataHolder::equals\<close> on requests inside the 40-byte array compares priority, kill switch
  dependence and the bytes to be sent, and beyond them exactly one more byte, which no constructor
  initialises: objects that are equal carry the same request, and objects that carry the same
  request are equal unless that byte differs.\<close>

theorem equals_compares_one_byte_more:
  assumes "dh_ok a" and "dh_ok b"
  shows "dh_equals a b \<longleftrightarrow>
    dh_view a = dh_view b \<and> dh_data a ! dh_length a = dh_data b ! dh_length b"
proof
  assume e: "dh_equals a b"
  have "take (dh_length a + 1) (dh_data a) ! dh_length a =
    take (dh_length a + 1) (dh_data b) ! dh_length a"
    using dh_equals_prefix [OF e] by (rule arg_cong)
  moreover have "dh_length a = dh_length b" using e by (simp add: dh_equals_def split: if_splits)
  ultimately show "dh_view a = dh_view b \<and> dh_data a ! dh_length a = dh_data b ! dh_length b"
    using dh_equals_view [OF e] by simp
next
  assume "dh_view a = dh_view b \<and> dh_data a ! dh_length a = dh_data b ! dh_length b"
  with assms show "dh_equals a b" by (intro dh_view_equals) simp_all
qed

lemma equals_compares_one_byte_more_witness:
  "\<not> dh_equals (dh_byte (replicate 40 0) EXPANDER_SET 4 True 7)
              (dh_byte (replicate 40 1) EXPANDER_SET 4 True 7)"
  using equals_compares_one_byte_more [of "dh_byte (replicate 40 0) EXPANDER_SET 4 True 7"
      "dh_byte (replicate 40 1) EXPANDER_SET 4 True 7"]
  by (simp add: dh_byte_eq_vector dh_ok_vector DATAHOLDER_MAX_DATA_SIZE_def dh_vector_data)

end
