(* ===== verification/Server_Interface.thy ===== *)
theory Server_Interface
  imports Data_Holder Usb_Command
begin

text \<open>
  \<open>server/common_lib\<close>: the class \<open>Interface\<close> with its nested device classes
  (\<open>include/Interface.hpp\<close>, \<open>src/Interface.cpp\<close>) and the string conversions (\<open>src/convert.cpp\<close>).
  One record holds the state of all the classes; the setters put a request into the request map,
  \<open>updateDataStructures\<close> reads the device's response. Logging is left out.

  Every operation that builds a \<open>DataHolder\<close> takes the uninitialised memory \<open>g\<close>: \<open>g 0\<close> is where the
  temporary is built, \<open>g 1\<close> is the memory of a new node of the map.
\<close>

section \<open>Types\<close>

definition MOTOR_DRIVER_MAX_SPEED :: u8 where "MOTOR_DRIVER_MAX_SPEED = 11"
definition ARM_DRIVER_MAX_SPEED :: "32 word" where "ARM_DRIVER_MAX_SPEED = 255"

datatype direction = STOP | FORWARD | BACKWARD
datatype button = UP | DOWN | ENTER
datatype joint_id = J_ELBOW | J_GRIPPER | J_SHOULDER
datatype motor_id = M_LEFT | M_RIGHT
datatype arm_mode = DIRECTIONAL | POSITIONAL | CALIBRATING
datatype calibration_status = CAL_NONE | CAL_IN_PROGRESS | CAL_DONE
datatype expander_device = LIGHT_CAMERA | LIGHT_LEFT | LIGHT_RIGHT

primrec expander_bit :: "expander_device \<Rightarrow> nat" where
  "expander_bit LIGHT_CAMERA = 4"
| "expander_bit LIGHT_LEFT = 2"
| "expander_bit LIGHT_RIGHT = 3"

primrec ARM_DRIVER_MAX_POSITION :: "joint_id \<Rightarrow> nat" where
  "ARM_DRIVER_MAX_POSITION J_ELBOW = 105"
| "ARM_DRIVER_MAX_POSITION J_SHOULDER = 79"
| "ARM_DRIVER_MAX_POSITION J_GRIPPER = 255"

datatype priority =
  PRIORITY_KILL_SWITCH | PRIORITY_ARM_SET | PRIORITY_MOTOR_SET | PRIORITY_ARM_GENERAL_SET
| PRIORITY_EXPANDER_SET | PRIORITY_LCD

primrec priority_int :: "priority \<Rightarrow> int" where
  "priority_int PRIORITY_KILL_SWITCH = 0"
| "priority_int PRIORITY_ARM_SET = 1"
| "priority_int PRIORITY_MOTOR_SET = 2"
| "priority_int PRIORITY_ARM_GENERAL_SET = 3"
| "priority_int PRIORITY_EXPANDER_SET = 4"
| "priority_int PRIORITY_LCD = 5"

text \<open>Keys in the request map: \<open>motor_\<close> and \<open>arm_\<close> with the number of the enumerator.\<close>

primrec motor_key :: "motor_id \<Rightarrow> string" where
  "motor_key M_LEFT = ''motor_108''"
| "motor_key M_RIGHT = ''motor_114''"

primrec joint_key :: "joint_id \<Rightarrow> string" where
  "joint_key J_ELBOW = ''arm_101''"
| "joint_key J_GRIPPER = ''arm_103''"
| "joint_key J_SHOULDER = ''arm_115''"

definition KILLSWITCH_STRING :: string where "KILLSWITCH_STRING = ''killswitch''"

record single_motor =
  sm_direction :: direction
  sm_programmedSpeed :: u8
  sm_power :: u8

record single_joint =
  sj_speed :: u8
  sj_direction :: direction
  sj_position :: u8
  sj_programmedPosition :: u8
  sj_settingPosition :: bool

type_synonym request_map = "(string \<times> data_holder) list"
type_synonym mem = "nat \<Rightarrow> u8 list"

record iface =
  if_requests :: request_map
  if_objectActive :: bool
  if_rawVoltage :: "nat list"
  if_rawCurrent :: "nat list"
  if_lcdText :: string
  if_buttons :: "button \<Rightarrow> bool"
  if_killSwitchActive :: bool
  if_killSwitchCausedByHardware :: bool
  if_motors :: "motor_id \<Rightarrow> single_motor"
  if_joints :: "joint_id \<Rightarrow> single_joint"
  if_mode :: arm_mode
  if_calibrationStatus :: calibration_status
  if_expanderByte :: u8

section \<open>Setters\<close>

text \<open>\<open>IExternalDevice::insertRequest\<close>.\<close>

definition insertRequest :: "mem \<Rightarrow> string \<Rightarrow> data_holder \<Rightarrow> request_map \<Rightarrow> request_map" where
  "insertRequest g key value rm =
     (case map_of rm key of
        None \<Rightarrow> al_insert key (dh_assign (g 1) value) rm
      | Some old \<Rightarrow> al_insert key (dh_assign (dh_data old) value) rm)"

definition if_insert :: "mem \<Rightarrow> string \<Rightarrow> data_holder \<Rightarrow> iface \<Rightarrow> iface" where
  "if_insert g key value i = i\<lparr>if_requests := insertRequest g key value (if_requests i)\<rparr>"

definition setLCDText :: "mem \<Rightarrow> string \<Rightarrow> iface \<Rightarrow> iface" where
  "setLCDText g txt i =
     (let newString = (if length txt > 33 then take 33 txt else txt) in
      if newString = if_lcdText i then i
      else (let i = i\<lparr>if_lcdText := newString\<rparr>;
                data = of_nat (length newString) # map of_char newString
            in if_insert g ''lcdtext''
                 (dh_vector (g 0) BRIDGE_LCD_SET (priority_int PRIORITY_LCD) False data) i))"

text \<open>
  The call passes \<open>false\<close> for the priority and \<open>PRIORITY_KILL_SWITCH\<close> for the kill switch
  dependence; both convert to 0.
\<close>

definition setKillSwitch :: "mem \<Rightarrow> bool \<Rightarrow> iface \<Rightarrow> iface" where
  "setKillSwitch g active i =
     (if active
      then (let i = i\<lparr>if_killSwitchActive := True, if_killSwitchCausedByHardware := False\<rparr>
            in if_insert g KILLSWITCH_STRING
                 (dh_byte (g 0) BRIDGE_SET_KILLSWITCH 0 (priority_int PRIORITY_KILL_SWITCH \<noteq> 0)
                   KS_ACTIVE) i)
      else if_insert g KILLSWITCH_STRING
             (dh_byte (g 0) BRIDGE_SET_KILLSWITCH 0 (priority_int PRIORITY_KILL_SWITCH \<noteq> 0)
               KS_INACTIVE) i)"

definition isButtonPressed :: "button \<Rightarrow> iface \<Rightarrow> bool" where
  "isButtonPressed b i = if_buttons i b"

text \<open>\<open>SingleMotor\<close>.\<close>

definition sm_init :: single_motor where
  "sm_init = \<lparr>sm_direction = STOP, sm_programmedSpeed = 0, sm_power = 0\<rparr>"

primrec motor_code :: "motor_id \<Rightarrow> u8" where
  "motor_code M_LEFT = MOTOR1"
| "motor_code M_RIGHT = MOTOR2"

primrec direction_code :: "direction \<Rightarrow> u8" where
  "direction_code STOP = D_STOP"
| "direction_code FORWARD = D_FORWARD"
| "direction_code BACKWARD = D_BACKWARD"

definition createMotorState :: "mem \<Rightarrow> motor_id \<Rightarrow> iface \<Rightarrow> iface" where
  "createMotorState g m i =
     (let st = \<lparr>sms_motor = motor_code m,
                sms_direction = direction_code (sm_direction (if_motors i m)),
                sms_speed = sm_programmedSpeed (if_motors i m)\<rparr>
      in if_insert g (motor_key m)
           (dh_struct (g 0) MOTOR_DRIVER_SET (priority_int PRIORITY_MOTOR_SET) True
             (motor_state_bytes st)) i)"

definition upd_motor :: "motor_id \<Rightarrow> (single_motor \<Rightarrow> single_motor) \<Rightarrow> iface \<Rightarrow> iface" where
  "upd_motor m f i = i\<lparr>if_motors := (if_motors i)(m := f (if_motors i m))\<rparr>"

definition motor_setSpeed :: "mem \<Rightarrow> motor_id \<Rightarrow> 32 word \<Rightarrow> iface \<Rightarrow> iface" where
  "motor_setSpeed g m speed i =
     (let i = (if speed \<le> ucast MOTOR_DRIVER_MAX_SPEED
               then upd_motor m (\<lambda>s. s\<lparr>sm_programmedSpeed := ucast speed\<rparr>) i
               else upd_motor m (\<lambda>s. s\<lparr>sm_programmedSpeed := MOTOR_DRIVER_MAX_SPEED\<rparr>) i)
      in createMotorState g m i)"

definition motor_setDirection :: "mem \<Rightarrow> motor_id \<Rightarrow> direction \<Rightarrow> iface \<Rightarrow> iface" where
  "motor_setDirection g m dir i =
     createMotorState g m (upd_motor m (\<lambda>s. s\<lparr>sm_direction := dir\<rparr>) i)"

definition motor_initStructure :: "mem \<Rightarrow> motor_id \<Rightarrow> iface \<Rightarrow> iface" where
  "motor_initStructure g m i =
     (if map_of (if_requests i) (motor_key m) = None
      then createMotorState g m
             (upd_motor m (\<lambda>s. s\<lparr>sm_programmedSpeed := 0, sm_direction := STOP, sm_power := 0\<rparr>) i)
      else i)"

definition motor_brake :: "mem \<Rightarrow> mem \<Rightarrow> iface \<Rightarrow> iface" where
  "motor_brake g g' i = motor_setDirection g' M_RIGHT STOP (motor_setDirection g M_LEFT STOP i)"

text \<open>\<open>SingleJoint\<close>. Its setters do nothing while the arm is calibrating.\<close>

definition sj_init :: single_joint where
  "sj_init = \<lparr>sj_speed = 0, sj_direction = STOP, sj_position = 0, sj_programmedPosition = 0,
     sj_settingPosition = False\<rparr>"

primrec joint_code :: "joint_id \<Rightarrow> u8" where
  "joint_code J_ELBOW = ELBOW"
| "joint_code J_GRIPPER = GRIPPER"
| "joint_code J_SHOULDER = SHOULDER"

definition createJointState :: "mem \<Rightarrow> joint_id \<Rightarrow> iface \<Rightarrow> iface" where
  "createJointState g j i =
     (let sj = if_joints i j;
          st = \<lparr>jst_motor = joint_code j, jst_direction = direction_code (sj_direction sj),
                jst_speed = sj_speed sj, jst_setPosition = sj_settingPosition sj,
                jst_position = sj_programmedPosition sj\<rparr>
      in if_insert g (joint_key j)
           (dh_struct (g 0) ARM_DRIVER_SET (priority_int PRIORITY_ARM_SET) True
             (joint_state_bytes st)) i)"

definition upd_joint :: "joint_id \<Rightarrow> (single_joint \<Rightarrow> single_joint) \<Rightarrow> iface \<Rightarrow> iface" where
  "upd_joint j f i = i\<lparr>if_joints := (if_joints i)(j := f (if_joints i j))\<rparr>"

definition joint_initStructure :: "mem \<Rightarrow> joint_id \<Rightarrow> iface \<Rightarrow> iface" where
  "joint_initStructure g j i =
     (if map_of (if_requests i) (joint_key j) = None
      then createJointState g j
             (upd_joint j (\<lambda>s. s\<lparr>sj_direction := STOP, sj_speed := 0, sj_settingPosition := False,
                                 sj_programmedPosition := 0\<rparr>) i)
      else i)"

text \<open>The clamped \<open>effectiveSpeed\<close> goes to the log only; the member gets \<open>speed\<close>, cut to a byte.\<close>

definition joint_setSpeed :: "mem \<Rightarrow> joint_id \<Rightarrow> 32 word \<Rightarrow> iface \<Rightarrow> iface" where
  "joint_setSpeed g j speed i =
     (if if_calibrationStatus i = CAL_IN_PROGRESS then i
      else createJointState g j (upd_joint j (\<lambda>s. s\<lparr>sj_speed := ucast speed\<rparr>) i))"

definition joint_setDirection :: "mem \<Rightarrow> joint_id \<Rightarrow> direction \<Rightarrow> iface \<Rightarrow> iface" where
  "joint_setDirection g j dir i =
     (if if_calibrationStatus i = CAL_IN_PROGRESS then i
      else createJointState g j
             (upd_joint j (\<lambda>s. s\<lparr>sj_direction := dir, sj_settingPosition := False\<rparr>) i))"

definition joint_setPosition :: "mem \<Rightarrow> joint_id \<Rightarrow> 32 word \<Rightarrow> iface \<Rightarrow> iface" where
  "joint_setPosition g j position i =
     (if if_calibrationStatus i = CAL_IN_PROGRESS then i
      else (let effectivePos = (if unat position \<le> ARM_DRIVER_MAX_POSITION j then position
                                else of_nat (ARM_DRIVER_MAX_POSITION j))
            in createJointState g j
                 (upd_joint j (\<lambda>s. s\<lparr>sj_programmedPosition := ucast effectivePos,
                                     sj_settingPosition := True\<rparr>) i)))"

text \<open>\<open>ArmClass\<close> and \<open>ExpanderClass::Device\<close>.\<close>

definition arm_brake :: "mem \<Rightarrow> iface \<Rightarrow> iface" where
  "arm_brake g i =
     if_insert g ''arm_addon''
       (dh_byte (g 0) ARM_DRIVER_SET (priority_int PRIORITY_ARM_GENERAL_SET) True ARM_ADD_BRAKE) i"

definition arm_calibrate :: "mem \<Rightarrow> iface \<Rightarrow> iface" where
  "arm_calibrate g i =
     (if if_calibrationStatus i = CAL_NONE \<or> if_calibrationStatus i = CAL_DONE
      then (let i = if_insert g ''arm_addon''
                      (dh_byte (g 0) ARM_DRIVER_SET (priority_int PRIORITY_ARM_GENERAL_SET) True
                        ARM_ADD_CALIBRATE) i
            in i\<lparr>if_calibrationStatus := CAL_IN_PROGRESS, if_mode := CALIBRATING\<rparr>)
      else i)"

definition expander_setEnabled :: "mem \<Rightarrow> expander_device \<Rightarrow> bool \<Rightarrow> iface \<Rightarrow> iface" where
  "expander_setEnabled g d enabled i =
     (let i = (if enabled
               then i\<lparr>if_expanderByte := sbi (expander_bit d) (if_expanderByte i)\<rparr>
               else i\<lparr>if_expanderByte := cbi (expander_bit d) (if_expanderByte i)\<rparr>)
      in if_insert g ''expander''
           (dh_byte (g 0) EXPANDER_SET (priority_int PRIORITY_EXPANDER_SET) True
             (if_expanderByte i)) i)"

definition expander_isEnabled :: "expander_device \<Rightarrow> iface \<Rightarrow> bool" where
  "expander_isEnabled d i \<longleftrightarrow> bit_is_set (if_expanderByte i) (expander_bit d)"

section \<open>Constructor\<close>

definition iface_init :: "mem \<Rightarrow> iface" where
  "iface_init g =
     (let i = \<lparr>if_requests = [], if_objectActive = False, if_rawVoltage = [0], if_rawCurrent = [0],
               if_lcdText = [], if_buttons = (\<lambda>_. False), if_killSwitchActive = True,
               if_killSwitchCausedByHardware = False, if_motors = (\<lambda>_. sm_init),
               if_joints = (\<lambda>_. sj_init), if_mode = DIRECTIONAL, if_calibrationStatus = CAL_NONE,
               if_expanderByte = 0\<rparr>;
          i = setKillSwitch g True i
      in i\<lparr>if_objectActive := True\<rparr>)"

definition iface_destroy :: "iface \<Rightarrow> iface" where
  "iface_destroy i = i\<lparr>if_objectActive := False\<rparr>"

section \<open>Reading the device's response\<close>

text \<open>\<open>boost::circular_buffer\<close> of capacity 5.\<close>

definition cb_push :: "'a \<Rightarrow> 'a list \<Rightarrow> 'a list" where
  "cb_push x xs = (if length xs < 5 then xs @ [x] else tl xs @ [x])"

text \<open>
  The listeners, in the order the constructor registers them: the interface itself, the arm, the
  expander, the joints and the motors (both maps iterate by enumerator).
\<close>

datatype listener = L_Interface | L_Arm | L_Expander | L_Joint joint_id | L_Motor motor_id

definition extDevListeners :: "listener list" where
  "extDevListeners = [L_Interface, L_Arm, L_Expander, L_Joint J_ELBOW, L_Joint J_GRIPPER,
     L_Joint J_SHOULDER, L_Motor M_LEFT, L_Motor M_RIGHT]"

definition onKillSwitchActivated :: "listener \<Rightarrow> iface \<Rightarrow> iface" where
  "onKillSwitchActivated l i =
     (case l of
        L_Interface \<Rightarrow> i\<lparr>if_lcdText := []\<rparr>
      | L_Arm \<Rightarrow>
          (let i = i\<lparr>if_mode := DIRECTIONAL\<rparr>;
               i = (if if_calibrationStatus i = CAL_IN_PROGRESS
                    then i\<lparr>if_calibrationStatus := CAL_NONE\<rparr> else i)
           in i\<lparr>if_requests := al_erase ''arm_addon'' (if_requests i)\<rparr>)
      | L_Expander \<Rightarrow> i
      | L_Joint j \<Rightarrow> upd_joint j (\<lambda>s. s\<lparr>sj_direction := STOP, sj_speed := 0\<rparr>) i
      | L_Motor m \<Rightarrow>
          upd_motor m (\<lambda>s. s\<lparr>sm_power := 0, sm_programmedSpeed := 0, sm_direction := STOP\<rparr>) i)"

definition updateStructsWhenKillSwitchActivated :: "iface \<Rightarrow> iface" where
  "updateStructsWhenKillSwitchActivated i = fold onKillSwitchActivated extDevListeners i"

text \<open>
  \<open>updateFields\<close> of each listener: the number of bytes taken (0: not for this listener) and the new
  state. \<open>data\<close> are the bytes of the response from the current position on; \<open>None\<close> when the
  structure that is read there extends beyond the end of the response.
\<close>

definition interface_updateFields :: "usb_request \<Rightarrow> u8 list \<Rightarrow> iface \<Rightarrow> (nat \<times> iface) option" where
  "interface_updateFields req data i =
     (if req \<noteq> BRIDGE_GET_STATE then Some (0, i)
      else (case read_bridge_state data of
         None \<Rightarrow> None
       | Some st \<Rightarrow>
           (let i = (if bst_killSwitch st = KS_ACTIVE
                     then updateStructsWhenKillSwitchActivated
                            (i\<lparr>if_killSwitchActive := True,
                               if_killSwitchCausedByHardware := bst_killSwitchCausedByHardware st\<rparr>)
                     else i\<lparr>if_killSwitchCausedByHardware := False, if_killSwitchActive := False\<rparr>);
                i = i\<lparr>if_buttons := (if_buttons i)(UP := bst_buttonUp st, DOWN := bst_buttonDown st,
                                                   ENTER := bst_buttonEnter st)\<rparr>;
                i = i\<lparr>if_rawCurrent := cb_push (unat (bst_rawCurrent st)) (if_rawCurrent i)\<rparr>;
                i = i\<lparr>if_rawVoltage := cb_push (unat (bst_rawVoltage st)) (if_rawVoltage i)\<rparr>
            in Some (9, i))))"

definition arm_updateFields :: "usb_request \<Rightarrow> u8 list \<Rightarrow> iface \<Rightarrow> (nat \<times> iface) option" where
  "arm_updateFields req data i =
     (if req \<noteq> ARM_DRIVER_GET_GENERAL_STATE then Some (0, i)
      else (case read_general_state data of
         None \<Rightarrow> None
       | Some st \<Rightarrow>
           (let i = (if gst_isCalibrated st
                     then (let i = (if if_calibrationStatus i = CAL_IN_PROGRESS
                                    then i\<lparr>if_requests := al_erase ''arm_addon'' (if_requests i)\<rparr>
                                    else i)
                           in i\<lparr>if_calibrationStatus := CAL_DONE\<rparr>)
                     else i);
                i = (if gst_mode st = MODE_DIR then i\<lparr>if_mode := DIRECTIONAL\<rparr>
                     else if gst_mode st = MODE_POS then i\<lparr>if_mode := POSITIONAL\<rparr>
                     else if gst_mode st = MODE_CAL then i\<lparr>if_mode := CALIBRATING\<rparr>
                     else i)
            in Some (2, i))))"

definition expander_updateFields :: "usb_request \<Rightarrow> u8 list \<Rightarrow> iface \<Rightarrow> (nat \<times> iface) option" where
  "expander_updateFields req data i =
     (if req \<noteq> EXPANDER_GET then Some (0, i)
      else (case data of [] \<Rightarrow> None | b # _ \<Rightarrow> Some (1, i\<lparr>if_expanderByte := b\<rparr>)))"

definition motor_updateFields ::
  "motor_id \<Rightarrow> usb_request \<Rightarrow> u8 list \<Rightarrow> iface \<Rightarrow> (nat \<times> iface) option" where
  "motor_updateFields m req data i =
     (if req \<noteq> MOTOR_DRIVER_GET then Some (0, i)
      else (case read_motor_state data of
         None \<Rightarrow> None
       | Some st \<Rightarrow>
           (let motorNo = (if sms_motor st = MOTOR1 then M_LEFT else M_RIGHT) in
            if motorNo \<noteq> m then Some (0, i)
            else Some (3, upd_motor m (\<lambda>s. s\<lparr>sm_power := sms_speed st\<rparr>) i))))"

definition joint_updateFields ::
  "joint_id \<Rightarrow> usb_request \<Rightarrow> u8 list \<Rightarrow> iface \<Rightarrow> (nat \<times> iface) option" where
  "joint_updateFields j req data i =
     (if req \<noteq> ARM_DRIVER_GET then Some (0, i)
      else (case read_joint_state data of
         None \<Rightarrow> None
       | Some st \<Rightarrow>
           (let jointNo = (if jst_motor st = ELBOW then J_ELBOW
                           else if jst_motor st = GRIPPER then J_GRIPPER
                           else J_SHOULDER) in
            if jointNo \<noteq> j then Some (0, i)
            else (let dir = (if jst_direction st = D_FORWARD then FORWARD
                             else if jst_direction st = D_BACKWARD then BACKWARD
                             else STOP)
                  in Some (5, upd_joint j (\<lambda>s. s\<lparr>sj_direction := dir, sj_speed := jst_speed st,
                                                 sj_position := jst_position st\<rparr>) i)))))"

definition listener_updateFields ::
  "listener \<Rightarrow> usb_request \<Rightarrow> u8 list \<Rightarrow> iface \<Rightarrow> (nat \<times> iface) option" where
  "listener_updateFields l =
     (case l of
        L_Interface \<Rightarrow> interface_updateFields
      | L_Arm \<Rightarrow> arm_updateFields
      | L_Expander \<Rightarrow> expander_updateFields
      | L_Joint j \<Rightarrow> joint_updateFields j
      | L_Motor m \<Rightarrow> motor_updateFields m)"

text \<open>The inner loop of \<open>updateDataStructures\<close>: the first listener that takes bytes.\<close>

fun dispatch_response ::
  "listener list \<Rightarrow> usb_request \<Rightarrow> u8 list \<Rightarrow> iface \<Rightarrow> (nat \<times> iface) option" where
  "dispatch_response [] req data i = Some (0, i)"
| "dispatch_response (l # ls) req data i =
     (case listener_updateFields l req data i of
        None \<Rightarrow> None
      | Some (n, i') \<Rightarrow> if n > 0 then Some (n, i') else dispatch_response ls req data i')"

text \<open>
  How \<open>updateDataStructures\<close> ends: normally, by one of its two exceptions, or by reading outside
  the response vector. The state updates made before that stay.
\<close>

datatype update_end =
    UpdateOk
  | NotHandled usb_request
  | NoMessageEnd nat nat
  | ReadOutside nat

fun find_from :: "u8 \<Rightarrow> nat \<Rightarrow> u8 list \<Rightarrow> nat" where
  "find_from b n [] = n"
| "find_from b n (x # xs) = (if x = b then n else find_from b (Suc n) xs)"

fun update_loop ::
  "usb_request list \<Rightarrow> u8 list \<Rightarrow> nat \<Rightarrow> iface \<Rightarrow> iface \<times> update_end" where
  "update_loop [] resp pos i =
     (case peek resp pos of
        None \<Rightarrow> (i, ReadOutside pos)
      | Some b \<Rightarrow>
          if b \<noteq> request_code MESSAGE_END
          then (i, NoMessageEnd pos (find_from (request_code MESSAGE_END) pos (drop pos resp)))
          else (i, UpdateOk))"
| "update_loop (r # rs) resp pos i =
     (case dispatch_response extDevListeners r (drop pos resp) i of
        None \<Rightarrow> (i, ReadOutside pos)
      | Some (n, i') \<Rightarrow> if n = 0 then (i', NotHandled r) else update_loop rs resp (pos + n) i')"

definition updateDataStructures :: "usb_request list \<Rightarrow> u8 list \<Rightarrow> iface \<Rightarrow> iface \<times> update_end" where
  "updateDataStructures getterRequests deviceResponse i = update_loop getterRequests deviceResponse 0 i"

section \<open>Battery values\<close>

text \<open>
  \<open>getVoltage\<close> and \<open>getCurrent\<close> over the rationals; the rounding errors of \<open>double\<close> are not modelled.
  The samples are not negative, where C's \<open>round\<close> and the one of the library agree.
\<close>

definition getVoltage :: "iface \<Rightarrow> rat" where
  "getVoltage i = of_int (round (10 * VOLTAGE_FACTOR * of_nat (sum_list (if_rawVoltage i))
      / of_nat (length (if_rawVoltage i)))) / 10"

definition getCurrent :: "iface \<Rightarrow> rat" where
  "getCurrent i = of_int (round (10 * CURRENT_FACTOR * of_nat (sum_list (if_rawCurrent i))
      / of_nat (length (if_rawCurrent i)))) / 10"

section \<open>\<open>convert.cpp\<close>\<close>

definition directionToString :: "direction \<Rightarrow> string" where
  "directionToString dir =
     (case dir of FORWARD \<Rightarrow> ''forward'' | BACKWARD \<Rightarrow> ''backward'' | STOP \<Rightarrow> ''stop'')"

text \<open>\<open>boost::algorithm::to_lower\<close> in the C locale.\<close>

definition to_lower_char :: "char \<Rightarrow> char" where
  "to_lower_char c =
     (let n = of_char c :: nat in if 65 \<le> n \<and> n \<le> 90 then char_of (n + 32) else c)"

text \<open>\<open>None\<close> is the exception "invalid direction".\<close>

definition stringToDirection :: "string \<Rightarrow> direction option" where
  "stringToDirection dirc =
     (let dir = map to_lower_char dirc in
      if dir = ''stop'' then Some STOP
      else if dir = ''forward'' then Some FORWARD
      else if dir = ''backward'' then Some BACKWARD
      else None)"

definition armDriverModeToString :: "arm_mode \<Rightarrow> string" where
  "armDriverModeToString mode =
     (case mode of CALIBRATING \<Rightarrow> ''calibrating'' | POSITIONAL \<Rightarrow> ''positional''
      | DIRECTIONAL \<Rightarrow> ''directional'')"

definition armCalibrationStatusToString :: "calibration_status \<Rightarrow> string" where
  "armCalibrationStatusToString st =
     (case st of CAL_DONE \<Rightarrow> ''done'' | CAL_IN_PROGRESS \<Rightarrow> ''prog'' | CAL_NONE \<Rightarrow> ''none'')"

definition expander_devToString :: "expander_device \<Rightarrow> string" where
  "expander_devToString d =
     (case d of LIGHT_CAMERA \<Rightarrow> ''camera light'' | LIGHT_LEFT \<Rightarrow> ''left light''
      | LIGHT_RIGHT \<Rightarrow> ''right light'')"

definition joint_devToString :: "joint_id \<Rightarrow> string" where
  "joint_devToString d =
     (case d of J_ELBOW \<Rightarrow> ''elbow'' | J_GRIPPER \<Rightarrow> ''gripper'' | J_SHOULDER \<Rightarrow> ''shoulder'')"

definition motor_devToString :: "motor_id \<Rightarrow> string" where
  "motor_devToString d = (if d = M_LEFT then ''left'' else ''right'')"

section \<open>What the request map holds\<close>

text \<open>
  The commands the interface puts under each key, with their priority, their dependence on the
  kill switch and their ranges.
\<close>

fun cmd_key :: "usb_cmd \<Rightarrow> string" where
  "cmd_key (LcdSet t) = ''lcdtext''"
| "cmd_key (SetKillswitch b) = ''killswitch''"
| "cmd_key (MotorSet m) = (if sms_motor m = MOTOR1 then ''motor_108'' else ''motor_114'')"
| "cmd_key (ArmSet j) =
     (if jst_motor j = ELBOW then ''arm_101''
      else if jst_motor j = GRIPPER then ''arm_103'' else ''arm_115'')"
| "cmd_key ArmBrake = ''arm_addon''"
| "cmd_key ArmCalibrate = ''arm_addon''"
| "cmd_key (ExpanderSet b) = ''expander''"
| "cmd_key _ = []"

fun cmd_priority :: "usb_cmd \<Rightarrow> int" where
  "cmd_priority (ArmSet j) = 1"
| "cmd_priority (MotorSet m) = 2"
| "cmd_priority ArmBrake = 3"
| "cmd_priority ArmCalibrate = 3"
| "cmd_priority (ExpanderSet b) = 4"
| "cmd_priority (LcdSet t) = 5"
| "cmd_priority _ = 0"

fun cmd_needs_power :: "usb_cmd \<Rightarrow> bool" where
  "cmd_needs_power (LcdSet t) = False"
| "cmd_needs_power (SetKillswitch b) = False"
| "cmd_needs_power _ = True"

fun server_cmd_ok :: "usb_cmd \<Rightarrow> bool" where
  "server_cmd_ok (LcdSet t) = (length t \<le> 33)"
| "server_cmd_ok (SetKillswitch b) = (b = KS_ACTIVE \<or> b = KS_INACTIVE)"
| "server_cmd_ok (MotorSet m) =
     ((sms_motor m = MOTOR1 \<or> sms_motor m = MOTOR2) \<and> sms_direction m \<le> 2 \<and> sms_speed m \<le> 11)"
| "server_cmd_ok (ArmSet j) =
     ((jst_motor j = ELBOW \<or> jst_motor j = GRIPPER \<or> jst_motor j = SHOULDER) \<and>
      jst_direction j \<le> 2 \<and>
      (jst_motor j = ELBOW \<longrightarrow> jst_position j \<le> 105) \<and>
      (jst_motor j = SHOULDER \<longrightarrow> jst_position j \<le> 79))"
| "server_cmd_ok ArmBrake = True"
| "server_cmd_ok ArmCalibrate = True"
| "server_cmd_ok (ExpanderSet b) = True"
| "server_cmd_ok _ = False"

definition dh_carries :: "data_holder \<Rightarrow> usb_cmd \<Rightarrow> bool" where
  "dh_carries d c \<longleftrightarrow> dh_ok d \<and> dh_bytes d = encode_cmd c \<and> dh_priority d = cmd_priority c \<and>
     dh_killswitchDependent d = cmd_needs_power c"

definition requests_ok :: "request_map \<Rightarrow> bool" where
  "requests_ok rm \<longleftrightarrow> al_sorted rm \<and>
     (\<forall>(k, d) \<in> set rm. \<exists>c. server_cmd_ok c \<and> cmd_key c = k \<and> dh_carries d c)"

definition iface_ok :: "iface \<Rightarrow> bool" where
  "iface_ok i \<longleftrightarrow> requests_ok (if_requests i) \<and>
     (\<forall>m. sm_programmedSpeed (if_motors i m) \<le> MOTOR_DRIVER_MAX_SPEED) \<and>
     (\<forall>j. unat (sj_programmedPosition (if_joints i j)) \<le> ARM_DRIVER_MAX_POSITION j) \<and>
     length (if_lcdText i) \<le> 33 \<and>
     if_rawVoltage i \<noteq> [] \<and> length (if_rawVoltage i) \<le> 5 \<and>
     if_rawCurrent i \<noteq> [] \<and> length (if_rawCurrent i) \<le> 5"

definition mem_ok :: "mem \<Rightarrow> bool" where
  "mem_ok g \<longleftrightarrow> length (g 0) = DATAHOLDER_MAX_DATA_SIZE \<and> length (g 1) = DATAHOLDER_MAX_DATA_SIZE"

lemma server_cmd_is_ok: "server_cmd_ok c \<Longrightarrow> cmd_ok c"
  by (cases c) auto

lemma server_cmd_length: "server_cmd_ok c \<Longrightarrow> length (encode_cmd c) \<le> 35"
  by (cases c) auto

lemma encode_nonempty: "0 < length (encode_cmd c)"
  by (cases c) simp_all

text \<open>A request built by one of the constructors carries its command.\<close>

lemma dh_carries_vector:
  assumes "length g = DATAHOLDER_MAX_DATA_SIZE" "server_cmd_ok c"
    and "vec = cmd_args c" "req = cmd_request c"
    and "pr = cmd_priority c" "ks = cmd_needs_power c"
  shows "dh_carries (dh_vector g req pr ks vec) c"
proof -
  have "length vec + 1 \<le> 35"
    using server_cmd_length [OF assms(2)] assms(3) by (simp add: encode_cmd_split)
  with assms show ?thesis
    by (simp add: dh_carries_def dh_ok_vector DATAHOLDER_MAX_DATA_SIZE_def encode_cmd_split)
qed

lemma dh_carries_assign:
  "length old = DATAHOLDER_MAX_DATA_SIZE \<Longrightarrow> dh_carries d c \<Longrightarrow> dh_carries (dh_assign old d) c"
  by (simp add: dh_carries_def)

text \<open>\<open>insertRequest\<close> as an update of the map.\<close>

lemma insertRequest_lookup:
  "al_sorted rm \<Longrightarrow> map_of (insertRequest g k d rm) k' =
    (if k' = k then Some (dh_assign (case map_of rm k of None \<Rightarrow> g 1 | Some old \<Rightarrow> dh_data old) d)
     else map_of rm k')"
  by (simp add: insertRequest_def al.find_insert split: option.splits)

lemma insertRequest_sorted: "al_sorted rm \<Longrightarrow> al_sorted (insertRequest g k d rm)"
  by (simp add: insertRequest_def al.invar_insert split: option.splits)

lemma requests_ok_lookup:
  assumes "requests_ok rm" "map_of rm k = Some d"
  obtains c where "server_cmd_ok c" "cmd_key c = k" "dh_carries d c"
  using assms map_of_SomeD [OF assms(2)] unfolding requests_ok_def by fast

lemma requests_okI:
  assumes "al_sorted rm"
    and "\<And>k d. map_of rm k = Some d \<Longrightarrow> \<exists>c. server_cmd_ok c \<and> cmd_key c = k \<and> dh_carries d c"
  shows "requests_ok rm"
  using assms by (auto simp: requests_ok_def al_mem_iff)

lemma requests_ok_insert:
  assumes "requests_ok rm" "mem_ok g" "server_cmd_ok c" "dh_carries d c" "cmd_key c = k"
  shows "requests_ok (insertRequest g k d rm)"
proof (rule requests_okI)
  show "al_sorted (insertRequest g k d rm)"
    using assms(1) by (simp add: requests_ok_def insertRequest_sorted)
next
  fix k' d'
  assume l: "map_of (insertRequest g k d rm) k' = Some d'"
  show "\<exists>c. server_cmd_ok c \<and> cmd_key c = k' \<and> dh_carries d' c"
  proof (cases "k' = k")
    case True
    define old where "old = (case map_of rm k of None \<Rightarrow> g 1 | Some old \<Rightarrow> dh_data old)"
    have "length old = DATAHOLDER_MAX_DATA_SIZE"
      using assms(1,2) by (auto simp: old_def mem_ok_def dh_carries_def dh_ok_def split: option.splits
          elim: requests_ok_lookup)
    moreover have "d' = dh_assign old d"
      using l True assms(1) by (simp add: insertRequest_lookup requests_ok_def old_def)
    ultimately show ?thesis using True assms by (auto intro: dh_carries_assign)
  next
    case False
    then have "map_of rm k' = Some d'"
      using l assms(1) by (simp add: insertRequest_lookup requests_ok_def)
    then show ?thesis using assms(1) by (metis requests_ok_lookup)
  qed
qed

lemma requests_ok_erase: "requests_ok rm \<Longrightarrow> requests_ok (al_erase k rm)"
  by (auto simp: requests_ok_def al_sorted_filter al_erase_def)

section \<open>Every operation keeps the interface well formed\<close>

lemma iface_ok_insert:
  "iface_ok i \<Longrightarrow> mem_ok g \<Longrightarrow> server_cmd_ok c \<Longrightarrow> dh_carries d c \<Longrightarrow> cmd_key c = k \<Longrightarrow>
   iface_ok (if_insert g k d i)"
  by (simp add: iface_ok_def if_insert_def requests_ok_insert)

text \<open>The request each setter builds.\<close>

definition motor_cmd :: "motor_id \<Rightarrow> single_motor \<Rightarrow> usb_cmd" where
  "motor_cmd m sm = MotorSet \<lparr>sms_motor = motor_code m,
     sms_direction = direction_code (sm_direction sm), sms_speed = sm_programmedSpeed sm\<rparr>"

definition joint_cmd :: "joint_id \<Rightarrow> single_joint \<Rightarrow> usb_cmd" where
  "joint_cmd j sj = ArmSet \<lparr>jst_motor = joint_code j, jst_direction = direction_code (sj_direction sj),
     jst_speed = sj_speed sj, jst_setPosition = sj_settingPosition sj,
     jst_position = sj_programmedPosition sj\<rparr>"

lemma direction_code_le: "direction_code d \<le> 2"
  by (cases d) simp_all

lemma motor_cmd_key [simp]: "cmd_key (motor_cmd m sm) = motor_key m"
  by (cases m) (simp_all add: motor_cmd_def)

lemma joint_cmd_key [simp]: "cmd_key (joint_cmd j sj) = joint_key j"
  by (cases j) (simp_all add: joint_cmd_def)

lemma motor_cmd_ok: "sm_programmedSpeed sm \<le> MOTOR_DRIVER_MAX_SPEED \<Longrightarrow> server_cmd_ok (motor_cmd m sm)"
  by (cases m) (simp_all add: motor_cmd_def direction_code_le MOTOR_DRIVER_MAX_SPEED_def)

lemma joint_cmd_ok:
  "unat (sj_programmedPosition sj) \<le> ARM_DRIVER_MAX_POSITION j \<Longrightarrow> server_cmd_ok (joint_cmd j sj)"
  using direction_code_le [of "sj_direction sj"]
  by (cases j) (simp_all add: joint_cmd_def word_le_nat_alt)

lemma createMotorState_eq:
  "mem_ok g \<Longrightarrow> createMotorState g m i =
   if_insert g (motor_key m) (dh_vector (g 0) MOTOR_DRIVER_SET 2 True
     (cmd_args (motor_cmd m (if_motors i m)))) i"
  by (simp add: createMotorState_def motor_cmd_def mem_ok_def DATAHOLDER_MAX_DATA_SIZE_def
      dh_struct_eq_vector)

lemma createJointState_eq:
  "mem_ok g \<Longrightarrow> createJointState g j i =
   if_insert g (joint_key j) (dh_vector (g 0) ARM_DRIVER_SET 1 True
     (cmd_args (joint_cmd j (if_joints i j)))) i"
  by (simp add: createJointState_def joint_cmd_def mem_ok_def DATAHOLDER_MAX_DATA_SIZE_def
      dh_struct_eq_vector Let_def)

lemma motor_cmd_sel [simp]:
  "cmd_request (motor_cmd m sm) = MOTOR_DRIVER_SET" "cmd_priority (motor_cmd m sm) = 2"
  "cmd_needs_power (motor_cmd m sm)"
  by (simp_all add: motor_cmd_def)

lemma joint_cmd_sel [simp]:
  "cmd_request (joint_cmd j sj) = ARM_DRIVER_SET" "cmd_priority (joint_cmd j sj) = 1"
  "cmd_needs_power (joint_cmd j sj)"
  by (simp_all add: joint_cmd_def)

lemma mem_ok_0: "mem_ok g \<Longrightarrow> length (g 0) = DATAHOLDER_MAX_DATA_SIZE"
  by (simp add: mem_ok_def)

lemma iface_ok_createMotorState:
  assumes "iface_ok i" "mem_ok g"
  shows "iface_ok (createMotorState g m i)"
  unfolding createMotorState_eq [OF assms(2)]
  by (rule iface_ok_insert [OF assms, where c = "motor_cmd m (if_motors i m)"])
    (use assms in \<open>simp_all add: iface_ok_def motor_cmd_ok dh_carries_vector mem_ok_0\<close>)

lemma iface_ok_createJointState:
  assumes "iface_ok i" "mem_ok g"
  shows "iface_ok (createJointState g j i)"
  unfolding createJointState_eq [OF assms(2)]
  by (rule iface_ok_insert [OF assms, where c = "joint_cmd j (if_joints i j)"])
    (use assms in \<open>simp_all add: iface_ok_def joint_cmd_ok dh_carries_vector mem_ok_0\<close>)

lemma iface_ok_upd_motor:
  "iface_ok i \<Longrightarrow> sm_programmedSpeed (f (if_motors i m)) \<le> MOTOR_DRIVER_MAX_SPEED \<Longrightarrow>
   iface_ok (upd_motor m f i)"
  by (simp add: iface_ok_def upd_motor_def)

lemma iface_ok_upd_joint:
  "iface_ok i \<Longrightarrow>
   unat (sj_programmedPosition (f (if_joints i j))) \<le> ARM_DRIVER_MAX_POSITION j \<Longrightarrow>
   iface_ok (upd_joint j f i)"
  by (simp add: iface_ok_def upd_joint_def)

lemma iface_okD:
  assumes "iface_ok i"
  shows "sm_programmedSpeed (if_motors i m) \<le> MOTOR_DRIVER_MAX_SPEED"
    and "unat (sj_programmedPosition (if_joints i j)) \<le> ARM_DRIVER_MAX_POSITION j"
  using assms by (simp_all add: iface_ok_def)

lemma iface_ok_flags [simp]:
  "iface_ok (i\<lparr>if_killSwitchActive := b\<rparr>) = iface_ok i"
  "iface_ok (i\<lparr>if_killSwitchCausedByHardware := b\<rparr>) = iface_ok i"
  "iface_ok (i\<lparr>if_mode := md\<rparr>) = iface_ok i"
  "iface_ok (i\<lparr>if_calibrationStatus := cs\<rparr>) = iface_ok i"
  "iface_ok (i\<lparr>if_expanderByte := eb\<rparr>) = iface_ok i"
  "iface_ok (i\<lparr>if_buttons := bt\<rparr>) = iface_ok i"
  "iface_ok (i\<lparr>if_objectActive := b\<rparr>) = iface_ok i"
  by (simp_all add: iface_ok_def)

lemma iface_ok_insert_vector:
  assumes "iface_ok i" "mem_ok g" "server_cmd_ok c" "k = cmd_key c" "vec = cmd_args c"
    "req = cmd_request c" "pr = cmd_priority c" "ks = cmd_needs_power c"
  shows "iface_ok (if_insert g k (dh_vector (g 0) req pr ks vec) i)"
  by (rule iface_ok_insert [OF assms(1-3)])
    (use assms in \<open>simp_all add: dh_carries_vector mem_ok_0\<close>)

lemma iface_ok_setKillSwitch:
  assumes "iface_ok i" "mem_ok g"
  shows "iface_ok (setKillSwitch g active i)"
  using assms
  by (simp add: setKillSwitch_def KILLSWITCH_STRING_def dh_byte_eq_vector,
      intro conjI impI; intro iface_ok_insert_vector [where c = "SetKillswitch (if active then 1 else 0)"],
      simp_all)

lemma iface_ok_setLCDText:
  assumes "iface_ok i" "mem_ok g"
  shows "iface_ok (setLCDText g txt i)"
proof (cases "(if length txt > 33 then take 33 txt else txt) = if_lcdText i")
  case True
  with assms show ?thesis by (simp add: setLCDText_def)
next
  case False
  define t where "t = (if length txt > 33 then take 33 txt else txt)"
  have "length t \<le> 33" by (simp add: t_def)
  then have "iface_ok (i\<lparr>if_lcdText := t\<rparr>)" using assms(1) by (simp add: iface_ok_def)
  with False \<open>length t \<le> 33\<close> assms(2) show ?thesis
    unfolding setLCDText_def Let_def t_def [symmetric]
    by (auto intro!: iface_ok_insert_vector [where c = "LcdSet (map of_char t)"])
qed

lemma iface_ok_arm_addon:
  assumes "iface_ok i" "mem_ok g"
  shows "iface_ok (arm_brake g i)" and "iface_ok (arm_calibrate g i)"
proof -
  show "iface_ok (arm_brake g i)"
    unfolding arm_brake_def dh_byte_eq_vector
    by (rule iface_ok_insert_vector [OF assms, where c = ArmBrake]) simp_all
  have "iface_ok (if_insert g ''arm_addon'' (dh_vector (g 0) ARM_DRIVER_SET 3 True [ARM_ADD_CALIBRATE]) i)"
    by (rule iface_ok_insert_vector [OF assms, where c = ArmCalibrate]) simp_all
  then show "iface_ok (arm_calibrate g i)"
    using assms(1) by (simp add: arm_calibrate_def dh_byte_eq_vector)
qed

lemma iface_ok_expander:
  "iface_ok i \<Longrightarrow> mem_ok g \<Longrightarrow> iface_ok (expander_setEnabled g d b i)"
  by (simp add: expander_setEnabled_def dh_byte_eq_vector Let_def)
    (intro conjI impI iface_ok_insert_vector [where c = "ExpanderSet _"]; simp)

lemma iface_ok_setters:
  assumes "iface_ok i" "mem_ok g"
  shows "iface_ok (motor_setSpeed g m speed i)" and "iface_ok (motor_setDirection g m dir i)"
    and "iface_ok (motor_initStructure g m i)"
    and "iface_ok (joint_setSpeed g j speed i)" and "iface_ok (joint_setDirection g j dir i)"
    and "iface_ok (joint_setPosition g j pos i)" and "iface_ok (joint_initStructure g j i)"
proof -
  note iface_okD [OF assms(1), simp]
  show "iface_ok (motor_setSpeed g m speed i)"
    unfolding motor_setSpeed_def Let_def
    using assms by (intro iface_ok_createMotorState)
      (auto intro!: iface_ok_upd_motor simp: MOTOR_DRIVER_MAX_SPEED_def word_le_nat_alt unsigned_ucast_eq take_bit_eq_mod)
  show "iface_ok (motor_setDirection g m dir i)"
    unfolding motor_setDirection_def
    using assms by (intro iface_ok_createMotorState iface_ok_upd_motor) simp_all
  show "iface_ok (motor_initStructure g m i)"
    unfolding motor_initStructure_def
    using assms by (auto intro!: iface_ok_createMotorState iface_ok_upd_motor)
  show "iface_ok (joint_setSpeed g j speed i)"
    unfolding joint_setSpeed_def
    using assms by (auto intro!: iface_ok_createJointState iface_ok_upd_joint)
  show "iface_ok (joint_setDirection g j dir i)"
    unfolding joint_setDirection_def
    using assms by (auto intro!: iface_ok_createJointState iface_ok_upd_joint)
  have "unat (ucast (if unat pos \<le> ARM_DRIVER_MAX_POSITION j then pos
      else of_nat (ARM_DRIVER_MAX_POSITION j)) :: u8) \<le> ARM_DRIVER_MAX_POSITION j"
    by (cases j) (simp_all add: unsigned_ucast_eq take_bit_eq_mod)
  then show "iface_ok (joint_setPosition g j pos i)"
    unfolding joint_setPosition_def Let_def
    using assms by (auto intro!: iface_ok_createJointState iface_ok_upd_joint split: if_splits)
  show "iface_ok (joint_initStructure g j i)"
    unfolding joint_initStructure_def
    using assms by (auto intro!: iface_ok_createJointState iface_ok_upd_joint)
qed

lemma iface_ok_onKillSwitch: "iface_ok i \<Longrightarrow> iface_ok (onKillSwitchActivated l i)"
proof (cases l)
  case (L_Joint j)
  assume ok: "iface_ok i"
  then show ?thesis unfolding onKillSwitchActivated_def L_Joint
    by (simp add: iface_ok_upd_joint iface_okD)
next
  case (L_Motor m)
  assume ok: "iface_ok i"
  then show ?thesis unfolding onKillSwitchActivated_def L_Motor
    by (simp add: iface_ok_upd_motor)
qed (simp_all add: onKillSwitchActivated_def iface_ok_def requests_ok_erase Let_def)

lemma iface_ok_allKillSwitch: "iface_ok i \<Longrightarrow> iface_ok (updateStructsWhenKillSwitchActivated i)"
  by (simp add: updateStructsWhenKillSwitchActivated_def extDevListeners_def iface_ok_onKillSwitch)

lemma cb_push_ok [simp]: "cb_push x xs \<noteq> []" "length xs \<le> 5 \<Longrightarrow> length (cb_push x xs) \<le> 5"
  by (auto simp: cb_push_def)

lemma iface_ok_push:
  "iface_ok i \<Longrightarrow> iface_ok (i\<lparr>if_rawCurrent := cb_push c (if_rawCurrent i)\<rparr>)"
  "iface_ok i \<Longrightarrow> iface_ok (i\<lparr>if_rawVoltage := cb_push v (if_rawVoltage i)\<rparr>)"
  by (simp_all add: iface_ok_def)

lemma iface_ok_interface_updateFields:
  assumes "iface_ok i" "interface_updateFields req data i = Some (n, i')"
  shows "iface_ok i'"
proof (cases "req = BRIDGE_GET_STATE")
  case False
  with assms show ?thesis by (simp add: interface_updateFields_def)
next
  case True
  with assms(2) obtain st where st: "read_bridge_state data = Some st"
    by (auto simp: interface_updateFields_def split: option.splits)
  define j where "j = (if bst_killSwitch st = KS_ACTIVE
    then updateStructsWhenKillSwitchActivated (i\<lparr>if_killSwitchActive := True,
      if_killSwitchCausedByHardware := bst_killSwitchCausedByHardware st\<rparr>)
    else i\<lparr>if_killSwitchCausedByHardware := False, if_killSwitchActive := False\<rparr>)"
  define k where "k = j\<lparr>if_buttons := (if_buttons j)(UP := bst_buttonUp st,
    DOWN := bst_buttonDown st, ENTER := bst_buttonEnter st)\<rparr>"
  define l where "l = k\<lparr>if_rawCurrent := cb_push (unat (bst_rawCurrent st)) (if_rawCurrent k)\<rparr>"
  have "i' = l\<lparr>if_rawVoltage := cb_push (unat (bst_rawVoltage st)) (if_rawVoltage l)\<rparr>"
    using assms(2) True st unfolding interface_updateFields_def Let_def l_def k_def j_def by simp
  moreover have "iface_ok j" using assms(1) by (simp add: j_def iface_ok_allKillSwitch)
  then have "iface_ok l" unfolding l_def k_def by (intro iface_ok_push) simp
  ultimately show ?thesis by (simp add: iface_ok_push)
qed

lemma iface_ok_requests:
  "iface_ok i \<Longrightarrow> iface_ok (i\<lparr>if_requests := al_erase k (if_requests i)\<rparr>)"
  by (simp add: iface_ok_def requests_ok_erase)

lemma iface_ok_joint_reply:
  "iface_ok i \<Longrightarrow>
   iface_ok (upd_joint j (\<lambda>s. s\<lparr>sj_direction := d, sj_speed := sp, sj_position := p\<rparr>) i)"
  by (simp add: iface_ok_upd_joint iface_okD)

lemma iface_ok_listener_updateFields:
  assumes "iface_ok i" "listener_updateFields l req data i = Some (n, i')"
  shows "iface_ok i'"
proof (cases l)
  case L_Interface
  with assms show ?thesis by (simp add: listener_updateFields_def iface_ok_interface_updateFields)
next
  case L_Arm
  with assms show ?thesis
    by (auto simp: listener_updateFields_def arm_updateFields_def Let_def iface_ok_requests
        split: if_splits option.splits)
next
  case L_Expander
  with assms show ?thesis
    by (auto simp: listener_updateFields_def expander_updateFields_def split: if_splits list.splits)
next
  case (L_Joint j)
  with assms show ?thesis
    by (auto simp: listener_updateFields_def joint_updateFields_def Let_def
        intro!: iface_ok_joint_reply split: if_splits option.splits)
next
  case (L_Motor m)
  with assms show ?thesis
    by (auto simp: listener_updateFields_def motor_updateFields_def Let_def iface_okD
        intro!: iface_ok_upd_motor split: if_splits option.splits)
qed

lemma iface_ok_dispatch:
  "iface_ok i \<Longrightarrow> dispatch_response ls req data i = Some (n, i') \<Longrightarrow> iface_ok i'"
  by (induction ls arbitrary: i)
    (auto split: option.splits if_splits dest: iface_ok_listener_updateFields)

lemma iface_ok_update_loop: "iface_ok i \<Longrightarrow> iface_ok (fst (update_loop rs resp pos i))"
  by (induction rs resp pos i rule: update_loop.induct)
    (auto split: option.splits dest: iface_ok_dispatch)

end
