(* ===== verification/Interface_Spec.thy ===== *)
theory Interface_Spec
  imports Server_Interface
begin

text \<open>
  What \<open>Interface\<close> promises: the invariant of all reachable states, what each setter files for the
  device, and that \<open>updateDataStructures\<close> reads a response the way the device means it. The device's
  answers are abstracted to \<open>dev_reply\<close> and their effect to \<open>apply_reply\<close>.
\<close>

section \<open>Reachable interface states\<close>

datatype iface_op =
    Op_LCDText string
  | Op_KillSwitch bool
  | Op_MotorSpeed motor_id "32 word"
  | Op_MotorDirection motor_id direction
  | Op_MotorInit motor_id
  | Op_MotorBrake
  | Op_JointSpeed joint_id "32 word"
  | Op_JointDirection joint_id direction
  | Op_JointPosition joint_id "32 word"
  | Op_JointInit joint_id
  | Op_ArmBrake
  | Op_ArmCalibrate
  | Op_Expander expander_device bool
  | Op_Response "usb_request list" "u8 list"

primrec iface_apply :: "mem \<Rightarrow> iface_op \<Rightarrow> iface \<Rightarrow> iface" where
  "iface_apply g (Op_LCDText t) i = setLCDText g t i"
| "iface_apply g (Op_KillSwitch b) i = setKillSwitch g b i"
| "iface_apply g (Op_MotorSpeed m v) i = motor_setSpeed g m v i"
| "iface_apply g (Op_MotorDirection m d) i = motor_setDirection g m d i"
| "iface_apply g (Op_MotorInit m) i = motor_initStructure g m i"
| "iface_apply g Op_MotorBrake i = motor_brake g g i"
| "iface_apply g (Op_JointSpeed j v) i = joint_setSpeed g j v i"
| "iface_apply g (Op_JointDirection j d) i = joint_setDirection g j d i"
| "iface_apply g (Op_JointPosition j p) i = joint_setPosition g j p i"
| "iface_apply g (Op_JointInit j) i = joint_initStructure g j i"
| "iface_apply g Op_ArmBrake i = arm_brake g i"
| "iface_apply g Op_ArmCalibrate i = arm_calibrate g i"
| "iface_apply g (Op_Expander d b) i = expander_setEnabled g d b i"
| "iface_apply g (Op_Response rs resp) i = fst (updateDataStructures rs resp i)"

text \<open>A run: each operation with the uninitialised memory its objects find.\<close>

fun iface_run :: "(mem \<times> iface_op) list \<Rightarrow> iface \<Rightarrow> iface" where
  "iface_run [] i = i"
| "iface_run ((g, op) # ops) i = iface_run ops (iface_apply g op i)"

lemma iface_ok_apply: "iface_ok i \<Longrightarrow> mem_ok g \<Longrightarrow> iface_ok (iface_apply g op i)"
  by (cases op)
    (simp_all add: iface_ok_setLCDText iface_ok_setKillSwitch iface_ok_setters iface_ok_arm_addon
      iface_ok_expander motor_brake_def updateDataStructures_def iface_ok_update_loop)

lemma iface_ok_init: "mem_ok g \<Longrightarrow> iface_ok (iface_init g)"
  unfolding iface_init_def Let_def iface_ok_flags
  by (rule iface_ok_setKillSwitch)
    (simp_all add: iface_ok_def requests_ok_def al_sorted_def sm_init_def sj_init_def
      MOTOR_DRIVER_MAX_SPEED_def)

lemma iface_ok_run:
  "iface_ok i \<Longrightarrow> \<forall>(g, op) \<in> set ops. mem_ok g \<Longrightarrow> iface_ok (iface_run ops i)"
  by (induction ops i rule: iface_run.induct) (simp_all add: iface_ok_apply)

text \<open>C24: In every state the interface can reach, through any sequence of its setters and of device
  responses (well-formed or not), every entry of the request map is filed under the key of the
  command it encodes, has that command's priority and kill switch flag and lies inside its 40-byte
  array; motor speeds are at most 11, arm positions at most the joint's maximum, the LCD text at
  most 33 characters, and the voltage and current buffers hold between one and five samples.\<close>

theorem interface_invariant:
  assumes "mem_ok g" and "\<forall>(g, op) \<in> set ops. mem_ok g"
  shows "iface_ok (iface_run ops (iface_init g))"
  using assms by (simp add: iface_ok_run iface_ok_init)

lemma interface_invariant_witness:
  "iface_ok (iface_run [(\<lambda>_. replicate 40 170, Op_MotorSpeed M_LEFT 500),
     (\<lambda>_. replicate 40 3, Op_Response [EXPANDER_GET] [1, 222])] (iface_init (\<lambda>_. replicate 40 85)))"
  by (rule interface_invariant) (simp_all add: mem_ok_def DATAHOLDER_MAX_DATA_SIZE_def)

section \<open>What the setters file\<close>

definition filed :: "iface \<Rightarrow> string \<Rightarrow> u8 list option" where
  "filed i k = map_option dh_bytes (map_of (if_requests i) k)"

lemma filed_insert:
  assumes "iface_ok i" "dh_ok d"
  shows "filed (if_insert g k d i) k' = (if k' = k then Some (dh_bytes d) else filed i k')"
  using assms by (simp add: filed_def if_insert_def insertRequest_lookup iface_ok_def requests_ok_def)

lemma filed_insert_vector:
  assumes "iface_ok i" "mem_ok g" "length vec < 39"
  shows "filed (if_insert g k (dh_vector (g 0) req pr ks vec) i) k' =
    (if k' = k then Some (request_code req # vec) else filed i k')"
  using assms by (simp add: filed_insert dh_ok_vector mem_ok_def DATAHOLDER_MAX_DATA_SIZE_def)

lemma filed_createMotorState:
  "iface_ok i \<Longrightarrow> mem_ok g \<Longrightarrow> filed (createMotorState g m i) k =
   (if k = motor_key m then Some (encode_cmd (motor_cmd m (if_motors i m))) else filed i k)"
  by (simp add: createMotorState_eq filed_insert_vector encode_cmd_split motor_cmd_def)

lemma filed_createJointState:
  "iface_ok i \<Longrightarrow> mem_ok g \<Longrightarrow> filed (createJointState g j i) k =
   (if k = joint_key j then Some (encode_cmd (joint_cmd j (if_joints i j))) else filed i k)"
  by (simp add: createJointState_eq filed_insert_vector encode_cmd_split joint_cmd_def)

lemma filed_upd [simp]:
  "filed (upd_motor m f i) k = filed i k" "filed (upd_joint j h i) k = filed i k"
  by (simp_all add: filed_def upd_motor_def upd_joint_def)

lemma if_motors_insert [simp]: "if_motors (if_insert g k d i) = if_motors i"
  by (simp add: if_insert_def)

lemma upd_motor_same [simp]: "if_motors (upd_motor m f i) = (if_motors i)(m := f (if_motors i m))"
  by (simp add: upd_motor_def)

lemma upd_joint_same [simp]: "if_joints (upd_joint j f i) = (if_joints i)(j := f (if_joints i j))"
  by (simp add: upd_joint_def)

text \<open>\<open>SingleMotor::setSpeed\<close> clamps the speed to 11 and files, under the motor's key and
  nowhere else, the packet with the motor's number, its direction and the clamped speed.\<close>

theorem motor_setSpeed_files:
  fixes speed :: "32 word"
  assumes "iface_ok i" and "mem_ok g"
  defines "v \<equiv> (if unat speed \<le> 11 then of_nat (unat speed) else 11 :: u8)"
  shows "filed (motor_setSpeed g m speed i) k =
    (if k = motor_key m
     then Some [204, motor_code m, direction_code (sm_direction (if_motors i m)), v]
     else filed i k)"
proof -
  define j where "j = (if speed \<le> ucast MOTOR_DRIVER_MAX_SPEED
    then upd_motor m (\<lambda>s. s\<lparr>sm_programmedSpeed := ucast speed\<rparr>) i
    else upd_motor m (\<lambda>s. s\<lparr>sm_programmedSpeed := MOTOR_DRIVER_MAX_SPEED\<rparr>) i)"
  have "iface_ok j"
    using assms(1) by (auto simp: j_def MOTOR_DRIVER_MAX_SPEED_def word_le_nat_alt
      unsigned_ucast_eq take_bit_eq_mod intro!: iface_ok_upd_motor)
  moreover have "filed j k = filed i k" by (simp add: j_def)
  moreover have "if_motors j m = (if_motors i m)\<lparr>sm_programmedSpeed := v\<rparr>"
    by (simp add: j_def v_def MOTOR_DRIVER_MAX_SPEED_def word_le_nat_alt)
  moreover have "motor_setSpeed g m speed i = createMotorState g m j"
    by (simp add: motor_setSpeed_def j_def Let_def)
  ultimately show ?thesis
    using assms(2) by (simp add: filed_createMotorState motor_cmd_def motor_state_bytes_def)
qed

lemma motor_setSpeed_files_witness:
  "filed (motor_setSpeed (\<lambda>_. replicate 40 0) M_RIGHT 4000 (iface_init (\<lambda>_. replicate 40 0)))
     ''motor_114'' = Some [204, 1, 0, 11]"
proof -
  have m: "mem_ok (\<lambda>_. replicate 40 (0::u8))" by (simp add: mem_ok_def DATAHOLDER_MAX_DATA_SIZE_def)
  show ?thesis
    using motor_setSpeed_files [OF iface_ok_init [OF m] m, of M_RIGHT 4000]
    by (simp add: iface_init_def setKillSwitch_def if_insert_def sm_init_def)
qed

lemma joint_setSpeed_parts:
  assumes "iface_ok i" and "mem_ok g"
  shows "if_calibrationStatus i \<noteq> CAL_IN_PROGRESS \<Longrightarrow>
      filed (joint_setSpeed g j speed i) (joint_key j) = Some [206, joint_code j,
        direction_code (sj_direction (if_joints i j)), of_nat (unat speed mod 256),
        bool_byte (sj_settingPosition (if_joints i j)), sj_programmedPosition (if_joints i j)]"
    and "if_calibrationStatus i = CAL_IN_PROGRESS \<Longrightarrow> joint_setSpeed g j speed i = i"
proof -
  assume "if_calibrationStatus i \<noteq> CAL_IN_PROGRESS"
  moreover have "iface_ok (upd_joint j (\<lambda>s. s\<lparr>sj_speed := ucast speed\<rparr>) i)"
    using assms(1) by (simp add: iface_ok_upd_joint iface_okD)
  ultimately show "filed (joint_setSpeed g j speed i) (joint_key j) = Some [206, joint_code j,
        direction_code (sj_direction (if_joints i j)), of_nat (unat speed mod 256),
        bool_byte (sj_settingPosition (if_joints i j)), sj_programmedPosition (if_joints i j)]"
    using assms(2) by (simp add: joint_setSpeed_def filed_createJointState joint_cmd_def
      joint_state_bytes_def u8_of_nat_mod)
qed (simp add: joint_setSpeed_def)

text \<open>\<open>SingleJoint::setSpeed\<close> outside calibration files the speed modulo 256 and not the clamped
  value the method computes: 255 is the largest speed that is sent as asked for, and a request for
  256 stops the joint's motor. During calibration nothing changes.\<close>

theorem joint_setSpeed_truncates:
  assumes "iface_ok i" and "mem_ok g"
  shows "if if_calibrationStatus i = CAL_IN_PROGRESS then joint_setSpeed g j speed i = i
    else filed (joint_setSpeed g j speed i) (joint_key j) = Some [206, joint_code j,
        direction_code (sj_direction (if_joints i j)), of_nat (unat speed mod 256),
        bool_byte (sj_settingPosition (if_joints i j)), sj_programmedPosition (if_joints i j)]"
  using joint_setSpeed_parts [OF assms] by (simp split: if_split)

text \<open>\<open>SingleJoint::setPosition\<close> outside calibration files the position limited to the joint's
  maximum (105, 79 or 255) together with the flag that selects positional mode.\<close>

theorem joint_setPosition_files:
  assumes "iface_ok i" and "mem_ok g" and "if_calibrationStatus i \<noteq> CAL_IN_PROGRESS"
  shows "filed (joint_setPosition g j pos i) (joint_key j) = Some [206, joint_code j,
    direction_code (sj_direction (if_joints i j)), sj_speed (if_joints i j), 1,
    of_nat (min (unat pos) (ARM_DRIVER_MAX_POSITION j))]"
proof -
  define p where "p = (if unat pos \<le> ARM_DRIVER_MAX_POSITION j then pos
    else of_nat (ARM_DRIVER_MAX_POSITION j))"
  have p: "ucast p = (of_nat (min (unat pos) (ARM_DRIVER_MAX_POSITION j)) :: u8)"
    by (cases j) (auto simp: p_def min_def)
  have le: "unat (ucast p :: u8) \<le> ARM_DRIVER_MAX_POSITION j"
    by (cases j) (auto simp: p_def unsigned_ucast_eq take_bit_eq_mod)
  have "iface_ok (upd_joint j (\<lambda>s. s\<lparr>sj_programmedPosition := ucast p, sj_settingPosition := True\<rparr>) i)"
    using assms(1) le by (simp add: iface_ok_upd_joint)
  with assms(2,3) show ?thesis
    by (simp add: joint_setPosition_def Let_def flip: p_def,
        simp add: filed_createJointState joint_cmd_def joint_state_bytes_def p bool_byte_def)
qed

lemma joint_setPosition_files_witness:
  "filed (joint_setPosition (\<lambda>_. replicate 40 0) J_ELBOW 300 (iface_init (\<lambda>_. replicate 40 0)))
     ''arm_101'' = Some [206, 1, 0, 0, 1, 105]"
proof -
  have m: "mem_ok (\<lambda>_. replicate 40 (0::u8))" by (simp add: mem_ok_def DATAHOLDER_MAX_DATA_SIZE_def)
  show ?thesis
    using joint_setPosition_files [OF iface_ok_init [OF m] m, of J_ELBOW 300]
    by (simp add: iface_init_def setKillSwitch_def if_insert_def sj_init_def)
qed

lemma joint_setSpeed_truncates_witness:
  "filed (joint_setSpeed (\<lambda>_. replicate 40 0) J_GRIPPER 256 (iface_init (\<lambda>_. replicate 40 0)))
     ''arm_103'' = Some [206, 2, 0, 0, 0, 0]"
proof -
  have m: "mem_ok (\<lambda>_. replicate 40 (0::u8))" by (simp add: mem_ok_def DATAHOLDER_MAX_DATA_SIZE_def)
  show ?thesis
    using joint_setSpeed_truncates [OF iface_ok_init [OF m] m, of J_GRIPPER 256]
    by (simp add: iface_init_def setKillSwitch_def if_insert_def sj_init_def bool_byte_def)
qed

section \<open>Reading the response\<close>

datatype dev_reply =
    R_Bridge bridge_state
  | R_Motor specific_motor_state
  | R_Joint joint_state
  | R_General general_state
  | R_Expander u8

primrec reply_request :: "dev_reply \<Rightarrow> usb_request" where
  "reply_request (R_Bridge st) = BRIDGE_GET_STATE"
| "reply_request (R_Motor st) = MOTOR_DRIVER_GET"
| "reply_request (R_Joint st) = ARM_DRIVER_GET"
| "reply_request (R_General st) = ARM_DRIVER_GET_GENERAL_STATE"
| "reply_request (R_Expander b) = EXPANDER_GET"

primrec reply_bytes :: "dev_reply \<Rightarrow> u8 list" where
  "reply_bytes (R_Bridge st) = bridge_state_bytes st"
| "reply_bytes (R_Motor st) = motor_state_bytes st"
| "reply_bytes (R_Joint st) = joint_state_bytes st"
| "reply_bytes (R_General st) = general_state_bytes st"
| "reply_bytes (R_Expander b) = [b]"

text \<open>The meaning of a reply. A bridge state with the kill switch active stops everything.\<close>

definition stop_all :: "iface \<Rightarrow> iface" where
  "stop_all i = i\<lparr>if_lcdText := [], if_mode := DIRECTIONAL,
     if_calibrationStatus := (if if_calibrationStatus i = CAL_IN_PROGRESS then CAL_NONE
                              else if_calibrationStatus i),
     if_requests := al_erase ''arm_addon'' (if_requests i),
     if_joints := (\<lambda>j. (if_joints i j)\<lparr>sj_direction := STOP, sj_speed := 0\<rparr>),
     if_motors := (\<lambda>m. sm_init)\<rparr>"

definition direction_of :: "u8 \<Rightarrow> direction" where
  "direction_of b = (if b = D_FORWARD then FORWARD else if b = D_BACKWARD then BACKWARD else STOP)"

definition joint_of :: "u8 \<Rightarrow> joint_id" where
  "joint_of b = (if b = ELBOW then J_ELBOW else if b = GRIPPER then J_GRIPPER else J_SHOULDER)"

definition motor_of :: "u8 \<Rightarrow> motor_id" where
  "motor_of b = (if b = MOTOR1 then M_LEFT else M_RIGHT)"

fun apply_reply :: "dev_reply \<Rightarrow> iface \<Rightarrow> iface" where
  "apply_reply (R_Bridge st) i =
     (if bst_killSwitch st = KS_ACTIVE then stop_all i else i)
       \<lparr>if_killSwitchActive := (bst_killSwitch st = KS_ACTIVE),
        if_killSwitchCausedByHardware :=
          (bst_killSwitch st = KS_ACTIVE \<and> bst_killSwitchCausedByHardware st),
        if_buttons := (\<lambda>b. case b of UP \<Rightarrow> bst_buttonUp st | DOWN \<Rightarrow> bst_buttonDown st
                                   | ENTER \<Rightarrow> bst_buttonEnter st),
        if_rawCurrent := cb_push (unat (bst_rawCurrent st)) (if_rawCurrent i),
        if_rawVoltage := cb_push (unat (bst_rawVoltage st)) (if_rawVoltage i)\<rparr>"
| "apply_reply (R_Motor st) i =
     upd_motor (motor_of (sms_motor st)) (\<lambda>s. s\<lparr>sm_power := sms_speed st\<rparr>) i"
| "apply_reply (R_Joint st) i =
     upd_joint (joint_of (jst_motor st))
       (\<lambda>s. s\<lparr>sj_direction := direction_of (jst_direction st), sj_speed := jst_speed st,
              sj_position := jst_position st\<rparr>) i"
| "apply_reply (R_General st) i =
     i\<lparr>if_requests := (if gst_isCalibrated st \<and> if_calibrationStatus i = CAL_IN_PROGRESS
                       then al_erase ''arm_addon'' (if_requests i) else if_requests i),
       if_calibrationStatus := (if gst_isCalibrated st then CAL_DONE else if_calibrationStatus i),
       if_mode := (if gst_mode st = MODE_DIR then DIRECTIONAL
                   else if gst_mode st = MODE_POS then POSITIONAL
                   else if gst_mode st = MODE_CAL then CALIBRATING else if_mode i)\<rparr>"
| "apply_reply (R_Expander b) i = i\<lparr>if_expanderByte := b\<rparr>"

lemma sm_reset: "s\<lparr>sm_power := 0, sm_programmedSpeed := 0, sm_direction := STOP\<rparr> = sm_init"
  by (simp add: sm_init_def)

lemma updateStructs_eq: "updateStructsWhenKillSwitchActivated i = stop_all i"
proof -
  have "(\<lambda>j. (if_joints i j)\<lparr>sj_direction := STOP, sj_speed := 0\<rparr>) =
    (\<lambda>j. case j of J_ELBOW \<Rightarrow> (if_joints i J_ELBOW)\<lparr>sj_direction := STOP, sj_speed := 0\<rparr>
      | J_GRIPPER \<Rightarrow> (if_joints i J_GRIPPER)\<lparr>sj_direction := STOP, sj_speed := 0\<rparr>
      | J_SHOULDER \<Rightarrow> (if_joints i J_SHOULDER)\<lparr>sj_direction := STOP, sj_speed := 0\<rparr>)"
    by (auto split: joint_id.splits)
  moreover have "(if_joints i)(J_ELBOW := a, J_GRIPPER := b, J_SHOULDER := c) =
    (\<lambda>j. case j of J_ELBOW \<Rightarrow> a | J_GRIPPER \<Rightarrow> b | J_SHOULDER \<Rightarrow> c)" for a b c
    by (auto split: joint_id.splits)
  moreover have "(if_motors i)(M_LEFT := a, M_RIGHT := a) = (\<lambda>m. a)" for a
    by (rule ext) (metis fun_upd_apply motor_id.exhaust)
  ultimately show ?thesis
    by (cases i) (simp add: updateStructsWhenKillSwitchActivated_def extDevListeners_def
      onKillSwitchActivated_def stop_all_def upd_joint_def upd_motor_def sm_reset Let_def)
qed

lemma button_upd:
  "f(UP := a, DOWN := b, ENTER := c) = (\<lambda>x. case x of UP \<Rightarrow> a | DOWN \<Rightarrow> b | ENTER \<Rightarrow> c)"
  by (auto split: button.splits)

lemma interface_updateFields_reply:
  "interface_updateFields BRIDGE_GET_STATE (bridge_state_bytes st @ rest) i =
   Some (9, apply_reply (R_Bridge st) i)"
  by (cases i) (simp add: interface_updateFields_def updateStructs_eq button_upd stop_all_def Let_def)

lemma arm_updateFields_reply:
  "arm_updateFields ARM_DRIVER_GET_GENERAL_STATE (general_state_bytes st @ rest) i =
   Some (2, apply_reply (R_General st) i)"
  by (cases i) (simp add: arm_updateFields_def Let_def)

lemma joint_updateFields_reply:
  "joint_updateFields j ARM_DRIVER_GET (joint_state_bytes st @ rest) i =
   (if joint_of (jst_motor st) = j then Some (5, apply_reply (R_Joint st) i) else Some (0, i))"
  by (simp add: joint_updateFields_def joint_of_def direction_of_def Let_def)

lemma motor_updateFields_reply:
  "motor_updateFields m MOTOR_DRIVER_GET (motor_state_bytes st @ rest) i =
   (if motor_of (sms_motor st) = m then Some (3, apply_reply (R_Motor st) i) else Some (0, i))"
  by (simp add: motor_updateFields_def motor_of_def Let_def)

lemma dispatch_reply:
  "dispatch_response extDevListeners (reply_request r) (reply_bytes r @ rest) i =
   Some (length (reply_bytes r), apply_reply r i)"
proof (cases r)
  case (R_Bridge st)
  then show ?thesis
    by (simp add: extDevListeners_def listener_updateFields_def interface_updateFields_reply
        del: apply_reply.simps)
next
  case (R_Motor st)
  moreover obtain m where "motor_of (sms_motor st) = m" by simp
  ultimately show ?thesis
    by (cases m) (simp_all add: extDevListeners_def listener_updateFields_def
        motor_updateFields_reply interface_updateFields_def arm_updateFields_def
        expander_updateFields_def joint_updateFields_def del: apply_reply.simps)
next
  case (R_Joint st)
  moreover obtain j where "joint_of (jst_motor st) = j" by simp
  ultimately show ?thesis
    by (cases j) (simp_all add: extDevListeners_def listener_updateFields_def
        joint_updateFields_reply interface_updateFields_def arm_updateFields_def
        expander_updateFields_def del: apply_reply.simps)
next
  case (R_General st)
  then show ?thesis
    by (simp add: extDevListeners_def listener_updateFields_def interface_updateFields_def
        arm_updateFields_reply del: apply_reply.simps)
next
  case (R_Expander b)
  then show ?thesis
    by (simp add: extDevListeners_def listener_updateFields_def interface_updateFields_def
        arm_updateFields_def expander_updateFields_def)
qed

lemma reply_bytes_pos: "0 < length (reply_bytes r)"
  by (cases r) simp_all

lemma update_loop_replies:
  "resp = pre @ concat (map reply_bytes rs) @ rest \<Longrightarrow>
   update_loop (map reply_request rs @ rs') resp (length pre) i =
   update_loop rs' resp (length pre + length (concat (map reply_bytes rs))) (fold apply_reply rs i)"
proof (induction rs arbitrary: pre i)
  case Nil
  then show ?case by simp
next
  case (Cons r rs)
  let ?rest = "concat (map reply_bytes rs) @ rest"
  have d: "drop (length pre) resp = reply_bytes r @ ?rest" using Cons.prems by simp
  have "resp = (pre @ reply_bytes r) @ ?rest" using Cons.prems by simp
  from Cons.IH [OF this] show ?case
    using reply_bytes_pos [of r] by (simp add: d dispatch_reply add.assoc)
qed

lemma updateDataStructures_prefix:
  "updateDataStructures (map reply_request rs @ rs') (concat (map reply_bytes rs) @ rest) i =
   update_loop rs' (concat (map reply_bytes rs) @ rest) (length (concat (map reply_bytes rs)))
     (fold apply_reply rs i)"
  unfolding updateDataStructures_def
  using update_loop_replies [where pre = "[]"] by simp

text \<open>Round trip of a response. On a response that consists of one structure per getter request,
  in the order of the requests, closed by \<open>MESSAGE_END\<close> (whatever padding follows),
  \<open>updateDataStructures\<close> ends normally and has applied the meaning of every structure in turn:
  each joint and motor structure went to the joint and motor it names, and a bridge state with the
  kill switch active stopped all motors and joints, ended a running calibration and withdrew its
  request.\<close>

theorem updateDataStructures_reads_replies:
  "updateDataStructures (map reply_request rs)
     (concat (map reply_bytes rs) @ request_code MESSAGE_END # padding) i =
   (fold apply_reply rs i, UpdateOk)"
  using updateDataStructures_prefix [of rs "[]"] by (simp add: nth_append peek_def)

lemma dispatch_other:
  "req \<notin> reply_request ` UNIV \<Longrightarrow> dispatch_response ls req data i = Some (0, i)"
proof (induction ls)
  case Nil
  then show ?case by simp
next
  case (Cons l ls)
  have "req \<noteq> reply_request r" for r using Cons.prems by blast
  from this [of "R_Bridge _"] this [of "R_Motor _"] this [of "R_Joint _"] this [of "R_General _"]
    this [of "R_Expander _"]
  have "listener_updateFields l req data i = Some (0, i)"
    by (cases l) (simp_all add: listener_updateFields_def interface_updateFields_def
        arm_updateFields_def expander_updateFields_def joint_updateFields_def motor_updateFields_def)
  with Cons show ?case by simp
qed

lemma find_from_skip:
  "b \<notin> set xs \<Longrightarrow> find_from b n (xs @ ys) = find_from b (n + length xs) ys"
  by (induction xs arbitrary: n) auto

lemma updateDataStructures_error_parts:
  fixes rs :: "dev_reply list"
  defines "bytes \<equiv> concat (map reply_bytes rs)"
  shows "request_code MESSAGE_END \<notin> set junk \<Longrightarrow> junk \<noteq> [] \<Longrightarrow>
      updateDataStructures (map reply_request rs) (bytes @ junk @ request_code MESSAGE_END # padding) i =
      (fold apply_reply rs i, NoMessageEnd (length bytes) (length bytes + length junk))"
    and "req \<notin> reply_request ` UNIV \<Longrightarrow>
      updateDataStructures (map reply_request rs @ req # rs2) (bytes @ rest) i =
      (fold apply_reply rs i, NotHandled req)"
    and "updateDataStructures (map reply_request rs) bytes i =
      (fold apply_reply rs i, ReadOutside (length bytes))"
proof -
  assume junk: "request_code MESSAGE_END \<notin> set junk" "junk \<noteq> []"
  then obtain b junk' where "junk = b # junk'" "b \<noteq> request_code MESSAGE_END"
    by (cases junk) auto
  with junk show "updateDataStructures (map reply_request rs)
      (bytes @ junk @ request_code MESSAGE_END # padding) i =
      (fold apply_reply rs i, NoMessageEnd (length bytes) (length bytes + length junk))"
    using updateDataStructures_prefix [of rs "[]"]
    by (simp add: bytes_def peek_def nth_append find_from_skip)
next
  assume "req \<notin> reply_request ` UNIV"
  then show "updateDataStructures (map reply_request rs @ req # rs2) (bytes @ rest) i =
      (fold apply_reply rs i, NotHandled req)"
    using updateDataStructures_prefix [of rs "req # rs2" rest]
    by (simp add: bytes_def dispatch_other)
next
  show "updateDataStructures (map reply_request rs) bytes i =
      (fold apply_reply rs i, ReadOutside (length bytes))"
    using updateDataStructures_prefix [of rs "[]" "[]"] by (simp add: bytes_def peek_def)
qed

text \<open>The error exits of \<open>updateDataStructures\<close>, after any number of well-formed replies, which
  stay applied: a byte other than \<open>MESSAGE_END\<close> behind the last structure raises the exception that
  names its position and the position of the next \<open>MESSAGE_END\<close>; a request that is no getter raises
  the exception that names the request; and a response that ends right behind its last structure is
  read outside its bounds.\<close>

theorem updateDataStructures_errors:
  fixes rs :: "dev_reply list"
  defines "bytes \<equiv> concat (map reply_bytes rs)"
  shows "(request_code MESSAGE_END \<notin> set junk \<and> junk \<noteq> [] \<longrightarrow>
      updateDataStructures (map reply_request rs) (bytes @ junk @ request_code MESSAGE_END # padding) i =
      (fold apply_reply rs i, NoMessageEnd (length bytes) (length bytes + length junk))) \<and>
    (req \<notin> reply_request ` UNIV \<longrightarrow>
      updateDataStructures (map reply_request rs @ req # rs2) (bytes @ rest) i =
      (fold apply_reply rs i, NotHandled req)) \<and>
    updateDataStructures (map reply_request rs) bytes i =
      (fold apply_reply rs i, ReadOutside (length bytes))"
  unfolding bytes_def using updateDataStructures_error_parts by blast

lemma updateDataStructures_errors_witness:
  "snd (updateDataStructures [EXPANDER_GET] [7, 0, 0, 222, 9] (iface_init (\<lambda>_. []))) = NoMessageEnd 1 3"
  using updateDataStructures_errors [of "[0, 0]" "[R_Expander 7]" "[9]"] by simp

end
