(* ===== verification/Usb_Communicator.thy ===== *)
theory Usb_Communicator
  imports Protocol
begin

text \<open>
  \<open>server/control_server/src/USBCommunicator.cpp\<close>: one bulk transfer in each direction. libusb is
  the parameter: a transfer is given by the number of bytes it reports and its status code, for
  the incoming direction also by the bytes it stored. A \<open>CommException\<close> is a value. The
  constructor and destructor are in \<open>Usb_Setup\<close>.
\<close>

datatype comm_exception =
    SentInstead int
  | SendStatus int
  | ReceivedInstead int
  | ReceiveStatus int

text \<open>\<open>std::vector::resize (n, 0)\<close>.\<close>

definition vector_resize :: "nat \<Rightarrow> u8 list \<Rightarrow> u8 list" where
  "vector_resize n xs = take n xs @ replicate (n - length xs) 0"

text \<open>The data that goes to libusb, and the exception when there is one.\<close>

definition sendData :: "int \<times> int \<Rightarrow> u8 list \<Rightarrow> u8 list \<times> comm_exception option" where
  "sendData outcome data =
     (let data = vector_resize HOST_TO_DEVICE_DATAPACKET_SIZE data;
          (transferred, status) = outcome in
      if transferred \<noteq> int HOST_TO_DEVICE_DATAPACKET_SIZE then (data, Some (SentInstead transferred))
      else if status < 0 then (data, Some (SendStatus status))
      else (data, None))"

definition receiveData :: "u8 list \<times> int \<times> int \<Rightarrow> comm_exception + u8 list" where
  "receiveData outcome =
     (let (data, transferred, status) = outcome in
      if transferred \<noteq> int DEVICE_TO_HOST_DATAPACKET_SIZE then Inl (ReceivedInstead transferred)
      else if status < 0 then Inl (ReceiveStatus status)
      else Inr (take (nat transferred) data))"

lemma vector_resize_prefix:
  "length xs \<le> n \<Longrightarrow> vector_resize n xs = xs @ replicate (n - length xs) 0"
  by (simp add: vector_resize_def)

lemma length_vector_resize [simp]: "length (vector_resize n xs) = n"
  by (simp add: vector_resize_def)

end
