(* ===== verification/Interface_Manager.thy ===== *)
theory Interface_Manager
  imports Interface_Spec Priority_Queue Usb_Communicator
begin

text \<open>
  \<open>server/control_server/src/InterfaceManager.cpp\<close>: which requests of the interface's map are sent
  (those that differ from the ones sent before), in which order, which getters follow them, and
  what happens to the response.
\<close>

section \<open>State and operations\<close>

text \<open>\<open>counter\<close> is the static \<open>long\<close> of \<open>generateGetRequests\<close>; it starts at 0 and only grows, its
  overflow after \<open>2 ^ 63\<close> messages is not modelled.\<close>

record manager =
  mg_interface :: iface
  mg_previousRequests :: request_map
  mg_counter :: nat

definition manager_init :: "iface \<Rightarrow> manager" where
  "manager_init i = \<lparr>mg_interface = i, mg_previousRequests = [], mg_counter = 0\<rparr>"

definition generateGetRequests :: "bool \<Rightarrow> nat \<Rightarrow> (u8 list \<times> usb_request list) \<times> nat" where
  "generateGetRequests killSwitchActive counter =
     (let commands = [request_code BRIDGE_GET_STATE];
          responseOrder = [BRIDGE_GET_STATE] in
      if killSwitchActive then ((commands, responseOrder), counter)
      else
        (let commands = commands @ [request_code MOTOR_DRIVER_GET];
             responseOrder = responseOrder @ [MOTOR_DRIVER_GET];
             commands = (if counter mod 2 \<noteq> 0 then commands @ [MOTOR1] else commands @ [MOTOR2]);
             commands = commands @ [request_code ARM_DRIVER_GET];
             responseOrder = responseOrder @ [ARM_DRIVER_GET];
             (commands, responseOrder) =
               (if counter mod 4 = 0 then (commands @ [ELBOW], responseOrder)
                else if counter mod 4 = 1 then (commands @ [GRIPPER], responseOrder)
                else if counter mod 4 = 2 then (commands @ [SHOULDER], responseOrder)
                else (butlast commands @ [request_code ARM_DRIVER_GET_GENERAL_STATE],
                      butlast responseOrder @ [ARM_DRIVER_GET_GENERAL_STATE]))
         in ((commands, responseOrder), counter + 1)))"

text \<open>
  \<open>generateDifferentialRequests\<close>. The maps hold copies; \<open>g\<close> is the memory of the nodes they are
  written into.
\<close>

definition diff_step ::
  "u8 list \<Rightarrow> request_map \<Rightarrow> string \<times> data_holder \<Rightarrow> request_map \<Rightarrow> request_map" where
  "diff_step g previous newRequest diff =
     (case map_of previous (fst newRequest) of
        None \<Rightarrow> al_insert (fst newRequest) (dh_assign g (snd newRequest)) diff
      | Some p \<Rightarrow>
          if dh_equals p (snd newRequest) then diff
          else al_insert (fst newRequest) (dh_assign g (snd newRequest)) diff)"

definition copy_requests :: "u8 list \<Rightarrow> request_map \<Rightarrow> request_map" where
  "copy_requests g rm = fold (\<lambda>(k, d) m. al_insert k (dh_assign g d) m) rm []"

definition erase_dependent :: "request_map \<Rightarrow> request_map \<Rightarrow> request_map" where
  "erase_dependent rm m =
     fold (\<lambda>(k, d) m. if dh_killswitchDependent d then al_erase k m else m) rm m"

definition generateDifferentialRequests ::
  "u8 list \<Rightarrow> bool \<Rightarrow> manager \<Rightarrow> request_map \<times> manager" where
  "generateDifferentialRequests g killSwitchActive mg =
     (let rm = if_requests (mg_interface mg);
          diff = fold (diff_step g (mg_previousRequests mg)) rm [];
          previous = copy_requests g rm in
      if killSwitchActive
      then (erase_dependent rm diff, mg\<lparr>mg_previousRequests := erase_dependent rm previous\<rparr>)
      else (diff, mg\<lparr>mg_previousRequests := previous\<rparr>))"

text \<open>The queue of requests, ordered by \<open>DataHolderComparer\<close>, written out into one message.\<close>

definition sort_requests :: "request_map \<Rightarrow> data_holder list" where
  "sort_requests diff = fold (\<lambda>(k, d) q. pq_push dh_comparer d q) diff []"

function drain_requests :: "data_holder list \<Rightarrow> u8 list \<Rightarrow> u8 list" where
  "drain_requests q concatenated =
     (if q = [] then concatenated
      else drain_requests (pq_pop q) (dh_appendTo (pq_top q) concatenated))"
  by auto
termination by (relation "measure (\<lambda>(q, _). length q)") (auto simp: pq_pop_def)

declare drain_requests.simps [simp del]

definition build_message ::
  "u8 list \<Rightarrow> manager \<Rightarrow> u8 list \<times> usb_request list \<times> manager" where
  "build_message g mg =
     (let ks = if_killSwitchActive (mg_interface mg);
          (diff, mg) = generateDifferentialRequests g ks mg;
          concatenated = drain_requests (sort_requests diff) [];
          ((commands, responseOrder), counter) = generateGetRequests ks (mg_counter mg);
          concatenated = concatenated @ commands;
          concatenated = concatenated @ [request_code MESSAGE_END]
      in (concatenated, responseOrder, mg\<lparr>mg_counter := counter\<rparr>))"

datatype sync_end = SyncFailed comm_exception | SyncDone update_end

text \<open>\<open>syncWithDevice\<close>, with the exchange as a function that may throw.\<close>

definition syncWithDevice ::
  "u8 list \<Rightarrow> (u8 list \<Rightarrow> comm_exception + u8 list) \<Rightarrow> manager \<Rightarrow> manager \<times> sync_end" where
  "syncWithDevice g syncFunction mg =
     (let (concatenated, responseOrder, mg) = build_message g mg in
      case syncFunction concatenated of
        Inl e \<Rightarrow> (mg, SyncFailed e)
      | Inr response \<Rightarrow>
          (let (i, e) = updateDataStructures responseOrder response (mg_interface mg)
           in (mg\<lparr>mg_interface := i\<rparr>, SyncDone e)))"

text \<open>The function \<open>BridgeProcessor\<close> passes: send, then receive.\<close>

definition usb_exchange ::
  "(u8 list \<Rightarrow> int \<times> int) \<Rightarrow> (u8 list \<Rightarrow> u8 list \<times> int \<times> int) \<Rightarrow> u8 list \<Rightarrow>
   comm_exception + u8 list" where
  "usb_exchange out inp r =
     (let data = vector_resize HOST_TO_DEVICE_DATAPACKET_SIZE r in
      case sendData (out data) r of
        (_, Some e) \<Rightarrow> Inl e
      | (sent, None) \<Rightarrow> receiveData (inp sent))"

section \<open>Lookups in the maps\<close>

lemma map_of_notin: "k \<notin> fst ` set xs \<Longrightarrow> map_of xs k = None"
  by (simp add: map_of_eq_None_iff)

lemma diff_step_sorted: "al_sorted m \<Longrightarrow> al_sorted (diff_step g prev r m)"
  by (auto simp: diff_step_def al.invar_insert split: option.splits)

lemma diff_step_lookup:
  "al_sorted m \<Longrightarrow> map_of (diff_step g prev (a, d) m) k =
    (if k = a then (case map_of prev a of
          None \<Rightarrow> Some (dh_assign g d)
        | Some p \<Rightarrow> if dh_equals p d then map_of m a else Some (dh_assign g d))
     else map_of m k)"
  by (auto simp: diff_step_def al.find_insert split: option.splits)

lemma diff_fold_lookup:
  assumes "al_sorted m" "distinct (map fst rm)"
  shows "map_of (fold (diff_step g prev) rm m) k =
    (case map_of rm k of
       None \<Rightarrow> map_of m k
     | Some d \<Rightarrow> (case map_of prev k of
          None \<Rightarrow> Some (dh_assign g d)
        | Some p \<Rightarrow> if dh_equals p d then map_of m k else Some (dh_assign g d)))"
  using assms
proof (induction rm arbitrary: m)
  case Nil
  then show ?case by simp
next
  case (Cons r rm)
  obtain a d where r: "r = (a, d)" by (cases r)
  have "map_of rm a = None" "distinct (map fst rm)"
    using Cons.prems(2) by (simp_all add: r map_of_eq_None_iff)
  with Cons.IH [of "diff_step g prev r m"] Cons.prems(1) show ?case
    unfolding r by (auto simp: diff_step_sorted diff_step_lookup split: option.splits)
qed

lemma diff_sorted: "al_sorted m \<Longrightarrow> al_sorted (fold (diff_step g prev) rm m)"
  by (induction rm arbitrary: m) (simp_all add: diff_step_sorted)

lemma copy_requests_fold:
  "copy_requests g rm = fold (\<lambda>(k, d). al_insert k d) (map (\<lambda>(k, d). (k, dh_assign g d)) rm) []"
  by (simp add: copy_requests_def fold_map comp_def case_prod_beta')

lemma copy_requests_lookup:
  assumes "al_sorted rm"
  shows "map_of (copy_requests g rm) k = map_option (dh_assign g) (map_of rm k)"
proof -
  have "distinct (map fst (map (\<lambda>(k, d). (k, dh_assign g d)) rm))"
    using assms by (simp add: al_sorted_def comp_def case_prod_beta')
  from al.find_fold_insert [OF al.invar_empty this, of k] show ?thesis
    by (simp add: copy_requests_fold map_of_map split: option.splits)
qed

lemma copy_requests_sorted: "al_sorted (copy_requests g rm)"
  by (simp add: copy_requests_fold al.invar_fold_insert al.invar_empty)

lemma erase_dependent_fold:
  "erase_dependent rm m = fold al_erase (map fst (filter (\<lambda>(k, d). dh_killswitchDependent d) rm)) m"
  by (induction rm arbitrary: m) (auto simp: erase_dependent_def)

lemma erase_dependent_lookup:
  assumes "al_sorted m" "al_sorted rm"
  shows "map_of (erase_dependent rm m) k =
    (case map_of rm k of
       None \<Rightarrow> map_of m k
     | Some d \<Rightarrow> if dh_killswitchDependent d then None else map_of m k)"
proof -
  have "k \<in> set (map fst (filter (\<lambda>(k, d). dh_killswitchDependent d) rm)) \<longleftrightarrow>
    (\<exists>d. map_of rm k = Some d \<and> dh_killswitchDependent d)"
    using al_mem_iff [OF assms(2)] by force
  with assms(1) show ?thesis
    by (auto simp: erase_dependent_fold al.find_fold_erase split: option.splits)
qed

lemma erase_dependent_sorted: "al_sorted m \<Longrightarrow> al_sorted (erase_dependent rm m)"
  by (simp add: erase_dependent_fold al.invar_fold_erase)

text \<open>What is sent and what is remembered, key by key.\<close>

definition unchanged :: "request_map \<Rightarrow> string \<Rightarrow> data_holder \<Rightarrow> bool" where
  "unchanged previous k d = (case map_of previous k of None \<Rightarrow> False | Some p \<Rightarrow> dh_equals p d)"

lemma generateDifferential_lookup:
  assumes "al_sorted (if_requests (mg_interface mg))"
    and "generateDifferentialRequests g ks mg = (diff, mg')"
  shows "map_of diff k =
      (case map_of (if_requests (mg_interface mg)) k of
         None \<Rightarrow> None
       | Some d \<Rightarrow> if unchanged (mg_previousRequests mg) k d \<or> (ks \<and> dh_killswitchDependent d) then None
                   else Some (dh_assign g d))"
    and "map_of (mg_previousRequests mg') k =
      (case map_of (if_requests (mg_interface mg)) k of
         None \<Rightarrow> None
       | Some d \<Rightarrow> if ks \<and> dh_killswitchDependent d then None else Some (dh_assign g d))"
    and "al_sorted diff" and "mg_interface mg' = mg_interface mg" and "mg_counter mg' = mg_counter mg"
proof -
  let ?rm = "if_requests (mg_interface mg)"
  have dist: "distinct (map fst ?rm)" using assms(1) by (simp add: al_sorted_def)
  have s: "al_sorted (fold (diff_step g (mg_previousRequests mg)) ?rm [])"
    by (simp add: diff_sorted al.invar_empty)
  note look = diff_fold_lookup [OF al.invar_empty dist, of g "mg_previousRequests mg"]
    copy_requests_lookup [OF assms(1)] copy_requests_sorted s
    erase_dependent_lookup [OF _ assms(1)]
  show "map_of diff k = (case map_of ?rm k of None \<Rightarrow> None
       | Some d \<Rightarrow> if unchanged (mg_previousRequests mg) k d \<or> (ks \<and> dh_killswitchDependent d) then None
                   else Some (dh_assign g d))"
    using assms(2) look
    by (auto simp: generateDifferentialRequests_def Let_def unchanged_def
        split: if_splits option.splits)
  show "map_of (mg_previousRequests mg') k =
      (case map_of ?rm k of None \<Rightarrow> None
       | Some d \<Rightarrow> if ks \<and> dh_killswitchDependent d then None else Some (dh_assign g d))"
    using assms(2) look
    by (auto simp: generateDifferentialRequests_def Let_def split: if_splits option.splits)
  show "al_sorted diff" "mg_interface mg' = mg_interface mg" "mg_counter mg' = mg_counter mg"
    using assms(2) s
    by (auto simp: generateDifferentialRequests_def Let_def erase_dependent_sorted split: if_splits)
qed

section \<open>The queue and the message\<close>

text \<open>The queue of the standard library on the model's comparison.\<close>

interpretation requests_pq: priority_queue dh_priority "[]" "pq_push dh_comparer" pq_top pq_pop mset
    "\<lambda>q. sorted (map dh_priority q)"
  by (rule pq_priority_queue) (simp add: dh_comparer_def)

lemma sort_requests_fold: "sort_requests diff = fold (pq_push dh_comparer) (map snd diff) []"
  by (simp add: sort_requests_def fold_map comp_def case_prod_beta')

lemma sort_requests:
  "sorted (map dh_priority (sort_requests diff)) \<and> mset (sort_requests diff) = mset (map snd diff)"
  using requests_pq.push_all [of "[]" "map snd diff"] by (simp add: sort_requests_fold)

lemma set_sort_requests: "set (sort_requests diff) = snd ` set diff"
  using sort_requests [of diff] by (metis mset_eq_setD list.set_map)

lemma drain_requests_eq: "drain_requests q acc = acc @ concat (map dh_bytes q)"
proof (induction q acc rule: drain_requests.induct)
  case (1 q acc)
  show ?case
  proof (cases q)
    case Nil
    then show ?thesis by (simp add: drain_requests.simps)
  next
    case (Cons d ds)
    with 1 show ?thesis
      by (subst drain_requests.simps) (simp add: pq_pop_def pq_top_def dh_appendTo_bytes)
  qed
qed

text \<open>The command a request carries.\<close>

definition request_cmd :: "data_holder \<Rightarrow> usb_cmd" where
  "request_cmd d = fst (the (decode_cmd (dh_bytes d)))"

lemma request_cmd_carries: "server_cmd_ok c \<Longrightarrow> dh_carries d c \<Longrightarrow> request_cmd d = c"
  using decode_encode [OF server_cmd_is_ok, of c "[]"] by (simp add: request_cmd_def dh_carries_def)

definition getter_cmds :: "bool \<Rightarrow> nat \<Rightarrow> usb_cmd list" where
  "getter_cmds ks counter =
     GetState # (if ks then []
       else [MotorGet (if counter mod 2 \<noteq> 0 then MOTOR1 else MOTOR2),
             if counter mod 4 = 0 then ArmGet ELBOW else if counter mod 4 = 1 then ArmGet GRIPPER
             else if counter mod 4 = 2 then ArmGet SHOULDER else ArmGetGeneral])"

lemma generateGetRequests_eq:
  "generateGetRequests ks counter =
   ((encode_cmds (getter_cmds ks counter), map cmd_request (getter_cmds ks counter)),
    if ks then counter else counter + 1)"
  by (simp add: generateGetRequests_def getter_cmds_def Let_def butlast_append)

lemma getter_cmds_ok: "c \<in> set (getter_cmds ks counter) \<Longrightarrow> cmd_ok c"
  by (auto simp: getter_cmds_def split: if_splits)

lemma getter_length: "length (encode_cmds (getter_cmds ks counter)) \<le> 5"
  by (simp add: getter_cmds_def)

definition manager_ok :: "manager \<Rightarrow> bool" where
  "manager_ok mg \<longleftrightarrow> iface_ok (mg_interface mg)"

lemma diff_requests_ok:
  assumes "manager_ok mg" "length g = DATAHOLDER_MAX_DATA_SIZE"
    and "generateDifferentialRequests g ks mg = (diff, mg')"
  shows "requests_ok diff"
proof (rule requests_okI)
  have rm: "requests_ok (if_requests (mg_interface mg))"
    using assms(1) by (simp add: manager_ok_def iface_ok_def)
  then have s: "al_sorted (if_requests (mg_interface mg))" by (simp add: requests_ok_def)
  note look = generateDifferential_lookup [OF s assms(3)]
  show "al_sorted diff" by (rule look(3))
  fix k d'
  assume "map_of diff k = Some d'"
  then obtain d where "map_of (if_requests (mg_interface mg)) k = Some d" "d' = dh_assign g d"
    using look(1) [of k] by (auto split: option.splits if_splits)
  then show "\<exists>c. server_cmd_ok c \<and> cmd_key c = k \<and> dh_carries d' c"
    using rm assms(2) by (metis requests_ok_lookup dh_carries_assign)
qed

lemma requests_ok_bytes:
  assumes "requests_ok diff" "(k, d) \<in> set diff"
  shows "server_cmd_ok (request_cmd d)" and "dh_bytes d = encode_cmd (request_cmd d)"
    and "cmd_key (request_cmd d) = k" and "dh_priority d = cmd_priority (request_cmd d)"
    and "dh_killswitchDependent d = cmd_needs_power (request_cmd d)"
proof -
  obtain c where "server_cmd_ok c" "cmd_key c = k" "dh_carries d c"
    using assms by (auto simp: requests_ok_def)
  then show "server_cmd_ok (request_cmd d)" "dh_bytes d = encode_cmd (request_cmd d)"
    "cmd_key (request_cmd d) = k" "dh_priority d = cmd_priority (request_cmd d)"
    "dh_killswitchDependent d = cmd_needs_power (request_cmd d)"
    using request_cmd_carries by (auto simp: dh_carries_def)
qed

text \<open>Room in the packet: at most one request per key.\<close>

definition all_keys :: "string list" where
  "all_keys = [''arm_101'', ''arm_103'', ''arm_115'', ''arm_addon'', ''expander'', ''killswitch'',
     ''lcdtext'', ''motor_108'', ''motor_114'']"

definition key_bytes :: "string \<Rightarrow> nat" where
  "key_bytes k =
     (if k = ''lcdtext'' then 35
      else if k \<in> {''arm_101'', ''arm_103'', ''arm_115''} then 6
      else if k \<in> {''motor_108'', ''motor_114''} then 4 else 2)"

lemma server_cmd_key: "server_cmd_ok c \<Longrightarrow> cmd_key c \<in> set all_keys"
  by (cases c) (auto simp: all_keys_def)

lemma server_cmd_bytes: "server_cmd_ok c \<Longrightarrow> length (encode_cmd c) \<le> key_bytes (cmd_key c)"
  by (cases c) (auto simp: key_bytes_def)

lemma requests_total_length:
  assumes "requests_ok diff"
  shows "length (concat (map (\<lambda>(k, d). dh_bytes d) diff)) \<le> 67"
proof -
  have ent: "k \<in> set all_keys \<and> length (dh_bytes d) \<le> key_bytes k" if "(k, d) \<in> set diff" for k d
    using requests_ok_bytes [OF assms that] server_cmd_key server_cmd_bytes by metis
  have "length (concat (map (\<lambda>(k, d). dh_bytes d) diff)) = (\<Sum>(k, d)\<leftarrow>diff. length (dh_bytes d))"
    by (simp add: length_concat comp_def case_prod_beta')
  also have "\<dots> \<le> (\<Sum>(k, d)\<leftarrow>diff. key_bytes k)"
    using ent by (intro sum_list_mono) auto
  also have "\<dots> = sum_list (map key_bytes (map fst diff))"
    by (simp add: comp_def case_prod_beta')
  also have "\<dots> = sum key_bytes (set (map fst diff))"
    using assms by (intro sum_list_distinct_conv_sum_set) (simp add: requests_ok_def al_sorted_def)
  also have "\<dots> \<le> sum key_bytes (set all_keys)"
    using ent by (intro sum_mono2) auto
  also have "\<dots> = 67" by (simp add: all_keys_def key_bytes_def)
  finally show ?thesis .
qed

section \<open>Properties\<close>

text \<open>The setter commands of a message, in the order they are sent.\<close>

definition setter_cmds :: "u8 list \<Rightarrow> manager \<Rightarrow> usb_cmd list" where
  "setter_cmds g mg = map request_cmd (sort_requests
     (fst (generateDifferentialRequests g (if_killSwitchActive (mg_interface mg)) mg)))"

lemma setter_cmds_props:
  assumes "manager_ok mg" "length g = DATAHOLDER_MAX_DATA_SIZE"
  defines "ks \<equiv> if_killSwitchActive (mg_interface mg)"
  defines "diff \<equiv> fst (generateDifferentialRequests g ks mg)"
  shows "requests_ok diff"
    and "drain_requests (sort_requests diff) [] = encode_cmds (setter_cmds g mg)"
    and "sorted (map cmd_priority (setter_cmds g mg))"
    and "c \<in> set (setter_cmds g mg) \<Longrightarrow> server_cmd_ok c"
    and "length (encode_cmds (setter_cmds g mg)) \<le> 67"
proof -
  show ok: "requests_ok diff"
    using diff_requests_ok [OF assms(1,2)] unfolding diff_def by (metis prod.collapse)
  note entry = requests_ok_bytes [OF ok]
  have setter: "setter_cmds g mg = map request_cmd (sort_requests diff)"
    by (simp add: setter_cmds_def diff_def ks_def)
  have bytes: "dh_bytes d = encode_cmd (request_cmd d) \<and> dh_priority d = cmd_priority (request_cmd d) \<and>
      server_cmd_ok (request_cmd d)" if "d \<in> set (sort_requests diff)" for d
    using that entry by (auto simp: set_sort_requests)
  then have map_bytes: "map dh_bytes (sort_requests diff) = map encode_cmd (setter_cmds g mg)"
    and map_prio: "map dh_priority (sort_requests diff) = map cmd_priority (setter_cmds g mg)"
    by (simp_all add: setter)
  show enc: "drain_requests (sort_requests diff) [] = encode_cmds (setter_cmds g mg)"
    by (simp add: drain_requests_eq map_bytes encode_cmds_def)
  show "sorted (map cmd_priority (setter_cmds g mg))"
    using sort_requests [of diff] by (simp add: map_prio)
  show "c \<in> set (setter_cmds g mg) \<Longrightarrow> server_cmd_ok c"
    using bytes by (auto simp: setter)
  have "mset (map (length \<circ> dh_bytes) (sort_requests diff)) = mset (map (length \<circ> dh_bytes \<circ> snd) diff)"
    using sort_requests [of diff] by (metis image_mset.compositionality mset_map)
  then have "sum_list (map (length \<circ> dh_bytes) (sort_requests diff)) =
    sum_list (map (length \<circ> dh_bytes \<circ> snd) diff)"
    by (metis sum_mset_sum_list)
  then show "length (encode_cmds (setter_cmds g mg)) \<le> 67"
    using requests_total_length [OF ok]
    by (simp add: enc [symmetric] drain_requests_eq length_concat comp_def case_prod_beta')
qed

lemma build_message_eq:
  assumes "manager_ok mg" "length g = DATAHOLDER_MAX_DATA_SIZE"
  defines "ks \<equiv> if_killSwitchActive (mg_interface mg)"
  defines "getters \<equiv> getter_cmds ks (mg_counter mg)"
  shows "build_message g mg =
    (encode_cmds (setter_cmds g mg @ getters) @ [request_code MESSAGE_END], map cmd_request getters,
     (snd (generateDifferentialRequests g ks mg))
       \<lparr>mg_counter := (if ks then mg_counter mg else mg_counter mg + 1)\<rparr>)"
proof -
  obtain diff mg' where d: "generateDifferentialRequests g ks mg = (diff, mg')" by fastforce
  have "al_sorted (if_requests (mg_interface mg))"
    using assms(1) by (simp add: manager_ok_def iface_ok_def requests_ok_def)
  from generateDifferential_lookup(5) [OF this d] have "mg_counter mg' = mg_counter mg" .
  then show ?thesis
    using setter_cmds_props(2) [OF assms(1,2)] d
    by (simp add: build_message_def generateGetRequests_eq getters_def flip: ks_def)
qed

lemma setter_cmds_mset:
  "mset (setter_cmds g mg) = mset (map (\<lambda>(k, d). request_cmd d)
    (fst (generateDifferentialRequests g (if_killSwitchActive (mg_interface mg)) mg)))"
  using sort_requests [of "fst (generateDifferentialRequests g (if_killSwitchActive (mg_interface mg)) mg)"]
  by (simp add: setter_cmds_def case_prod_beta' image_mset.compositionality comp_def)

text \<open>The reference parser reads the commands back from the padded packet.\<close>

lemma message_decodes:
  assumes "manager_ok mg" and "length g = DATAHOLDER_MAX_DATA_SIZE"
  defines "cmds \<equiv> setter_cmds g mg @ getter_cmds (if_killSwitchActive (mg_interface mg)) (mg_counter mg)"
  shows "fst (build_message g mg) = encode_cmds cmds @ [request_code MESSAGE_END]"
    and "length (fst (build_message g mg)) \<le> 73"
    and "decode_message (length cmds + 1) (vector_resize HOST_TO_DEVICE_DATAPACKET_SIZE (fst (build_message g mg))) = Some cmds"
proof -
  note props = setter_cmds_props [OF assms(1,2)]
  show msg: "fst (build_message g mg) = encode_cmds cmds @ [request_code MESSAGE_END]"
    by (simp add: cmds_def build_message_eq [OF assms(1,2)])
  show len: "length (fst (build_message g mg)) \<le> 73"
    using props(5) getter_length [of "if_killSwitchActive (mg_interface mg)" "mg_counter mg"]
    by (simp add: msg cmds_def)
  have "\<forall>c \<in> set cmds. cmd_ok c"
    using props(4) server_cmd_is_ok getter_cmds_ok unfolding cmds_def by auto
  then show "decode_message (length cmds + 1) (vector_resize HOST_TO_DEVICE_DATAPACKET_SIZE (fst (build_message g mg))) = Some cmds"
    using len decode_message_encode [of cmds "length cmds + 1"]
    by (simp add: vector_resize_prefix HOST_TO_DEVICE_DATAPACKET_SIZE_def msg)
qed

text \<open>C15: Every message the manager builds is the byte encoding of a list of commands closed by
  \<open>MESSAGE_END\<close>: first the changed settings in the order of their priorities (the kill switch
  before the arm, the motors, the arm's general commands, the expander and the LCD), then the
  getters; each of the changed settings occurs once. The reference parser reads exactly these commands back. It has at most 73 bytes, so the
  padded 128-byte packet the communicator sends contains the whole message.\<close>

theorem message_is_encoded_commands:
  fixes g :: "u8 list" and mg :: manager
  assumes "manager_ok mg" and "length g = DATAHOLDER_MAX_DATA_SIZE"
  defines "msg \<equiv> fst (build_message g mg)"
    and "cmds \<equiv> setter_cmds g mg @ getter_cmds (if_killSwitchActive (mg_interface mg)) (mg_counter mg)"
  shows "msg = encode_cmds cmds @ [request_code MESSAGE_END] \<and>
    decode_message (length cmds + 1) (vector_resize HOST_TO_DEVICE_DATAPACKET_SIZE msg) = Some cmds \<and>
    sorted (map cmd_priority (setter_cmds g mg)) \<and> length msg \<le> 73 \<and>
    mset (setter_cmds g mg) = mset (map (\<lambda>(k, d). request_cmd d)
      (fst (generateDifferentialRequests g (if_killSwitchActive (mg_interface mg)) mg)))"
  using message_decodes [OF assms(1,2)] setter_cmds_props(3) [OF assms(1,2)] setter_cmds_mset
  by (simp add: msg_def cmds_def)

lemma message_is_encoded_commands_witness:
  "length (fst (build_message (replicate 40 7) (manager_init (iface_init (\<lambda>_. replicate 40 1))))) \<le> 73"
proof -
  have ok: "manager_ok (manager_init (iface_init (\<lambda>_. replicate 40 1)))"
    using iface_ok_init [of "\<lambda>_. replicate 40 1"]
    by (simp add: manager_ok_def manager_init_def mem_ok_def DATAHOLDER_MAX_DATA_SIZE_def)
  have len: "length (replicate 40 7 :: u8 list) = DATAHOLDER_MAX_DATA_SIZE"
    by (simp add: DATAHOLDER_MAX_DATA_SIZE_def)
  from message_is_encoded_commands [OF ok len] show ?thesis by (elim conjE)
qed

lemma setter_without_power:
  assumes "manager_ok mg" and "length g = DATAHOLDER_MAX_DATA_SIZE"
    and "if_killSwitchActive (mg_interface mg)" and "c \<in> set (setter_cmds g mg)"
  shows "\<not> cmd_needs_power c"
proof -
  obtain diff mg' where d: "generateDifferentialRequests g True mg = (diff, mg')" by fastforce
  have s: "al_sorted (if_requests (mg_interface mg))"
    using assms(1) by (simp add: manager_ok_def iface_ok_def requests_ok_def)
  have ok: "requests_ok diff" using diff_requests_ok [OF assms(1,2) d] .
  obtain k e where e: "(k, e) \<in> set diff" "c = request_cmd e"
    using assms(3,4) d by (auto simp: setter_cmds_def set_sort_requests)
  then have "map_of diff k = Some e" using ok by (simp add: requests_ok_def al_mem_iff)
  then have "\<not> dh_killswitchDependent e"
    using generateDifferential_lookup(1) [OF s d, of k] by (auto split: option.splits if_splits)
  then show ?thesis using requests_ok_bytes(5) [OF ok e(1)] e(2) by simp
qed

text \<open>C17: While the interface believes the kill switch active, the message that is built holds no command to a
  device on the I2C bus. Read back by the reference parser from the padded packet, it consists of
  kill switch settings, LCD texts and requests for the bridge's own state only, and this state is
  the one answer that is waited for.\<close>

theorem no_device_command_under_kill_switch:
  assumes "manager_ok mg" and "length g = DATAHOLDER_MAX_DATA_SIZE" and "if_killSwitchActive (mg_interface mg)"
  shows "\<exists>cmds. fst (build_message g mg) = encode_cmds cmds @ [request_code MESSAGE_END] \<and>
    decode_message (length cmds + 1) (vector_resize HOST_TO_DEVICE_DATAPACKET_SIZE (fst (build_message g mg))) = Some cmds \<and>
    (\<forall>c \<in> set cmds. c = GetState \<or> (\<exists>b. c = SetKillswitch b) \<or> (\<exists>t. c = LcdSet t)) \<and>
    fst (snd (build_message g mg)) = [BRIDGE_GET_STATE]"
proof -
  have "c = GetState \<or> (\<exists>b. c = SetKillswitch b) \<or> (\<exists>t. c = LcdSet t)" if "c \<in> set (setter_cmds g mg)" for c
    using setter_without_power [OF assms that] setter_cmds_props(4) [OF assms(1,2) that] by (cases c) simp_all
  moreover have "getter_cmds (if_killSwitchActive (mg_interface mg)) (mg_counter mg) = [GetState]"
    using assms(3) by (simp add: getter_cmds_def)
  ultimately show ?thesis
    using message_decodes(1,3) [OF assms(1,2)] build_message_eq [OF assms(1,2)]
    by (intro exI [of _ "setter_cmds g mg @ [GetState]"]) auto
qed

lemma no_device_command_under_kill_switch_witness:
  "\<exists>cmds. decode_message (length cmds + 1) (vector_resize 128
       (fst (build_message (replicate 40 0) (manager_init (iface_init (\<lambda>_. replicate 40 1)))))) = Some cmds \<and>
     (\<forall>c \<in> set cmds. c = GetState \<or> (\<exists>b. c = SetKillswitch b) \<or> (\<exists>t. c = LcdSet t))"
proof -
  let ?mg = "manager_init (iface_init (\<lambda>_. replicate 40 1))"
  have ok: "manager_ok ?mg"
    using iface_ok_init [of "\<lambda>_. replicate 40 1"]
    by (simp add: manager_ok_def manager_init_def mem_ok_def DATAHOLDER_MAX_DATA_SIZE_def)
  have act: "if_killSwitchActive (mg_interface ?mg)"
    by (simp add: manager_init_def iface_init_def setKillSwitch_def if_insert_def)
  have len: "length (replicate 40 0 :: u8 list) = DATAHOLDER_MAX_DATA_SIZE" by (simp add: DATAHOLDER_MAX_DATA_SIZE_def)
  show ?thesis
    using no_device_command_under_kill_switch [OF ok len act] unfolding HOST_TO_DEVICE_DATAPACKET_SIZE_def by blast
qed

lemma differential_requests_parts:
  fixes g :: "u8 list" and ks :: bool and mg :: manager
  assumes "manager_ok mg"
  defines "diff \<equiv> fst (generateDifferentialRequests g ks mg)"
    and "stored \<equiv> map_of (if_requests (mg_interface mg))"
    and "remembered \<equiv> map_of (mg_previousRequests mg)"
  shows "stored k = None \<Longrightarrow> map_of diff k = None"
    and "stored k = Some d \<Longrightarrow> ks \<Longrightarrow> dh_killswitchDependent d \<Longrightarrow> map_of diff k = None"
    and "stored k = Some d \<Longrightarrow> remembered k = Some p \<Longrightarrow> dh_equals p d \<Longrightarrow> map_of diff k = None"
    and "stored k = Some d \<Longrightarrow> \<not> (ks \<and> dh_killswitchDependent d) \<Longrightarrow>
      remembered k = None \<or> dh_view (the (remembered k)) \<noteq> dh_view d \<Longrightarrow>
      \<exists>s. map_of diff k = Some s \<and> dh_view s = dh_view d"
proof -
  have s: "al_sorted (if_requests (mg_interface mg))"
    using assms(1) by (simp add: manager_ok_def iface_ok_def requests_ok_def)
  obtain mg' where "generateDifferentialRequests g ks mg = (diff, mg')"
    unfolding diff_def by (metis prod.collapse)
  note look = generateDifferential_lookup(1) [OF s this, of k, folded stored_def]
  show "stored k = None \<Longrightarrow> map_of diff k = None"
    "stored k = Some d \<Longrightarrow> ks \<Longrightarrow> dh_killswitchDependent d \<Longrightarrow> map_of diff k = None"
    "stored k = Some d \<Longrightarrow> remembered k = Some p \<Longrightarrow> dh_equals p d \<Longrightarrow> map_of diff k = None"
    by (simp_all add: look unchanged_def remembered_def)
  assume st: "stored k = Some d" and n: "\<not> (ks \<and> dh_killswitchDependent d)"
    and r: "remembered k = None \<or> dh_view (the (remembered k)) \<noteq> dh_view d"
  have "dh_ok d"
    using st assms(1) unfolding stored_def manager_ok_def iface_ok_def
    by (metis dh_carries_def requests_ok_lookup)
  moreover have "\<not> unchanged (mg_previousRequests mg) k d"
    using r by (auto simp: unchanged_def remembered_def dest: dh_equals_view split: option.splits)
  ultimately show "\<exists>s. map_of diff k = Some s \<and> dh_view s = dh_view d"
    using st n by (auto simp: look)
qed

text \<open>C19: Which settings are sent. A stored request is sent unless it equals the one remembered
  under its key or depends on a kill switch that is active; so a request whose priority, kill switch
  flag or bytes differ from what was remembered is always sent, and what is sent is what is
  stored. Nothing that is not stored is sent.\<close>

theorem differential_requests:
  fixes g :: "u8 list" and ks :: bool and mg :: manager
  assumes "manager_ok mg"
  defines "diff \<equiv> fst (generateDifferentialRequests g ks mg)"
    and "stored \<equiv> map_of (if_requests (mg_interface mg))"
    and "remembered \<equiv> map_of (mg_previousRequests mg)"
  shows "(stored k = None \<longrightarrow> map_of diff k = None) \<and>
    (stored k = Some d \<longrightarrow>
      (ks \<and> dh_killswitchDependent d \<longrightarrow> map_of diff k = None) \<and>
      (\<forall>p. remembered k = Some p \<and> dh_equals p d \<longrightarrow> map_of diff k = None) \<and>
      (\<not> (ks \<and> dh_killswitchDependent d) \<and>
       (remembered k = None \<or> dh_view (the (remembered k)) \<noteq> dh_view d) \<longrightarrow>
       (\<exists>s. map_of diff k = Some s \<and> dh_view s = dh_view d)))"
  unfolding diff_def stored_def remembered_def
  using differential_requests_parts [OF assms(1), where k = k and g = g and ks = ks]
  by - (intro conjI impI allI; (elim conjE)?; blast)

lemma differential_requests_witness:
  "map_of (fst (generateDifferentialRequests [] True
     (manager_init (iface_init (\<lambda>_. replicate 40 1))))) ''lcdtext'' = None"
proof -
  have "manager_ok (manager_init (iface_init (\<lambda>_. replicate 40 1)))"
    using iface_ok_init [of "\<lambda>_. replicate 40 1"]
    by (simp add: manager_ok_def manager_init_def mem_ok_def DATAHOLDER_MAX_DATA_SIZE_def)
  from differential_requests [OF this, where k = "''lcdtext''" and g = "[]" and ks = True] show ?thesis
    by (simp add: manager_init_def iface_init_def setKillSwitch_def if_insert_def insertRequest_def
        KILLSWITCH_STRING_def)
qed

lemma held_back_parts:
  fixes g g' g'' :: "u8 list" and mg mg1 mg2 :: manager
  assumes "manager_ok mg"
    and "generateDifferentialRequests g True mg = (d1, mg1)"
    and "generateDifferentialRequests g' False mg1 = (d2, mg2)"
  shows "map_of d2 k =
      (case map_of (if_requests (mg_interface mg)) k of
         None \<Rightarrow> None
       | Some d \<Rightarrow> if dh_killswitchDependent d then Some (dh_assign g' d) else None)"
    and "map_of (fst (generateDifferentialRequests g'' False mg2)) k = None"
proof -
  let ?rm = "if_requests (mg_interface mg)"
  have s: "al_sorted ?rm" using assms(1) by (simp add: manager_ok_def iface_ok_def requests_ok_def)
  note l1 = generateDifferential_lookup [OF s assms(2)]
  have rm1: "if_requests (mg_interface mg1) = ?rm" by (simp add: l1(4))
  note l2 = generateDifferential_lookup [OF s [folded rm1] assms(3)]
  have rm2: "if_requests (mg_interface mg2) = ?rm" by (simp add: l1(4) l2(4))
  obtain d3 mg3 where d3: "generateDifferentialRequests g'' False mg2 = (d3, mg3)" by fastforce
  note l3 = generateDifferential_lookup [OF s [folded rm2] d3]
  have eq: "dh_equals (dh_assign x d) d" if "map_of ?rm k = Some d" for k d x
    using that assms(1) unfolding manager_ok_def iface_ok_def
    by (metis dh_carries_def dh_equals_assign requests_ok_lookup)
  show "map_of d2 k = (case map_of ?rm k of None \<Rightarrow> None
       | Some d \<Rightarrow> if dh_killswitchDependent d then Some (dh_assign g' d) else None)"
    using eq by (auto simp: l2(1) l1(2) rm1 unchanged_def split: option.splits)
  show "map_of (fst (generateDifferentialRequests g'' False mg2)) k = None"
    using eq by (auto simp: d3 l3(1) l2(2) rm1 rm2 unchanged_def split: option.splits)
qed

text \<open>C20: Requests held back by the kill switch are not lost: if the interface does not change, a
  message with the kill switch active is followed, on the first message after its release, by
  exactly the stored requests that depend on the kill switch, and after that by nothing.\<close>

theorem held_back_requests_sent_on_release:
  fixes g g' g'' :: "u8 list" and mg mg1 mg2 :: manager
  assumes "manager_ok mg"
    and "generateDifferentialRequests g True mg = (d1, mg1)"
    and "generateDifferentialRequests g' False mg1 = (d2, mg2)"
  shows "map_of d2 k =
      (case map_of (if_requests (mg_interface mg)) k of
         None \<Rightarrow> None
       | Some d \<Rightarrow> if dh_killswitchDependent d then Some (dh_assign g' d) else None) \<and>
    map_of (fst (generateDifferentialRequests g'' False mg2)) k = None"
  using held_back_parts [OF assms] by blast

lemma held_back_requests_sent_on_release_witness:
  "map_of (fst (generateDifferentialRequests [] False (snd (generateDifferentialRequests [] True
     (manager_init (iface_init (\<lambda>_. replicate 40 1))))))) ''killswitch'' = None"
proof -
  have "manager_ok (manager_init (iface_init (\<lambda>_. replicate 40 1)))"
    using iface_ok_init [of "\<lambda>_. replicate 40 1"]
    by (simp add: manager_ok_def manager_init_def mem_ok_def DATAHOLDER_MAX_DATA_SIZE_def)
  from held_back_requests_sent_on_release [OF this prod.collapse [symmetric] prod.collapse [symmetric],
      of "[]" "[]" "''killswitch''"]
  show ?thesis
    by (simp add: manager_init_def iface_init_def setKillSwitch_def if_insert_def insertRequest_def
        KILLSWITCH_STRING_def dh_byte_eq_vector)
qed

text \<open>A failed exchange loses its settings. With the kill switch inactive, when sending or
  receiving throws, the requests of that message already count as sent: unless the interface is
  changed again, no later message repeats any of them.\<close>

theorem failed_exchange_loses_settings:
  assumes "manager_ok mg" and "length g = DATAHOLDER_MAX_DATA_SIZE"
    and "\<not> if_killSwitchActive (mg_interface mg)"
    and "syncFunction (fst (build_message g mg)) = Inl e"
  shows "snd (syncWithDevice g syncFunction mg) = SyncFailed e \<and>
    setter_cmds g' (fst (syncWithDevice g syncFunction mg)) = []"
proof -
  let ?rm = "if_requests (mg_interface mg)"
  have s: "al_sorted ?rm" using assms(1) by (simp add: manager_ok_def iface_ok_def requests_ok_def)
  obtain d1 mg1 where d1: "generateDifferentialRequests g False mg = (d1, mg1)" by fastforce
  note l1 = generateDifferential_lookup [OF s d1]
  define mg2 where "mg2 = mg1\<lparr>mg_counter := mg_counter mg + 1\<rparr>"
  have sync: "syncWithDevice g syncFunction mg = (mg2, SyncFailed e)"
    using assms(3,4) build_message_eq [OF assms(1,2)] d1
    by (simp add: syncWithDevice_def mg2_def)
  obtain d2 mg3 where d2: "generateDifferentialRequests g' False mg2 = (d2, mg3)" by fastforce
  have rm2: "if_requests (mg_interface mg2) = ?rm" by (simp add: mg2_def l1(4))
  note l2 = generateDifferential_lookup [OF s [folded rm2] d2]
  have eq: "dh_equals (dh_assign x d) d" if "map_of ?rm k = Some d" for k d x
    using that assms(1) unfolding manager_ok_def iface_ok_def
    by (metis dh_carries_def dh_equals_assign requests_ok_lookup)
  have "mg_previousRequests mg2 = mg_previousRequests mg1" by (simp add: mg2_def)
  then have "map_of d2 k = None" for k
    using eq by (auto simp: l2(1) rm2 l1(2) unchanged_def split: option.splits)
  then have "d2 = []" by (metis ext map_of_eq_empty_iff)
  then have "setter_cmds g' mg2 = []"
    using d2 assms(3) by (simp add: setter_cmds_def mg2_def l1(4) sort_requests_def)
  with sync show ?thesis by simp
qed

lemma failed_exchange_loses_settings_witness:
  "\<exists>mg. manager_ok mg \<and> setter_cmds (replicate 40 0) mg \<noteq> [] \<and>
     setter_cmds [] (fst (syncWithDevice (replicate 40 0) (\<lambda>_. Inl (SendStatus (- 4))) mg)) = []"
proof (intro exI conjI)
  let ?i = "(iface_init (\<lambda>_. replicate 40 1))\<lparr>if_killSwitchActive := False\<rparr>"
  let ?mg = "manager_init ?i"
  show ok: "manager_ok ?mg"
    using iface_ok_init [of "\<lambda>_. replicate 40 1"]
    by (simp add: manager_ok_def manager_init_def mem_ok_def DATAHOLDER_MAX_DATA_SIZE_def)
  show "setter_cmds [] (fst (syncWithDevice (replicate 40 0) (\<lambda>_. Inl (SendStatus (- 4))) ?mg)) = []"
    using failed_exchange_loses_settings [OF ok, of "replicate 40 0" "\<lambda>_. Inl (SendStatus (- 4))"]
    by (simp add: DATAHOLDER_MAX_DATA_SIZE_def manager_init_def)
  show "setter_cmds (replicate 40 0) ?mg \<noteq> []"
    by (simp add: setter_cmds_def generateDifferentialRequests_def manager_init_def iface_init_def
        setKillSwitch_def if_insert_def insertRequest_def KILLSWITCH_STRING_def diff_step_def
        sort_requests_def Let_def)
qed

text \<open>The getters rotate. In any four consecutive messages with the kill switch inactive, each
  motor is asked for twice and each joint and the general state of the arm once; every message asks
  for the bridge's state first; and the order in which responses are expected is the order of the
  getter commands in the message.\<close>

theorem getters_rotate:
  "mset (concat (map (getter_cmds False) [n, n + 1, n + 2, n + 3])) =
     {#GetState, GetState, GetState, GetState, MotorGet MOTOR1, MotorGet MOTOR1, MotorGet MOTOR2,
       MotorGet MOTOR2, ArmGet ELBOW, ArmGet GRIPPER, ArmGet SHOULDER, ArmGetGeneral#} \<and>
   generateGetRequests ks n =
     ((encode_cmds (getter_cmds ks n), map cmd_request (getter_cmds ks n)), if ks then n else n + 1) \<and>
   hd (getter_cmds ks n) = GetState"
proof -
  have "n mod 4 = 0 \<or> n mod 4 = 1 \<or> n mod 4 = 2 \<or> n mod 4 = 3" by presburger
  then have "mset (concat (map (getter_cmds False) [n, n + 1, n + 2, n + 3])) =
     {#GetState, GetState, GetState, GetState, MotorGet MOTOR1, MotorGet MOTOR1, MotorGet MOTOR2,
       MotorGet MOTOR2, ArmGet ELBOW, ArmGet GRIPPER, ArmGet SHOULDER, ArmGetGeneral#}"
  proof (elim disjE)
    assume "n mod 4 = 0"
    then have "n mod 2 = 0" "(n + 1) mod 2 = 1" "(n + 2) mod 2 = 0" "(n + 3) mod 2 = 1"
      "(n + 1) mod 4 = 1" "(n + 2) mod 4 = 2" "(n + 3) mod 4 = 3" by presburger+
    with \<open>n mod 4 = 0\<close> show ?thesis by (simp add: getter_cmds_def)
  next
    assume "n mod 4 = 1"
    then have "n mod 2 = 1" "(n + 1) mod 2 = 0" "(n + 2) mod 2 = 1" "(n + 3) mod 2 = 0"
      "(n + 1) mod 4 = 2" "(n + 2) mod 4 = 3" "(n + 3) mod 4 = 0" by presburger+
    with \<open>n mod 4 = 1\<close> show ?thesis by (simp add: getter_cmds_def)
  next
    assume "n mod 4 = 2"
    then have "n mod 2 = 0" "(n + 1) mod 2 = 1" "(n + 2) mod 2 = 0" "(n + 3) mod 2 = 1"
      "(n + 1) mod 4 = 3" "(n + 2) mod 4 = 0" "(n + 3) mod 4 = 1" by presburger+
    with \<open>n mod 4 = 2\<close> show ?thesis by (simp add: getter_cmds_def)
  next
    assume "n mod 4 = 3"
    then have "n mod 2 = 1" "(n + 1) mod 2 = 0" "(n + 2) mod 2 = 1" "(n + 3) mod 2 = 0"
      "(n + 1) mod 4 = 0" "(n + 2) mod 4 = 1" "(n + 3) mod 4 = 2" by presburger+
    with \<open>n mod 4 = 3\<close> show ?thesis by (simp add: getter_cmds_def)
  qed
  then show ?thesis by (simp add: generateGetRequests_eq) (simp add: getter_cmds_def)
qed

end
