(* ===== verification/Bridge_Processor.thy ===== *)
theory Bridge_Processor
  imports Interface_Manager Request_Queuer
begin

text \<open>
  The processor of requests (\<open>server/control_server/src/BridgeProcessor.cpp\<close>): \<open>parseRequest\<close>, which
  turns a JSON document into calls of the interface's setters, \<open>createReport\<close>, \<open>process\<close> and the
  maintenance thread. The JSON reader is the one of \<open>Request_Queuer\<close>; the report is the tree given to
  the JSON writer. Each setter call finds its own uninitialised memory \<open>g n\<close>.
\<close>

section \<open>\<open>parseRequest\<close>\<close>

text \<open>
  What is being parsed into: the interface and the number of setter calls so far. A call ends
  normally (\<open>None\<close>) or by an exception: a \<open>runtime_error\<close>, or one of the reader's exceptions
  (\<open>parse_error\<close>, \<open>bad_value_cast\<close>), which are not derived from it.
\<close>

datatype thrown = Runtime_Error | Json_Error

type_synonym parsing = "iface \<times> nat"

definition call_setter :: "(nat \<Rightarrow> mem) \<Rightarrow> (mem \<Rightarrow> iface \<Rightarrow> iface) \<Rightarrow> parsing \<Rightarrow> parsing \<times> thrown option" where
  "call_setter g f s = (case s of (i, n) \<Rightarrow> ((f (g n) i, n + 1), None))"

text \<open>
  \<open>minijson::parse_object\<close> on the value of a field, with the handler of its fields, and
  \<open>minijson::ignore\<close>. A value of another kind, or the end of an incomplete object, is an exception.
\<close>

fun parse_fields ::
    "(string \<Rightarrow> 'v json \<Rightarrow> 's \<Rightarrow> 's \<times> thrown option) \<Rightarrow> (string \<times> 'v json) list \<Rightarrow> 's \<Rightarrow> 's \<times> thrown option" where
  "parse_fields h [] s = (s, None)"
| "parse_fields h ((k, v) # kvs) s =
     (case h k v s of
        (s, Some e) \<Rightarrow> (s, Some e)
      | (s, None) \<Rightarrow> parse_fields h kvs s)"

definition parse_object ::
    "(string \<Rightarrow> 'v json \<Rightarrow> 's \<Rightarrow> 's \<times> thrown option) \<Rightarrow> 'v json \<Rightarrow> 's \<Rightarrow> 's \<times> thrown option" where
  "parse_object h v s =
     (case v of
        JAtom a \<Rightarrow> (s, Some Json_Error)
      | JObject kvs whole \<Rightarrow>
          (case parse_fields h kvs s of
             (s, Some e) \<Rightarrow> (s, Some e)
           | (s, None) \<Rightarrow> (s, if whole then None else Some Json_Error)))"

definition ignore :: "'v json \<Rightarrow> 's \<Rightarrow> 's \<times> thrown option" where
  "ignore v s =
     (case v of
        JAtom a \<Rightarrow> (s, None)
      | JObject kvs whole \<Rightarrow> (s, if whole then None else Some Json_Error))"

text \<open>The value of a field as an integer, a boolean or a string, and what is done with it.\<close>

definition with_long where
  "with_long mj v f s = (case mj_long mj v of None \<Rightarrow> (s, Some Json_Error) | Some x \<Rightarrow> f (x :: int) s)"

definition with_bool where
  "with_bool mj v f s = (case mj_bool mj v of None \<Rightarrow> (s, Some Json_Error) | Some b \<Rightarrow> f (b :: bool) s)"

definition with_string where
  "with_string mj v f s = (case mj_string mj v of None \<Rightarrow> (s, Some Json_Error) | Some t \<Rightarrow> f (t :: string) s)"

definition with_direction where
  "with_direction t f s = (case stringToDirection t of None \<Rightarrow> (s, Some Runtime_Error) | Some d \<Rightarrow> f (d :: direction) s)"

text \<open>\<open>catch (runtime_error &e)\<close>: the error is logged.\<close>

definition catch_runtime :: "'s \<times> thrown option \<Rightarrow> 's \<times> thrown option" where
  "catch_runtime r = (case r of (s, Some Runtime_Error) \<Rightarrow> (s, None) | _ \<Rightarrow> r)"

text \<open>Handlers of one field. Integers are converted to \<open>unsigned int\<close>.\<close>

definition parse_motor ::
    "(nat \<Rightarrow> mem) \<Rightarrow> 'v minijson \<Rightarrow> motor_id \<Rightarrow> string \<Rightarrow> 'v json \<Rightarrow> parsing \<Rightarrow> parsing \<times> thrown option" where
  "parse_motor g mj m k v s = catch_runtime
     (if k = ''s'' then with_long mj v (\<lambda>x. call_setter g (\<lambda>g. motor_setSpeed g m (of_int x))) s
      else if k = ''d'' then
        with_string mj v (\<lambda>t. with_direction t (\<lambda>d. call_setter g (\<lambda>g. motor_setDirection g m d))) s
      else ignore v s)"

text \<open>\<open>directionSet\<close> is a variable of the handler, which runs once for each field.\<close>

definition parse_arm ::
    "(nat \<Rightarrow> mem) \<Rightarrow> 'v minijson \<Rightarrow> joint_id \<Rightarrow> string \<Rightarrow> 'v json \<Rightarrow> parsing \<Rightarrow> parsing \<times> thrown option" where
  "parse_arm g mj j k v s =
     (let directionSet = False in
      catch_runtime
        (if k = ''s'' then with_long mj v (\<lambda>x. call_setter g (\<lambda>g. joint_setSpeed g j (of_int x))) s
         else if k = ''d'' then
           with_string mj v (\<lambda>t. with_direction t (\<lambda>d. call_setter g (\<lambda>g. joint_setDirection g j d))) s
         else if k = ''p'' then
           (if \<not> directionSet then with_long mj v (\<lambda>x. call_setter g (\<lambda>g. joint_setPosition g j (of_int x))) s
            else (s, None))
         else ignore v s))"

definition parse_motors ::
    "(nat \<Rightarrow> mem) \<Rightarrow> 'v minijson \<Rightarrow> string \<Rightarrow> 'v json \<Rightarrow> parsing \<Rightarrow> parsing \<times> thrown option" where
  "parse_motors g mj k v s =
     (if k = ''l'' then parse_object (parse_motor g mj M_LEFT) v s
      else if k = ''r'' then parse_object (parse_motor g mj M_RIGHT) v s
      else ignore v s)"

definition parse_joints ::
    "(nat \<Rightarrow> mem) \<Rightarrow> 'v minijson \<Rightarrow> string \<Rightarrow> 'v json \<Rightarrow> parsing \<Rightarrow> parsing \<times> thrown option" where
  "parse_joints g mj k v s =
     (if k = ''s'' then parse_object (parse_arm g mj J_SHOULDER) v s
      else if k = ''e'' then parse_object (parse_arm g mj J_ELBOW) v s
      else if k = ''g'' then parse_object (parse_arm g mj J_GRIPPER) v s
      else if k = ''b_cal'' then
        with_bool mj v (\<lambda>b s. if b then call_setter g arm_calibrate s else (s, None)) s
      else ignore v s)"

definition parse_expander ::
    "(nat \<Rightarrow> mem) \<Rightarrow> 'v minijson \<Rightarrow> string \<Rightarrow> 'v json \<Rightarrow> parsing \<Rightarrow> parsing \<times> thrown option" where
  "parse_expander g mj k v s =
     (if k = ''r'' then with_bool mj v (\<lambda>b. call_setter g (\<lambda>g. expander_setEnabled g LIGHT_RIGHT b)) s
      else if k = ''l'' then with_bool mj v (\<lambda>b. call_setter g (\<lambda>g. expander_setEnabled g LIGHT_LEFT b)) s
      else if k = ''cam'' then with_bool mj v (\<lambda>b. call_setter g (\<lambda>g. expander_setEnabled g LIGHT_CAMERA b)) s
      else ignore v s)"

definition parse_top ::
    "(nat \<Rightarrow> mem) \<Rightarrow> 'v minijson \<Rightarrow> string \<Rightarrow> 'v json \<Rightarrow> parsing \<Rightarrow> parsing \<times> thrown option" where
  "parse_top g mj k v s =
     (if k = ''lcd'' then with_string mj v (\<lambda>t. call_setter g (\<lambda>g. setLCDText g t)) s
      else if k = ''ks_en'' then with_bool mj v (\<lambda>b. call_setter g (\<lambda>g. setKillSwitch g b)) s
      else if k = ''m'' then parse_object (parse_motors g mj) v s
      else if k = ''a'' then parse_object (parse_joints g mj) v s
      else if k = ''e'' then parse_object (parse_expander g mj) v s
      else ignore v s)"

definition parseRequest :: "(nat \<Rightarrow> mem) \<Rightarrow> 'v minijson \<Rightarrow> string \<Rightarrow> iface \<Rightarrow> iface \<times> thrown option" where
  "parseRequest g mj request i =
     (let (kvs, whole) = mj_parse mj request;
          ((i, n), e) = parse_object (parse_top g mj) (JObject kvs whole) (i, 0)
      in (i, e))"

section \<open>\<open>createReport\<close>\<close>

text \<open>What is given to the JSON writer.\<close>

datatype report =
    R_Bool bool
  | R_Int nat
  | R_Long int
  | R_Double rat
  | R_String string
  | R_Object "(string \<times> report) list"
  | R_Array "report list"

definition report_expander :: "iface \<Rightarrow> report" where
  "report_expander i =
     (let fillExpander = (\<lambda>name d. (name, R_Bool (expander_isEnabled d i)))
      in R_Object [fillExpander ''r'' LIGHT_RIGHT, fillExpander ''l'' LIGHT_LEFT, fillExpander ''cam'' LIGHT_CAMERA])"

definition report_motors :: "iface \<Rightarrow> report" where
  "report_motors i =
     (let fillMotor = (\<lambda>name m. (name,
            R_Object [(''s'', R_Int (unat (sm_programmedSpeed (if_motors i m)))),
              (''d'', R_String (directionToString (sm_direction (if_motors i m))))]))
      in R_Object [fillMotor ''l'' M_LEFT, fillMotor ''r'' M_RIGHT])"

definition report_arm :: "iface \<Rightarrow> report" where
  "report_arm i =
     (let fillArm = (\<lambda>name j. (name,
            R_Object [(''s'', R_Int (unat (sj_speed (if_joints i j)))), (''p'', R_Int (unat (sj_position (if_joints i j)))),
              (''d'', R_String (directionToString (sj_direction (if_joints i j))))]))
      in R_Object [fillArm ''s'' J_SHOULDER, fillArm ''e'' J_ELBOW, fillArm ''g'' J_GRIPPER,
           (''cal_st'', R_String (armCalibrationStatusToString (if_calibrationStatus i))),
           (''mode'', R_String (armDriverModeToString (if_mode i)))])"

definition report_buttons :: "iface \<Rightarrow> report" where
  "report_buttons i =
     (let fillButtons = (\<lambda>name d. if isButtonPressed d i then [R_String name] else [])
      in R_Array (fillButtons ''u'' UP @ fillButtons ''d'' DOWN @ fillButtons ''e'' ENTER))"

definition report_killswitch :: "iface \<Rightarrow> report" where
  "report_killswitch i =
     (if if_killSwitchActive i
      then if if_killSwitchCausedByHardware i then R_String ''hardware'' else R_String ''software''
      else R_String ''inactive'')"

definition createReport :: "iface \<Rightarrow> (string \<times> report) list" where
  "createReport i =
     [(''e'', report_expander i), (''m'', report_motors i), (''a'', report_arm i), (''btn'', report_buttons i),
      (''b'', R_Object [(''u'', R_Double (getVoltage i)), (''i'', R_Double (getCurrent i))]),
      (''ks_stat'', report_killswitch i)]"

section \<open>\<open>process\<close> and the maintenance thread\<close>

text \<open>Times are in milliseconds.\<close>

record processor =
  bp_manager :: manager
  bp_lastProcessFunctionExecution :: int
  bp_finishCycleThread :: bool
  bp_firstMaintenanceTask :: bool

definition processor_init :: "manager \<Rightarrow> int \<Rightarrow> processor" where
  "processor_init mg now =
     \<lparr>bp_manager = mg, bp_lastProcessFunctionExecution = now, bp_finishCycleThread = False, bp_firstMaintenanceTask = True\<rparr>"

definition TIMEOUT :: int where "TIMEOUT = 25"

text \<open>How \<open>process\<close> and the maintenance task end: with a report (the task: without), or by the
  exception of the parser, of the exchange or of the reading of the response.\<close>

datatype process_end = Reported "(string \<times> report) list" | ParseThrew thrown | SyncThrew sync_end

definition sync_manager ::
    "u8 list \<Rightarrow> (u8 list \<Rightarrow> comm_exception + u8 list) \<Rightarrow> processor \<Rightarrow> processor \<times> sync_end" where
  "sync_manager memory exchange s =
     (let (mg, e) = syncWithDevice memory exchange (bp_manager s) in (s\<lparr>bp_manager := mg\<rparr>, e))"

definition process ::
    "(nat \<Rightarrow> mem) \<Rightarrow> 'v minijson \<Rightarrow> u8 list \<Rightarrow> (u8 list \<Rightarrow> comm_exception + u8 list) \<Rightarrow> int \<Rightarrow> 'ip request \<Rightarrow> processor \<Rightarrow>
       processor \<times> process_end" where
  "process g mj memory exchange now request s =
     (let s = s\<lparr>bp_firstMaintenanceTask := True\<rparr>;
          (i, e) = parseRequest g mj (rq_reqJson request) (mg_interface (bp_manager s));
          s = s\<lparr>bp_manager := (bp_manager s)\<lparr>mg_interface := i\<rparr>\<rparr>
      in case e of
           Some e \<Rightarrow> (s, ParseThrew e)
         | None \<Rightarrow>
             (case sync_manager memory exchange s of
                (s, SyncDone UpdateOk) \<Rightarrow>
                  (s\<lparr>bp_lastProcessFunctionExecution := now\<rparr>, Reported (createReport (mg_interface (bp_manager s))))
              | (s, e) \<Rightarrow> (s, SyncThrew e)))"

text \<open>One round of the maintenance thread after its sleep; \<open>None\<close> when it does nothing.\<close>

definition maintenance ::
    "u8 list \<Rightarrow> (u8 list \<Rightarrow> comm_exception + u8 list) \<Rightarrow> int \<Rightarrow> processor \<Rightarrow> processor \<times> sync_end option" where
  "maintenance memory exchange now s =
     (if bp_finishCycleThread s then (s, None)
      else if now - bp_lastProcessFunctionExecution s < TIMEOUT then (s, None)
      else
        (let s = (if bp_firstMaintenanceTask s then s\<lparr>bp_firstMaintenanceTask := False\<rparr> else s);
             (s, e) = sync_manager memory exchange s
         in (s, Some e)))"

section \<open>The reference: a schema of requests\<close>

text \<open>
  What the fields of a request mean, as a table: a value of the given kind stands for operations of
  the interface, an object is described by a table of its own. Other fields are ignored.
\<close>

datatype slot =
    Int_Slot "int \<Rightarrow> iface_op list"
  | Bool_Slot "bool \<Rightarrow> iface_op list"
  | Text_Slot "string \<Rightarrow> iface_op list"
  | Object_Slot "(string \<times> slot) list"

definition direction_ops :: "(direction \<Rightarrow> iface_op) \<Rightarrow> string \<Rightarrow> iface_op list" where
  "direction_ops f t = (case stringToDirection t of None \<Rightarrow> [] | Some d \<Rightarrow> [f d])"

definition motor_schema :: "motor_id \<Rightarrow> (string \<times> slot) list" where
  "motor_schema m = [(''s'', Int_Slot (\<lambda>x. [Op_MotorSpeed m (of_int x)])), (''d'', Text_Slot (direction_ops (Op_MotorDirection m)))]"

definition joint_schema :: "joint_id \<Rightarrow> (string \<times> slot) list" where
  "joint_schema j = [(''s'', Int_Slot (\<lambda>x. [Op_JointSpeed j (of_int x)])), (''d'', Text_Slot (direction_ops (Op_JointDirection j))),
     (''p'', Int_Slot (\<lambda>x. [Op_JointPosition j (of_int x)]))]"

definition motors_schema :: "(string \<times> slot) list" where
  "motors_schema = [(''l'', Object_Slot (motor_schema M_LEFT)), (''r'', Object_Slot (motor_schema M_RIGHT))]"

definition joints_schema :: "(string \<times> slot) list" where
  "joints_schema = [(''s'', Object_Slot (joint_schema J_SHOULDER)), (''e'', Object_Slot (joint_schema J_ELBOW)),
     (''g'', Object_Slot (joint_schema J_GRIPPER)), (''b_cal'', Bool_Slot (\<lambda>b. if b then [Op_ArmCalibrate] else []))]"

definition expander_schema :: "(string \<times> slot) list" where
  "expander_schema = [(''r'', Bool_Slot (\<lambda>b. [Op_Expander LIGHT_RIGHT b])), (''l'', Bool_Slot (\<lambda>b. [Op_Expander LIGHT_LEFT b])),
     (''cam'', Bool_Slot (\<lambda>b. [Op_Expander LIGHT_CAMERA b]))]"

definition request_schema :: "(string \<times> slot) list" where
  "request_schema = [(''lcd'', Text_Slot (\<lambda>t. [Op_LCDText t])), (''ks_en'', Bool_Slot (\<lambda>b. [Op_KillSwitch b])),
     (''m'', Object_Slot motors_schema), (''a'', Object_Slot joints_schema), (''e'', Object_Slot expander_schema)]"

text \<open>The operations a document stands for, in its order; \<open>None\<close> when a value has the wrong kind.\<close>

fun fields_ops :: "(string \<Rightarrow> 'v json \<Rightarrow> iface_op list option) \<Rightarrow> (string \<times> 'v json) list \<Rightarrow> iface_op list option" where
  "fields_ops f [] = Some []"
| "fields_ops f ((k, v) # kvs) = Option.bind (f k v) (\<lambda>ops. map_option ((@) ops) (fields_ops f kvs))"

fun object_ops :: "(string \<Rightarrow> 'v json \<Rightarrow> iface_op list option) \<Rightarrow> 'v json \<Rightarrow> iface_op list option" where
  "object_ops f (JAtom a) = None"
| "object_ops f (JObject kvs whole) = (if whole then fields_ops f kvs else None)"

fun ignored_ops :: "'v json \<Rightarrow> iface_op list option" where
  "ignored_ops (JAtom a) = Some []"
| "ignored_ops (JObject kvs whole) = (if whole then Some [] else None)"

primrec slot_ops :: "'v minijson \<Rightarrow> slot \<Rightarrow> 'v json \<Rightarrow> iface_op list option" where
  "slot_ops mj (Int_Slot f) v = map_option f (mj_long mj v)"
| "slot_ops mj (Bool_Slot f) v = map_option f (mj_bool mj v)"
| "slot_ops mj (Text_Slot f) v = map_option f (mj_string mj v)"
| "slot_ops mj (Object_Slot sch) v =
     object_ops (\<lambda>k v. case map_of (map (map_prod id (slot_ops mj)) sch) k of None \<Rightarrow> ignored_ops v | Some f \<Rightarrow> f v) v"

definition schema_ops :: "'v minijson \<Rightarrow> (string \<times> slot) list \<Rightarrow> string \<Rightarrow> 'v json \<Rightarrow> iface_op list option" where
  "schema_ops mj sch k v = (case map_of sch k of None \<Rightarrow> ignored_ops v | Some sl \<Rightarrow> slot_ops mj sl v)"

definition request_ops :: "'v minijson \<Rightarrow> string \<Rightarrow> iface_op list option" where
  "request_ops mj request =
     (let (kvs, whole) = mj_parse mj request in object_ops (schema_ops mj request_schema) (JObject kvs whole))"

lemma slot_ops_object: "slot_ops mj (Object_Slot sch) v = object_ops (schema_ops mj sch) v"
proof -
  have "map_of (map (map_prod id (slot_ops mj)) sch) k = map_option (slot_ops mj) (map_of sch k)" for k
    by (induction sch) auto
  then have "(\<lambda>k v. case map_of (map (map_prod id (slot_ops mj)) sch) k of None \<Rightarrow> ignored_ops v | Some f \<Rightarrow> f v) = schema_ops mj sch"
    by (auto simp: schema_ops_def fun_eq_iff split: option.split)
  then show ?thesis by simp
qed

text \<open>Operations in sequence, each with the memory it finds.\<close>

fun perform :: "(nat \<Rightarrow> mem) \<Rightarrow> iface_op list \<Rightarrow> parsing \<Rightarrow> parsing" where
  "perform g [] s = s"
| "perform g (op # ops) (i, n) = perform g ops (iface_apply (g n) op i, n + 1)"

lemma perform_append: "perform g (xs @ ys) s = perform g ys (perform g xs s)"
  by (induction g xs s rule: perform.induct) simp_all

lemma perform_run:
  "perform g ops (i, n) = (iface_run (zip (map g [n ..< n + length ops]) ops) i, n + length ops)"
  by (induction ops arbitrary: i n) (simp_all add: upt_rec)

section \<open>The handlers follow the schema\<close>

text \<open>The contract of a handler of fields: it performs what the field stands for, or throws.\<close>

locale field_handler =
  fixes g :: "nat \<Rightarrow> mem" and handler :: "string \<Rightarrow> 'v json \<Rightarrow> parsing \<Rightarrow> parsing \<times> thrown option"
    and ops :: "string \<Rightarrow> 'v json \<Rightarrow> iface_op list option"
  assumes follows: "ops k v = Some os \<Longrightarrow> handler k v s = (perform g os s, None)"
    and throws: "ops k v = None \<Longrightarrow> snd (handler k v s) \<noteq> None"
begin

lemma fields_follow: "fields_ops ops kvs = Some os \<Longrightarrow> parse_fields handler kvs s = (perform g os s, None)"
proof (induction kvs arbitrary: s os)
  case (Cons kv kvs)
  obtain k v where kv: "kv = (k, v)" by fastforce
  from Cons.prems obtain os1 os2 where os: "ops k v = Some os1" "fields_ops ops kvs = Some os2" "os = os1 @ os2"
    by (auto simp: kv bind_eq_Some_conv)
  show ?case by (simp add: kv follows [OF os(1)] Cons.IH [OF os(2)] os(3) perform_append)
qed simp

lemma fields_throw: "fields_ops ops kvs = None \<Longrightarrow> snd (parse_fields handler kvs s) \<noteq> None"
proof (induction kvs arbitrary: s)
  case (Cons kv kvs)
  obtain k v where kv: "kv = (k, v)" by fastforce
  show ?case
  proof (cases "ops k v")
    case None
    then show ?thesis using throws [of k v s] by (auto simp: kv split: prod.split option.split)
  next
    case (Some os1)
    then have "fields_ops ops kvs = None" using Cons.prems by (simp add: kv)
    then show ?thesis using Cons.IH by (simp add: kv follows [OF Some])
  qed
qed simp

lemma object_follows: "object_ops ops v = Some os \<Longrightarrow> parse_object handler v s = (perform g os s, None)"
  by (cases v) (auto simp: parse_object_def fields_follow split: if_splits)

lemma object_throws: "object_ops ops v = None \<Longrightarrow> snd (parse_object handler v s) \<noteq> None"
proof (cases v)
  case (JObject kvs whole)
  assume none: "object_ops ops v = None"
  show ?thesis
  proof (cases "fields_ops ops kvs")
    case None
    then show ?thesis using fields_throw [of kvs s] by (auto simp: JObject parse_object_def split: prod.split option.split)
  next
    case (Some os)
    then show ?thesis using none fields_follow [OF Some] by (simp add: JObject parse_object_def split: if_splits)
  qed
qed (simp add: parse_object_def)

end

lemma ignore_follows: "ignored_ops v = Some os \<Longrightarrow> ignore v s = (perform g os s, None)"
  by (cases v) (auto simp: ignore_def split: if_splits)

lemma ignore_throws: "ignored_ops v = None \<Longrightarrow> snd (ignore v s) \<noteq> None"
  by (cases v) (auto simp: ignore_def split: if_splits)

lemmas value_readers = with_long_def with_bool_def with_string_def with_direction_def call_setter_def

lemma catch_runtime_simps [simp]:
  "catch_runtime (s, None) = (s, None)" "catch_runtime (s, Some Runtime_Error) = (s, None)"
  "catch_runtime (s, Some Json_Error) = (s, Some Json_Error)"
  by (simp_all add: catch_runtime_def)

lemma catch_ignore: "catch_runtime (ignore v s) = ignore v s"
  by (cases v) (simp_all add: catch_runtime_def ignore_def)

interpretation motor_fields: field_handler g "parse_motor g mj m" "schema_ops mj (motor_schema m)" for g mj m
proof (unfold_locales, goal_cases)
  case (1 k v os s)
  then show ?case
    by (cases s) (auto simp: parse_motor_def schema_ops_def motor_schema_def direction_ops_def catch_ignore ignore_follows value_readers
        split: if_splits option.splits)
next
  case (2 k v s)
  then show ?case
    by (auto simp: parse_motor_def schema_ops_def motor_schema_def direction_ops_def catch_ignore ignore_throws with_long_def with_string_def
        simp del: not_None_eq split: if_splits)
qed

interpretation joint_fields: field_handler g "parse_arm g mj j" "schema_ops mj (joint_schema j)" for g mj j
proof (unfold_locales, goal_cases)
  case (1 k v os s)
  then show ?case
    by (cases s) (auto simp: parse_arm_def schema_ops_def joint_schema_def direction_ops_def catch_ignore ignore_follows value_readers
        split: if_splits option.splits)
next
  case (2 k v s)
  then show ?case
    by (auto simp: parse_arm_def schema_ops_def joint_schema_def direction_ops_def catch_ignore ignore_throws with_long_def with_string_def
        simp del: not_None_eq split: if_splits)
qed

interpretation motors_fields: field_handler g "parse_motors g mj" "schema_ops mj motors_schema" for g mj
proof (unfold_locales, goal_cases)
  case (1 k v os s)
  then show ?case
    by (auto simp: parse_motors_def schema_ops_def motors_schema_def slot_ops_object motor_fields.object_follows ignore_follows
        simp del: slot_ops.simps(4) split: if_splits)
next
  case (2 k v s)
  then show ?case
    by (auto simp: parse_motors_def schema_ops_def motors_schema_def slot_ops_object motor_fields.object_throws ignore_throws
        simp del: slot_ops.simps(4) not_None_eq split: if_splits)
qed

interpretation joints_fields: field_handler g "parse_joints g mj" "schema_ops mj joints_schema" for g mj
proof (unfold_locales, goal_cases)
  case (1 k v os s)
  then show ?case
    by (cases s) (auto simp: parse_joints_def schema_ops_def joints_schema_def slot_ops_object joint_fields.object_follows ignore_follows
        value_readers simp del: slot_ops.simps(4) split: if_splits)
next
  case (2 k v s)
  then show ?case
    by (auto simp: parse_joints_def schema_ops_def joints_schema_def slot_ops_object joint_fields.object_throws ignore_throws with_bool_def
        simp del: slot_ops.simps(4) not_None_eq split: if_splits)
qed

interpretation expander_fields: field_handler g "parse_expander g mj" "schema_ops mj expander_schema" for g mj
proof (unfold_locales, goal_cases)
  case (1 k v os s)
  then show ?case
    by (cases s) (auto simp: parse_expander_def schema_ops_def expander_schema_def ignore_follows value_readers split: if_splits)
next
  case (2 k v s)
  then show ?case
    by (auto simp: parse_expander_def schema_ops_def expander_schema_def ignore_throws with_bool_def simp del: not_None_eq split: if_splits)
qed

interpretation top_fields: field_handler g "parse_top g mj" "schema_ops mj request_schema" for g mj
proof (unfold_locales, goal_cases)
  case (1 k v os s)
  then show ?case
    by (cases s) (auto simp: parse_top_def schema_ops_def request_schema_def slot_ops_object motors_fields.object_follows
        joints_fields.object_follows expander_fields.object_follows ignore_follows value_readers simp del: slot_ops.simps(4) split: if_splits)
next
  case (2 k v s)
  then show ?case
    by (auto simp: parse_top_def schema_ops_def request_schema_def slot_ops_object motors_fields.object_throws
        joints_fields.object_throws expander_fields.object_throws ignore_throws with_bool_def with_string_def
        simp del: slot_ops.simps(4) not_None_eq split: if_splits)
qed

text \<open>\<open>parseRequest\<close> as a whole.\<close>

lemma parse_ops: "request_ops mj request = Some ops \<Longrightarrow> fst (perform g ops (i, 0)) = i' \<Longrightarrow> parseRequest g mj request i = (i', None)"
proof -
  assume ops: "request_ops mj request = Some ops" and i': "fst (perform g ops (i, 0)) = i'"
  obtain kvs whole where doc: "mj_parse mj request = (kvs, whole)" by fastforce
  have "parse_object (parse_top g mj) (JObject kvs whole) (i, 0) = (perform g ops (i, 0), None)"
    using ops doc by (intro top_fields.object_follows) (simp add: request_ops_def)
  then show ?thesis using i' by (simp add: parseRequest_def doc case_prod_beta)
qed

lemma parse_throws: "request_ops mj request = None \<Longrightarrow> snd (parseRequest g mj request i) \<noteq> None"
proof -
  assume none: "request_ops mj request = None"
  obtain kvs whole where doc: "mj_parse mj request = (kvs, whole)" by fastforce
  have "snd (parse_object (parse_top g mj) (JObject kvs whole) (i, 0)) \<noteq> None"
    using none doc by (intro top_fields.object_throws) (simp add: request_ops_def)
  then show ?thesis by (simp add: parseRequest_def doc case_prod_beta)
qed

section \<open>Properties\<close>

text \<open>C8: The parser against the schema. On every document whose values have the kinds the schema asks for,
  \<open>parseRequest\<close> ends normally and has called exactly the setters the document stands for, in the
  document's order; an unknown direction is skipped. On every other document it throws.\<close>

theorem parseRequest_follows_schema:
  "case request_ops mj request of
     Some ops \<Rightarrow> parseRequest g mj request i = (iface_run (zip (map g [0 ..< length ops]) ops) i, None)
   | None \<Rightarrow> snd (parseRequest g mj request i) \<noteq> None"
  by (cases "request_ops mj request") (simp_all add: parse_throws parse_ops perform_run)

text \<open>A value of the report, by its path.\<close>

fun report_at :: "string list \<Rightarrow> report \<Rightarrow> report option" where
  "report_at [] r = Some r"
| "report_at (k # ks) (R_Object kvs) = Option.bind (map_of kvs k) (report_at ks)"
| "report_at (k # ks) r = None"

primrec motor_field :: "motor_id \<Rightarrow> string" where
  "motor_field M_LEFT = ''l''"
| "motor_field M_RIGHT = ''r''"

lemma direction_string: "stringToDirection (directionToString d) = Some d"
  by (cases d) (simp_all add: stringToDirection_def directionToString_def to_lower_char_def)

lemma build_message_interface: "mg_interface (snd (snd (build_message g mg))) = mg_interface mg"
  by (simp add: build_message_def generateDifferentialRequests_def Let_def case_prod_beta)

text \<open>What an exchange does to the speeds and directions commanded: the state of the bridge decides whether
  they stay, the answers of the drivers do not touch them.\<close>

definition commanded :: "iface \<Rightarrow> bool \<times> (motor_id \<Rightarrow> u8 \<times> direction)" where
  "commanded i = (if_killSwitchActive i, \<lambda>m. (sm_programmedSpeed (if_motors i m), sm_direction (if_motors i m)))"

lemma listener_other:
  assumes "listener_updateFields l req bytes i = Some (n, i')"
  shows "req \<noteq> BRIDGE_GET_STATE \<Longrightarrow> commanded i' = commanded i"
    and "req = BRIDGE_GET_STATE \<Longrightarrow> l \<noteq> L_Interface \<Longrightarrow> n = 0 \<and> i' = i"
  using assms
  by (auto simp: listener_updateFields_def interface_updateFields_def arm_updateFields_def expander_updateFields_def
      joint_updateFields_def motor_updateFields_def commanded_def upd_motor_def upd_joint_def Let_def fun_eq_iff
      split: listener.splits if_splits option.splits list.splits)

lemma dispatch_commanded:
  "dispatch_response ls req bytes i = Some (n, i') \<Longrightarrow> req \<noteq> BRIDGE_GET_STATE \<Longrightarrow> commanded i' = commanded i"
proof (induction ls arbitrary: i)
  case (Cons l ls)
  then obtain k u where l: "listener_updateFields l req bytes i = Some (k, u)" by (auto split: option.splits)
  then have "commanded u = commanded i" using Cons.prems(2) by (rule listener_other(1))
  then show ?case using Cons.IH [of u] Cons.prems by (auto simp: l split: if_splits)
qed simp

lemma update_loop_other:
  "BRIDGE_GET_STATE \<notin> set rs \<Longrightarrow> commanded (fst (update_loop rs resp pos i)) = commanded i"
proof (induction rs resp pos i rule: update_loop.induct)
  case (1 resp pos i)
  then show ?case by (simp split: option.split)
next
  case (2 r rs resp pos i)
  then have "commanded i' = commanded i" if "dispatch_response extDevListeners r (drop pos resp) i = Some (n, i')" for n i'
    using dispatch_commanded [OF that] by auto
  then show ?case using 2 by (auto split: option.split)
qed

lemma state_listener:
  assumes "interface_updateFields BRIDGE_GET_STATE bytes i = Some (n, i')"
  shows "commanded i' = (if if_killSwitchActive i' then (True, \<lambda>m. (0, STOP)) else (False, snd (commanded i)))" and "n = 9"
  using assms
  by (auto simp: interface_updateFields_def updateStructs_eq stop_all_def commanded_def sm_init_def Let_def split: option.splits if_splits)

lemma sync_commanded:
  assumes "sync_manager memory exchange s = (t, SyncDone UpdateOk)"
  defines "i \<equiv> mg_interface (bp_manager s)" and "i' \<equiv> mg_interface (bp_manager t)"
  shows "commanded i' = (if if_killSwitchActive i' then (True, \<lambda>m. (0, STOP)) else (False, snd (commanded i)))"
proof -
  obtain msg order mg where build: "build_message memory (bp_manager s) = (msg, order, mg)" by (metis prod_cases3)
  have mg: "mg_interface mg = i" using build_message_interface [of memory "bp_manager s"] by (simp add: build i_def)
  obtain rs where order: "order = BRIDGE_GET_STATE # rs" "BRIDGE_GET_STATE \<notin> set rs"
    using build by (auto simp: build_message_def generateGetRequests_def Let_def split: prod.splits if_splits)
  obtain response where sync: "update_loop order response 0 i = (i', UpdateOk)"
    using assms(1) by (auto simp: sync_manager_def syncWithDevice_def build updateDataStructures_def mg i'_def split: prod.splits sum.splits)
  then obtain n u where u: "interface_updateFields BRIDGE_GET_STATE response i = Some (n, u)"
    by (auto simp: order(1) extDevListeners_def listener_updateFields_def split: option.splits)
  have "update_loop rs response 9 u = (i', UpdateOk)"
    using sync u state_listener(2) [OF u] by (simp add: order(1) extDevListeners_def listener_updateFields_def)
  then have "commanded i' = commanded u" using update_loop_other [OF order(2), of response 9 u] by simp
  moreover from this have "if_killSwitchActive u = if_killSwitchActive i'" by (simp add: commanded_def)
  ultimately show ?thesis using state_listener(1) [OF u] by simp
qed

text \<open>C10: What a client sets is what it is told, unless the kill switch is active. When a request that sets
  speed and direction of a motor has been processed, the exchange with the device included, the
  report names this direction and the speed, converted to 32 bits without sign and cut to 11, if it
  calls the kill switch inactive, and otherwise \<open>stop\<close> and 0, whatever the device answered. A negative
  number therefore means full speed.\<close>

theorem report_echoes_motor_request:
  fixes mj :: "'v minijson" and x :: int and g :: "nat \<Rightarrow> mem" and rq :: "'ip request" and s :: processor
  assumes "mj_parse mj (rq_reqJson rq) =
      ([(''m'', JObject [(motor_field m, JObject [(''s'', speed), (''d'', dir)] True)] True)], True)"
    and "mj_long mj speed = Some x" and "mj_string mj dir = Some (directionToString d)"
    and "snd (process g mj memory exchange now rq s) = Reported r"
  defines "on \<equiv> report_at [''ks_stat''] (R_Object r) = Some (R_String ''inactive'')"
  shows "report_at [''m'', motor_field m, ''s''] (R_Object r) = Some (R_Int (if on then min (nat (x mod 2 ^ 32)) 11 else 0)) \<and>
    report_at [''m'', motor_field m, ''d''] (R_Object r) = Some (R_String (directionToString (if on then d else STOP)))"
proof -
  define i where "i = mg_interface (bp_manager s)"
  have ops: "request_ops mj (rq_reqJson rq) = Some [Op_MotorSpeed m (of_int x), Op_MotorDirection m d]"
    using assms(1-3)
    by (cases m) (simp_all add: request_ops_def schema_ops_def request_schema_def motors_schema_def motor_schema_def slot_ops_object
        direction_ops_def direction_string del: slot_ops.simps(4))
  define i' where "i' = motor_setDirection (g 1) m d (motor_setSpeed (g 0) m (of_int x) i)"
  have parsed: "parseRequest g mj (rq_reqJson rq) i = (i', None)" by (rule parse_ops [OF ops]) (simp add: i'_def)
  define t where "t = s\<lparr>bp_firstMaintenanceTask := True, bp_manager := (bp_manager s)\<lparr>mg_interface := i'\<rparr>\<rparr>"
  obtain u where u: "sync_manager memory exchange t = (u, SyncDone UpdateOk)" "r = createReport (mg_interface (bp_manager u))"
    using assms(4) by (auto simp: process_def parsed [unfolded i_def] t_def Let_def split: prod.splits sync_end.splits update_end.splits)
  have word: "unat (of_int x :: 32 word) = nat (x mod 2 ^ 32)"
    by (simp add: unat_eq_nat_uint uint_word_of_int)
  have "unat (sm_programmedSpeed (if_motors i' m)) = min (nat (x mod 2 ^ 32)) 11"
    using word by (auto simp: i'_def motor_setDirection_def motor_setSpeed_def createMotorState_def MOTOR_DRIVER_MAX_SPEED_def Let_def
        word_le_nat_alt unsigned_ucast_eq take_bit_eq_mod min_def)
  moreover have "sm_direction (if_motors i' m) = d"
    by (simp add: i'_def motor_setDirection_def createMotorState_def Let_def)
  moreover have "on \<longleftrightarrow> \<not> if_killSwitchActive (mg_interface (bp_manager u))"
    by (simp add: on_def u(2) createReport_def report_killswitch_def)
  moreover have "mg_interface (bp_manager t) = i'" by (simp add: t_def)
  ultimately show ?thesis
    using sync_commanded [OF u(1)]
    by (cases m; cases on) (simp_all add: u(2) createReport_def report_motors_def commanded_def fun_eq_iff)
qed

text \<open>A position is not ignored after a direction. \<open>directionSet\<close> is meant to let the direction of a joint
  win over a position in the same request; it is a new variable for every field, so the later of the
  two fields decides.\<close>

theorem later_field_decides:
  fixes mj :: "'v minijson" and x :: int and g :: "nat \<Rightarrow> mem" and i :: iface and j :: joint_id and n :: nat
  assumes "if_calibrationStatus i \<noteq> CAL_IN_PROGRESS"
    and "mj_long mj pos = Some x" and "mj_string mj dir = Some (directionToString d)"
  defines "parsed kvs \<equiv> fst (fst (parse_object (parse_arm g mj j) (JObject kvs True) (i, n)))"
  shows "sj_settingPosition (if_joints (parsed [(''d'', dir), (''p'', pos)]) j) \<and>
    \<not> sj_settingPosition (if_joints (parsed [(''p'', pos), (''d'', dir)]) j)"
proof -
  have ops: "object_ops (schema_ops mj (joint_schema j)) (JObject [(''d'', dir), (''p'', pos)] True) =
      Some [Op_JointDirection j d, Op_JointPosition j (of_int x)]"
    "object_ops (schema_ops mj (joint_schema j)) (JObject [(''p'', pos), (''d'', dir)] True) =
      Some [Op_JointPosition j (of_int x), Op_JointDirection j d]"
    using assms(2,3) by (simp_all add: schema_ops_def joint_schema_def direction_ops_def direction_string)
  have insert: "if_joints (if_insert a b c k) = if_joints k" "if_calibrationStatus (if_insert a b c k) = if_calibrationStatus k"
    for a b c k by (simp_all add: if_insert_def)
  show ?thesis
    using assms(1)
    by (simp add: parsed_def joint_fields.object_follows [OF ops(1)] joint_fields.object_follows [OF ops(2)] joint_setPosition_def
        joint_setDirection_def createJointState_def Let_def insert) (simp add: upd_joint_def)
qed

section \<open>Safety of the handlers\<close>

text \<open>Whatever the document, its beginning is applied by setters only, which keep the interface's invariant.\<close>

locale safe_handler =
  fixes g :: "nat \<Rightarrow> mem" and handler :: "string \<Rightarrow> 'v json \<Rightarrow> parsing \<Rightarrow> parsing \<times> thrown option"
  assumes keeps: "\<forall>n. mem_ok (g n) \<Longrightarrow> iface_ok (fst s) \<Longrightarrow> iface_ok (fst (fst (handler k v s)))"
begin

lemma fields_keep:
  assumes "\<forall>n. mem_ok (g n)" and "iface_ok (fst s)"
  shows "iface_ok (fst (fst (parse_fields handler kvs s)))"
  using assms(2)
proof (induction kvs arbitrary: s)
  case (Cons kv kvs)
  obtain k v where kv: "kv = (k, v)" by fastforce
  obtain t e where t: "handler k v s = (t, e)" by fastforce
  have "iface_ok (fst t)" using keeps [OF assms(1) Cons.prems, of k v] by (simp add: t)
  then show ?case using Cons.IH [of t] by (cases e) (simp_all add: kv t)
qed simp

lemma object_keeps:
  assumes "\<forall>n. mem_ok (g n)" and "iface_ok (fst s)"
  shows "iface_ok (fst (fst (parse_object handler v s)))"
proof (cases v)
  case (JObject kvs whole)
  obtain t e where "parse_fields handler kvs s = (t, e)" by fastforce
  then show ?thesis using fields_keep [OF assms, of kvs] by (cases e) (simp_all add: JObject parse_object_def)
qed (simp add: parse_object_def assms)

end

lemma ignore_keeps [simp]: "fst (ignore v s) = s"
  by (simp add: ignore_def split: json.split)

lemma catch_keeps [simp]: "fst (catch_runtime r) = fst r"
  by (simp add: catch_runtime_def split: prod.split option.split thrown.split)

lemmas handler_values = with_long_def with_bool_def with_string_def with_direction_def call_setter_def case_prod_beta

lemmas setters_keep = iface_ok_setters iface_ok_expander iface_ok_arm_addon iface_ok_setLCDText iface_ok_setKillSwitch

interpretation motor_safe: safe_handler g "parse_motor g mj m" for g mj m
  by unfold_locales (simp add: parse_motor_def handler_values setters_keep split: option.split)

interpretation joint_safe: safe_handler g "parse_arm g mj j" for g mj j
  by unfold_locales (simp add: parse_arm_def handler_values setters_keep split: option.split)

interpretation expander_safe: safe_handler g "parse_expander g mj" for g mj
  by unfold_locales (simp add: parse_expander_def handler_values setters_keep split: option.split)

interpretation motors_safe: safe_handler g "parse_motors g mj" for g mj
  by unfold_locales (simp add: parse_motors_def handler_values setters_keep motor_safe.object_keeps split: option.split)

interpretation joints_safe: safe_handler g "parse_joints g mj" for g mj
  by unfold_locales (simp add: parse_joints_def handler_values setters_keep joint_safe.object_keeps split: option.split)

interpretation top_safe: safe_handler g "parse_top g mj" for g mj
  by unfold_locales (simp add: parse_top_def handler_values setters_keep motors_safe.object_keeps joints_safe.object_keeps expander_safe.object_keeps split: option.split)

text \<open>The processor with its manager, in every state the two threads can reach.\<close>

lemma parseRequest_ok:
  assumes "\<forall>n. mem_ok (g n)" and "iface_ok i"
  shows "iface_ok (fst (parseRequest g mj request i))"
proof -
  obtain kvs whole where doc: "mj_parse mj request = (kvs, whole)" by fastforce
  have "iface_ok (fst (fst (parse_object (parse_top g mj) (JObject kvs whole) (i, 0))))"
    using assms by (intro top_safe.object_keeps) simp_all
  then show ?thesis by (simp add: parseRequest_def doc case_prod_beta)
qed

lemma syncWithDevice_ok: "manager_ok mg \<Longrightarrow> manager_ok (fst (syncWithDevice memory exchange mg))"
  using build_message_interface [of memory mg]
  by (simp add: syncWithDevice_def manager_ok_def case_prod_beta updateDataStructures_def iface_ok_update_loop split: sum.split)

section \<open>The form of the reports\<close>

fun motor_report_ok :: "report \<Rightarrow> bool" where
  "motor_report_ok (R_Object [(a, R_Int v), (b, R_String d)]) \<longleftrightarrow> a = ''s'' \<and> v \<le> 11 \<and> b = ''d'' \<and> stringToDirection d \<noteq> None"
| "motor_report_ok _ \<longleftrightarrow> False"

fun joint_report_ok :: "report \<Rightarrow> bool" where
  "joint_report_ok (R_Object [(a, R_Int v), (b, R_Int p), (c, R_String d)]) \<longleftrightarrow>
     a = ''s'' \<and> v < 256 \<and> b = ''p'' \<and> p < 256 \<and> c = ''d'' \<and> stringToDirection d \<noteq> None"
| "joint_report_ok _ \<longleftrightarrow> False"

fun text_report_ok :: "string set \<Rightarrow> report \<Rightarrow> bool" where
  "text_report_ok ts (R_String t) \<longleftrightarrow> t \<in> ts"
| "text_report_ok ts _ \<longleftrightarrow> False"

fun bool_report_ok :: "report \<Rightarrow> bool" where
  "bool_report_ok (R_Bool b) \<longleftrightarrow> True"
| "bool_report_ok _ \<longleftrightarrow> False"

fun battery_report_ok :: "report \<Rightarrow> bool" where
  "battery_report_ok (R_Double x) \<longleftrightarrow> 0 \<le> x"
| "battery_report_ok _ \<longleftrightarrow> False"

fun object_report_ok :: "(string \<times> (report \<Rightarrow> bool)) list \<Rightarrow> report \<Rightarrow> bool" where
  "object_report_ok checks (R_Object kvs) \<longleftrightarrow> list_all2 (\<lambda>(k, f) (k', r). k = k' \<and> f r) checks kvs"
| "object_report_ok checks _ \<longleftrightarrow> False"

fun buttons_report_ok :: "report \<Rightarrow> bool" where
  "buttons_report_ok (R_Array rs) \<longleftrightarrow> list_all (text_report_ok {''u'', ''d'', ''e''}) rs \<and> distinct rs"
| "buttons_report_ok _ \<longleftrightarrow> False"

definition report_ok :: "(string \<times> report) list \<Rightarrow> bool" where
  "report_ok r \<longleftrightarrow> object_report_ok
     [(''e'', object_report_ok [(''r'', bool_report_ok), (''l'', bool_report_ok), (''cam'', bool_report_ok)]),
      (''m'', object_report_ok [(''l'', motor_report_ok), (''r'', motor_report_ok)]),
      (''a'', object_report_ok [(''s'', joint_report_ok), (''e'', joint_report_ok), (''g'', joint_report_ok),
         (''cal_st'', text_report_ok {''none'', ''prog'', ''done''}),
         (''mode'', text_report_ok {''directional'', ''positional'', ''calibrating''})]),
      (''btn'', buttons_report_ok), (''b'', object_report_ok [(''u'', battery_report_ok), (''i'', battery_report_ok)]),
      (''ks_stat'', text_report_ok {''inactive'', ''software'', ''hardware''})] (R_Object r)"

lemma battery_nonneg: "0 \<le> getVoltage i" "0 \<le> getCurrent i"
  by (simp_all add: getVoltage_def getCurrent_def VOLTAGE_FACTOR_def CURRENT_FACTOR_def round_def)

lemma u8_below: "unat (x :: u8) < 256"
  using unsigned_less [of x, where 'a = nat] by simp

lemma createReport_ok:
  assumes "iface_ok i"
  shows "report_ok (createReport i)"
proof -
  have motor: "motor_report_ok (R_Object [(''s'', R_Int (unat (sm_programmedSpeed (if_motors i m)))),
      (''d'', R_String (directionToString (sm_direction (if_motors i m))))])" for m
    using iface_okD(1) [OF assms, of m] by (simp add: direction_string MOTOR_DRIVER_MAX_SPEED_def word_le_nat_alt)
  have joint: "joint_report_ok (R_Object [(''s'', R_Int (unat (sj_speed (if_joints i j)))), (''p'', R_Int (unat (sj_position (if_joints i j)))),
      (''d'', R_String (directionToString (sj_direction (if_joints i j))))])" for j
    using u8_below by (simp add: direction_string)
  have arm: "armCalibrationStatusToString c \<in> {''none'', ''prog'', ''done''}"
    "armDriverModeToString md \<in> {''directional'', ''positional'', ''calibrating''}" for c md
    by (simp_all add: armCalibrationStatusToString_def armDriverModeToString_def split: calibration_status.split arm_mode.split)
  have buttons: "buttons_report_ok (report_buttons i)" by (simp add: report_buttons_def Let_def)
  have ks: "text_report_ok {''inactive'', ''software'', ''hardware''} (report_killswitch i)" by (simp add: report_killswitch_def)
  show ?thesis
    using motor joint arm buttons ks battery_nonneg
    by (simp add: report_ok_def createReport_def report_expander_def report_motors_def report_arm_def Let_def
        del: motor_report_ok.simps joint_report_ok.simps insert_iff)
qed

section \<open>The two threads\<close>

text \<open>A request or a round of the maintenance thread, with what the environment does. A run ends with the
  first exception; its result are the reports.\<close>

datatype 'ip processor_event =
    BP_Process "nat \<Rightarrow> mem" "u8 list" "u8 list \<Rightarrow> comm_exception + u8 list" int "'ip request"
  | BP_Maintenance "u8 list" "u8 list \<Rightarrow> comm_exception + u8 list" int

fun processor_run :: "'v minijson \<Rightarrow> 'ip processor_event list \<Rightarrow> processor \<Rightarrow> (string \<times> report) list list \<times> processor" where
  "processor_run mj [] s = ([], s)"
| "processor_run mj (BP_Process g memory exchange now request # es) s =
     (case process g mj memory exchange now request s of
        (s, Reported r) \<Rightarrow> (let (rs, s) = processor_run mj es s in (r # rs, s))
      | (s, _) \<Rightarrow> ([], s))"
| "processor_run mj (BP_Maintenance memory exchange now # es) s =
     (case maintenance memory exchange now s of
        (s, None) \<Rightarrow> processor_run mj es s
      | (s, Some (SyncDone UpdateOk)) \<Rightarrow> processor_run mj es s
      | (s, Some _) \<Rightarrow> ([], s))"

primrec event_mem_ok :: "'ip processor_event \<Rightarrow> bool" where
  "event_mem_ok (BP_Process g memory exchange now request) \<longleftrightarrow> (\<forall>n. mem_ok (g n))"
| "event_mem_ok (BP_Maintenance memory exchange now) \<longleftrightarrow> True"

definition processor_ok :: "processor \<Rightarrow> bool" where
  "processor_ok s \<longleftrightarrow> manager_ok (bp_manager s)"

lemma sync_manager_ok: "processor_ok s \<Longrightarrow> processor_ok (fst (sync_manager memory exchange s))"
  by (simp add: sync_manager_def processor_ok_def case_prod_beta syncWithDevice_ok)

lemma maintenance_ok:
  assumes "processor_ok s"
  shows "processor_ok (fst (maintenance memory exchange now s))"
proof -
  have "processor_ok (s\<lparr>bp_firstMaintenanceTask := b\<rparr>)" for b using assms by (simp add: processor_ok_def)
  then show ?thesis using assms by (simp add: maintenance_def Let_def case_prod_beta sync_manager_ok)
qed

lemma process_ok:
  assumes "processor_ok s" and "\<forall>n. mem_ok (g n)"
  shows "processor_ok (fst (process g mj memory exchange now request s))"
    and "snd (process g mj memory exchange now request s) = Reported r \<Longrightarrow> report_ok r"
proof -
  obtain i e where parsed: "parseRequest g mj (rq_reqJson request) (mg_interface (bp_manager s)) = (i, e)" by fastforce
  define t where "t = s\<lparr>bp_firstMaintenanceTask := True, bp_manager := (bp_manager s)\<lparr>mg_interface := i\<rparr>\<rparr>"
  have "iface_ok i"
    using parseRequest_ok [OF assms(2), of "mg_interface (bp_manager s)" mj "rq_reqJson request"] assms(1)
    by (simp add: parsed processor_ok_def manager_ok_def)
  then have "processor_ok t" by (simp add: t_def processor_ok_def manager_ok_def)
  from sync_manager_ok [OF this, of memory exchange]
  obtain u r where u: "sync_manager memory exchange t = (u, r)" "processor_ok u" by (cases "sync_manager memory exchange t") simp
  have eq: "process g mj memory exchange now request s = (case e of Some e \<Rightarrow> (t, ParseThrew e) | None \<Rightarrow>
      (case r of SyncDone UpdateOk \<Rightarrow> (u\<lparr>bp_lastProcessFunctionExecution := now\<rparr>, Reported (createReport (mg_interface (bp_manager u))))
       | _ \<Rightarrow> (u, SyncThrew r)))"
    using u(1) by (simp add: process_def parsed t_def split: option.split sync_end.split update_end.split)
  show "processor_ok (fst (process g mj memory exchange now request s))"
    using \<open>processor_ok t\<close> u(2) by (simp add: eq processor_ok_def split: option.split sync_end.split update_end.split)
  show "snd (process g mj memory exchange now request s) = Reported x \<Longrightarrow> report_ok x" for x
    using u(2) createReport_ok by (auto simp: eq processor_ok_def manager_ok_def split: option.splits sync_end.splits update_end.splits)
qed

lemma processor_run_ok:
  "processor_ok s \<Longrightarrow> list_all event_mem_ok es \<Longrightarrow>
   list_all report_ok (fst (processor_run mj es s)) \<and> processor_ok (snd (processor_run mj es s))"
proof (induction mj es s rule: processor_run.induct)
  case (2 mj g memory exchange now request es s)
  have mem: "\<forall>n. mem_ok (g n)" using "2.prems" by simp
  obtain t e where t: "process g mj memory exchange now request s = (t, e)" by fastforce
  have "processor_ok t" using process_ok(1) [OF "2.prems"(1) mem, of mj memory exchange now request] by (simp add: t)
  moreover have "report_ok r" if "e = Reported r" for r
    using process_ok(2) [OF "2.prems"(1) mem, of mj memory exchange now request r] that by (simp add: t)
  ultimately show ?case using "2.IH" "2.prems" by (cases e) (simp_all add: t case_prod_beta Let_def)
next
  case (3 mj memory exchange now es s)
  obtain t e where t: "maintenance memory exchange now s = (t, e)" by fastforce
  have "processor_ok t" using maintenance_ok [OF "3.prems"(1), of memory exchange now] by (simp add: t)
  then show ?case using "3.IH" "3.prems" by (simp add: t split: option.split sync_end.split update_end.split)
qed simp

text \<open>C9: The form of the reports. In every run of requests and maintenance rounds from a good state, with any
  documents and any answers of the device, every report has exactly the fields of the protocol with
  values of the right kind: motor speeds of at most 11, bytes for the joints, known directions, modes
  and states, distinct buttons and battery values that are not negative.\<close>

theorem reports_well_typed:
  assumes "manager_ok mg" and "list_all event_mem_ok es"
  shows "list_all report_ok (fst (processor_run mj es (processor_init mg now)))"
  using processor_run_ok [of "processor_init mg now" es mj] assms by (simp add: processor_ok_def processor_init_def)

text \<open>A reader for the tests: values are numbers and texts, and every request is the one given document.\<close>

definition test_reader :: "(string \<times> (int + string) json) list \<Rightarrow> (int + string) minijson" where
  "test_reader kvs = \<lparr>mj_parse = \<lambda>t. (kvs, True), mj_long = \<lambda>v. (case v of JAtom (Inl x) \<Rightarrow> Some x | _ \<Rightarrow> None),
     mj_bool = \<lambda>_. None, mj_string = \<lambda>v. (case v of JAtom (Inr t) \<Rightarrow> Some t | _ \<Rightarrow> None)\<rparr>"

text \<open>A device that answers \<open>BRIDGE_GET_STATE\<close> with the given kill switch, and what comes of one request
  before a server that believes its own kill switch active.\<close>

definition state_answer :: "u8 \<Rightarrow> u8 list \<Rightarrow> comm_exception + u8 list" where
  "state_answer ks msg = Inr (bridge_state_bytes \<lparr>bst_rawVoltage = 0, bst_rawCurrent = 0, bst_buttonUp = False, bst_buttonDown = False,
     bst_buttonEnter = False, bst_killSwitchCausedByHardware = False, bst_killSwitch = ks\<rparr> @ [request_code MESSAGE_END])"

definition test_processor :: processor where
  "test_processor = processor_init (manager_init (iface_init (\<lambda>_. replicate 40 1))) 0"

lemma test_processor_ok: "manager_ok (bp_manager test_processor)" "if_killSwitchActive (mg_interface (bp_manager test_processor))"
  using iface_ok_init [of "\<lambda>_. replicate 40 1"]
  by (simp_all add: test_processor_def processor_init_def manager_ok_def manager_init_def mem_ok_def DATAHOLDER_MAX_DATA_SIZE_def
      iface_init_def setKillSwitch_def if_insert_def Let_def)

lemma iface_run_active:
  assumes "request_ops mj request = Some [Op_MotorSpeed m x, Op_MotorDirection m d]" and "parseRequest g mj request i = (i', None)"
  shows "if_killSwitchActive i' = if_killSwitchActive i"
proof -
  have "parseRequest g mj request i = (motor_setDirection (g 1) m d (motor_setSpeed (g 0) m x i), None)"
    by (rule parse_ops [OF assms(1)]) simp
  then show ?thesis
    using assms(2) by (auto simp: motor_setDirection_def motor_setSpeed_def createMotorState_def if_insert_def upd_motor_def Let_def)
qed

lemma test_process_reports:
  fixes rq :: "'ip request" and mj :: "'v minijson"
  assumes "parseRequest g mj (rq_reqJson rq) (mg_interface (bp_manager test_processor)) = (i, None)" and "if_killSwitchActive i"
  shows "\<exists>r t. process g mj memory (state_answer ks) now rq test_processor = (t, Reported r)"
proof -
  have "updateDataStructures [BRIDGE_GET_STATE] (bridge_state_bytes st @ [request_code MESSAGE_END]) i = (apply_reply (R_Bridge st) i, UpdateOk)" for st
    using updateDataStructures_prefix [of "[R_Bridge st]" "[]" "[request_code MESSAGE_END]" i]
    by (simp add: nth_append peek_def bridge_state_bytes_def le16_def)
  moreover have "fst (snd (build_message memory ((bp_manager test_processor)\<lparr>mg_interface := i\<rparr>))) = [BRIDGE_GET_STATE]"
    using assms(2) by (simp add: build_message_def generateGetRequests_def Let_def case_prod_beta)
  moreover have "mg_interface (snd (snd (build_message memory ((bp_manager test_processor)\<lparr>mg_interface := i\<rparr>)))) = i"
    by (simp add: build_message_interface)
  ultimately show ?thesis
    using assms(1) by (auto simp: process_def sync_manager_def syncWithDevice_def state_answer_def case_prod_beta Let_def)
qed

theorem report_echoes_motor_request_witness:
  "\<exists>r. snd (process (\<lambda>_ _. replicate 40 0)
       (test_reader [(''m'', JObject [(''r'', JObject [(''s'', JAtom (Inl (- 3))), (''d'', JAtom (Inr ''backward''))] True)] True)])
       (replicate 40 0) (state_answer 1) 7 (new_request :: nat request) test_processor) = Reported r \<and>
     report_at [''m'', ''r'', ''s''] (R_Object r) =
       Some (R_Int (if report_at [''ks_stat''] (R_Object r) = Some (R_String ''inactive'') then 11 else 0))"
proof -
  let ?mj = "test_reader [(''m'', JObject [(''r'', JObject [(''s'', JAtom (Inl (- 3))), (''d'', JAtom (Inr ''backward''))] True)] True)]"
  let ?g = "\<lambda>_ _. replicate 40 0"
  let ?s = "JAtom (Inl (- 3)) :: (int + string) json" let ?d = "JAtom (Inr ''backward'') :: (int + string) json"
  have doc: "mj_parse ?mj (rq_reqJson (new_request :: nat request)) =
      ([(''m'', JObject [(motor_field M_RIGHT, JObject [(''s'', ?s), (''d'', ?d)] True)] True)], True)"
      "mj_long ?mj ?s = Some (- 3)" "mj_string ?mj ?d = Some (directionToString BACKWARD)"
    by (simp_all add: test_reader_def directionToString_def)
  have ops: "request_ops ?mj (rq_reqJson (new_request :: nat request)) = Some [Op_MotorSpeed M_RIGHT (- 3), Op_MotorDirection M_RIGHT BACKWARD]"
    by (simp add: test_reader_def request_ops_def schema_ops_def request_schema_def motors_schema_def motor_schema_def slot_ops_object
        direction_ops_def stringToDirection_def to_lower_char_def del: slot_ops.simps(4))
  obtain i where i: "parseRequest ?g ?mj (rq_reqJson (new_request :: nat request)) (mg_interface (bp_manager test_processor)) = (i, None)"
    using parse_ops [OF ops refl] by blast
  then have "if_killSwitchActive i" using iface_run_active [OF ops i] test_processor_ok(2) by simp
  then obtain r t where r: "process ?g ?mj (replicate 40 0) (state_answer 1) 7 (new_request :: nat request) test_processor = (t, Reported r)"
    using test_process_reports [OF i] by blast
  have "snd (process ?g ?mj (replicate 40 0) (state_answer 1) 7 (new_request :: nat request) test_processor) = Reported r" by (simp add: r)
  from report_echoes_motor_request [OF doc this] this show ?thesis by (intro exI [of _ r]) (simp del: report_at.simps)
qed

theorem later_field_decides_witness:
  "sj_settingPosition (if_joints (fst (fst (parse_object (parse_arm (\<lambda>_ _. replicate 40 0) (test_reader []) J_ELBOW)
     (JObject [(''d'', JAtom (Inr ''stop'')), (''p'', JAtom (Inl 20))] True) (iface_init (\<lambda>_. replicate 40 0), 0)))) J_ELBOW)"
  using later_field_decides [where x = 20 and d = STOP and pos = "JAtom (Inl 20)" and dir = "JAtom (Inr ''stop'')" and n = 0
      and g = "\<lambda>_ _. replicate 40 0" and i = "iface_init (\<lambda>_. replicate 40 0)" and mj = "test_reader []" and j = J_ELBOW]
  by (simp add: test_reader_def directionToString_def iface_init_def setKillSwitch_def if_insert_def)

text \<open>A run with a request that is answered, and an exchange that fails.\<close>

theorem reports_well_typed_witness:
  "\<exists>r. fst (processor_run (test_reader [])
     [BP_Process (\<lambda>_ _. replicate 40 0) (replicate 40 0) (state_answer 0) 7 (new_request :: nat request),
      BP_Maintenance (replicate 40 0) (\<lambda>_. Inl (SendStatus (- 1))) 40] test_processor) = [r] \<and> report_ok r"
proof -
  let ?es = "[BP_Process (\<lambda>_ _. replicate 40 0) (replicate 40 0) (state_answer 0) 7 (new_request :: nat request),
    BP_Maintenance (replicate 40 0) (\<lambda>_. Inl (SendStatus (- 1))) 40]"
  let ?mg = "manager_init (iface_init (\<lambda>_. replicate 40 1))"
  have "parseRequest (\<lambda>_ _. replicate 40 0) (test_reader []) (rq_reqJson (new_request :: nat request)) (mg_interface (bp_manager test_processor)) =
      (mg_interface (bp_manager test_processor), None)"
    by (rule parse_ops [of _ _ "[]"]) (simp_all add: test_reader_def request_ops_def)
  from test_process_reports [OF this test_processor_ok(2)]
  obtain r t where rt: "process (\<lambda>_ _. replicate 40 0) (test_reader []) (replicate 40 0) (state_answer 0) 7 (new_request :: nat request) test_processor =
      (t, Reported r)" by blast
  have "fst (processor_run (test_reader []) ?es test_processor) = [r]"
    by (simp add: rt maintenance_def sync_manager_def syncWithDevice_def case_prod_beta Let_def split: option.split)
  moreover have "manager_ok ?mg" using test_processor_ok(1) by (simp add: test_processor_def processor_init_def)
  then have "list_all report_ok (fst (processor_run (test_reader []) ?es (processor_init ?mg 0)))"
    by (rule reports_well_typed) (simp add: mem_ok_def DATAHOLDER_MAX_DATA_SIZE_def)
  then have "list_all report_ok (fst (processor_run (test_reader []) ?es test_processor))" by (simp add: test_processor_def)
  ultimately show ?thesis by simp
qed

end
