(* ===== verification/Host_Bridge.thy ===== *)
theory Host_Bridge
  imports Bridge_Processor Bridge_Usb
begin

text \<open>
  The server and the bridge together: one request processed by \<open>BridgeProcessor\<close> with the bridge's
  \<open>usb_poll\<close> at the other end of the USB cable. The message of \<open>InterfaceManager\<close> is executed by
  the firmware and the bytes the firmware sends are what \<open>Interface\<close> reads.
\<close>

section \<open>The exchange\<close>

text \<open>The transfers succeed; a firmware that stops does not answer.\<close>

definition bridge_answer :: "usb_env \<Rightarrow> bridge \<Rightarrow> u8 list \<Rightarrow> u8 list \<times> int \<times> int" where
  "bridge_answer env s packet =
     (case usb_poll env (Some packet) s of
        Inr (Some bytes, t) \<Rightarrow> (bytes, int DEVICE_TO_HOST_DATAPACKET_SIZE, 0)
      | _ \<Rightarrow> ([], 0, -7))"

definition bridge_exchange :: "usb_env \<Rightarrow> bridge \<Rightarrow> u8 list \<Rightarrow> comm_exception + u8 list" where
  "bridge_exchange env s = usb_exchange (\<lambda>_. (int HOST_TO_DEVICE_DATAPACKET_SIZE, 0)) (bridge_answer env s)"

text \<open>What the reply to a command means, when it has one.\<close>

fun cmd_reply :: "usb_env \<Rightarrow> u8 \<Rightarrow> usb_cmd \<Rightarrow> menu \<Rightarrow> dev_reply list" where
  "cmd_reply env p GetState d = [R_Bridge (get_state env d)]"
| "cmd_reply env p (MotorGet m) d =
     [R_Motor \<lparr>sms_motor = m, sms_direction = env_uninit env p, sms_speed = fst (motor_drv_getSpeed (env_bus env) m d)\<rparr>]"
| "cmd_reply env p (ArmGet m) d = [R_Joint (fst (joint_reply (env_bus env) m d))]"
| "cmd_reply env p ArmGetGeneral d =
     (let (c, d) = arm_drv_isCalibrated (env_bus env) d in [R_General \<lparr>gst_isCalibrated = c, gst_mode = fst (arm_drv_getMode (env_bus env) d)\<rparr>])"
| "cmd_reply env p ExpanderGet d = [R_Expander (fst (expander_getValue (env_bus env) d))]"
| "cmd_reply env p c d = []"

fun is_getter :: "usb_cmd \<Rightarrow> bool" where
  "is_getter GetState = True"
| "is_getter (MotorGet m) = True"
| "is_getter (ArmGet m) = True"
| "is_getter ArmGetGeneral = True"
| "is_getter ExpanderGet = True"
| "is_getter _ = False"

lemma cmd_reply_bytes: "fst (cmd_effect env p c d) = concat (map reply_bytes (cmd_reply env p c d))"
  by (cases c) (simp_all add: case_prod_beta Let_def)

lemma cmd_reply_request: "map reply_request (cmd_reply env p c d) = (if is_getter c then [cmd_request c] else [])"
  by (cases c) (simp_all add: case_prod_beta Let_def)

text \<open>The replies to a list of commands, with the final state of the device.\<close>

fun run_replies :: "usb_env \<Rightarrow> nat \<Rightarrow> usb_cmd list \<Rightarrow> menu \<Rightarrow> dev_reply list \<times> menu" where
  "run_replies env n [] d = ([], d)"
| "run_replies env n (c # cs) d =
     (let (rs, d') = run_replies env (n + reply_size c) cs (snd (cmd_effect env (of_nat n) c d))
      in (cmd_reply env (of_nat n) c d @ rs, d'))"

lemma run_cmds_replies:
  assumes "ResetDevice \<notin> set cs"
  shows "run_cmds env cs out d =
    Some (out @ concat (map reply_bytes (fst (run_replies env (length out) cs d))), snd (run_replies env (length out) cs d))"
  using assms
proof (induction cs arbitrary: out d)
  case (Cons c cs)
  obtain r e where r: "cmd_effect env (of_nat (length out)) c d = (r, e)" by fastforce
  have "length (out @ r) = length out + reply_size c" "r = concat (map reply_bytes (cmd_reply env (of_nat (length out)) c d))"
    using reply_size_effect [of env "of_nat (length out)" c d] cmd_reply_bytes [of env "of_nat (length out)" c d] by (simp_all add: r)
  moreover have "c \<noteq> ResetDevice" "ResetDevice \<notin> set cs" using Cons.prems by auto
  ultimately show ?case using Cons.IH [of "out @ r" e] by (simp add: r case_prod_beta Let_def)
qed simp

lemma run_replies_requests: "map reply_request (fst (run_replies env n cs d)) = map cmd_request (filter is_getter cs)"
  by (induction cs arbitrary: n d) (simp_all add: case_prod_beta Let_def cmd_reply_request)

text \<open>The commands of a message.\<close>

definition message_cmds :: "u8 list \<Rightarrow> manager \<Rightarrow> usb_cmd list" where
  "message_cmds g mg = setter_cmds g mg @ getter_cmds (if_killSwitchActive (mg_interface mg)) (mg_counter mg)"

lemma message_cmds_facts:
  assumes "manager_ok mg" and "length g = DATAHOLDER_MAX_DATA_SIZE"
  shows "filter is_getter (message_cmds g mg) = getter_cmds (if_killSwitchActive (mg_interface mg)) (mg_counter mg)"
    and "ResetDevice \<notin> set (message_cmds g mg)" and "list_all cmd_ok (message_cmds g mg)"
    and "sum_list (map reply_size (message_cmds g mg)) \<le> 17"
    and "length (encode_cmds (message_cmds g mg)) \<le> 72"
    and "filter is_getter (setter_cmds g mg) = []"
proof -
  note setter = setter_cmds_props(4) [OF assms]
  have set1: "\<not> is_getter c \<and> c \<noteq> ResetDevice \<and> cmd_ok c \<and> reply_size c = 0" if "c \<in> set (setter_cmds g mg)" for c
    using setter [OF that] server_cmd_is_ok [of c] by (cases c) simp_all
  have get: "is_getter c \<and> c \<noteq> ResetDevice" if "c \<in> set (getter_cmds b n)" for c b n
    using that by (auto simp: getter_cmds_def split: if_splits)
  show "filter is_getter (message_cmds g mg) = getter_cmds (if_killSwitchActive (mg_interface mg)) (mg_counter mg)"
    using set1 get by (simp add: message_cmds_def filter_empty_conv)
  show "filter is_getter (setter_cmds g mg) = []" using set1 by (simp add: filter_empty_conv)
  show "ResetDevice \<notin> set (message_cmds g mg)" using set1 get by (auto simp: message_cmds_def)
  show "list_all cmd_ok (message_cmds g mg)"
    using set1 getter_cmds_ok by (auto simp: message_cmds_def list_all_iff)
  have "map reply_size (setter_cmds g mg) = map (\<lambda>_. 0) (setter_cmds g mg)" using set1 by simp
  then have "sum_list (map reply_size (setter_cmds g mg)) = 0" by (simp only: sum_list_triv mult_0_right)
  moreover have "sum_list (map reply_size (getter_cmds b n)) \<le> 17" for b n by (simp add: getter_cmds_def)
  ultimately show "sum_list (map reply_size (message_cmds g mg)) \<le> 17"
    by (simp only: message_cmds_def map_append sum_list_append add_0)
  show "length (encode_cmds (message_cmds g mg)) \<le> 72"
    using setter_cmds_props(5) [OF assms] getter_length [of "if_killSwitchActive (mg_interface mg)" "mg_counter mg"]
    by (simp add: message_cmds_def)
qed

lemma replies_length: "length (concat (map reply_bytes (fst (run_replies env n cs d)))) = sum_list (map reply_size cs)"
proof (induction cs arbitrary: n d)
  case (Cons c cs)
  have "length (concat (map reply_bytes (cmd_reply env (of_nat n) c d))) = reply_size c"
    using reply_size_effect [of env "of_nat n" c d] cmd_reply_bytes [of env "of_nat n" c d] by simp
  then show ?case using Cons.IH by (simp add: case_prod_beta Let_def)
qed simp

section \<open>Properties\<close>

text \<open>The device state when the commands of a packet begin.\<close>

definition packet_start :: "usb_env \<Rightarrow> bridge \<Rightarrow> menu" where
  "packet_start env s =
     (if menuEnabled s then lcd_clrscr (env_busy env) (led_setState YELLOW True (dev s)) else led_setState YELLOW True (dev s))"

lemma exchange_parts:
  fixes env :: usb_env and s :: bridge and g :: "u8 list" and mg :: manager
  assumes "manager_ok mg" and "length g = DATAHOLDER_MAX_DATA_SIZE" and "bridge_ok s"
  defines "packet \<equiv> vector_resize HOST_TO_DEVICE_DATAPACKET_SIZE (fst (build_message g mg))"
    and "replies \<equiv> fst (run_replies env 0 (message_cmds g mg) (packet_start env s))"
    and "d \<equiv> snd (run_replies env 0 (message_cmds g mg) (packet_start env s))"
  shows "\<exists>t answer. usb_poll env (Some packet) s = Inr (Some answer, t) \<and> dev t = led_setState YELLOW False d \<and> host_active t \<and>
      length answer = 64 \<and> (\<exists>padding. answer = concat (map reply_bytes replies) @ request_code MESSAGE_END # padding)"
    and "map reply_request replies = map cmd_request (getter_cmds (if_killSwitchActive (mg_interface mg)) (mg_counter mg))"
proof -
  define cs where "cs = message_cmds g mg"
  note facts = message_cmds_facts [OF assms(1,2), folded cs_def]
  have msg: "fst (build_message g mg) = encode_cmds cs @ [request_code MESSAGE_END]"
    by (simp add: cs_def message_cmds_def build_message_eq [OF assms(1,2)])
  then obtain rest where packet: "packet = encode_cmds cs @ request_code MESSAGE_END # rest"
    using facts(5) by (simp add: packet_def vector_resize_prefix HOST_TO_DEVICE_DATAPACKET_SIZE_def)
  have "length packet = 128" by (simp add: packet_def HOST_TO_DEVICE_DATAPACKET_SIZE_def)
  then have len: "length (encode_cmds cs @ request_code MESSAGE_END # rest) = 128" unfolding packet .
  define out where "out = concat (map reply_bytes replies)"
  have short: "length out \<le> 17"
    using facts(4) by (simp add: out_def replies_def replies_length cs_def)
  have run: "run_cmds env cs [] (packet_start env s) = Some (out, d)"
    using run_cmds_replies [OF facts(2), of env "[]"] by (simp add: out_def replies_def d_def cs_def)
  have "sum_list (map reply_size cs) \<le> 129" using facts(4) by simp
  from usb_packet_executed [OF assms(3) len facts(3) this, of env]
  obtain t where t: "usb_poll env (Some packet) s = Inr (Some (take 64 (out @ replicate 64 (request_code MESSAGE_END))), t)"
      "dev t = led_setState YELLOW False d" "host_active t"
    using run by (auto simp: packet packet_start_def)
  moreover have "take 64 (out @ replicate 64 (request_code MESSAGE_END)) = out @ request_code MESSAGE_END # replicate (63 - length out) (request_code MESSAGE_END)"
    using short by (simp add: take_replicate flip: replicate_Suc)
  ultimately show "\<exists>t answer. usb_poll env (Some packet) s = Inr (Some answer, t) \<and> dev t = led_setState YELLOW False d \<and> host_active t \<and>
      length answer = 64 \<and> (\<exists>padding. answer = concat (map reply_bytes replies) @ request_code MESSAGE_END # padding)"
    using short by (fastforce simp: out_def)
  show "map reply_request replies = map cmd_request (getter_cmds (if_killSwitchActive (mg_interface mg)) (mg_counter mg))"
    using facts(1) by (simp add: replies_def run_replies_requests flip: cs_def)
qed

lemma sync_parts:
  fixes env :: usb_env and s :: bridge and g :: "u8 list" and mg :: manager
  assumes "manager_ok mg" and "length g = DATAHOLDER_MAX_DATA_SIZE" and "bridge_ok s"
  defines "replies \<equiv> fst (run_replies env 0 (message_cmds g mg) (packet_start env s))"
  shows "snd (syncWithDevice g (bridge_exchange env s) mg) = SyncDone UpdateOk \<and>
    mg_interface (fst (syncWithDevice g (bridge_exchange env s) mg)) = fold apply_reply replies (mg_interface mg)"
proof -
  obtain concatenated responseOrder mg' where build: "build_message g mg = (concatenated, responseOrder, mg')"
    by (cases "build_message g mg")
  have order: "responseOrder = map cmd_request (getter_cmds (if_killSwitchActive (mg_interface mg)) (mg_counter mg))"
    using build build_message_eq [OF assms(1,2)] by simp
  have same: "mg_interface mg' = mg_interface mg" using build_message_interface [of g mg] by (simp add: build)
  from exchange_parts(1) [OF assms(1-3), of env]
  obtain t answer padding where t: "usb_poll env (Some (vector_resize HOST_TO_DEVICE_DATAPACKET_SIZE concatenated)) s = Inr (Some answer, t)"
      "length answer = 64" "answer = concat (map reply_bytes replies) @ request_code MESSAGE_END # padding"
    unfolding replies_def by (auto simp: build)
  have "bridge_exchange env s concatenated = Inr answer"
    using t(1,2) by (simp add: bridge_exchange_def usb_exchange_def sendData_def receiveData_def bridge_answer_def Let_def
        DEVICE_TO_HOST_DATAPACKET_SIZE_def)
  moreover have "updateDataStructures responseOrder answer (mg_interface mg') = (fold apply_reply replies (mg_interface mg), UpdateOk)"
    using exchange_parts(2) [OF assms(1-3), of env] updateDataStructures_prefix [of replies "[]" "request_code MESSAGE_END # padding" "mg_interface mg"]
    unfolding order same t(3) replies_def by (simp add: nth_append peek_def)
  ultimately show ?thesis by (simp add: syncWithDevice_def build)
qed

text \<open>C2: An exchange between server and bridge. For every state of the server's manager and every state of
  the firmware, when the transfers succeed: the firmware executes exactly the commands of the
  message, in order, and is supervised afterwards; its answer holds one structure per getter; the
  server reads all of them without error, and its interface is the old one with the meaning of these
  structures applied.\<close>

theorem exchange_synchronises:
  fixes env :: usb_env and s :: bridge and g :: "u8 list" and mg :: manager
  assumes "manager_ok mg" and "length g = DATAHOLDER_MAX_DATA_SIZE" and "bridge_ok s"
  defines "packet \<equiv> vector_resize HOST_TO_DEVICE_DATAPACKET_SIZE (fst (build_message g mg))"
    and "run \<equiv> run_replies env 0 (message_cmds g mg) (packet_start env s)"
    and "result \<equiv> syncWithDevice g (bridge_exchange env s) mg"
  shows "(\<exists>t answer. usb_poll env (Some packet) s = Inr (Some answer, t) \<and> dev t = led_setState YELLOW False (snd run) \<and> host_active t) \<and>
    run_cmds env (message_cmds g mg) [] (packet_start env s) = Some (concat (map reply_bytes (fst run)), snd run) \<and>
    snd result = SyncDone UpdateOk \<and> mg_interface (fst result) = fold apply_reply (fst run) (mg_interface mg)"
proof -
  have "\<exists>t answer. usb_poll env (Some packet) s = Inr (Some answer, t) \<and> dev t = led_setState YELLOW False (snd run) \<and> host_active t"
    using exchange_parts(1) [OF assms(1-3), of env] unfolding packet_def run_def by blast
  moreover have "run_cmds env (message_cmds g mg) [] (packet_start env s) = Some (concat (map reply_bytes (fst run)), snd run)"
    using run_cmds_replies [OF message_cmds_facts(2) [OF assms(1,2)], of env "[]"] by (simp add: run_def)
  ultimately show ?thesis using sync_parts [OF assms(1-3), of env] unfolding result_def run_def by blast
qed

text \<open>The states of the tests: server and bridge after power-up.\<close>

definition fresh_manager :: manager where
  "fresh_manager = manager_init (iface_init (\<lambda>_. replicate 40 1))"

lemma fresh_manager_ok: "manager_ok fresh_manager"
  using iface_ok_init [of "\<lambda>_. replicate 40 1"]
  by (simp add: fresh_manager_def manager_ok_def manager_init_def mem_ok_def DATAHOLDER_MAX_DATA_SIZE_def)

lemma test_memory: "length (replicate 40 7 :: u8 list) = DATAHOLDER_MAX_DATA_SIZE"
  by (simp add: DATAHOLDER_MAX_DATA_SIZE_def)

theorem exchange_synchronises_witness:
  "snd (syncWithDevice (replicate 40 7) (bridge_exchange quiet_env bridge_static_init) fresh_manager) = SyncDone UpdateOk"
  using exchange_synchronises [OF fresh_manager_ok test_memory bridge_ok_static, of quiet_env] by (elim conjE)

section \<open>What the server knows\<close>

lemma run_replies_append:
  "run_replies env n (xs @ ys) d =
     (fst (run_replies env n xs d) @ fst (run_replies env (n + sum_list (map reply_size xs)) ys (snd (run_replies env n xs d))),
      snd (run_replies env (n + sum_list (map reply_size xs)) ys (snd (run_replies env n xs d))))"
  by (induction xs arbitrary: n d) (simp_all add: case_prod_beta Let_def add.assoc)

lemma getter_upd: "is_getter c \<Longrightarrow> i2c_upd d (snd (cmd_effect env p c d))"
proof (cases c)
  case (ArmGet m)
  have "i2c_upd d (snd (joint_reply (env_bus env) m d))"
    unfolding joint_reply_def arm_drv_getDirection_def arm_drv_getSpeed_def arm_drv_getPosition_def
    by (simp add: case_prod_beta Let_def) (meson i2c_upd_arm(2) i2c_upd_trans)
  then show ?thesis by (simp add: ArmGet case_prod_beta Let_def)
next
  case ArmGetGeneral
  have "i2c_upd d (snd (arm_drv_getMode (env_bus env) (snd (arm_drv_isCalibrated (env_bus env) d))))"
    unfolding arm_drv_getMode_def arm_drv_isCalibrated_def
    by (simp add: case_prod_beta Let_def) (meson i2c_upd_arm(4) i2c_upd_trans)
  then show ?thesis by (simp add: ArmGetGeneral case_prod_beta Let_def)
qed (auto simp: i2c_upd_refl motor_drv_getSpeed_def case_prod_beta Let_def)

lemma getters_upd: "list_all is_getter cs \<Longrightarrow> i2c_upd d (snd (run_replies env n cs d))"
proof (induction cs arbitrary: n d)
  case (Cons c cs)
  have "i2c_upd d (snd (cmd_effect env (of_nat n) c d))" using Cons.prems by (simp add: getter_upd)
  from i2c_upd_trans [OF this Cons.IH] Cons.prems show ?case by (simp add: case_prod_beta Let_def)
qed (simp add: i2c_upd_refl)

lemma apply_other_reply:
  "reply_request r \<noteq> BRIDGE_GET_STATE \<Longrightarrow> if_killSwitchActive (apply_reply r i) = if_killSwitchActive i \<and>
     if_killSwitchCausedByHardware (apply_reply r i) = if_killSwitchCausedByHardware i"
  by (cases r) (simp_all add: upd_motor_def upd_joint_def)

lemma apply_other_replies:
  "\<forall>r \<in> set rs. reply_request r \<noteq> BRIDGE_GET_STATE \<Longrightarrow> if_killSwitchActive (fold apply_reply rs i) = if_killSwitchActive i \<and>
     if_killSwitchCausedByHardware (fold apply_reply rs i) = if_killSwitchCausedByHardware i"
  by (induction rs arbitrary: i) (simp_all add: apply_other_reply)

lemma replies_kill_switch:
  fixes env :: usb_env and d0 :: menu and g :: "u8 list" and mg :: manager
  assumes "manager_ok mg" and "length g = DATAHOLDER_MAX_DATA_SIZE"
  defines "run \<equiv> run_replies env 0 (message_cmds g mg) d0"
  shows "if_killSwitchActive (fold apply_reply (fst run) i) = ks_isActive (env_button env) (snd run) \<and>
    if_killSwitchCausedByHardware (fold apply_reply (fst run) i) =
      (ks_isActive (env_button env) (snd run) \<and> causedByHardware (snd run))"
proof -
  obtain gs where gs: "getter_cmds (if_killSwitchActive (mg_interface mg)) (mg_counter mg) = GetState # gs"
      "list_all is_getter gs" "GetState \<notin> set gs" "BRIDGE_GET_STATE \<notin> cmd_request ` set gs"
    by (auto simp: getter_cmds_def)
  have none: "fst (run_replies env 0 (setter_cmds g mg) d0) = []"
    using run_replies_requests [of env 0 "setter_cmds g mg" d0] message_cmds_facts(6) [OF assms(1,2)] by simp
  define d1 where "d1 = snd (run_replies env 0 (setter_cmds g mg) d0)"
  define rest where "rest = run_replies env (sum_list (map reply_size (setter_cmds g mg)) + 9) gs d1"
  have run: "run = (R_Bridge (get_state env d1) # fst rest, snd rest)"
    by (simp add: run_def message_cmds_def gs(1) run_replies_append none d1_def rest_def case_prod_beta Let_def)
  have "map reply_request (fst rest) = map cmd_request gs"
    using gs(2) by (simp add: rest_def run_replies_requests filter_id_conv list_all_iff)
  then have "reply_request ` set (fst rest) = cmd_request ` set gs" by (metis list.set_map)
  then have others: "\<forall>r \<in> set (fst rest). reply_request r \<noteq> BRIDGE_GET_STATE" using gs(4) by (metis imageI)
  have upd: "i2c_upd d1 (snd rest)" unfolding rest_def using gs(2) by (rule getters_upd)
  have ks: "ks_isActive (env_button env) (snd rest) = ks_isActive (env_button env) d1" "causedByHardware (snd rest) = causedByHardware d1"
    by (simp_all add: ks_isActive_def ks_line_low_def i2c_upd_ks [OF upd])
  show ?thesis
    using apply_other_replies [OF others, of "apply_reply (R_Bridge (get_state env d1)) i"]
    by (simp add: run ks get_state_def Let_def)
qed

text \<open>C3: The server knows the kill switch. After a successful exchange, whatever was requested before and
  whatever happens to the emergency button, the server's idea of the kill switch is that of the
  device when it answered: active exactly when the line is held, and caused by hardware exactly
  when the device has recorded this for an active line.\<close>

theorem server_knows_kill_switch:
  fixes env :: usb_env and s :: bridge and g :: "u8 list" and mg :: manager
  assumes "manager_ok mg" and "length g = DATAHOLDER_MAX_DATA_SIZE" and "bridge_ok s"
  defines "device \<equiv> snd (run_replies env 0 (message_cmds g mg) (packet_start env s))"
    and "i \<equiv> mg_interface (fst (syncWithDevice g (bridge_exchange env s) mg))"
  shows "if_killSwitchActive i = ks_isActive (env_button env) device \<and>
    if_killSwitchCausedByHardware i = (ks_isActive (env_button env) device \<and> causedByHardware device)"
  using replies_kill_switch [OF assms(1,2), of env "packet_start env s" "mg_interface mg"] sync_parts [OF assms(1-3), of env]
  unfolding i_def device_def by simp

theorem server_knows_kill_switch_witness:
  "if_killSwitchActive (mg_interface (fst (syncWithDevice (replicate 40 7) (bridge_exchange quiet_env bridge_static_init) fresh_manager))) =
     ks_isActive False (snd (run_replies quiet_env 0 (message_cmds (replicate 40 7) fresh_manager) (packet_start quiet_env bridge_static_init)))"
  using server_knows_kill_switch [OF fresh_manager_ok test_memory bridge_ok_static, of quiet_env] by (simp add: quiet_env_def)

text \<open>\<open>process\<close> over the bridge: the settings of a request whose values have the right kinds, the exchange
  and the report.\<close>

lemma process_through_bridge:
  fixes env :: usb_env and b :: bridge and s :: processor and mj :: "'v minijson" and rq :: "'ip request" and g :: "nat \<Rightarrow> mem"
    and memory :: "u8 list" and now :: int
  assumes "manager_ok (bp_manager s)" and "\<forall>n. mem_ok (g n)" and "length memory = DATAHOLDER_MAX_DATA_SIZE" and "bridge_ok b"
    and "request_ops mj (rq_reqJson rq) = Some ops"
  defines "mg \<equiv> (bp_manager s)\<lparr>mg_interface := iface_run (zip (map g [0 ..< length ops]) ops) (mg_interface (bp_manager s))\<rparr>"
  defines "run \<equiv> run_replies env 0 (message_cmds memory mg) (packet_start env b)"
  shows "manager_ok mg"
    and "snd (process g mj memory (bridge_exchange env b) now rq s) = Reported (createReport (fold apply_reply (fst run) (mg_interface mg)))"
    and "mg_interface (bp_manager (fst (process g mj memory (bridge_exchange env b) now rq s))) = fold apply_reply (fst run) (mg_interface mg)"
proof -
  have parsed: "parseRequest g mj (rq_reqJson rq) (mg_interface (bp_manager s)) = (mg_interface mg, None)"
    using assms(5) by (rule parse_ops) (simp add: perform_run mg_def)
  have "iface_ok (mg_interface mg)"
    using parseRequest_ok [OF assms(2), of "mg_interface (bp_manager s)" mj "rq_reqJson rq"] assms(1) by (simp add: parsed manager_ok_def)
  then show ok: "manager_ok mg" by (simp add: manager_ok_def)
  have same: "(bp_manager s)\<lparr>mg_interface := mg_interface mg\<rparr> = mg" by (simp add: mg_def)
  obtain mg' e where sync: "syncWithDevice memory (bridge_exchange env b) mg = (mg', e)" by fastforce
  have "e = SyncDone UpdateOk" "mg_interface mg' = fold apply_reply (fst run) (mg_interface mg)"
    using sync_parts [OF ok assms(3,4), of env] by (simp_all add: sync run_def)
  then show "snd (process g mj memory (bridge_exchange env b) now rq s) = Reported (createReport (fold apply_reply (fst run) (mg_interface mg)))"
    "mg_interface (bp_manager (fst (process g mj memory (bridge_exchange env b) now rq s))) = fold apply_reply (fst run) (mg_interface mg)"
    by (simp_all add: process_def parsed same sync_manager_def sync Let_def)
qed

text \<open>From the client's document to the device and back. A request whose values have the right kinds is
  turned into settings, the firmware executes the message made of them, and the report given to the
  client is that of the interface after the device's replies; nothing on this way throws.\<close>

theorem request_reaches_device:
  fixes env :: usb_env and b :: bridge and s :: processor and mj :: "'v minijson" and rq :: "'ip request" and g :: "nat \<Rightarrow> mem"
    and memory :: "u8 list" and now :: int
  assumes "manager_ok (bp_manager s)" and "\<forall>n. mem_ok (g n)" and "length memory = DATAHOLDER_MAX_DATA_SIZE" and "bridge_ok b"
    and "request_ops mj (rq_reqJson rq) = Some ops"
  defines "mg \<equiv> (bp_manager s)\<lparr>mg_interface := iface_run (zip (map g [0 ..< length ops]) ops) (mg_interface (bp_manager s))\<rparr>"
  defines "run \<equiv> run_replies env 0 (message_cmds memory mg) (packet_start env b)"
  shows "snd (process g mj memory (bridge_exchange env b) now rq s) =
      Reported (createReport (fold apply_reply (fst run) (mg_interface mg))) \<and>
    (\<exists>t answer. usb_poll env (Some (vector_resize HOST_TO_DEVICE_DATAPACKET_SIZE (fst (build_message memory mg)))) b =
        Inr (Some answer, t) \<and> dev t = led_setState YELLOW False (snd run))"
  using process_through_bridge [OF assms(1-5)] exchange_parts(1) [OF _ assms(3,4), of mg env] unfolding mg_def run_def by blast

theorem request_reaches_device_witness:
  "\<exists>r. snd (process (\<lambda>_ _. replicate 40 0) (test_reader [(''m'', JObject [(''l'', JObject [(''s'', JAtom (Inl 5))] True)] True)])
     (replicate 40 7) (bridge_exchange quiet_env bridge_static_init) 10 (new_request :: nat request) (processor_init fresh_manager 0)) = Reported r"
proof -
  have "manager_ok (bp_manager (processor_init fresh_manager 0))" by (simp add: processor_init_def fresh_manager_ok)
  moreover have "\<forall>n. mem_ok ((\<lambda>_ _. replicate 40 0) (n :: nat))" by (simp add: mem_ok_def DATAHOLDER_MAX_DATA_SIZE_def)
  moreover have "request_ops (test_reader [(''m'', JObject [(''l'', JObject [(''s'', JAtom (Inl 5))] True)] True)])
      (rq_reqJson (new_request :: nat request)) = Some [Op_MotorSpeed M_LEFT 5]"
    by (simp add: test_reader_def request_ops_def schema_ops_def request_schema_def motors_schema_def motor_schema_def slot_ops_object
        del: slot_ops.simps(4))
  ultimately show ?thesis
    using request_reaches_device [OF _ _ test_memory bridge_ok_static, of "processor_init fresh_manager 0" "\<lambda>_ _. replicate 40 0"
        "test_reader [(''m'', JObject [(''l'', JObject [(''s'', JAtom (Inl 5))] True)] True)]" "new_request :: nat request"
        "[Op_MotorSpeed M_LEFT 5]" quiet_env 10]
    by blast
qed

end
