(* ===== verification/Wifi_Info.thy ===== *)
theory Wifi_Info
  imports Bridge_Processor
begin

text \<open>
  The radio link of the clients (\<open>server/control_server/src/WifiInfo.cpp\<close>) and the processor that
  reports it (\<open>OSInformationProcessor.cpp\<close>). The thread that reads the kernel's tables is a sequence
  of handler calls; what the netlink library delivers to the handlers is a parameter. Texts of the log
  are left out, floating point numbers are rationals.
\<close>

type_synonym u32 = "32 word"

section \<open>MAC addresses\<close>

datatype mac_address = MacAddress u8 u8 u8 u8 u8 u8

fun mac :: "mac_address \<Rightarrow> u8 list" where
  "mac (MacAddress a b c d e f) = [a, b, c, d, e, f]"

text \<open>\<open>memcmp\<close> of two blocks of the same length: the sign of the first difference.\<close>

fun memcmp :: "u8 list \<Rightarrow> u8 list \<Rightarrow> int" where
  "memcmp (a # as) (b # bs) = (if a = b then memcmp as bs else if a < b then -1 else 1)"
| "memcmp as bs = 0"

definition mac_less :: "mac_address \<Rightarrow> mac_address \<Rightarrow> bool" where
  "mac_less m other \<longleftrightarrow> memcmp (mac m) (mac other) < 0"

definition mac_equal :: "mac_address \<Rightarrow> mac_address \<Rightarrow> bool" where
  "mac_equal m other \<longleftrightarrow> memcmp (mac m) (mac other) = 0"

definition hex2 :: "u8 \<Rightarrow> string" where
  "hex2 b = (let digit = (\<lambda>n. ''0123456789abcdef'' ! n) in [digit (unat b div 16), digit (unat b mod 16)])"

definition mac_toString :: "mac_address \<Rightarrow> string" where
  "mac_toString m = concat (map (\<lambda>b. hex2 b @ '':'') (butlast (mac m))) @ hex2 (last (mac m))"

lemma memcmp_less: "length as = length bs \<Longrightarrow> memcmp as bs < 0 \<longleftrightarrow> as < bs"
  by (induction as bs rule: list_induct2) auto

lemma memcmp_equal: "length as = length bs \<Longrightarrow> memcmp as bs = 0 \<longleftrightarrow> as = bs"
  by (induction as bs rule: list_induct2) auto

lemma length_mac [simp]: "length (mac m) = 6"
  by (cases m) simp

lemma mac_inject: "mac m = mac n \<longleftrightarrow> m = n"
  by (cases m; cases n) auto

lemma mac_equal_iff: "mac_equal m n \<longleftrightarrow> m = n"
  by (simp add: mac_equal_def memcmp_equal mac_inject)

text \<open>The order of the keys of \<open>wifiLinkParamsMap\<close>.\<close>

instantiation mac_address :: linorder
begin

definition less_mac_address :: "mac_address \<Rightarrow> mac_address \<Rightarrow> bool" where
  "less_mac_address m n \<longleftrightarrow> mac_less m n"

definition less_eq_mac_address :: "mac_address \<Rightarrow> mac_address \<Rightarrow> bool" where
  "less_eq_mac_address m n \<longleftrightarrow> m = n \<or> mac_less m n"

instance
proof
  fix m n k :: mac_address
  note less_defs = less_mac_address_def less_eq_mac_address_def mac_less_def memcmp_less
  show "m < n \<longleftrightarrow> m \<le> n \<and> \<not> n \<le> m" by (auto simp: less_defs)
  show "m \<le> m" by (simp add: less_defs)
  show "m \<le> n \<Longrightarrow> n \<le> k \<Longrightarrow> m \<le> k" by (auto simp: less_defs)
  show "m \<le> n \<Longrightarrow> n \<le> m \<Longrightarrow> m = n" by (auto simp: less_defs)
  show "m \<le> n \<or> n \<le> m" using mac_inject [of m n] by (auto simp: less_defs)
qed

end

lemma hex_digit_inject: "i < 16 \<Longrightarrow> j < 16 \<Longrightarrow> ''0123456789abcdef'' ! i = ''0123456789abcdef'' ! j \<longleftrightarrow> i = j"
  by (rule nth_eq_iff_index_eq) simp_all

lemma hex2_inject: "hex2 a = hex2 b \<longleftrightarrow> a = b"
proof
  assume "hex2 a = hex2 b"
  then have "unat a div 16 = unat b div 16" "unat a mod 16 = unat b mod 16"
    using u8_below [of a] u8_below [of b]
    by (simp_all only: hex2_def Let_def list.inject hex_digit_inject less_mult_imp_div_less mod_less_divisor zero_less_numeral)
  then show "a = b" by (metis div_mult_mod_eq word_unat_eq_iff)
qed simp

lemma length_hex2 [simp]: "length (hex2 b) = 2"
  by (simp add: hex2_def Let_def)

text \<open>The text determines the address.\<close>

lemma mac_toString_inject: "mac_toString m = mac_toString n \<longleftrightarrow> m = n"
  by (cases m; cases n) (auto simp: mac_toString_def append_eq_append_conv hex2_inject)

section \<open>State\<close>

text \<open>\<open>boost::asio::ip::address\<close> by its bytes, the modes the code names, and \<open>WifiLinkParams\<close>.\<close>

datatype address = V4 "u8 list" | V6 "u8 list"

datatype iftype = IFTYPE_ADHOC | IFTYPE_STATION | IFTYPE_AP | IFTYPE_UNSPECIFIED | IFTYPE_OTHER nat

record link_params =
  lp_txBitrate :: rat
  lp_rxBitrate :: rat
  lp_signalStrength :: rat
  lp_macAddress :: mac_address
  lp_interfaceName :: string

text \<open>\<open>wi_callbacks\<close> counts the callback objects allocated and not released by the program.\<close>

record wifi =
  wi_enabled :: bool
  wi_ipToMacMap :: "address \<Rightarrow> mac_address option"
  wi_wifiLinkParamsMap :: "(mac_address \<times> link_params) list"
  wi_stop :: bool
  wi_interfaceType :: iftype
  wi_callbacks :: nat

definition wifi_init :: "bool \<Rightarrow> wifi" where
  "wifi_init enabled =
     \<lparr>wi_enabled = enabled, wi_ipToMacMap = Map.empty, wi_wifiLinkParamsMap = [], wi_stop = False,
      wi_interfaceType = IFTYPE_UNSPECIFIED, wi_callbacks = 0\<rparr>"

text \<open>Exceptions, and the access through a null pointer that an absent attribute is.\<close>

datatype wifi_thrown = WifiException string | OutOfRange | NullAccess

text \<open>\<open>IFACE_TYPE_NAMES\<close>.\<close>

fun IFACE_TYPE_NAMES :: "iftype \<Rightarrow> string option" where
  "IFACE_TYPE_NAMES IFTYPE_ADHOC = Some ''ad-hoc''"
| "IFACE_TYPE_NAMES IFTYPE_STATION = Some ''managed''"
| "IFACE_TYPE_NAMES IFTYPE_AP = Some ''AP''"
| "IFACE_TYPE_NAMES IFTYPE_UNSPECIFIED = Some ''unspecified''"
| "IFACE_TYPE_NAMES (IFTYPE_OTHER n) = None"

section \<open>The handlers\<close>

text \<open>What a handler tells the library: go on with the next message, or leave the rest.\<close>

datatype nl_action = NL_SKIP | NL_STOP

text \<open>
  The attributes of a message after \<open>nla_parse\<close>. A rate is \<open>None\<close> when its nested attributes cannot be
  parsed, else its 32 and 16 bit fields; the station's attributes may be missing or not parse.
\<close>

type_synonym rate_attr = "(u32 option \<times> u16 option) option"

record station_info =
  si_signal :: "u8 option"
  si_signalAvg :: "u8 option"
  si_txBitrate :: "rate_attr option"
  si_rxBitrate :: "rate_attr option"

datatype sta_attr = StaMissing | StaUnparsable | Sta station_info

record station_msg =
  st_info :: sta_attr
  st_mac :: "mac_address option"
  st_ifindex :: "u32 option"

definition parseBitrate :: "rate_attr \<Rightarrow> wifi_thrown + rat" where
  "parseBitrate bitrate_attr =
     (case bitrate_attr of
        None \<Rightarrow> Inl (WifiException ''failed to parse nested bitrate attributes'')
      | Some (Some b32, b16) \<Rightarrow> Inr (of_nat (unat b32) / 10)
      | Some (None, Some b16) \<Rightarrow> Inr (of_nat (unat b16) / 10)
      | Some (None, None) \<Rightarrow> Inl (WifiException ''could not read bitrate''))"

text \<open>The link a message describes; \<open>indextoname\<close> is the buffer that \<open>if_indextoname\<close> fills.\<close>

definition read_station :: "(u32 \<Rightarrow> string) \<Rightarrow> station_msg \<Rightarrow> wifi_thrown + link_params" where
  "read_station indextoname msg =
     (case st_info msg of
        StaMissing \<Rightarrow> Inl (WifiException ''sta stats missing'')
      | StaUnparsable \<Rightarrow> Inl (WifiException ''failed to parse nested attributes'')
      | Sta sinfo \<Rightarrow>
     (case st_mac msg of None \<Rightarrow> Inl NullAccess | Some macAddress \<Rightarrow>
     (case si_signal sinfo of None \<Rightarrow> Inl (WifiException ''could not read signal strength'') | Some signal \<Rightarrow>
     (case si_txBitrate sinfo of None \<Rightarrow> Inl (WifiException ''could not read TX bitrate'') | Some tx \<Rightarrow>
     (case si_rxBitrate sinfo of None \<Rightarrow> Inl (WifiException ''could not read RX bitrate'') | Some rx \<Rightarrow>
     (case si_signalAvg sinfo of None \<Rightarrow> Inl (WifiException ''could not read average signal strength'') | Some avg \<Rightarrow>
     (case parseBitrate tx of Inl e \<Rightarrow> Inl e | Inr txBitrate \<Rightarrow>
     (case parseBitrate rx of Inl e \<Rightarrow> Inl e | Inr rxBitrate \<Rightarrow>
     (case st_ifindex msg of None \<Rightarrow> Inl NullAccess | Some index \<Rightarrow>
        Inr \<lparr>lp_txBitrate = txBitrate, lp_rxBitrate = rxBitrate, lp_signalStrength = of_int (sint signal),
          lp_macAddress = macAddress, lp_interfaceName = indextoname index\<rparr>)))))))))"

text \<open>\<open>std::map::insert\<close> keeps an element that is already there.\<close>

definition al_insert_new :: "'k::linorder \<Rightarrow> 'v \<Rightarrow> ('k \<times> 'v) list \<Rightarrow> ('k \<times> 'v) list" where
  "al_insert_new k v kvs = (if map_of kvs k = None then al_insert k v kvs else kvs)"

definition map_insert_new :: "'k \<Rightarrow> 'v \<Rightarrow> ('k \<rightharpoonup> 'v) \<Rightarrow> ('k \<rightharpoonup> 'v)" where
  "map_insert_new k v m = (if m k = None then m(k \<mapsto> v) else m)"

lemma al_insert_erased [simp]: "al_insert_new k v (al_erase k kvs) = al_insert k v (al_erase k kvs)"
  by (simp add: al_insert_new_def map_of_al_erase)

lemma map_insert_erased [simp]: "map_insert_new k v (m(k := None)) = m(k \<mapsto> v)"
  by (simp add: map_insert_new_def)

definition dumpStationHandler :: "(u32 \<Rightarrow> string) \<Rightarrow> station_msg \<Rightarrow> wifi \<Rightarrow> wifi \<times> (wifi_thrown + nl_action)" where
  "dumpStationHandler indextoname msg s =
     (case read_station indextoname msg of
        Inl e \<Rightarrow> (s, Inl e)
      | Inr p \<Rightarrow>
          (let macAddress = lp_macAddress p;
               links = al_erase macAddress (wi_wifiLinkParamsMap s);
               links = al_insert_new macAddress p links
           in (s\<lparr>wi_wifiLinkParamsMap := links\<rparr>, Inr NL_SKIP)))"

text \<open>Of the interface's message the mode is what stays.\<close>

record card_msg =
  cm_iftype :: "iftype option"

definition dumpCardInfoHandler :: "card_msg \<Rightarrow> wifi \<Rightarrow> wifi \<times> (wifi_thrown + nl_action)" where
  "dumpCardInfoHandler msg s =
     (case cm_iftype msg of
        None \<Rightarrow> (s, Inr NL_SKIP)
      | Some type \<Rightarrow>
          (let s = s\<lparr>wi_interfaceType := type\<rparr> in
           case IFACE_TYPE_NAMES type of
             None \<Rightarrow> (s, Inl OutOfRange)
           | Some name \<Rightarrow> (s, Inr NL_SKIP)))"

text \<open>An entry of the neighbour table: two addresses, each with its family and bytes.\<close>

datatype nl_family = AF_LLC | AF_INET | AF_INET6 | AF_OTHER nat

record neigh =
  ng_lladdr :: "(nl_family \<times> u8 list) option"
  ng_dst :: "(nl_family \<times> u8 list) option"

text \<open>\<open>memcpy(this->mac, addr, 6)\<close> of the constructor, for an address of six bytes.\<close>

definition mac_of_bytes :: "u8 list \<Rightarrow> mac_address" where
  "mac_of_bytes addr = MacAddress (addr ! 0) (addr ! 1) (addr ! 2) (addr ! 3) (addr ! 4) (addr ! 5)"

definition arpTableDumpHandler :: "neigh \<Rightarrow> wifi \<Rightarrow> wifi \<times> wifi_thrown option" where
  "arpTableDumpHandler n s =
     (case (ng_lladdr n, ng_dst n) of
        (Some (macFamily, macRaw), Some (ipFamily, ipRaw)) \<Rightarrow>
          (let store = (\<lambda>ip. (s\<lparr>wi_ipToMacMap := map_insert_new ip (mac_of_bytes macRaw) ((wi_ipToMacMap s)(ip := None))\<rparr>, None)) in
           if macFamily \<noteq> AF_LLC then (s, None)
           else if length macRaw \<noteq> 6
             then (s, Some (WifiException (''returned MAC address has invalid length: '' @ decimal (length macRaw))))
           else if ipFamily = AF_INET then
             (if length ipRaw \<noteq> 4
              then (s, Some (WifiException (''returned IPv4 address has invalid length: '' @ decimal (length macRaw))))
              else store (V4 ipRaw))
           else if ipFamily = AF_INET6 then
             (if length ipRaw \<noteq> 16
              then (s, Some (WifiException (''returned IPv6 address has invalid length: '' @ decimal (length macRaw))))
              else store (V6 ipRaw))
           else (s, None))
      | _ \<Rightarrow> (s, None))"

section \<open>The dumps\<close>

text \<open>The callbacks of one \<open>nl_recvmsgs\<close>: a message, an error of the kernel, the end of the dump or an
  acknowledgement.\<close>

datatype 'm nl_event = Valid 'm | Error_Event int | Finish_Event | Ack_Event

definition errorHandler :: "int \<Rightarrow> int \<times> nl_action" where "errorHandler error = (error, NL_STOP)"
definition finishHandler :: "int \<times> nl_action" where "finishHandler = (0, NL_SKIP)"
definition ackHandler :: "int \<times> nl_action" where "ackHandler = (0, NL_STOP)"

fun nl_recvmsgs ::
    "('m \<Rightarrow> 's \<Rightarrow> 's \<times> (wifi_thrown + nl_action)) \<Rightarrow> 'm nl_event list \<Rightarrow> 's \<Rightarrow> int \<Rightarrow> ('s \<times> int) \<times> wifi_thrown option" where
  "nl_recvmsgs h [] s err = ((s, err), None)"
| "nl_recvmsgs h (Valid m # es) s err =
     (case h m s of
        (s, Inl e) \<Rightarrow> ((s, err), Some e)
      | (s, Inr NL_SKIP) \<Rightarrow> nl_recvmsgs h es s err
      | (s, Inr NL_STOP) \<Rightarrow> ((s, err), None))"
| "nl_recvmsgs h (Error_Event error # es) s err =
     (case errorHandler error of (err, NL_SKIP) \<Rightarrow> nl_recvmsgs h es s err | (err, NL_STOP) \<Rightarrow> ((s, err), None))"
| "nl_recvmsgs h (Finish_Event # es) s err =
     (case finishHandler of (err, NL_SKIP) \<Rightarrow> nl_recvmsgs h es s err | (err, NL_STOP) \<Rightarrow> ((s, err), None))"
| "nl_recvmsgs h (Ack_Event # es) s err =
     (case ackHandler of (err, NL_SKIP) \<Rightarrow> nl_recvmsgs h es s err | (err, NL_STOP) \<Rightarrow> ((s, err), None))"

text \<open>The loop \<open>while (err > 0)\<close> over calls of \<open>nl_recvmsgs\<close>. A dump ends, ends by an exception, or waits
  for further calls when those given are used up.\<close>

datatype dump_end = DumpDone | DumpThrew wifi_thrown | DumpWaits

fun recv_loop ::
    "('m \<Rightarrow> 's \<Rightarrow> 's \<times> (wifi_thrown + nl_action)) \<Rightarrow> 'm nl_event list list \<Rightarrow> 's \<Rightarrow> int \<Rightarrow> 's \<times> dump_end" where
  "recv_loop h [] s err = (s, if 0 < err then DumpWaits else DumpDone)"
| "recv_loop h (es # calls) s err =
     (if 0 < err
      then
        (case nl_recvmsgs h es s err of
           ((s, err), Some e) \<Rightarrow> (s, DumpThrew e)
         | ((s, err), None) \<Rightarrow> recv_loop h calls s err)
      else (s, DumpDone))"

text \<open>
  What the library does in a dump: the allocations of the message and of both callback objects
  succeed, the attribute fits, the value of \<open>nl_send_auto\<close> and the calls received. \<open>de_garbage\<close> is
  the text of the uninitialised \<open>err\<close>.
\<close>

record 'm dump_env =
  de_msg :: bool
  de_cb :: bool
  de_s_cb :: bool
  de_put :: bool
  de_garbage :: string
  de_send :: int
  de_calls :: "'m nl_event list list"

definition dump :: "('m \<Rightarrow> wifi \<Rightarrow> wifi \<times> (wifi_thrown + nl_action)) \<Rightarrow> 'm dump_env \<Rightarrow> wifi \<Rightarrow> wifi \<times> dump_end" where
  "dump handler env s =
     (if \<not> de_msg env then (s, DumpThrew (WifiException ''failed to allocate netlink message''))
      else
        (let s = s\<lparr>wi_callbacks := wi_callbacks s + of_bool (de_cb env) + of_bool (de_s_cb env)\<rparr> in
         if \<not> de_cb env \<or> \<not> de_s_cb env then (s, DumpThrew (WifiException ''failed to allocate netlink callbacks''))
         else if \<not> de_put env
           then (s, DumpThrew (WifiException (''failed to execute station dump: '' @ de_garbage env)))
         else
           (let err = de_send env in
            if err < 0
            then (s\<lparr>wi_callbacks := wi_callbacks s - 1\<rparr>, DumpThrew (WifiException ''failed to execute station dump''))
            else recv_loop handler (de_calls env) s err)))"

definition dumpCardAttributes :: "card_msg dump_env \<Rightarrow> wifi \<Rightarrow> wifi \<times> dump_end" where
  "dumpCardAttributes = dump dumpCardInfoHandler"

definition dumpStation :: "(u32 \<Rightarrow> string) \<Rightarrow> station_msg dump_env \<Rightarrow> wifi \<Rightarrow> wifi \<times> dump_end" where
  "dumpStation indextoname = dump (dumpStationHandler indextoname)"

text \<open>\<open>nl_cache_foreach\<close> calls the handler for each entry; \<open>refill\<close> is the value of \<open>nl_cache_refill\<close>.\<close>

fun cache_foreach :: "neigh list \<Rightarrow> wifi \<Rightarrow> wifi \<times> dump_end" where
  "cache_foreach [] s = (s, DumpDone)"
| "cache_foreach (n # ns) s =
     (case arpTableDumpHandler n s of
        (s, Some e) \<Rightarrow> (s, DumpThrew e)
      | (s, None) \<Rightarrow> cache_foreach ns s)"

definition dumpArp :: "int \<Rightarrow> neigh list \<Rightarrow> wifi \<Rightarrow> wifi \<times> dump_end" where
  "dumpArp refill ns s = (if refill < 0 then (s, DumpThrew (WifiException ''nf_cache_fill'')) else cache_foreach ns s)"

section \<open>The thread\<close>

text \<open>A round reads the card, the neighbour table and the stations. An exception leaves the thread's
  function and ends the program.\<close>

record acquisition =
  aq_card :: "card_msg dump_env"
  aq_refill :: int
  aq_neighbours :: "neigh list"
  aq_station :: "station_msg dump_env"

definition acquire_round :: "(u32 \<Rightarrow> string) \<Rightarrow> acquisition \<Rightarrow> wifi \<Rightarrow> wifi \<times> dump_end" where
  "acquire_round indextoname a s =
     (case dumpCardAttributes (aq_card a) s of
        (s, DumpDone) \<Rightarrow>
          (case dumpArp (aq_refill a) (aq_neighbours a) s of
             (s, DumpDone) \<Rightarrow> dumpStation indextoname (aq_station a) s
           | r \<Rightarrow> r)
      | r \<Rightarrow> r)"

fun acquireNetworkInformation :: "(u32 \<Rightarrow> string) \<Rightarrow> acquisition list \<Rightarrow> wifi \<Rightarrow> wifi \<times> dump_end" where
  "acquireNetworkInformation indextoname [] s = (s, DumpDone)"
| "acquireNetworkInformation indextoname (a # as) s =
     (if wi_stop s then (s, DumpDone)
      else
        (case acquire_round indextoname a s of
           (s, DumpDone) \<Rightarrow> acquireNetworkInformation indextoname as s
         | r \<Rightarrow> r))"

section \<open>The questions of the server\<close>

text \<open>
  \<open>getWifiLinkParams\<close> holds one mutex at a time: \<open>s\<close> is the state at its first look, \<open>s'\<close> the one at
  the second, when the thread may have gone on. \<open>show_ip\<close> is \<open>address::to_string\<close>.
\<close>

definition getWifiLinkParams :: "(address \<Rightarrow> string) \<Rightarrow> address \<Rightarrow> wifi \<Rightarrow> wifi \<Rightarrow> wifi_thrown + link_params" where
  "getWifiLinkParams show_ip address s s' =
     (if \<not> wi_enabled s then Inl (WifiException ''WifiInfo is disabled'')
      else if wi_interfaceType s = IFTYPE_STATION then
        (case wi_wifiLinkParamsMap s of
           [] \<Rightarrow> Inl (WifiException ''wifiLinkParamsMap is empty'')
         | params # rest \<Rightarrow> Inr (snd params))
      else
        (case wi_ipToMacMap s address of
           None \<Rightarrow> Inl (WifiException (''could not find client with IP: '' @ show_ip address))
         | Some clientMac \<Rightarrow>
             (case map_of (wi_wifiLinkParamsMap s') clientMac of
                None \<Rightarrow> Inl (WifiException (''could not find link parameters for client '' @ mac_toString clientMac))
              | Some p \<Rightarrow> Inr p)))"

text \<open>\<open>OSInformationProcessor::process\<close>: the fields it writes; only a \<open>WifiException\<close> is caught.\<close>

definition os_process :: "(wifi_thrown + link_params) \<Rightarrow> wifi_thrown + (string \<times> report) list" where
  "os_process link =
     (case link of
        Inr linkParams \<Rightarrow>
          Inr [(''w'', R_Object [(''s'', R_Double (lp_signalStrength linkParams)), (''txb'', R_Double (lp_txBitrate linkParams)),
            (''rxb'', R_Double (lp_rxBitrate linkParams))])]
      | Inl (WifiException what) \<Rightarrow>
          Inr [(''w'', R_Object [(''txb'', R_Int 0), (''rxb'', R_Int 0), (''s'', R_Int 0)])]
      | Inl e \<Rightarrow> Inl e)"

section \<open>The table of links\<close>

text \<open>Whatever the library delivers, the table stays ordered, each link is filed under its own
  address, and nothing is forgotten.\<close>

definition wifi_ok :: "wifi \<Rightarrow> bool" where
  "wifi_ok s \<longleftrightarrow> al_sorted (wi_wifiLinkParamsMap s) \<and> (\<forall>(m, p) \<in> set (wi_wifiLinkParamsMap s). lp_macAddress p = m)"

definition wifi_grows :: "wifi \<Rightarrow> wifi \<Rightarrow> bool" where
  "wifi_grows s s' \<longleftrightarrow> wi_enabled s' = wi_enabled s \<and> (wifi_ok s \<longrightarrow> wifi_ok s' \<and>
     dom (wi_ipToMacMap s) \<subseteq> dom (wi_ipToMacMap s') \<and>
     fst ` set (wi_wifiLinkParamsMap s) \<subseteq> fst ` set (wi_wifiLinkParamsMap s'))"

lemma wifi_init_ok: "wifi_ok (wifi_init b)"
  by (simp add: wifi_ok_def wifi_init_def al.invar_empty)

lemma wifi_grows_refl [simp]: "wifi_grows s s"
  by (simp add: wifi_grows_def)

lemma wifi_grows_trans: "wifi_grows s t \<Longrightarrow> wifi_grows t u \<Longrightarrow> wifi_grows s u"
  unfolding wifi_grows_def by (metis subset_trans)

lemma wifi_grows_callbacks [simp]: "wifi_grows s (s\<lparr>wi_callbacks := n\<rparr>)"
  by (simp add: wifi_grows_def wifi_ok_def)

lemma set_al_insert: "set (al_insert k v m) \<subseteq> Set.insert (k, v) (set m)"
  by (induction k v m rule: al_insert.induct) auto

lemma links_replaced: "al_sorted m \<Longrightarrow> map_of (al_insert k v (al_erase k m)) = (map_of m)(k \<mapsto> v)"
  by (rule ext) (simp add: map_of_al_insert map_of_al_erase)

lemma station_grows: "wifi_grows s (fst (dumpStationHandler indextoname msg s))"
proof (cases "read_station indextoname msg")
  case (Inr p)
  have "fst ` set (wi_wifiLinkParamsMap s) \<subseteq> fst ` set (al_insert (lp_macAddress p) p (al_erase (lp_macAddress p) (wi_wifiLinkParamsMap s)))"
    by (auto simp: keys_al_insert al_erase_def image_iff)
  moreover have "\<forall>(m, q) \<in> set (al_insert (lp_macAddress p) p (al_erase (lp_macAddress p) (wi_wifiLinkParamsMap s))). lp_macAddress q = m"
    if "wifi_ok s"
    using that set_al_insert [of "lp_macAddress p" p "al_erase (lp_macAddress p) (wi_wifiLinkParamsMap s)"]
    by (fastforce simp: wifi_ok_def al_erase_def)
  ultimately show ?thesis
    by (simp add: dumpStationHandler_def Inr Let_def wifi_grows_def wifi_ok_def al_sorted_insert al_sorted_erase)
qed (simp add: dumpStationHandler_def)

lemma card_grows: "wifi_grows s (fst (dumpCardInfoHandler msg s))"
  by (simp add: dumpCardInfoHandler_def wifi_grows_def wifi_ok_def Let_def split: option.split)

lemma arp_grows: "wifi_grows s (fst (arpTableDumpHandler n s))"
  by (auto simp: arpTableDumpHandler_def wifi_grows_def wifi_ok_def Let_def split: option.split prod.split)

text \<open>What the dumps ask of a handler.\<close>

locale netlink_handler =
  fixes h :: "'m \<Rightarrow> wifi \<Rightarrow> wifi \<times> (wifi_thrown + nl_action)"
  assumes handler_grows: "wifi_grows s (fst (h m s))"
begin

lemma recvmsgs_grows: "wifi_grows s (fst (fst (nl_recvmsgs h es s err)))"
proof (induction es arbitrary: s err)
  case (Cons e es)
  show ?case
  proof (cases e)
    case (Valid m)
    obtain s' r where "h m s = (s', r)" by fastforce
    then show ?thesis
      using Cons.IH handler_grows [of s m] by (auto simp: Valid split: sum.split nl_action.split intro: wifi_grows_trans)
  qed (simp_all add: errorHandler_def finishHandler_def ackHandler_def Cons.IH)
qed simp

lemma recv_loop_grows: "wifi_grows s (fst (recv_loop h calls s err))"
proof (induction calls arbitrary: s err)
  case (Cons es calls)
  obtain s' err' e where r: "nl_recvmsgs h es s err = ((s', err'), e)" by (metis surj_pair)
  then have "wifi_grows s s'" using recvmsgs_grows [of s es err] by simp
  then show ?case using Cons.IH [of s' err'] by (cases e) (auto simp: r intro: wifi_grows_trans)
qed simp

lemma dump_grows: "wifi_grows s (fst (dump h env s))"
proof -
  have "wifi_grows s (fst (recv_loop h calls (s\<lparr>wi_callbacks := n\<rparr>) err))" for n calls err
    by (rule wifi_grows_trans [OF wifi_grows_callbacks recv_loop_grows])
  then show ?thesis by (simp add: dump_def Let_def)
qed

end

interpretation card_messages: netlink_handler dumpCardInfoHandler
  by unfold_locales (rule card_grows)

interpretation station_messages: netlink_handler "dumpStationHandler indextoname" for indextoname
  by unfold_locales (rule station_grows)

lemma foreach_grows: "wifi_grows s (fst (cache_foreach ns s))"
proof (induction ns arbitrary: s)
  case (Cons n ns)
  obtain s' e where r: "arpTableDumpHandler n s = (s', e)" by fastforce
  then have "wifi_grows s s'" using arp_grows [of s n] by simp
  then show ?case using Cons.IH [of s'] by (cases e) (auto simp: r intro: wifi_grows_trans)
qed simp

lemma round_grows: "wifi_grows s (fst (acquire_round indextoname a s))"
proof -
  obtain s1 e1 where 1: "dumpCardAttributes (aq_card a) s = (s1, e1)" by fastforce
  obtain s2 e2 where 2: "dumpArp (aq_refill a) (aq_neighbours a) s1 = (s2, e2)" by fastforce
  have "wifi_grows s s1" using card_messages.dump_grows [of s "aq_card a"] by (simp add: 1 [unfolded dumpCardAttributes_def])
  moreover have "wifi_grows s1 s2" using foreach_grows [of s1 "aq_neighbours a"] 2 by (auto simp: dumpArp_def split: if_splits)
  moreover have "wifi_grows s2 (fst (dumpStation indextoname (aq_station a) s2))"
    unfolding dumpStation_def by (rule station_messages.dump_grows)
  ultimately show ?thesis by (cases e1; cases e2) (auto simp: acquire_round_def 1 2 intro: wifi_grows_trans)
qed

lemma acquire_grows: "wifi_grows s (fst (acquireNetworkInformation indextoname as s))"
proof (induction as arbitrary: s)
  case (Cons a as)
  obtain s' e where r: "acquire_round indextoname a s = (s', e)" by fastforce
  then have "wifi_grows s s'" using round_grows [of s indextoname a] by simp
  then show ?case using Cons.IH [of s'] by (cases e) (auto simp: r intro: wifi_grows_trans)
qed simp

section \<open>Complete rounds\<close>

text \<open>A dump that succeeds: the messages, in any number of calls, closed by the end of the dump or by an
  acknowledgement.\<close>

definition complete_dump :: "'m list \<Rightarrow> 'm dump_env \<Rightarrow> bool" where
  "complete_dump msgs env \<longleftrightarrow> de_msg env \<and> de_cb env \<and> de_s_cb env \<and> de_put env \<and> 0 < de_send env \<and>
     (\<exists>closing \<in> {Finish_Event, Ack_Event}. concat (de_calls env) = map Valid msgs @ [closing])"

lemma recvmsgs_valid:
  assumes "\<And>m s. m \<in> set msgs \<Longrightarrow> snd (h m s) = Inr NL_SKIP"
  shows "nl_recvmsgs h (map Valid msgs @ es) s err = nl_recvmsgs h es (fold (\<lambda>m s. fst (h m s)) msgs s) err"
  using assms
proof (induction msgs arbitrary: s)
  case (Cons m msgs)
  then have "h m s = (fst (h m s), Inr NL_SKIP)" by (metis list.set_intros(1) prod.collapse)
  then show ?case using Cons.IH [of "fst (h m s)"] Cons.prems by (simp split: prod.split) force
qed simp

lemma recv_loop_done: "recv_loop h calls s 0 = (s, DumpDone)"
  by (cases calls) simp_all

lemma recv_loop_complete:
  assumes "\<And>m s. m \<in> set msgs \<Longrightarrow> snd (h m s) = Inr NL_SKIP"
    and "closing \<in> {Finish_Event, Ack_Event}" and "concat calls = map Valid msgs @ [closing]" and "0 < err"
  shows "recv_loop h calls s err = (fold (\<lambda>m s. fst (h m s)) msgs s, DumpDone)"
  using assms
proof (induction calls arbitrary: msgs s)
  case (Cons es calls)
  show ?case
  proof (cases "length es \<le> length msgs")
    case True
    obtain n where n: "length es = n" by simp
    have es: "es = map Valid (take n msgs)" "concat calls = map Valid (drop n msgs) @ [closing]"
    proof -
      have all: "es @ concat calls = map Valid msgs @ [closing]" using Cons.prems(3) by simp
      have "n \<le> length msgs" using True by (simp add: n)
      then have "take n (map Valid msgs @ [closing]) = map Valid (take n msgs)"
          "drop n (map Valid msgs @ [closing]) = map Valid (drop n msgs) @ [closing]"
        by (simp_all add: take_map drop_map)
      moreover have "take n (es @ concat calls) = es" "drop n (es @ concat calls) = concat calls"
        by (simp_all add: n [symmetric])
      ultimately show "es = map Valid (take n msgs)" "concat calls = map Valid (drop n msgs) @ [closing]"
        by (metis all)+
    qed
    have skips: "snd (h m s) = Inr NL_SKIP" if "m \<in> set (take n msgs) \<or> m \<in> set (drop n msgs)" for m s
      using that Cons.prems(1) by (meson in_set_takeD in_set_dropD)
    have "nl_recvmsgs h es s err = ((fold (\<lambda>m s. fst (h m s)) (take n msgs) s, err), None)"
      using recvmsgs_valid [of "take n msgs" h "[]" s err] skips by (simp add: es(1))
    moreover have "recv_loop h calls (fold (\<lambda>m s. fst (h m s)) (take n msgs) s) err = (fold (\<lambda>m s. fst (h m s)) msgs s, DumpDone)"
    proof -
      have "fold f msgs s = fold f (drop n msgs) (fold f (take n msgs) s)" for f :: "'a \<Rightarrow> 'b \<Rightarrow> 'b"
        by (metis append_take_drop_id comp_apply fold_append)
      then show ?thesis
        using Cons.IH [of "drop n msgs" "fold (\<lambda>m s. fst (h m s)) (take n msgs) s", OF skips Cons.prems(2) es(2) Cons.prems(4)] by simp
    qed
    ultimately show ?thesis using Cons.prems(4) by simp
  next
    case False
    have "length es + length (concat calls) = length msgs + 1"
      using arg_cong [OF Cons.prems(3), of length] by (simp only: concat.simps length_append length_map list.size)
    then have "concat calls = []" using False by (cases "concat calls") simp_all
    then have "es = map Valid msgs @ [closing]" using Cons.prems(3) by (simp only: concat.simps append_Nil2)
    then have "nl_recvmsgs h es s err = ((fold (\<lambda>m s. fst (h m s)) msgs s, 0), None)"
      using recvmsgs_valid [of msgs h "[closing]" s err] Cons.prems(1,2) by (auto simp: finishHandler_def ackHandler_def)
    then show ?thesis using Cons.prems(4) by (simp add: recv_loop_done)
  qed
qed simp

lemma dump_complete:
  assumes "complete_dump msgs env" and "\<And>m s. m \<in> set msgs \<Longrightarrow> snd (h m s) = Inr NL_SKIP"
  shows "dump h env s = (fold (\<lambda>m s. fst (h m s)) msgs (s\<lparr>wi_callbacks := wi_callbacks s + 2\<rparr>), DumpDone)"
proof -
  obtain closing where "closing \<in> {Finish_Event, Ack_Event}" "concat (de_calls env) = map Valid msgs @ [closing]"
    using assms(1) by (auto simp: complete_dump_def)
  from recv_loop_complete [OF assms(2) this] assms(1) show ?thesis
    by (simp add: dump_def complete_dump_def Let_def numeral_2_eq_2)
qed

text \<open>What a complete round observes: the mode, the client addresses and the links.\<close>

record observation =
  ob_mode :: iftype
  ob_neighbours :: "(address \<times> mac_address) list"
  ob_links :: "link_params list"

fun neighbour :: "address \<times> mac_address \<Rightarrow> neigh" where
  "neighbour (V4 ip, m) = \<lparr>ng_lladdr = Some (AF_LLC, mac m), ng_dst = Some (AF_INET, ip)\<rparr>"
| "neighbour (V6 ip, m) = \<lparr>ng_lladdr = Some (AF_LLC, mac m), ng_dst = Some (AF_INET6, ip)\<rparr>"

fun address_ok :: "address \<Rightarrow> bool" where
  "address_ok (V4 ip) \<longleftrightarrow> length ip = 4"
| "address_ok (V6 ip) \<longleftrightarrow> length ip = 16"

definition observes :: "(u32 \<Rightarrow> string) \<Rightarrow> acquisition \<Rightarrow> observation \<Rightarrow> bool" where
  "observes indextoname a ob \<longleftrightarrow>
     complete_dump [\<lparr>cm_iftype = Some (ob_mode ob)\<rparr>] (aq_card a) \<and> IFACE_TYPE_NAMES (ob_mode ob) \<noteq> None \<and>
     0 \<le> aq_refill a \<and> aq_neighbours a = map neighbour (ob_neighbours ob) \<and> (\<forall>(ip, m) \<in> set (ob_neighbours ob). address_ok ip) \<and>
     (\<exists>msgs. complete_dump msgs (aq_station a) \<and> map (read_station indextoname) msgs = map Inr (ob_links ob))"

text \<open>The state after observations: the last mode, and per key the last observation.\<close>

definition observed :: "observation list \<Rightarrow> wifi \<Rightarrow> bool" where
  "observed obs s \<longleftrightarrow> wi_enabled s \<and> \<not> wi_stop s \<and> wifi_ok s \<and>
     wi_interfaceType s = (if obs = [] then IFTYPE_UNSPECIFIED else ob_mode (last obs)) \<and>
     wi_ipToMacMap s = map_of (rev (concat (map ob_neighbours obs))) \<and>
     map_of (wi_wifiLinkParamsMap s) = map_of (rev (map (\<lambda>p. (lp_macAddress p, p)) (concat (map ob_links obs)))) \<and>
     wi_callbacks s = 4 * length obs"

lemma mac_of_bytes_mac [simp]: "mac_of_bytes (mac m) = m"
  by (cases m) (simp add: mac_of_bytes_def)

lemma foreach_neighbours:
  "(\<forall>(ip, m) \<in> set ns. address_ok ip) \<Longrightarrow>
   cache_foreach (map neighbour ns) s = (s\<lparr>wi_ipToMacMap := wi_ipToMacMap s ++ map_of (rev ns)\<rparr>, DumpDone)"
proof (induction ns arbitrary: s)
  case (Cons n ns)
  obtain ip m where n: "n = (ip, m)" by fastforce
  have "arpTableDumpHandler (neighbour n) s = (s\<lparr>wi_ipToMacMap := (wi_ipToMacMap s)(ip \<mapsto> m)\<rparr>, None)"
    using Cons.prems by (cases ip) (simp_all add: n arpTableDumpHandler_def Let_def)
  then show ?case using Cons by (simp add: n map_add_def fun_eq_iff split: option.split)
qed simp

definition file_link :: "link_params \<Rightarrow> (mac_address \<times> link_params) list \<Rightarrow> (mac_address \<times> link_params) list" where
  "file_link p links = al_insert (lp_macAddress p) p (al_erase (lp_macAddress p) links)"

lemma stations_observed:
  "map (read_station indextoname) msgs = map Inr ps \<Longrightarrow>
   fold (\<lambda>m s. fst (dumpStationHandler indextoname m s)) msgs s =
     s\<lparr>wi_wifiLinkParamsMap := fold file_link ps (wi_wifiLinkParamsMap s)\<rparr>"
proof (induction msgs arbitrary: ps s)
  case (Cons msg msgs)
  then obtain p qs where ps: "ps = p # qs" "read_station indextoname msg = Inr p" "map (read_station indextoname) msgs = map Inr qs"
    by (cases ps) auto
  then have "fst (dumpStationHandler indextoname msg s) = s\<lparr>wi_wifiLinkParamsMap := file_link p (wi_wifiLinkParamsMap s)\<rparr>"
    by (simp add: dumpStationHandler_def Let_def file_link_def)
  then show ?case using Cons.IH [OF ps(3)] by (simp add: ps(1))
qed simp

lemma file_links:
  "al_sorted links \<Longrightarrow> map_of (fold file_link ps links) = map_of links ++ map_of (rev (map (\<lambda>p. (lp_macAddress p, p)) ps))"
proof (induction ps arbitrary: links)
  case (Cons p ps)
  then have "al_sorted (file_link p links)" by (simp add: file_link_def al_sorted_insert al_sorted_erase)
  from Cons.IH [OF this] Cons.prems show ?case
    by (simp add: file_link_def links_replaced fun_eq_iff map_add_def split: option.split)
qed simp

lemma round_observed:
  assumes "observes indextoname a ob" and "observed obs s"
  shows "\<exists>s'. acquire_round indextoname a s = (s', DumpDone) \<and> observed (obs @ [ob]) s'"
proof -
  obtain msgs where card: "complete_dump [\<lparr>cm_iftype = Some (ob_mode ob)\<rparr>] (aq_card a)" "IFACE_TYPE_NAMES (ob_mode ob) \<noteq> None"
    and arp: "0 \<le> aq_refill a" "aq_neighbours a = map neighbour (ob_neighbours ob)" "\<forall>(ip, m) \<in> set (ob_neighbours ob). address_ok ip"
    and station: "complete_dump msgs (aq_station a)" "map (read_station indextoname) msgs = map Inr (ob_links ob)"
    using assms(1) unfolding observes_def by blast
  have skip1: "snd (dumpCardInfoHandler m t) = Inr NL_SKIP" if "m \<in> set [\<lparr>cm_iftype = Some (ob_mode ob)\<rparr>]" for m t
    using that card(2) by (auto simp: dumpCardInfoHandler_def Let_def)
  have skip2: "snd (dumpStationHandler indextoname m t) = Inr NL_SKIP" if "m \<in> set msgs" for m t
  proof -
    have "read_station indextoname m \<in> set (map Inr (ob_links ob))" using that station(2) by (metis image_eqI set_map)
    then show ?thesis by (auto simp: dumpStationHandler_def Let_def)
  qed
  define s1 where "s1 = s\<lparr>wi_callbacks := wi_callbacks s + 2, wi_interfaceType := ob_mode ob\<rparr>"
  have "dumpCardAttributes (aq_card a) s = (s1, DumpDone)"
    using card(2) unfolding dumpCardAttributes_def
    by (subst dump_complete [OF card(1) skip1]) (auto simp: dumpCardInfoHandler_def Let_def s1_def numeral_2_eq_2)
  moreover define s2 where "s2 = s1\<lparr>wi_ipToMacMap := wi_ipToMacMap s1 ++ map_of (rev (ob_neighbours ob))\<rparr>"
  have "dumpArp (aq_refill a) (aq_neighbours a) s1 = (s2, DumpDone)"
    using arp by (simp add: dumpArp_def foreach_neighbours s2_def)
  moreover define s3 where "s3 = s2\<lparr>wi_callbacks := wi_callbacks s2 + 2, wi_wifiLinkParamsMap := fold file_link (ob_links ob) (wi_wifiLinkParamsMap s2)\<rparr>"
  have "dumpStation indextoname (aq_station a) s2 = (s3, DumpDone)"
    unfolding dumpStation_def
    by (subst dump_complete [OF station(1) skip2]) (simp_all add: stations_observed [OF station(2)] s3_def numeral_2_eq_2)
  ultimately have round: "acquire_round indextoname a s = (s3, DumpDone)" by (simp add: acquire_round_def)
  have "al_sorted (wi_wifiLinkParamsMap s)" "wifi_ok s" using assms(2) by (simp_all add: observed_def wifi_ok_def)
  moreover have "wifi_ok s3"
    using round_grows [of s indextoname a] \<open>wifi_ok s\<close> by (simp add: round wifi_grows_def)
  ultimately have "observed (obs @ [ob]) s3"
    using assms(2) by (simp add: observed_def s3_def s2_def s1_def file_links map_of_append)
  with round show ?thesis by blast
qed

lemma acquire_observed:
  "list_all2 (observes indextoname) as obs \<Longrightarrow> observed before s \<Longrightarrow>
   \<exists>s'. acquireNetworkInformation indextoname as s = (s', DumpDone) \<and> observed (before @ obs) s'"
proof (induction as obs arbitrary: before s rule: list_all2_induct)
  case (Cons a as ob obs)
  from round_observed [OF Cons(1) Cons.prems] obtain t where
    "acquire_round indextoname a s = (t, DumpDone)" "observed (before @ [ob]) t" by blast
  moreover from Cons.IH [OF this(2)] obtain s' where
    "acquireNetworkInformation indextoname as t = (s', DumpDone)" "observed (before @ ob # obs) s'" by auto
  moreover have "\<not> wi_stop s" using Cons.prems by (simp add: observed_def)
  ultimately show ?case by simp
qed simp

lemma observed_init: "observed [] (wifi_init True)"
  using wifi_init_ok [of True] by (simp add: observed_def wifi_init_def)

lemma state_observed:
  assumes "list_all2 (observes indextoname) as obs"
  shows "snd (acquireNetworkInformation indextoname as (wifi_init True)) = DumpDone"
    and "observed obs (fst (acquireNetworkInformation indextoname as (wifi_init True)))"
  using acquire_observed [OF assms observed_init] by auto

lemma al_sorted_hd: "al_sorted ((k, v) # kvs) \<Longrightarrow> Min (dom (map_of ((k, v) # kvs))) = k"
  by (rule Min_eqI) (auto simp: al_sorted_Cons dom_map_of_conv_image_fst)

definition stations_seen :: "observation list \<Rightarrow> mac_address set" where
  "stations_seen obs = lp_macAddress ` set (concat (map ob_links obs))"

definition latest_link :: "observation list \<Rightarrow> mac_address \<Rightarrow> link_params option" where
  "latest_link obs m = map_of (rev (map (\<lambda>p. (lp_macAddress p, p)) (concat (map ob_links obs)))) m"

lemma dom_latest_link: "dom (latest_link obs) = stations_seen obs"
  by (simp add: latest_link_def [abs_def] stations_seen_def dom_map_of_conv_image_fst image_image)

section \<open>Properties\<close>

text \<open>C16: What the server reports in ad-hoc mode. After complete rounds of the thread, the answer for a
  client is the last link observed for the address that was last observed for its IP, also when the
  thread completes further rounds between the two parts of the question.\<close>

theorem answer_is_latest_link:
  assumes "list_all2 (observes indextoname) as obs" and "list_all2 (observes indextoname) (as @ bs) (obs @ obs')"
    and "obs \<noteq> []" and "ob_mode (last obs) \<noteq> IFTYPE_STATION"
  shows "getWifiLinkParams show_ip ip (fst (acquireNetworkInformation indextoname as (wifi_init True)))
      (fst (acquireNetworkInformation indextoname (as @ bs) (wifi_init True))) =
    (case map_of (rev (concat (map ob_neighbours obs))) ip of
       None \<Rightarrow> Inl (WifiException (''could not find client with IP: '' @ show_ip ip))
     | Some m \<Rightarrow>
         (case latest_link (obs @ obs') m of
            None \<Rightarrow> Inl (WifiException (''could not find link parameters for client '' @ mac_toString m))
          | Some p \<Rightarrow> Inr p))"
  using state_observed(2) [OF assms(1)] state_observed(2) [OF assms(2)] assms(3,4)
  by (simp add: getWifiLinkParams_def observed_def latest_link_def split: option.split)

text \<open>What the server reports in managed mode. It is the link of the station with the lowest address
  that was ever seen, not of the access point in use: after roaming to one with a higher address the
  server goes on reporting the old one.\<close>

theorem managed_mode_reports_lowest_address:
  assumes "list_all2 (observes indextoname) as obs" and "obs \<noteq> []" and "ob_mode (last obs) = IFTYPE_STATION"
    and "stations_seen obs \<noteq> {}"
  shows "getWifiLinkParams show_ip ip (fst (acquireNetworkInformation indextoname as (wifi_init True))) s' =
    Inr (the (latest_link obs (Min (stations_seen obs))))"
proof -
  define s where "s = fst (acquireNetworkInformation indextoname as (wifi_init True))"
  have s: "observed obs s" using state_observed(2) [OF assms(1)] by (simp add: s_def)
  then have links: "map_of (wi_wifiLinkParamsMap s) = latest_link obs" "al_sorted (wi_wifiLinkParamsMap s)"
    by (simp_all add: observed_def latest_link_def [abs_def] wifi_ok_def)
  have "dom (map_of (wi_wifiLinkParamsMap s)) = stations_seen obs" by (simp add: links dom_latest_link)
  then obtain m p rest where first: "wi_wifiLinkParamsMap s = (m, p) # rest" using assms(4)
    by (cases "wi_wifiLinkParamsMap s") auto
  have "Min (stations_seen obs) = m"
    using al_sorted_hd [OF links(2) [unfolded first]] by (simp add: links(1) [symmetric, unfolded first] dom_latest_link [symmetric])
  moreover have "latest_link obs m = Some p" by (simp add: links(1) [symmetric] first)
  ultimately show ?thesis using s assms(2,3) by (simp add: getWifiLinkParams_def observed_def first flip: s_def)
qed

text \<open>Every round leaks. After \<open>n\<close> complete rounds the program has allocated \<open>4 * n\<close> callback
  objects of the netlink library and released none; a round is made every 100 ms.\<close>

theorem callbacks_leak:
  assumes "list_all2 (observes indextoname) as obs"
  shows "wi_callbacks (fst (acquireNetworkInformation indextoname as (wifi_init True))) = 4 * length as"
  using state_observed(2) [OF assms] list_all2_lengthD [OF assms] by (simp add: observed_def)

text \<open>The server's question is never answered by anything but a link or a \<open>WifiException\<close>, so that the
  processor always writes the field \<open>w\<close> with three numbers.\<close>

lemma link_or_exception: "getWifiLinkParams show_ip ip s s' = Inl e \<Longrightarrow> \<exists>what. e = WifiException what"
  by (auto simp: getWifiLinkParams_def split: if_splits list.splits option.splits)

text \<open>An error of the kernel ends a dump like its regular end: the tables stay as they are and the thread
  goes on.\<close>

lemma kernel_error_is_silent:
  assumes "de_msg env" "de_cb env" "de_s_cb env" "de_put env" "0 < de_send env" "de_calls env = [[Error_Event error]]" "error < 0"
  shows "dump h env s = (s\<lparr>wi_callbacks := wi_callbacks s + 2\<rparr>, DumpDone)"
  using assms by (simp add: dump_def Let_def errorHandler_def numeral_2_eq_2)

text \<open>A mode without a name, for example of a monitor interface, is stored and ends the thread.\<close>

lemma unnamed_mode_ends_thread:
  assumes "de_msg env" "de_cb env" "de_s_cb env" "de_put env" "0 < de_send env"
    and "de_calls env = [[Valid \<lparr>cm_iftype = Some (IFTYPE_OTHER n)\<rparr>]]"
  shows "snd (dumpCardAttributes env s) = DumpThrew OutOfRange"
  using assms by (simp add: dumpCardAttributes_def dump_def dumpCardInfoHandler_def Let_def)

section \<open>Examples\<close>

definition test_dump :: "'m list \<Rightarrow> 'm dump_env" where
  "test_dump msgs = \<lparr>de_msg = True, de_cb = True, de_s_cb = True, de_put = True, de_garbage = [], de_send = 28,
     de_calls = [map Valid msgs, [Finish_Event]]\<rparr>"

lemma test_dump_complete: "complete_dump msgs (test_dump msgs)"
  by (simp add: complete_dump_def test_dump_def)

definition test_station :: "mac_address \<Rightarrow> u8 \<Rightarrow> station_msg" where
  "test_station m signal = \<lparr>st_info = Sta \<lparr>si_signal = Some signal, si_signalAvg = Some signal,
     si_txBitrate = Some (Some (None, Some 540)), si_rxBitrate = Some (Some (Some 60, Some 60))\<rparr>,
     st_mac = Some m, st_ifindex = Some 3\<rparr>"

definition test_link :: "mac_address \<Rightarrow> u8 \<Rightarrow> link_params" where
  "test_link m signal = \<lparr>lp_txBitrate = 54, lp_rxBitrate = 6, lp_signalStrength = of_int (sint signal),
     lp_macAddress = m, lp_interfaceName = ''wlan0''\<rparr>"

definition test_round :: "iftype \<Rightarrow> (address \<times> mac_address) list \<Rightarrow> (mac_address \<times> u8) list \<Rightarrow> acquisition" where
  "test_round mode ns stations = \<lparr>aq_card = test_dump [\<lparr>cm_iftype = Some mode\<rparr>], aq_refill = 0, aq_neighbours = map neighbour ns,
     aq_station = test_dump (map (\<lambda>(m, signal). test_station m signal) stations)\<rparr>"

lemma read_test_station: "read_station (\<lambda>_. ''wlan0'') (test_station m signal) = Inr (test_link m signal)"
  by (simp add: read_station_def test_station_def test_link_def parseBitrate_def)

lemma test_round_observes:
  assumes "IFACE_TYPE_NAMES mode \<noteq> None" and "\<forall>(ip, m) \<in> set ns. address_ok ip"
  shows "observes (\<lambda>_. ''wlan0'') (test_round mode ns stations)
    \<lparr>ob_mode = mode, ob_neighbours = ns, ob_links = map (\<lambda>(m, signal). test_link m signal) stations\<rparr>"
  unfolding observes_def
  using assms test_dump_complete [of "map (\<lambda>(m, signal). test_station m signal) stations"]
  by (auto simp: test_round_def test_dump_complete read_test_station case_prod_beta
      intro!: exI [of _ "map (\<lambda>(m, signal). test_station m signal) stations"])

definition test_ap :: "u8 \<Rightarrow> mac_address" where
  "test_ap n = MacAddress 2 0 0 0 0 n"

theorem answer_is_latest_link_witness:
  "let ip = V4 [192, 168, 0, 2];
       as = [test_round IFTYPE_ADHOC [(ip, test_ap 1)] [(test_ap 1, 226)]];
       bs = [test_round IFTYPE_ADHOC [(ip, test_ap 1)] [(test_ap 1, 216)]]
   in getWifiLinkParams (\<lambda>_. ''192.168.0.2'') ip (fst (acquireNetworkInformation (\<lambda>_. ''wlan0'') as (wifi_init True)))
        (fst (acquireNetworkInformation (\<lambda>_. ''wlan0'') (as @ bs) (wifi_init True))) = Inr (test_link (test_ap 1) 216)"
proof -
  define ip where "ip = V4 [192, 168, 0, 2]"
  define ob where "ob = (\<lambda>signal. \<lparr>ob_mode = IFTYPE_ADHOC, ob_neighbours = [(ip, test_ap 1)], ob_links = [test_link (test_ap 1) signal]\<rparr>)"
  have round: "observes (\<lambda>_. ''wlan0'') (test_round IFTYPE_ADHOC [(ip, test_ap 1)] [(test_ap 1, signal)]) (ob signal)" for signal
    using test_round_observes [of IFTYPE_ADHOC "[(ip, test_ap 1)]" "[(test_ap 1, signal)]"] by (simp add: ip_def ob_def)
  have "latest_link ([ob 226] @ [ob 216]) (test_ap 1) = Some (test_link (test_ap 1) 216)"
    by (simp add: latest_link_def ob_def test_link_def)
  then show ?thesis
    using answer_is_latest_link [of "\<lambda>_. ''wlan0''" "[test_round IFTYPE_ADHOC [(ip, test_ap 1)] [(test_ap 1, 226)]]" "[ob 226]"
        "[test_round IFTYPE_ADHOC [(ip, test_ap 1)] [(test_ap 1, 216)]]" "[ob 216]" "\<lambda>_. ''192.168.0.2''" ip] round
    unfolding Let_def ip_def [symmetric]
    by (simp add: ob_def del: acquireNetworkInformation.simps)
qed

theorem managed_mode_reports_lowest_address_witness:
  "getWifiLinkParams (\<lambda>_. []) (V4 [10, 0, 0, 1]) (fst (acquireNetworkInformation (\<lambda>_. ''wlan0'')
      [test_round IFTYPE_STATION [] [(test_ap 1, 176)], test_round IFTYPE_STATION [] [(test_ap 7, 226)]] (wifi_init True))) (wifi_init True) =
    Inr (test_link (test_ap 1) 176)"
proof -
  define ob where "ob = (\<lambda>m signal. \<lparr>ob_mode = IFTYPE_STATION, ob_neighbours = [], ob_links = [test_link m signal]\<rparr>)"
  have round: "observes (\<lambda>_. ''wlan0'') (test_round IFTYPE_STATION [] [(m, signal)]) (ob m signal)" for m signal
    using test_round_observes [of IFTYPE_STATION "[]" "[(m, signal)]"] by (simp add: ob_def)
  have seen: "stations_seen [ob (test_ap 1) 176, ob (test_ap 7) 226] = {test_ap 1, test_ap 7}"
    by (auto simp: stations_seen_def ob_def test_link_def)
  have "test_ap 1 < test_ap 7" by (simp add: less_mac_address_def mac_less_def test_ap_def)
  then have "Min {test_ap 1, test_ap 7} = test_ap 1" "test_ap 1 \<noteq> test_ap 7" by auto
  then show ?thesis
    using managed_mode_reports_lowest_address [of "\<lambda>_. ''wlan0''" "[test_round IFTYPE_STATION [] [(test_ap 1, 176)], test_round IFTYPE_STATION [] [(test_ap 7, 226)]]"
        "[ob (test_ap 1) 176, ob (test_ap 7) 226]" "\<lambda>_. []" "V4 [10, 0, 0, 1]" "wifi_init True"]
    by (simp add: round seen del: acquireNetworkInformation.simps) (simp add: ob_def latest_link_def test_link_def)
qed

theorem callbacks_leak_witness:
  "wi_callbacks (fst (acquireNetworkInformation (\<lambda>_. ''wlan0'') (replicate 600 (test_round IFTYPE_AP [] [])) (wifi_init True))) = 2400"
  using callbacks_leak [of "\<lambda>_. ''wlan0''" "replicate 600 (test_round IFTYPE_AP [] [])"
      "replicate 600 \<lparr>ob_mode = IFTYPE_AP, ob_neighbours = [], ob_links = []\<rparr>"] test_round_observes [of IFTYPE_AP "[]" "[]"]
  by (simp add: list_all2_conv_all_nth)

end
