(* ===== verification/Control_Server.thy ===== *)
theory Control_Server
  imports Net_Server Host_Bridge Wifi_Info
begin

text \<open>
  The control server as a whole: the executor thread of \<open>RequestQueuer.cpp\<close> with the two processors that
  \<open>main.cpp\<close> registers, between the network front end (\<open>Net_Server\<close>), the bridge (\<open>Host_Bridge\<close>)
  and the radio link (\<open>Wifi_Info\<close>). The JSON writer is the parameter \<open>ee_render\<close>.
\<close>

section \<open>The executor with its processors\<close>

record 'v executor_env =
  ee_mj :: "'v minijson"
  ee_mem :: "nat \<Rightarrow> mem"
  ee_memory :: "u8 list"
  ee_exchange :: "u8 list \<Rightarrow> comm_exception + u8 list"
  ee_now :: int
  ee_show_ip :: "address \<Rightarrow> string"
  ee_wifi :: "wifi \<times> wifi"
  ee_tspb :: string
  ee_tspe :: string
  ee_render :: "(string \<times> report) list \<Rightarrow> string"

text \<open>The processors in the order of their registration; \<open>None\<close> is an exception.\<close>

definition run_processors :: "'v executor_env \<Rightarrow> address request \<Rightarrow> processor \<Rightarrow> processor \<times> (string \<times> report) list option" where
  "run_processors env rq s =
     (case process (ee_mem env) (ee_mj env) (ee_memory env) (ee_exchange env) (ee_now env) rq s of
        (s, Reported r) \<Rightarrow>
          (case os_process (getWifiLinkParams (ee_show_ip env) (the (rq_ipAddress rq)) (fst (ee_wifi env)) (snd (ee_wifi env))) of
             Inl e \<Rightarrow> (s, None)
           | Inr w \<Rightarrow> (s, Some (r @ w)))
      | (s, e) \<Rightarrow> (s, None))"

definition execute_request :: "'v executor_env \<Rightarrow> address request \<Rightarrow> processor \<Rightarrow> processor \<times> (string \<times> report) list option" where
  "execute_request env rq s =
     (case run_processors env rq s of
        (s, None) \<Rightarrow> (s, None)
      | (s, Some written) \<Rightarrow>
          (s, Some ([(''serial'', R_Long (rq_serial rq)), (''tss'', R_String (rq_sendTimestamp rq)),
              (''tsr'', R_String (rq_receiveTimestamp rq)), (''tspb'', R_String (ee_tspb env))] @ written @
            [(''tspe'', R_String (ee_tspe env))])))"

text \<open>An exception leaves the function of the thread and ends the program.\<close>

record 'ep control =
  ct_net :: "('ep, address) net_server"
  ct_processor :: processor
  ct_terminated :: bool

definition control_execute :: "'v executor_env \<Rightarrow> 'ep control \<Rightarrow> 'ep control" where
  "control_execute env s =
     (case q_current (ns_queuer (ct_net s)) of
        None \<Rightarrow> s
      | Some rq \<Rightarrow>
          if rq_serial rq < q_lastSerial (ns_queuer (ct_net s)) then s\<lparr>ct_net := snd (execute (\<lambda>_. []) (ct_net s))\<rparr>
          else
            (case execute_request env rq (ct_processor s) of
               (p, None) \<Rightarrow> s\<lparr>ct_processor := p, ct_terminated := True\<rparr>
             | (p, Some doc) \<Rightarrow> s\<lparr>ct_processor := p, ct_net := snd (execute (\<lambda>_. ee_render env doc) (ct_net s))\<rparr>))"

text \<open>
  The steps after a datagram has been received: the handler stores the sender (\<open>C_Store\<close>), the executor
  thread, which \<open>addRequest\<close> has already woken, takes a request (\<open>C_Take\<close>) and executes it (\<open>C_Run\<close>). The
  two threads run side by side, so the store can fall before, between or after the other two. A program
  that has ended takes no step.
\<close>

datatype control_event = C_Store | C_Take | C_Run

definition control_step :: "'v executor_env \<Rightarrow> control_event \<Rightarrow> 'ep control \<Rightarrow> 'ep control" where
  "control_step env e s =
     (if ct_terminated s \<or> ns_exception (ct_net s) \<noteq> None then s
      else case e of
        C_Store \<Rightarrow> s\<lparr>ct_net := store_sender (ct_net s)\<rparr>
      | C_Take \<Rightarrow> s\<lparr>ct_net := (ct_net s)\<lparr>ns_queuer := executor_take (ns_queuer (ct_net s))\<rparr>\<rparr>
      | C_Run \<Rightarrow> control_execute env s)"

definition serve ::
    "('ep \<Rightarrow> address) \<Rightarrow> string \<Rightarrow> string \<Rightarrow> 'ep \<Rightarrow> 'v executor_env \<Rightarrow> control_event list \<Rightarrow> 'ep control \<Rightarrow> 'ep control" where
  "serve ip_of timestamp datagram sender env steps s =
     fold (control_step env) steps (s\<lparr>ct_net := receive (ee_mj env) ip_of timestamp datagram sender (ct_net s)\<rparr>)"

text \<open>The orders of the three steps: the executor takes a request before it executes it.\<close>

lemma orders:
  "steps \<in> shuffles [C_Store] [C_Take, C_Run] \<longleftrightarrow>
     steps = [C_Store, C_Take, C_Run] \<or> steps = [C_Take, C_Store, C_Run] \<or> steps = [C_Take, C_Run, C_Store]"
  by auto

section \<open>Properties\<close>

lemma wifi_fields:
  obtains w where "os_process (getWifiLinkParams show_ip ip s s') = Inr [(''w'', R_Object w)]" "fst ` set w = {''s'', ''txb'', ''rxb''}"
proof (cases "getWifiLinkParams show_ip ip s s'")
  case (Inl e)
  then obtain what where "e = WifiException what" using link_or_exception by blast
  then show ?thesis using Inl that by (auto simp: os_process_def)
next
  case (Inr p)
  then show ?thesis using that by (auto simp: os_process_def)
qed

text \<open>An idle server: no request waits, no handler runs, and the program has not ended.\<close>

definition idle :: "'ep control \<Rightarrow> bool" where
  "idle s \<longleftrightarrow> q_requests (ns_queuer (ct_net s)) = [] \<and> q_current (ns_queuer (ct_net s)) = None \<and>
     \<not> q_finishCycleThread (ns_queuer (ct_net s)) \<and> ns_handler (ct_net s) = None \<and> ns_exception (ct_net s) = None \<and>
     \<not> ct_terminated s"

text \<open>What an idle server holds when the executor is about to execute the request: with the sender
  stored, and without.\<close>

definition taken :: "address request \<Rightarrow> address request \<Rightarrow> 'ep \<Rightarrow> ('ep, address) net_server \<Rightarrow> ('ep, address) net_server" where
  "taken rq rq' sender net = net\<lparr>
     ns_handler := Some (Some (rq_internalId rq'), sender),
     ns_queuer := (ns_queuer net)\<lparr>q_id := rq_internalId rq',
       q_lastSerial := (if rq_serial rq = 0 then 0 else q_lastSerial (ns_queuer net)), q_current := Some rq', q_requests := []\<rparr>\<rparr>"

lemma idle_receive:
  fixes s :: "'ep control" and sender :: 'ep and ip_of :: "'ep \<Rightarrow> address" and timestamp :: string and env :: "'v executor_env"
  assumes "idle s" and "datagram \<noteq> []" and "accepted (ee_mj env) (received_text datagram) (ns_queuer (ct_net s)) rq"
  defines "rq' \<equiv> completed timestamp (received_text datagram) (ip_of sender) (ns_queuer (ct_net s)) rq"
  shows "serve ip_of timestamp datagram sender env (C_Take # steps) s =
      fold (control_step env) steps (s\<lparr>ct_net := taken rq rq' sender (ct_net s)\<rparr>)"
    and "serve ip_of timestamp datagram sender env [C_Store, C_Take, C_Run] s =
      serve ip_of timestamp datagram sender env [C_Take, C_Store, C_Run] s"
proof -
  have kept: "kept rq (ns_queuer (ct_net s)) = []" using assms(1) by (simp add: kept_def idle_def REQUEST_QUEUE_MAX_SIZE_def Let_def)
  have received: "receive (ee_mj env) ip_of timestamp datagram sender (ct_net s) = (ct_net s)\<lparr>
      ns_queuer := (ns_queuer (ct_net s))\<lparr>q_requests := [rq'], q_id := rq_internalId rq',
        q_lastSerial := (if rq_serial rq = 0 then 0 else q_lastSerial (ns_queuer (ct_net s)))\<rparr>,
      ns_handler := Some (Some (rq_internalId rq'), sender)\<rparr>"
    using assms(1,2) unfolding receive_def addRequest_accepted [OF assms(3)] kept rq'_def
    by (simp add: idle_def completed_def REQUEST_QUEUE_MAX_SIZE_def Let_def)
  have swap: "q\<lparr>q_responseSender := True, q_rejectedRequestRemover := True, q_current := c, q_requests := rs\<rparr> =
      q\<lparr>q_current := c, q_requests := rs, q_responseSender := True, q_rejectedRequestRemover := True\<rparr>" for q :: "address queuer" and c rs
    by (cases q) simp
  show "serve ip_of timestamp datagram sender env (C_Take # steps) s =
      fold (control_step env) steps (s\<lparr>ct_net := taken rq rq' sender (ct_net s)\<rparr>)"
    using assms(1) by (simp add: serve_def received control_step_def executor_take_def pq_top_def pq_pop_def taken_def idle_def)
  show "serve ip_of timestamp datagram sender env [C_Store, C_Take, C_Run] s =
      serve ip_of timestamp datagram sender env [C_Take, C_Store, C_Run] s"
    using assms(1) by (simp add: serve_def received control_step_def executor_take_def store_sender_def idle_def swap)
qed

text \<open>The executor's part, for a request that is not too old.\<close>

lemma execute_answer:
  assumes "q_current (ns_queuer net) = Some rq" and "q_lastSerial (ns_queuer net) \<le> rq_serial rq"
  shows "ns_sendersMap net (rq_internalId rq) = Some sender \<Longrightarrow> q_responseSender (ns_queuer net) \<Longrightarrow>
      snd (execute (\<lambda>_. t) net) = net\<lparr>
        ns_queuer := (ns_queuer net)\<lparr>q_current := None, q_lastSerial := rq_serial rq\<rparr>,
        ns_sent := ns_sent net @ (if rq_skipResponse rq then [] else [(sender, response_string t)]),
        ns_posted := ns_posted net @ [rq_internalId rq]\<rparr>"
    and "ns_sendersMap net (rq_internalId rq) = None \<Longrightarrow>
      snd (execute (\<lambda>_. t) net) = net\<lparr>
        ns_queuer := (ns_queuer net)\<lparr>q_current := None, q_lastSerial := rq_serial rq\<rparr>,
        ns_exception := (if q_responseSender (ns_queuer net) then Some (SendersMapMisses (rq_internalId rq)) else ns_exception net)\<rparr>"
  using assms by (cases net; simp add: execute_def executor_run_def call_back_def sendResponse_def removeFromRequestMap_def Let_def)+

lemma accepted_serial: "accepted mj text q rq \<Longrightarrow> (if rq_serial rq = 0 then 0 else q_lastSerial q) \<le> rq_serial rq"
  by (auto simp: accepted_def)

text \<open>The three orders of the steps, by what the processors yield.\<close>

lemma served:
  fixes s :: "'ep control" and sender :: 'ep and ip_of :: "'ep \<Rightarrow> address" and timestamp :: string and env :: "'v executor_env"
  assumes "idle s" and "datagram \<noteq> []" and "accepted (ee_mj env) (received_text datagram) (ns_queuer (ct_net s)) rq"
    and "steps \<in> shuffles [C_Store] [C_Take, C_Run]"
  defines "rq' \<equiv> completed timestamp (received_text datagram) (ip_of sender) (ns_queuer (ct_net s)) rq"
    and "s' \<equiv> serve ip_of timestamp datagram sender env steps s"
  assumes run: "execute_request env rq' (ct_processor s) = (p, r)"
  shows "ct_processor s' = p"
    and "r = None \<Longrightarrow> ct_terminated s' \<and> ns_sent (ct_net s') = ns_sent (ct_net s)"
    and "r = Some doc \<Longrightarrow> last steps = C_Run \<Longrightarrow> idle s' \<and> ns_sent (ct_net s') = ns_sent (ct_net s) @
      (if rq_skipResponse rq then [] else [(sender, response_string (ee_render env doc))])"
    and "r = Some doc \<Longrightarrow> last steps = C_Store \<Longrightarrow> ns_sendersMap (ct_net s) (q_id (ns_queuer (ct_net s)) + 1) = None \<Longrightarrow>
      ns_sent (ct_net s') = ns_sent (ct_net s) \<and>
      ns_exception (ct_net s') = (if q_responseSender (ns_queuer (ct_net s)) then Some (SendersMapMisses (q_id (ns_queuer (ct_net s)) + 1)) else None)"
proof -
  have parts: "rq_serial rq' = rq_serial rq" "rq_internalId rq' = q_id (ns_queuer (ct_net s)) + 1" "rq_skipResponse rq' = rq_skipResponse rq"
    by (simp_all add: rq'_def completed_def)
  note serial = accepted_serial [OF assms(3)]
  note received = idle_receive [OF assms(1-3), where ip_of = ip_of and timestamp = timestamp and sender = sender, folded rq'_def]
  note idle = assms(1) [unfolded idle_def]
  define store_first where "store_first = fold (control_step env) [C_Store, C_Run] (s\<lparr>ct_net := taken rq rq' sender (ct_net s)\<rparr>)"
  define run_first where "run_first = fold (control_step env) [C_Run, C_Store] (s\<lparr>ct_net := taken rq rq' sender (ct_net s)\<rparr>)"
  have s': "s' = (if last steps = C_Run then store_first else run_first)" "last steps = C_Run \<or> last steps = C_Store"
    using assms(4) unfolding orders s'_def store_first_def run_first_def by (auto simp: received)
  have store_failed: "ct_processor store_first = p \<and> ct_terminated store_first \<and> ns_sent (ct_net store_first) = ns_sent (ct_net s)"
    if "r = None"
    using idle serial run that
    by (simp add: store_first_def control_step_def control_execute_def store_sender_def taken_def parts)
  have run_failed: "ct_processor run_first = p \<and> ct_terminated run_first \<and> ns_sent (ct_net run_first) = ns_sent (ct_net s)"
    if "r = None"
    using idle serial run that
    by (simp add: run_first_def control_step_def control_execute_def taken_def parts)
  have store_done: "ct_processor store_first = p \<and> idle store_first \<and> ns_sent (ct_net store_first) = ns_sent (ct_net s) @
      (if rq_skipResponse rq then [] else [(sender, response_string (ee_render env doc))])" if "r = Some doc" for doc
    using idle serial run that
    by (simp add: store_first_def control_step_def control_execute_def store_sender_def taken_def parts execute_answer idle_def)
  have run_done: "ct_processor run_first = p" if "r = Some doc" for doc
    using idle serial run that
    by (simp add: run_first_def control_step_def control_execute_def taken_def parts)
  have run_missed: "ns_sent (ct_net run_first) = ns_sent (ct_net s) \<and> ns_exception (ct_net run_first) =
        (if q_responseSender (ns_queuer (ct_net s)) then Some (SendersMapMisses (q_id (ns_queuer (ct_net s)) + 1)) else None)"
    if "r = Some doc" "ns_sendersMap (ct_net s) (q_id (ns_queuer (ct_net s)) + 1) = None" for doc
    using idle serial run that
    by (simp add: run_first_def control_step_def control_execute_def store_sender_def taken_def parts execute_answer)
  show "ct_processor s' = p" using store_failed run_failed store_done run_done by (cases r) (auto simp: s'(1))
  show "r = None \<Longrightarrow> ct_terminated s' \<and> ns_sent (ct_net s') = ns_sent (ct_net s)" using store_failed run_failed by (simp add: s'(1))
  show "r = Some doc \<Longrightarrow> last steps = C_Run \<Longrightarrow> idle s' \<and> ns_sent (ct_net s') = ns_sent (ct_net s) @
      (if rq_skipResponse rq then [] else [(sender, response_string (ee_render env doc))])" using store_done by (simp add: s'(1))
  show "r = Some doc \<Longrightarrow> last steps = C_Store \<Longrightarrow> ns_sendersMap (ct_net s) (q_id (ns_queuer (ct_net s)) + 1) = None \<Longrightarrow>
      ns_sent (ct_net s') = ns_sent (ct_net s) \<and>
      ns_exception (ct_net s') = (if q_responseSender (ns_queuer (ct_net s)) then Some (SendersMapMisses (q_id (ns_queuer (ct_net s)) + 1)) else None)"
    using run_missed by (simp add: s'(1))
qed

text \<open>C1: A client is answered, or the handler is overtaken. The server receives a datagram with an
  acceptable request whose values have the right kinds, while it is idle and the transfers to and from
  the device succeed. In any order of the two threads' steps the settings are executed by the device and
  the interface holds its replies. If the handler has stored the sender before the executor answers, one
  packet goes back to it: the text made of a document with the request's serial number and time stamps,
  the report of the interface, and the radio link, whatever \<open>WifiInfo\<close> knows (a request that wants no
  response is executed without one), and the server is idle again. If the executor is faster (and the map
  of senders has no entry under the new number), the client gets no packet; and unless this was the first datagram since the start, so that \<open>sendResponse\<close> is not
  registered yet, it throws and the server ends.\<close>

theorem client_is_answered:
  fixes s :: "'ep control" and sender :: 'ep and ip_of :: "'ep \<Rightarrow> address" and timestamp :: string and env :: "'v executor_env"
    and usb :: usb_env and b :: bridge
  assumes "idle s" and "datagram \<noteq> []" and "accepted (ee_mj env) (received_text datagram) (ns_queuer (ct_net s)) rq"
    and "manager_ok (bp_manager (ct_processor s))" and "\<forall>n. mem_ok (ee_mem env n)" and "length (ee_memory env) = DATAHOLDER_MAX_DATA_SIZE"
    and "bridge_ok b" and "ee_exchange env = bridge_exchange usb b"
    and "request_ops (ee_mj env) (received_text datagram) = Some ops"
    and "steps \<in> shuffles [C_Store] [C_Take, C_Run]"
  defines "mg \<equiv> (bp_manager (ct_processor s))\<lparr>mg_interface :=
      iface_run (zip (map (ee_mem env) [0 ..< length ops]) ops) (mg_interface (bp_manager (ct_processor s)))\<rparr>"
  defines "i \<equiv> fold apply_reply (fst (run_replies usb 0 (message_cmds (ee_memory env) mg) (packet_start usb b))) (mg_interface mg)"
    and "s' \<equiv> serve ip_of timestamp datagram sender env steps s"
    and "number \<equiv> q_id (ns_queuer (ct_net s)) + 1"
  shows "mg_interface (bp_manager (ct_processor s')) = i \<and>
    (last steps = C_Run \<longrightarrow> idle s' \<and> (\<exists>w. fst ` set w = {''s'', ''txb'', ''rxb''} \<and>
      ns_sent (ct_net s') = ns_sent (ct_net s) @
        (if rq_skipResponse rq then [] else [(sender, response_string (ee_render env
          ([(''serial'', R_Long (rq_serial rq)), (''tss'', R_String (rq_sendTimestamp rq)), (''tsr'', R_String timestamp),
            (''tspb'', R_String (ee_tspb env))] @ createReport i @ [(''w'', R_Object w), (''tspe'', R_String (ee_tspe env))])))]))) \<and>
    (last steps = C_Store \<longrightarrow> ns_sendersMap (ct_net s) number = None \<longrightarrow>
      ns_sent (ct_net s') = ns_sent (ct_net s) \<and>
      ns_exception (ct_net s') = (if q_responseSender (ns_queuer (ct_net s)) then Some (SendersMapMisses number) else None))"
proof -
  define rq' where "rq' = completed timestamp (received_text datagram) (ip_of sender) (ns_queuer (ct_net s)) rq"
  have parts: "rq_reqJson rq' = received_text datagram" "rq_serial rq' = rq_serial rq" "rq_sendTimestamp rq' = rq_sendTimestamp rq"
      "rq_receiveTimestamp rq' = timestamp" "rq_ipAddress rq' = Some (ip_of sender)"
    by (simp_all add: rq'_def completed_def)
  obtain w where w: "os_process (getWifiLinkParams (ee_show_ip env) (ip_of sender) (fst (ee_wifi env)) (snd (ee_wifi env))) = Inr [(''w'', R_Object w)]"
      "fst ` set w = {''s'', ''txb'', ''rxb''}"
    by (rule wifi_fields)
  obtain p where p: "process (ee_mem env) (ee_mj env) (ee_memory env) (ee_exchange env) (ee_now env) rq' (ct_processor s) =
      (p, Reported (createReport i))" "mg_interface (bp_manager p) = i"
    using process_through_bridge(2,3) [OF assms(4-7), of "ee_mj env" rq' ops usb "ee_now env"] assms(8,9)
    by (simp add: parts(1) mg_def i_def) (metis prod.collapse)
  have run: "execute_request env rq' (ct_processor s) = (p, Some ([(''serial'', R_Long (rq_serial rq)), (''tss'', R_String (rq_sendTimestamp rq)),
      (''tsr'', R_String timestamp), (''tspb'', R_String (ee_tspb env))] @ createReport i @ [(''w'', R_Object w), (''tspe'', R_String (ee_tspe env))]))"
    by (simp add: execute_request_def run_processors_def p w parts)
  note served = served [OF assms(1-3,10), where ip_of = ip_of and sender = sender, OF run [unfolded rq'_def], folded s'_def number_def]
  show ?thesis using w(2) p(2) served(1) served(3,4) [OF refl] by (intro conjI impI exI [of _ w]) (simp_all only: refl)
qed

text \<open>C4: One datagram ends the server. A value of the wrong kind, or an object that ends too early, makes
  \<open>parseRequest\<close> throw, and nothing between there and the executor thread's function catches it; the
  queue has accepted the request, since it only looks at three fields of its own. The order of the
  threads' steps does not matter.\<close>

theorem one_datagram_ends_server:
  assumes "idle s" and "datagram \<noteq> []" and "accepted (ee_mj env) (received_text datagram) (ns_queuer (ct_net s)) rq"
    and "request_ops (ee_mj env) (received_text datagram) = None"
    and "steps \<in> shuffles [C_Store] [C_Take, C_Run]"
  shows "ct_terminated (serve ip_of timestamp datagram sender env steps s) \<and>
    ns_sent (ct_net (serve ip_of timestamp datagram sender env steps s)) = ns_sent (ct_net s)"
proof -
  define rq' where "rq' = completed timestamp (received_text datagram) (ip_of sender) (ns_queuer (ct_net s)) rq"
  have parts: "rq_reqJson rq' = received_text datagram" by (simp add: rq'_def completed_def)
  obtain i e where "parseRequest (ee_mem env) (ee_mj env) (rq_reqJson rq') (mg_interface (bp_manager (ct_processor s))) = (i, Some e)"
    using parse_throws [of "ee_mj env" "rq_reqJson rq'" "ee_mem env" "mg_interface (bp_manager (ct_processor s))"] assms(4)
    by (metis parts not_None_eq prod.collapse)
  then obtain p where "process (ee_mem env) (ee_mj env) (ee_memory env) (ee_exchange env) (ee_now env) rq' (ct_processor s) = (p, ParseThrew e)"
    by (auto simp: process_def Let_def)
  then have "execute_request env rq' (ct_processor s) = (p, None)" by (simp add: execute_request_def run_processors_def)
  from served(2) [OF assms(1-3,5), where ip_of = ip_of and sender = sender, OF this [unfolded rq'_def]] show ?thesis by simp
qed

text \<open>The other condition of an answer: a transfer that fails ends the server in the same way.\<close>

theorem failed_transfer_ends_server:
  assumes "idle s" and "datagram \<noteq> []" and "accepted (ee_mj env) (received_text datagram) (ns_queuer (ct_net s)) rq"
    and "\<And>message. ee_exchange env message = Inl e" and "steps \<in> shuffles [C_Store] [C_Take, C_Run]"
  shows "ct_terminated (serve ip_of timestamp datagram sender env steps s) \<and>
    ns_sent (ct_net (serve ip_of timestamp datagram sender env steps s)) = ns_sent (ct_net s)"
proof -
  define rq' where "rq' = completed timestamp (received_text datagram) (ip_of sender) (ns_queuer (ct_net s)) rq"
  have "\<exists>p e. process (ee_mem env) (ee_mj env) (ee_memory env) (ee_exchange env) (ee_now env) rq' (ct_processor s) = (p, e) \<and>
      (\<forall>r. e \<noteq> Reported r)"
    by (simp add: process_def sync_manager_def syncWithDevice_def assms(4) Let_def case_prod_beta split: option.split)
  then obtain p f where f: "process (ee_mem env) (ee_mj env) (ee_memory env) (ee_exchange env) (ee_now env) rq' (ct_processor s) = (p, f)"
      "\<forall>r. f \<noteq> Reported r" by blast
  have "execute_request env rq' (ct_processor s) = (p, None)"
    using f(2) by (cases f) (simp_all add: execute_request_def run_processors_def f(1))
  from served(2) [OF assms(1-3,5), where ip_of = ip_of and sender = sender, OF this [unfolded rq'_def]] show ?thesis by simp
qed

section \<open>Examples\<close>

definition test_env :: "(string \<times> (int + string) json) list \<Rightarrow> (int + string) executor_env" where
  "test_env kvs = \<lparr>ee_mj = test_reader kvs, ee_mem = (\<lambda>_ _. replicate 40 0), ee_memory = replicate 40 7,
     ee_exchange = bridge_exchange quiet_env bridge_static_init, ee_now = 10, ee_show_ip = (\<lambda>_. []),
     ee_wifi = (wifi_init False, wifi_init False), ee_tspb = ''b'', ee_tspe = ''e'', ee_render = concat \<circ> map fst\<rparr>"

text \<open>An idle server, with \<open>sendResponse\<close> registered or not.\<close>

definition test_control :: "bool \<Rightarrow> nat control" where
  "test_control registered = \<lparr>ct_net = net_init\<lparr>ns_queuer := queuer_init\<lparr>q_responseSender := registered\<rparr>\<rparr>,
     ct_processor = processor_init fresh_manager 0, ct_terminated = False\<rparr>"

lemma test_control_idle: "idle (test_control registered)"
  by (simp add: idle_def test_control_def net_init_def queuer_init_def)

definition numbered :: "(string \<times> (int + string) json) list \<Rightarrow> (string \<times> (int + string) json) list" where
  "numbered kvs = (''serial'', JAtom (Inl 1)) # kvs"

lemma test_accepted:
  "accepted (ee_mj (test_env (numbered kvs))) (received_text ''{}'') (ns_queuer (ct_net (test_control registered)))
     (new_request\<lparr>rq_serial := 1\<rparr>) \<longleftrightarrow> set_fields (ee_mj (test_env (numbered kvs))) kvs (new_request\<lparr>rq_serial := 1\<rparr>) =
     Some (new_request\<lparr>rq_serial := 1\<rparr> :: address request)"
  by (simp add: accepted_def test_env_def test_reader_def numbered_def set_field_def test_control_def net_init_def queuer_init_def new_request_def)

theorem client_is_answered_witness:
  fixes control :: "bool \<Rightarrow> control_event list \<Rightarrow> nat control"
  defines "control registered steps \<equiv> serve (\<lambda>_. V4 [10, 0, 0, 1]) ''t'' ''{}'' 7
    (test_env (numbered [(''m'', JObject [(''l'', JObject [(''s'', JAtom (Inl 5))] True)] True)])) steps (test_control registered)"
  shows "ns_sent (ct_net (control False [C_Take, C_Store, C_Run])) = [(7, Some ''serialtsstsrtspbemabtnbks_statwtspe'')] \<and>
    ns_sent (ct_net (control True [C_Take, C_Run, C_Store])) = [] \<and>
    ns_exception (ct_net (control True [C_Take, C_Run, C_Store])) = Some (SendersMapMisses 2)"
proof -
  let ?kvs = "[(''m'', JObject [(''l'', JObject [(''s'', JAtom (Inl 5))] True)] True)]"
  let ?env = "test_env (numbered ?kvs)"
  have accepted: "accepted (ee_mj ?env) (received_text ''{}'') (ns_queuer (ct_net (test_control r))) (new_request\<lparr>rq_serial := 1\<rparr>)" for r :: bool
    by (simp add: test_accepted set_field_def)
  have ops: "request_ops (ee_mj ?env) (received_text ''{}'') = Some [Op_MotorSpeed M_LEFT 5]"
    by (simp add: test_env_def test_reader_def numbered_def request_ops_def schema_ops_def request_schema_def motors_schema_def
        motor_schema_def slot_ops_object del: slot_ops.simps(4))
  have env: "manager_ok (bp_manager (ct_processor (test_control r)))" "\<forall>n. mem_ok (ee_mem ?env n)"
      "length (ee_memory ?env) = DATAHOLDER_MAX_DATA_SIZE" "ee_exchange ?env = bridge_exchange quiet_env bridge_static_init" for r
    using fresh_manager_ok by (simp_all add: test_env_def test_control_def processor_init_def mem_ok_def DATAHOLDER_MAX_DATA_SIZE_def)
  have render: "ee_render ?env = concat \<circ> map fst" by (simp add: test_env_def)
  note answered = client_is_answered [OF test_control_idle _ accepted env(1-3) bridge_ok_static env(4) ops,
      where ip_of = "\<lambda>_. V4 [10, 0, 0, 1]" and timestamp = "''t''" and sender = 7]
  have "ns_sent (ct_net (control False [C_Take, C_Store, C_Run])) = [(7, Some ''serialtsstsrtspbemabtnbks_statwtspe'')]"
    unfolding control_def using answered [of "[C_Take, C_Store, C_Run]" False]
    by (auto simp: render createReport_def response_string_def RESPONSE_MAX_LENGTH_def new_request_def test_control_def net_init_def)
  moreover have "ns_sent (ct_net (control True [C_Take, C_Run, C_Store])) = []"
      "ns_exception (ct_net (control True [C_Take, C_Run, C_Store])) = Some (SendersMapMisses 2)"
    unfolding control_def using answered [of "[C_Take, C_Run, C_Store]" True]
    by (auto simp: test_control_def net_init_def queuer_init_def)
  ultimately show ?thesis by blast
qed

theorem one_datagram_ends_server_witness:
  "ct_terminated (serve (\<lambda>_. V4 [10, 0, 0, 1]) ''t'' ''{}'' 7 (test_env (numbered [(''m'', JAtom (Inl 5))])) [C_Take, C_Run, C_Store]
     (test_control False))"
proof -
  let ?kvs = "[(''m'', JAtom (Inl 5))]"
  have accepted: "accepted (ee_mj (test_env (numbered ?kvs))) (received_text ''{}'') (ns_queuer (ct_net (test_control False)))
      (new_request\<lparr>rq_serial := 1\<rparr>)"
    by (simp add: test_accepted set_field_def)
  have "request_ops (ee_mj (test_env (numbered ?kvs))) (received_text ''{}'') = None"
    by (simp add: test_env_def test_reader_def numbered_def request_ops_def schema_ops_def request_schema_def slot_ops_object
        del: slot_ops.simps(4))
  from one_datagram_ends_server [OF test_control_idle _ accepted this, where steps = "[C_Take, C_Run, C_Store]"] show ?thesis by simp
qed

end
