(* ===== verification/Keep_Alive.thy ===== *)
theory Keep_Alive
  imports Host_Bridge
begin

text \<open>
  The time-out of the bridge (\<open>firmware/bridge/usb_support.cpp\<close>) against the rounds of the server's
  maintenance thread (\<open>control_server/src/BridgeProcessor.cpp\<close>): a server that has no clients must
  still be heard in time.
\<close>

section \<open>The timer of the bridge\<close>

text \<open>The division of the controller's clock by the bits CS12 to CS10, from
  the data sheet of the ATmega32U4; 0 is a timer that stands.\<close>

definition clock_select :: "u8 \<Rightarrow> nat" where
  "clock_select tccr = (let cs = tccr AND 7 in
     if cs = 1 then 1 else if cs = 2 then 8 else if cs = 3 then 64 else if cs = 4 then 256 else if cs = 5 then 1024 else 0)"

text \<open>The counter so many milliseconds later, and whether the compare match has happened then.\<close>

definition timer_counts :: "bridge \<Rightarrow> nat \<Rightarrow> nat" where
  "timer_counts b ms =
     (if clock_select (TCCR1B b) = 0 then unat (TCNT1 b) else unat (TCNT1 b) + F_CPU * ms div (1000 * clock_select (TCCR1B b)))"

definition timer_fires :: "bridge \<Rightarrow> nat \<Rightarrow> bool" where
  "timer_fires b ms \<longleftrightarrow> bit (TIMSK1 b) OCIE1A \<and> unat (OCR1A b) < timer_counts b ms"

lemma timeout_160ms:
  assumes "TCCR1B b = TCCR1B (usb_init b0)" and "OCR1A b = OCR1A (usb_init b0)"
  shows "timer_fires (timerReset busy b) ms \<longleftrightarrow> 160 < ms"
proof -
  have regs: "TCCR1B (usb_init b0) = 12" "OCR1A (usb_init b0) = 10000" by (simp_all add: usb_init_def Let_def)
  have "TCCR1B (timerReset busy b) = 12" "OCR1A (timerReset busy b) = 10000" "TCNT1 (timerReset busy b) = 0"
      "bit (TIMSK1 (timerReset busy b)) OCIE1A"
    using assms regs by (simp_all add: timerReset_def timerSetEnabled_def Let_def bit_simps sbi_def)
  moreover have "clock_select 12 = 256" by (simp add: clock_select_def)
  moreover have "10001 \<le> 16000000 * ms div 256000 \<longleftrightarrow> 10001 * 256000 \<le> 16000000 * ms"
    by (rule less_eq_div_iff_mult_less_eq) simp
  moreover have "10001 * 256000 \<le> 16000000 * ms \<longleftrightarrow> 160 < ms" by linarith
  ultimately show ?thesis by (simp add: timer_fires_def timer_counts_def F_CPU_def Suc_le_eq [symmetric] del: Suc_le_eq)
qed

section \<open>The exchanges of the server\<close>

text \<open>The times of the exchanges in a run of requests and maintenance rounds.\<close>

fun exchange_times :: "'v minijson \<Rightarrow> 'ip processor_event list \<Rightarrow> processor \<Rightarrow> int list" where
  "exchange_times mj [] s = []"
| "exchange_times mj (BP_Process g memory exchange now request # es) s =
     (case process g mj memory exchange now request s of
        (s, Reported r) \<Rightarrow> now # exchange_times mj es s
      | (s, _) \<Rightarrow> [])"
| "exchange_times mj (BP_Maintenance memory exchange now # es) s =
     (case maintenance memory exchange now s of
        (s, None) \<Rightarrow> exchange_times mj es s
      | (s, Some (SyncDone UpdateOk)) \<Rightarrow> now # exchange_times mj es s
      | (s, Some _) \<Rightarrow> [])"

text \<open>The times of a run never decrease, and a maintenance round comes at the latest \<open>gap\<close> milliseconds after
  the one at \<open>m\<close>: the 25 of its sleep and what the scheduler and a request under way add.\<close>

fun paced :: "int \<Rightarrow> int \<Rightarrow> int \<Rightarrow> 'ip processor_event list \<Rightarrow> bool" where
  "paced gap m t [] = True"
| "paced gap m t (BP_Process g memory exchange now request # es) \<longleftrightarrow> t \<le> now \<and> now \<le> m + gap \<and> paced gap m now es"
| "paced gap m t (BP_Maintenance memory exchange now # es) \<longleftrightarrow> t \<le> now \<and> now \<le> m + gap \<and> paced gap now now es"

lemma process_clock:
  "process g mj memory exchange now request s = (s', Reported r) \<Longrightarrow>
    bp_lastProcessFunctionExecution s' = now \<and> bp_finishCycleThread s' = bp_finishCycleThread s"
  by (auto simp: process_def sync_manager_def Let_def split: prod.splits option.splits sync_end.splits update_end.splits)

lemma maintenance_clock:
  "bp_lastProcessFunctionExecution (fst (maintenance memory exchange now s)) = bp_lastProcessFunctionExecution s"
  "bp_finishCycleThread (fst (maintenance memory exchange now s)) = bp_finishCycleThread s"
  "snd (maintenance memory exchange now s) = None \<longleftrightarrow>
    bp_finishCycleThread s \<or> now - bp_lastProcessFunctionExecution s < TIMEOUT"
  by (simp_all add: maintenance_def sync_manager_def case_prod_beta Let_def)

lemma exchanges_close:
  assumes "paced gap m t es" and "\<not> bp_finishCycleThread s" and "bp_lastProcessFunctionExecution s \<le> e"
    and "e \<le> t" and "m \<le> t" and "m < e + TIMEOUT"
  shows "successively (\<lambda>a b. a \<le> b \<and> b - a < TIMEOUT + gap) (e # exchange_times mj es s)"
  using assms
proof (induction mj es s arbitrary: m t e rule: exchange_times.induct)
  case (2 mj g memory exchange now request es s)
  show ?case
  proof (cases "process g mj memory exchange now request s")
    case (Pair u r)
    show ?thesis
    proof (cases r)
      case (Reported x)
      note p = process_clock [OF Pair [unfolded Reported]]
      have "successively (\<lambda>a b. a \<le> b \<and> b - a < TIMEOUT + gap) (now # exchange_times mj es u)"
        using "2.IH" [OF Pair [symmetric] Reported, of m now now] "2.prems" p by (simp add: TIMEOUT_def)
      then show ?thesis using "2.prems" by (simp add: Pair Reported)
    qed (simp_all add: Pair)
  qed
next
  case (3 mj memory exchange now es s)
  obtain u r where ur: "maintenance memory exchange now s = (u, r)" by fastforce
  note clock = maintenance_clock [of memory exchange now s, unfolded ur, simplified]
  show ?case
  proof (cases r)
    case None
    then have "now < e + TIMEOUT" using clock(3) "3.prems" by simp
    then show ?thesis
      using "3.IH"(1) [OF ur [symmetric] None, of now now e] "3.prems" clock by (simp add: ur None)
  next
    case (Some x)
    show ?thesis
    proof (cases "x = SyncDone UpdateOk")
      case True
      have "successively (\<lambda>a b. a \<le> b \<and> b - a < TIMEOUT + gap) (now # exchange_times mj es u)"
        using "3.IH"(2) [OF ur [symmetric], of x UpdateOk now now now] "3.prems" clock True Some by (simp add: TIMEOUT_def)
      then show ?thesis using "3.prems" True by (simp add: ur Some)
    next
      case False
      then show ?thesis by (simp add: ur Some split: sync_end.split update_end.split)
    qed
  qed
qed simp

text \<open>No exception has ended the run, and the time of its last maintenance round.\<close>

fun uninterrupted :: "'v minijson \<Rightarrow> 'ip processor_event list \<Rightarrow> processor \<Rightarrow> bool" where
  "uninterrupted mj [] s = True"
| "uninterrupted mj (BP_Process g memory exchange now request # es) s =
     (case process g mj memory exchange now request s of
        (s, Reported r) \<Rightarrow> uninterrupted mj es s
      | (s, _) \<Rightarrow> False)"
| "uninterrupted mj (BP_Maintenance memory exchange now # es) s =
     (case maintenance memory exchange now s of
        (s, None) \<Rightarrow> uninterrupted mj es s
      | (s, Some (SyncDone UpdateOk)) \<Rightarrow> uninterrupted mj es s
      | (s, Some _) \<Rightarrow> False)"

fun last_round :: "int \<Rightarrow> 'ip processor_event list \<Rightarrow> int" where
  "last_round m [] = m"
| "last_round m (BP_Process g memory exchange now request # es) = last_round m es"
| "last_round m (BP_Maintenance memory exchange now # es) = last_round now es"

lemma exchanges_go_on:
  assumes "\<not> bp_finishCycleThread s" and "bp_lastProcessFunctionExecution s \<le> e" and "m < e + TIMEOUT"
    and "paced gap m t es" and "m \<le> t" and "uninterrupted mj es s"
  shows "last_round m es < last (e # exchange_times mj es s) + TIMEOUT"
  using assms
proof (induction mj es s arbitrary: m t e rule: exchange_times.induct)
  case (2 mj g memory exchange now request es s)
  obtain u r where ur: "process g mj memory exchange now request s = (u, r)" by fastforce
  with "2.prems" obtain x where r: "r = Reported x" by (cases r) simp_all
  note p = process_clock [OF ur [unfolded r]]
  from "2.IH" [OF ur [symmetric] r, of now m now] "2.prems" p show ?case by (simp add: ur r TIMEOUT_def)
next
  case (3 mj memory exchange now es s)
  obtain u r where ur: "maintenance memory exchange now s = (u, r)" by fastforce
  note clock = maintenance_clock [of memory exchange now s, unfolded ur, simplified]
  show ?case
  proof (cases r)
    case None
    then have "now < e + TIMEOUT" using clock(3) "3.prems" by simp
    then show ?thesis
      using "3.IH"(1) [OF ur [symmetric] None, of e now now] "3.prems" clock by (simp add: ur None)
  next
    case (Some x)
    with "3.prems" have x: "x = SyncDone UpdateOk" by (simp add: ur split: sync_end.splits update_end.splits)
    show ?thesis
      using "3.IH"(2) [OF ur [symmetric], of x UpdateOk now now now] "3.prems" clock x Some
      by (simp add: ur TIMEOUT_def)
  qed
qed simp

section \<open>The server is heard in time\<close>

text \<open>C21: A server that runs keeps control of the bridge. Whatever requests come, or none: when a maintenance
  round follows the one before within \<open>gap\<close> milliseconds and a message takes at most \<open>delay\<close> more than
  another, 25 + gap + delay \<open>\<le>\<close> 160, then the time-out interrupt of the bridge does not occur between two
  exchanges, nor after the last one as long as the next round is not due.\<close>

theorem running_server_keeps_control:
  fixes mg :: manager and mj :: "'v minijson" and es :: "'ip processor_event list" and start :: int
  assumes "paced gap start start es" and "TIMEOUT + gap + delay \<le> 160" and "0 \<le> gap" and "0 \<le> delay"
    and "TCCR1B b = TCCR1B (usb_init b0)" and "OCR1A b = OCR1A (usb_init b0)"
  defines "ts \<equiv> start # exchange_times mj es (processor_init mg start)"
  shows "successively (\<lambda>x y. \<not> timer_fires (timerReset busy b) (nat (y - x + delay))) ts \<and>
    (uninterrupted mj es (processor_init mg start) \<and> now \<le> last_round start es + gap \<longrightarrow>
       \<not> timer_fires (timerReset busy b) (nat (now - last ts + delay)))"
proof -
  have init: "\<not> bp_finishCycleThread (processor_init mg start)" "bp_lastProcessFunctionExecution (processor_init mg start) = start"
    by (simp_all add: processor_init_def)
  have "successively (\<lambda>x y. x \<le> y \<and> y - x < TIMEOUT + gap) ts"
    using exchanges_close [OF assms(1) init(1), of start mj] init(2) by (simp add: ts_def TIMEOUT_def)
  then have "successively (\<lambda>x y. \<not> timer_fires (timerReset busy b) (nat (y - x + delay))) ts"
    by (rule successively_mono) (use assms(2) in \<open>auto simp: timeout_160ms [OF assms(5,6)]\<close>)
  moreover have "last_round start es < last ts + TIMEOUT" if "uninterrupted mj es (processor_init mg start)"
    using exchanges_go_on [OF init(1) _ _ assms(1) _ that, of start] init(2) by (simp add: ts_def TIMEOUT_def)
  ultimately show ?thesis using assms(2) by (auto simp: timeout_160ms [OF assms(5,6)])
qed

theorem running_server_keeps_control_witness:
  "\<not> timer_fires (timerReset (\<lambda>_. 0) (usb_init bridge_static_init)) 110"
proof -
  let ?es = "[BP_Maintenance [] (\<lambda>_. Inr []) 1020] :: unit processor_event list"
  have idle: "maintenance [] (\<lambda>_. Inr []) 1020 (processor_init mg 1000) = (processor_init mg 1000, None)" for mg
    by (simp add: maintenance_def processor_init_def TIMEOUT_def)
  show ?thesis
    using running_server_keeps_control [where es = ?es and start = 1000 and gap = 100 and delay = 30 and now = 1080
        and mj = unary_reader and busy = "\<lambda>_. 0" and b = "usb_init bridge_static_init"
        and b0 = bridge_static_init and mg = "manager_init (iface_init (\<lambda>_. replicate 40 1))"]
    by (simp add: idle TIMEOUT_def)
qed

end
