(* ===== verification/Queuer_Threads.thy ===== *)
theory Queuer_Threads
  imports Request_Queuer
begin

text \<open>
  The two threads of \<open>RequestQueuer\<close> (\<open>server/control_server/src/RequestQueuer.cpp\<close>) with their mutex and
  condition variable: the executor, and the main thread, which calls \<open>addRequest\<close> from the handlers of
  the network and later runs the destructor. Each step ends where the other thread may intervene.
\<close>

section \<open>State\<close>

text \<open>Where the executor stands: before the lock, with it before \<open>requests.empty()\<close>, before the
  predicate of \<open>cv.wait\<close>, after it was false, asleep, awake again without the lock, after the wait,
  working on a request, or ended.\<close>

datatype exec_at = E_Top | E_Locked | E_Predicate | E_Block | E_Sleeping | E_Woken | E_Decide | E_Running | E_Ended

text \<open>The main thread: outside of the queuer, before \<open>notify_one\<close>, before \<open>addRequest\<close> returns; in the
  destructor before the flag is set, before \<open>unlock\<close>, before \<open>notify_all\<close>, at \<open>join\<close>, after it.\<close>

datatype main_at = M_Idle | M_Notify | M_Return | M_Finish | M_Unlock | M_NotifyAll | M_Join | M_Destroyed

datatype agent = Executor | Main

record 'ip queuer_threads =
  qt_queuer :: "'ip queuer"
  qt_mutex :: "agent option"
  qt_executor :: exec_at
  qt_main :: main_at

text \<open>\<open>Init\<close> starts the executor's thread.\<close>

definition threads_init :: "'ip queuer_threads" where
  "threads_init = \<lparr>qt_queuer = queuer_init, qt_mutex = None, qt_executor = E_Top, qt_main = M_Idle\<rparr>"

section \<open>Steps\<close>

text \<open>A step yields the requests it executed; \<open>None\<close>: the thread has to wait.\<close>

definition exec_step :: "('ip request \<Rightarrow> string) \<Rightarrow> 'ip queuer_threads \<Rightarrow> ('ip request list \<times> 'ip queuer_threads) option" where
  "exec_step respond s =
     (case qt_executor s of
        E_Top \<Rightarrow> if qt_mutex s = None then Some ([], s\<lparr>qt_mutex := Some Executor, qt_executor := E_Locked\<rparr>) else None
      | E_Locked \<Rightarrow> Some ([], s\<lparr>qt_executor := if q_requests (qt_queuer s) = [] then E_Predicate else E_Decide\<rparr>)
      | E_Predicate \<Rightarrow>
          Some ([], s\<lparr>qt_executor :=
            if q_finishCycleThread (qt_queuer s) \<or> q_requests (qt_queuer s) \<noteq> [] then E_Decide else E_Block\<rparr>)
      | E_Block \<Rightarrow> Some ([], s\<lparr>qt_mutex := None, qt_executor := E_Sleeping\<rparr>)
      | E_Sleeping \<Rightarrow> None
      | E_Woken \<Rightarrow> if qt_mutex s = None then Some ([], s\<lparr>qt_mutex := Some Executor, qt_executor := E_Predicate\<rparr>) else None
      | E_Decide \<Rightarrow>
          if q_finishCycleThread (qt_queuer s) then Some ([], s\<lparr>qt_mutex := None, qt_executor := E_Ended\<rparr>)
          else Some ([], s\<lparr>qt_queuer := executor_take (qt_queuer s), qt_mutex := None, qt_executor := E_Running\<rparr>)
      | E_Running \<Rightarrow>
          (let (calls, executed, q) = executor_run respond (qt_queuer s)
           in Some (executed, s\<lparr>qt_queuer := q, qt_executor := E_Top\<rparr>))
      | E_Ended \<Rightarrow> None)"

text \<open>A notification reaches the executor when it sleeps, and is lost otherwise.\<close>

definition notify :: "'ip queuer_threads \<Rightarrow> 'ip queuer_threads" where
  "notify s = (if qt_executor s = E_Sleeping then s\<lparr>qt_executor := E_Woken\<rparr> else s)"

text \<open>\<open>addRequest\<close> up to \<open>notify_one\<close>, which it reaches when the request is accepted.\<close>

definition call_addRequest :: "'v minijson \<Rightarrow> string \<Rightarrow> string \<Rightarrow> 'ip \<Rightarrow> 'ip queuer_threads \<Rightarrow> 'ip queuer_threads option" where
  "call_addRequest mj timestamp text address s =
     (if qt_main s = M_Idle \<and> qt_mutex s = None
      then
        (let (result, calls, q) = addRequest mj timestamp text address (qt_queuer s)
         in Some (s\<lparr>qt_queuer := q, qt_mutex := Some Main, qt_main := (case result of Added _ \<Rightarrow> M_Notify | _ \<Rightarrow> M_Return)\<rparr>))
      else None)"

definition call_destructor :: "'ip queuer_threads \<Rightarrow> 'ip queuer_threads option" where
  "call_destructor s =
     (if qt_main s = M_Idle \<and> qt_mutex s = None then Some (s\<lparr>qt_mutex := Some Main, qt_main := M_Finish\<rparr>) else None)"

definition main_thread_step :: "'ip queuer_threads \<Rightarrow> 'ip queuer_threads option" where
  "main_thread_step s =
     (case qt_main s of
        M_Idle \<Rightarrow> None
      | M_Notify \<Rightarrow> Some ((notify s)\<lparr>qt_main := M_Return\<rparr>)
      | M_Return \<Rightarrow> Some (s\<lparr>qt_mutex := None, qt_main := M_Idle\<rparr>)
      | M_Finish \<Rightarrow> Some (s\<lparr>qt_queuer := (qt_queuer s)\<lparr>q_finishCycleThread := True\<rparr>, qt_main := M_Unlock\<rparr>)
      | M_Unlock \<Rightarrow> Some (s\<lparr>qt_mutex := None, qt_main := M_NotifyAll\<rparr>)
      | M_NotifyAll \<Rightarrow> Some ((notify s)\<lparr>qt_main := M_Join\<rparr>)
      | M_Join \<Rightarrow> if qt_executor s = E_Ended then Some (s\<lparr>qt_main := M_Destroyed\<rparr>) else None
      | M_Destroyed \<Rightarrow> None)"

text \<open>The condition variable may also wake the executor by itself.\<close>

datatype 'ip thread_event = ExecutorStep | MainStep | SpuriousWakeup | CallAddRequest string string 'ip | CallDestructor

definition thread_step ::
    "'v minijson \<Rightarrow> ('ip request \<Rightarrow> string) \<Rightarrow> 'ip thread_event \<Rightarrow> 'ip queuer_threads \<Rightarrow>
       ('ip request list \<times> 'ip queuer_threads) option" where
  "thread_step mj respond e s =
     (case e of
        ExecutorStep \<Rightarrow> exec_step respond s
      | MainStep \<Rightarrow> map_option (Pair []) (main_thread_step s)
      | SpuriousWakeup \<Rightarrow> if qt_executor s = E_Sleeping then Some ([], notify s) else None
      | CallAddRequest timestamp text address \<Rightarrow> map_option (Pair []) (call_addRequest mj timestamp text address s)
      | CallDestructor \<Rightarrow> map_option (Pair []) (call_destructor s))"

fun threads_run ::
    "'v minijson \<Rightarrow> ('ip request \<Rightarrow> string) \<Rightarrow> 'ip thread_event list \<Rightarrow> 'ip queuer_threads \<Rightarrow>
       ('ip request list \<times> 'ip queuer_threads) option" where
  "threads_run mj respond [] s = Some ([], s)"
| "threads_run mj respond (e # es) s =
     (case thread_step mj respond e s of
        None \<Rightarrow> None
      | Some (done1, s) \<Rightarrow> map_option (\<lambda>(done2, s). (done1 @ done2, s)) (threads_run mj respond es s))"

inductive threads_reachable :: "'v minijson \<Rightarrow> ('ip request \<Rightarrow> string) \<Rightarrow> 'ip queuer_threads \<Rightarrow> bool"
  for mj respond where
  start: "threads_reachable mj respond threads_init"
| step: "threads_reachable mj respond s \<Longrightarrow> thread_step mj respond e s = Some (executed, s') \<Longrightarrow> threads_reachable mj respond s'"

section \<open>The invariant\<close>

text \<open>Who owns the mutex is told by where the threads stand. A sleeping executor has nothing to do, or the
  notification is still to come.\<close>

fun exec_owns :: "exec_at \<Rightarrow> bool" where
  "exec_owns E_Locked = True"
| "exec_owns E_Predicate = True"
| "exec_owns E_Block = True"
| "exec_owns E_Decide = True"
| "exec_owns _ = False"

fun main_owns :: "main_at \<Rightarrow> bool" where
  "main_owns M_Notify = True"
| "main_owns M_Return = True"
| "main_owns M_Finish = True"
| "main_owns M_Unlock = True"
| "main_owns _ = False"

fun finishing :: "main_at \<Rightarrow> bool" where
  "finishing M_Unlock = True"
| "finishing M_NotifyAll = True"
| "finishing M_Join = True"
| "finishing M_Destroyed = True"
| "finishing _ = False"

fun notifying :: "main_at \<Rightarrow> bool" where
  "notifying M_Unlock = True"
| "notifying M_NotifyAll = True"
| "notifying _ = False"

definition threads_ok :: "'ip queuer_threads \<Rightarrow> bool" where
  "threads_ok s \<longleftrightarrow>
     (qt_mutex s = Some Executor \<longleftrightarrow> exec_owns (qt_executor s)) \<and>
     (qt_mutex s = Some Main \<longleftrightarrow> main_owns (qt_main s)) \<and>
     (q_finishCycleThread (qt_queuer s) \<longleftrightarrow> finishing (qt_main s)) \<and>
     (qt_executor s = E_Block \<longrightarrow> q_requests (qt_queuer s) = [] \<and> \<not> q_finishCycleThread (qt_queuer s)) \<and>
     (qt_executor s = E_Sleeping \<longrightarrow> (q_requests (qt_queuer s) = [] \<or> qt_main s = M_Notify) \<and>
        (q_finishCycleThread (qt_queuer s) \<longrightarrow> notifying (qt_main s))) \<and>
     (qt_executor s = E_Decide \<longrightarrow> q_finishCycleThread (qt_queuer s) \<or> q_requests (qt_queuer s) \<noteq> []) \<and>
     (qt_executor s = E_Running \<longleftrightarrow> q_current (qt_queuer s) \<noteq> None) \<and>
     (qt_executor s = E_Ended \<longrightarrow> q_finishCycleThread (qt_queuer s)) \<and>
     (qt_main s = M_Destroyed \<longrightarrow> qt_executor s = E_Ended)"

lemma threads_init_ok: "threads_ok threads_init"
  by (simp add: threads_ok_def threads_init_def queuer_init_def)

lemma executor_run_result:
  "q_current (snd (snd (executor_run respond q))) = None"
  "q_finishCycleThread (snd (snd (executor_run respond q))) = q_finishCycleThread q"
  "fst (snd (executor_run respond q)) = [] \<or> (\<exists>r. q_current q = Some r \<and> fst (snd (executor_run respond q)) = [r])"
  by (simp_all add: executor_run_def Let_def split: option.split)

lemma addRequest_result:
  assumes "addRequest mj timestamp text address q = (result, calls, q')"
  shows "q_current q' = q_current q" "q_finishCycleThread q' = q_finishCycleThread q"
    "(\<exists>i. result = Added i) \<or> q_requests q' = q_requests q"
  using assms
  by (auto simp: addRequest_def remove_oldest_def reset_serials_def nextId_def Let_def split: prod.splits option.splits if_splits)

lemma owner_cases:
  assumes "threads_ok s"
  shows "qt_mutex s = (if exec_owns (qt_executor s) then Some Executor else if main_owns (qt_main s) then Some Main else None)"
  using assms agent.exhaust by (cases "qt_mutex s") (auto simp: threads_ok_def)

lemma exec_step_ok:
  assumes ok: "threads_ok s" and step: "exec_step respond s = Some (executed, s')"
  shows "threads_ok s'"
proof (cases "qt_executor s")
  case E_Running
  have s': "s' = s\<lparr>qt_queuer := snd (snd (executor_run respond (qt_queuer s))), qt_executor := E_Top\<rparr>"
    using step by (simp add: exec_step_def E_Running split: prod.splits)
  show ?thesis
    using ok by (simp add: s' threads_ok_def E_Running executor_run_result executor_run_frame)
next
  case E_Decide
  then show ?thesis
    using ok step by (cases "finishing (qt_main s)") (auto simp: exec_step_def threads_ok_def executor_take_def)
next
  case E_Locked
  then show ?thesis using ok step by (cases "q_requests (qt_queuer s) = []") (auto simp: exec_step_def threads_ok_def)
next
  case E_Predicate
  then show ?thesis
    using ok step by (cases "finishing (qt_main s) \<or> q_requests (qt_queuer s) \<noteq> []") (auto simp: exec_step_def threads_ok_def)
qed (use ok step in \<open>auto simp: exec_step_def threads_ok_def split: if_splits\<close>)

lemma main_thread_step_ok:
  assumes ok: "threads_ok s" and step: "main_thread_step s = Some s'"
  shows "threads_ok s'"
  using assms
  by (cases "qt_main s"; cases "qt_executor s"; clarsimp simp: main_thread_step_def threads_ok_def notify_def split: if_splits)

lemma call_addRequest_ok:
  assumes ok: "threads_ok s" and step: "call_addRequest mj timestamp text address s = Some s'"
  shows "threads_ok s'"
proof -
  obtain result calls q where add: "addRequest mj timestamp text address (qt_queuer s) = (result, calls, q)"
    by (metis prod_cases3)
  note keeps = addRequest_result [OF add]
  have "qt_main s = M_Idle" and "\<not> exec_owns (qt_executor s)"
    using ok step by (auto simp: call_addRequest_def threads_ok_def split: if_splits)
  moreover have "s' = s\<lparr>qt_queuer := q, qt_mutex := Some Main, qt_main := (case result of Added _ \<Rightarrow> M_Notify | _ \<Rightarrow> M_Return)\<rparr>"
    using step by (simp add: call_addRequest_def add split: if_splits)
  ultimately show ?thesis
    using ok keeps by (cases result; cases "qt_executor s") (simp_all add: threads_ok_def)
qed

lemma thread_step_ok:
  assumes "threads_ok s" and "thread_step mj respond e s = Some (executed, s')"
  shows "threads_ok s'"
proof (cases e)
  case ExecutorStep
  then show ?thesis using assms exec_step_ok [of s respond executed s'] by (simp add: thread_step_def)
next
  case MainStep
  then show ?thesis using assms main_thread_step_ok [of s] by (auto simp: thread_step_def)
next
  case SpuriousWakeup
  then show ?thesis using assms by (clarsimp simp: thread_step_def notify_def threads_ok_def split: if_splits)
next
  case (CallAddRequest timestamp msg address)
  then show ?thesis using assms call_addRequest_ok [of s mj timestamp msg address] by (auto simp: thread_step_def)
next
  case CallDestructor
  then show ?thesis
    using assms by (cases "qt_executor s"; clarsimp simp: thread_step_def call_destructor_def threads_ok_def split: if_splits)
qed

lemma reachable_threads_ok: "threads_reachable mj respond s \<Longrightarrow> threads_ok s"
  by (induction rule: threads_reachable.induct) (auto simp: threads_init_ok thread_step_ok)

section \<open>Requests are not slept over\<close>

text \<open>The executor's steps until it has a request, when there is one and nobody disturbs it.\<close>

fun steps_to_take :: "exec_at \<Rightarrow> nat" where
  "steps_to_take E_Top = 3"
| "steps_to_take E_Woken = 3"
| "steps_to_take E_Locked = 2"
| "steps_to_take E_Predicate = 2"
| "steps_to_take E_Decide = 1"
| "steps_to_take _ = 0"

lemma executor_takes:
  assumes "threads_ok s" and "qt_main s = M_Idle" and "q_requests (qt_queuer s) = r # rs" and "q_current (qt_queuer s) = None"
  shows "\<exists>s'. threads_run mj respond (replicate (steps_to_take (qt_executor s)) ExecutorStep) s = Some ([], s') \<and>
    q_current (qt_queuer s') = Some r \<and> qt_executor s' = E_Running"
proof -
  have "\<not> q_finishCycleThread (qt_queuer s)" "exec_owns (qt_executor s) \<or> qt_mutex s = None"
    using assms by (auto simp: threads_ok_def owner_cases [OF assms(1)])
  then show ?thesis
    using assms by (cases "qt_executor s")
      (simp_all add: threads_ok_def numeral_eq_Suc thread_step_def exec_step_def executor_take_def pq_top_def pq_pop_def)
qed

section \<open>The destructor\<close>

fun exec_rank :: "exec_at \<Rightarrow> nat" where
  "exec_rank E_Ended = 0"
| "exec_rank E_Decide = 1"
| "exec_rank E_Predicate = 2"
| "exec_rank E_Top = 4"
| "exec_rank E_Sleeping = 4"
| "exec_rank E_Running = 5"
| "exec_rank _ = 3"

fun main_rank :: "main_at \<Rightarrow> nat" where
  "main_rank M_Unlock = 3"
| "main_rank M_NotifyAll = 2"
| "main_rank M_Join = 1"
| "main_rank _ = 0"

definition rank :: "'ip queuer_threads \<Rightarrow> nat" where
  "rank s = exec_rank (qt_executor s) + main_rank (qt_main s)"

lemma rank_8: "rank s \<le> 8"
  by (cases "qt_executor s"; cases "qt_main s"; simp add: rank_def)

lemma finishing_exec_step:
  assumes "threads_ok s" and "q_finishCycleThread (qt_queuer s)" and "exec_step respond s = Some (executed, s')"
  shows "q_finishCycleThread (qt_queuer s') \<and> rank s' < rank s \<and> q_requests (qt_queuer s') = q_requests (qt_queuer s) \<and>
    (executed = [] \<and> q_current (qt_queuer s') \<in> {None, q_current (qt_queuer s)} \<or>
     (\<exists>r. q_current (qt_queuer s) = Some r \<and> executed = [r] \<and> q_current (qt_queuer s') = None))"
proof (cases "qt_executor s")
  case E_Running
  then have s': "s' = s\<lparr>qt_queuer := snd (snd (executor_run respond (qt_queuer s))), qt_executor := E_Top\<rparr>"
      and ex: "executed = fst (snd (executor_run respond (qt_queuer s)))"
    using assms(3) by (simp_all add: exec_step_def split: prod.splits)
  show ?thesis
    using assms(2) executor_run_result(3) [of respond "qt_queuer s"]
    by (simp add: s' ex E_Running rank_def executor_run_result(1,2) executor_run_frame)
qed (use assms in \<open>clarsimp simp: exec_step_def threads_ok_def rank_def split: if_splits\<close>)+

lemma finishing_step:
  assumes "threads_ok s" and "q_finishCycleThread (qt_queuer s)" and "thread_step mj respond e s = Some (executed, s')"
  shows "q_finishCycleThread (qt_queuer s') \<and> rank s' < rank s \<and> q_requests (qt_queuer s') = q_requests (qt_queuer s) \<and>
    (executed = [] \<and> q_current (qt_queuer s') \<in> {None, q_current (qt_queuer s)} \<or>
     (\<exists>r. q_current (qt_queuer s) = Some r \<and> executed = [r] \<and> q_current (qt_queuer s') = None))"
proof (cases e)
  case ExecutorStep
  then show ?thesis using finishing_exec_step [OF assms(1,2)] assms(3) by (simp add: thread_step_def)
next
  case MainStep
  then show ?thesis
    using assms by (cases "qt_main s") (auto simp: thread_step_def main_thread_step_def threads_ok_def notify_def rank_def split: if_splits)
next
  case SpuriousWakeup
  then show ?thesis using assms by (clarsimp simp: thread_step_def notify_def rank_def split: if_splits)
qed (use assms in \<open>auto simp: thread_step_def call_addRequest_def call_destructor_def threads_ok_def split: if_splits\<close>)

lemma threads_run_Cons:
  "threads_run mj respond (e # es) s = Some (executed, t) \<longleftrightarrow>
    (\<exists>done1 u done2. thread_step mj respond e s = Some (done1, u) \<and> threads_run mj respond es u = Some (done2, t) \<and>
       executed = done1 @ done2)"
  by (auto split: option.splits)

lemma finishing_run:
  assumes "threads_ok s" and "q_finishCycleThread (qt_queuer s)" and "threads_run mj respond es s = Some (executed, t)"
  shows "threads_ok t \<and> q_finishCycleThread (qt_queuer t) \<and> length es + rank t \<le> rank s \<and>
    q_requests (qt_queuer t) = q_requests (qt_queuer s) \<and>
    (executed = [] \<or> (\<exists>r. q_current (qt_queuer s) = Some r \<and> executed = [r]))"
  using assms
proof (induction es arbitrary: s executed)
  case (Cons e es)
  then obtain done1 u done2 where step: "thread_step mj respond e s = Some (done1, u)"
      and rest: "threads_run mj respond es u = Some (done2, t)" and executed: "executed = done1 @ done2"
    by (auto simp: threads_run_Cons simp del: threads_run.simps)
  note one = finishing_step [OF Cons.prems(1,2) step]
  have "threads_ok u" by (rule thread_step_ok [OF Cons.prems(1) step])
  with one rest Cons.IH [of u done2] show ?case unfolding executed by fastforce
qed simp

lemma finishing_stuck:
  assumes "threads_ok s" and "q_finishCycleThread (qt_queuer s)"
  shows "(\<forall>e. thread_step mj respond e s = None) \<longleftrightarrow> qt_main s = M_Destroyed"
proof
  assume stuck: "\<forall>e. thread_step mj respond e s = None"
  have "main_thread_step s = None" "exec_step respond s = None"
    using stuck [rule_format, of MainStep] stuck [rule_format, of ExecutorStep] by (simp_all add: thread_step_def)
  then show "qt_main s = M_Destroyed"
    using assms owner_cases [OF assms(1)]
    by (cases "qt_main s"; cases "qt_executor s") (auto simp: main_thread_step_def exec_step_def threads_ok_def split: if_splits prod.splits)
next
  assume "qt_main s = M_Destroyed"
  then show "\<forall>e. thread_step mj respond e s = None"
    using assms(1) by (auto simp: thread_step_def main_thread_step_def exec_step_def call_addRequest_def call_destructor_def threads_ok_def
        split: thread_event.split)
qed

text \<open>C12: No wake-up is lost. Whatever the order of the steps was, when \<open>addRequest\<close> has returned and a
  request is in the queue, the executor does not sleep: after at most four steps of its own, among them
  at most the execution of the request it holds, it has taken the next one.\<close>

theorem queued_request_is_taken:
  assumes "threads_reachable mj respond s" and "qt_main s = M_Idle" and "q_requests (qt_queuer s) = r # rs"
  shows "\<exists>n \<le> 4. \<exists>executed t. threads_run mj respond (replicate n ExecutorStep) s = Some (executed, t) \<and>
    q_current (qt_queuer t) = Some r \<and> set executed \<subseteq> set_option (q_current (qt_queuer s))"
proof (cases "qt_executor s = E_Running")
  case False
  then have "q_current (qt_queuer s) = None" using reachable_threads_ok [OF assms(1)] by (simp add: threads_ok_def)
  moreover have "steps_to_take (qt_executor s) \<le> 4" by (cases "qt_executor s") simp_all
  ultimately show ?thesis using executor_takes [OF reachable_threads_ok [OF assms(1)] assms(2,3)] by fastforce
next
  case True
  obtain calls executed q where run: "executor_run respond (qt_queuer s) = (calls, executed, q)" by (metis prod_cases3)
  define u where "u = s\<lparr>qt_queuer := q, qt_executor := E_Top\<rparr>"
  have first: "thread_step mj respond ExecutorStep s = Some (executed, u)"
    by (simp add: thread_step_def exec_step_def True run u_def)
  have "threads_ok u" by (rule thread_step_ok [OF reachable_threads_ok [OF assms(1)] first])
  moreover have "q_requests q = r # rs" "q_current q = None"
    using executor_run_frame(1) [of respond "qt_queuer s"] executor_run_result(1) [of respond "qt_queuer s"] assms(3)
    by (simp_all add: run)
  ultimately obtain t where t: "threads_run mj respond (replicate 3 ExecutorStep) u = Some ([], t)" "q_current (qt_queuer t) = Some r"
    using executor_takes [of u r rs mj respond] assms(2) by (auto simp: u_def)
  have "threads_run mj respond (replicate 4 ExecutorStep) s = Some (executed, t)"
    using first t(1) by (simp add: numeral_eq_Suc)
  moreover have "set executed \<subseteq> set_option (q_current (qt_queuer s))"
    using executor_run_result(3) [of respond "qt_queuer s"] by (auto simp: run)
  ultimately show ?thesis using t(2) by blast
qed

text \<open>C13: The destructor of the queuer returns. Once it has set its flag, the two threads can make at most
  eight more steps, in whatever order, and they come to rest only when the executor has ended and the
  destructor has returned. The executor finishes the request it holds, if any, and begins no other:
  those in the queue are dropped without an answer.\<close>

theorem queuer_destruction_ends:
  assumes "threads_reachable mj respond s" and "q_finishCycleThread (qt_queuer s)"
    and "threads_run mj respond es s = Some (executed, t)"
  shows "length es \<le> 8 \<and> ((\<forall>e. thread_step mj respond e t = None) \<longleftrightarrow> qt_main t = M_Destroyed) \<and>
    (qt_main t = M_Destroyed \<longrightarrow> qt_executor t = E_Ended) \<and>
    q_requests (qt_queuer t) = q_requests (qt_queuer s) \<and>
    (executed = [] \<or> (\<exists>r. q_current (qt_queuer s) = Some r \<and> executed = [r]))"
proof -
  note run = finishing_run [OF reachable_threads_ok [OF assms(1)] assms(2,3)]
  then have "qt_main t = M_Destroyed \<longrightarrow> qt_executor t = E_Ended" by (simp add: threads_ok_def)
  with run rank_8 [of s] finishing_stuck [of t mj respond] show ?thesis by auto
qed

section \<open>Examples\<close>

lemma run_reachable:
  assumes "threads_reachable mj respond s" and "threads_run mj respond es s = Some (executed, t)"
  shows "threads_reachable mj respond t"
  using assms
proof (induction es arbitrary: s executed)
  case (Cons e es)
  then show ?case by (auto simp: threads_run_Cons simp del: threads_run.simps intro: threads_reachable.step)
qed simp

definition test_request :: "unit request" where
  "test_request = new_request\<lparr>rq_serial := 3, rq_internalId := 2, rq_ipAddress := Some (), rq_reqJson := ''abc''\<rparr>"

definition test_threads :: "unit queuer_threads" where
  "test_threads = threads_init\<lparr>qt_queuer := queuer_init\<lparr>q_id := 2, q_requests := [test_request]\<rparr>\<rparr>"

lemmas test_defs = test_threads_def test_request_def threads_init_def thread_step_def call_addRequest_def main_thread_step_def notify_def
  exec_step_def call_destructor_def addRequest_def unary_reader_def set_field_def remove_oldest_def reset_serials_def nextId_def
  queuer_init_def REQUEST_QUEUE_MAX_SIZE_def REQUEST_QUEUE_OVERFLOW_BEHAVIOR_def new_request_def Let_def

lemma test_threads_reachable: "threads_reachable unary_reader (\<lambda>_. []) test_threads"
proof (rule run_reachable [OF threads_reachable.start])
  show "threads_run unary_reader (\<lambda>_. []) [CallAddRequest [] ''abc'' (), MainStep, MainStep] threads_init = Some ([], test_threads)"
    by (simp add: test_defs)
qed

theorem queued_request_is_taken_witness:
  "\<exists>n \<le> 4. \<exists>executed t. threads_run unary_reader (\<lambda>_. []) (replicate n ExecutorStep) test_threads = Some (executed, t) \<and>
    q_current (qt_queuer t) = Some test_request"
proof -
  have "qt_main test_threads = M_Idle" "q_requests (qt_queuer test_threads) = [test_request]"
    by (simp_all add: test_threads_def threads_init_def)
  with queued_request_is_taken [OF test_threads_reachable] show ?thesis by blast
qed

theorem queuer_destruction_ends_witness:
  "\<exists>t. threads_run unary_reader (\<lambda>_. []) [MainStep, ExecutorStep, MainStep, ExecutorStep, ExecutorStep, MainStep]
      (test_threads\<lparr>qt_queuer := (qt_queuer test_threads)\<lparr>q_finishCycleThread := True\<rparr>, qt_mutex := Some Main, qt_main := M_Unlock\<rparr>) =
      Some ([], t) \<and> qt_main t = M_Destroyed \<and> q_requests (qt_queuer t) = [test_request] \<and> qt_executor t = E_Ended"
proof -
  define s where "s = test_threads\<lparr>qt_queuer := (qt_queuer test_threads)\<lparr>q_finishCycleThread := True\<rparr>, qt_mutex := Some Main,
    qt_main := M_Unlock\<rparr>"
  have reach: "threads_reachable unary_reader (\<lambda>_. []) s"
    by (rule run_reachable [OF test_threads_reachable, where es = "[CallDestructor, MainStep]" and executed = "[]"])
       (simp add: s_def test_defs)
  have run: "\<exists>t. threads_run unary_reader (\<lambda>_. []) [MainStep, ExecutorStep, MainStep, ExecutorStep, ExecutorStep, MainStep] s =
      Some ([], t) \<and> qt_main t = M_Destroyed"
    by (simp add: s_def test_defs)
  then obtain t where t: "threads_run unary_reader (\<lambda>_. []) [MainStep, ExecutorStep, MainStep, ExecutorStep, ExecutorStep, MainStep] s =
      Some ([], t)" "qt_main t = M_Destroyed" by blast
  have "q_finishCycleThread (qt_queuer s)" "q_requests (qt_queuer s) = [test_request]"
    by (simp_all add: s_def test_threads_def)
  with queuer_destruction_ends [OF reach _ t(1)] t show ?thesis by (simp add: s_def [symmetric])
qed

end
