(* ===== verification/Camera_Server.thy ===== *)
theory Camera_Server
  imports Request_Queuer Szark_Prelude
begin

text \<open>
  The UDP server of camera images (\<open>server/camera_server/src/NetworkServer.cpp\<close>): one call of the
  receive handler. The JSON reader is that of \<open>Request_Queuer\<close>; the image source with the JPEG
  encoder, the JSON writer, the clock and the result of sending are parameters.
\<close>

section \<open>State and environment\<close>

definition RECEIVED_DATA_MAX_LENGTH :: nat where "RECEIVED_DATA_MAX_LENGTH = 256"
definition UDP_MAX_PAYLOAD_SIZE :: nat where "UDP_MAX_PAYLOAD_SIZE = 65506"
definition SEND_BUFFER_SIZE :: nat where "SEND_BUFFER_SIZE = 131072"
definition DEFAULT_JPEG_QUALITY :: int where "DEFAULT_JPEG_QUALITY = 45"

record camera_server =
  cs_recvBuffer :: string
  cs_sendBuffer :: "u8 list"

text \<open>The local variables the request is read into.\<close>

record camera_request =
  cr_serial :: int
  cr_drawHud :: bool
  cr_quality :: int
  cr_videoInput :: string
  cr_receivedTimestamp :: string
  cr_sendTimestamp :: string

text \<open>
  The environment: whether the reader throws for a field no handler has taken (the \<open>dispatch\<close> has
  no \<open>any\<close>), what the reader leaves in the buffer that it parses in place, the encoded image of an input,
  the text of the header and the number of bytes sent. \<open>None\<close> is an exception; an encoded image fits
  the buffer it is written to.
\<close>

record 'v camera_env =
  ce_mj :: "'v minijson"
  ce_unhandled :: "'v json \<Rightarrow> bool"
  ce_left :: "string \<Rightarrow> string"
  ce_now :: string
  ce_image :: "string \<Rightarrow> bool \<Rightarrow> int \<Rightarrow> u8 list option"
  ce_header :: "camera_request \<Rightarrow> u8 list"
  ce_send :: "u8 list \<Rightarrow> nat option"

text \<open>
  How the handler ends: after sending, by an exception it catches (of the reader or of \<open>send_to\<close>), by
  one that leaves it and ends the program, or by writing behind the send buffer.
\<close>

datatype camera_end = PacketSent "u8 list" | SendFailed | Malformed | Escaped | WroteOutside

section \<open>The handler\<close>

text \<open>\<open>quality\<close> is an \<open>int\<close>, the reader yields a \<open>long\<close>.\<close>

definition set_camera_field :: "'v camera_env \<Rightarrow> string \<times> 'v json \<Rightarrow> camera_request \<Rightarrow> camera_request \<times> camera_end option" where
  "set_camera_field env kv r =
     (let mj = ce_mj env; (k, v) = kv in
      if k = ''serial'' then (case mj_long mj v of None \<Rightarrow> (r, Some Escaped) | Some x \<Rightarrow> (r\<lparr>cr_serial := x\<rparr>, None))
      else if k = ''input'' then (case mj_string mj v of None \<Rightarrow> (r, Some Escaped) | Some t \<Rightarrow> (r\<lparr>cr_videoInput := t\<rparr>, None))
      else if k = ''drawHud'' then (case mj_bool mj v of None \<Rightarrow> (r, Some Escaped) | Some b \<Rightarrow> (r\<lparr>cr_drawHud := b\<rparr>, None))
      else if k = ''quality'' then
        (case mj_long mj v of None \<Rightarrow> (r, Some Escaped) | Some x \<Rightarrow> (r\<lparr>cr_quality := sint (of_int x :: 32 word)\<rparr>, None))
      else if k = ''tss'' then (case mj_string mj v of None \<Rightarrow> (r, Some Escaped) | Some t \<Rightarrow> (r\<lparr>cr_sendTimestamp := t\<rparr>, None))
      else (r, if ce_unhandled env v then Some Malformed else None))"

fun set_camera_fields ::
    "'v camera_env \<Rightarrow> (string \<times> 'v json) list \<Rightarrow> camera_request \<Rightarrow> camera_request \<times> camera_end option" where
  "set_camera_fields env [] r = (r, None)"
| "set_camera_fields env (kv # kvs) r =
     (case set_camera_field env kv r of
        (r, Some e) \<Rightarrow> (r, Some e)
      | (r, None) \<Rightarrow> set_camera_fields env kvs r)"

definition camera_defaults :: "'v camera_env \<Rightarrow> camera_request" where
  "camera_defaults env =
     \<lparr>cr_serial = 0, cr_drawHud = False, cr_quality = DEFAULT_JPEG_QUALITY, cr_videoInput = ''default'',
      cr_receivedTimestamp = ce_now env, cr_sendTimestamp = ce_now env\<rparr>"

text \<open>The whole receive buffer is parsed, not the bytes received.\<close>

definition read_camera_request :: "'v camera_env \<Rightarrow> string \<Rightarrow> camera_request \<times> camera_end option" where
  "read_camera_request env buffer =
     (let (kvs, whole) = mj_parse (ce_mj env) buffer in
      case set_camera_fields env kvs (camera_defaults env) of
        (r, Some e) \<Rightarrow> (r, Some e)
      | (r, None) \<Rightarrow>
          if \<not> whole then (r, Some Malformed)
          else
            (let quality = min 100 (cr_quality r);
                 quality = max 5 quality
             in (r\<lparr>cr_quality := quality\<rparr>, None)))"

text \<open>\<open>sendBuffer\<close> with header, zero byte and image, \<open>None\<close> when they do not fit.\<close>

definition fill_send_buffer :: "u8 list \<Rightarrow> u8 list \<Rightarrow> u8 list \<Rightarrow> u8 list option" where
  "fill_send_buffer header img buffer =
     (if SEND_BUFFER_SIZE < length header + 1 + length img then None
      else
        (let buffer = memcpy buffer header;
             buffer = buffer[length header := 0]
         in Some (take (length header + 1) buffer @ memcpy (drop (length header + 1) buffer) img)))"

definition send_image :: "'v camera_env \<Rightarrow> camera_request \<Rightarrow> camera_server \<Rightarrow> camera_server \<times> camera_end" where
  "send_image env r s =
     (case ce_image env (cr_videoInput r) (cr_drawHud r) (cr_quality r) of
        None \<Rightarrow> (s, Escaped)
      | Some img \<Rightarrow>
          (let header = ce_header env r in
           case fill_send_buffer header img (cs_sendBuffer s) of
             None \<Rightarrow> (s, WroteOutside)
           | Some buffer \<Rightarrow>
               (let s = s\<lparr>cs_sendBuffer := buffer\<rparr>;
                    packetLength = length img + length header + 1;
                    packetLength = (if packetLength > UDP_MAX_PAYLOAD_SIZE then min packetLength UDP_MAX_PAYLOAD_SIZE else packetLength)
                in case ce_send env (take packetLength buffer) of
                     None \<Rightarrow> (s, SendFailed)
                   | Some sentBytes \<Rightarrow> (s, PacketSent (take packetLength buffer)))))"

text \<open>\<open>minijson::buffer_context\<close> writes the strings and numbers it reads into the buffer that it parses.\<close>

definition parsed_in_place :: "'v camera_env \<Rightarrow> string \<Rightarrow> string" where
  "parsed_in_place env buffer = memcpy buffer (take (length buffer) (ce_left env buffer))"

text \<open>A datagram is cut to the buffer; \<open>None\<close> is an error of receiving.\<close>

definition camera_receive :: "'v camera_env \<Rightarrow> string option \<Rightarrow> camera_server \<Rightarrow> camera_server \<times> camera_end" where
  "camera_receive env datagram s =
     (case datagram of
        None \<Rightarrow> (s, Escaped)
      | Some d \<Rightarrow>
          (let s = s\<lparr>cs_recvBuffer := memcpy (cs_recvBuffer s) (take RECEIVED_DATA_MAX_LENGTH d)\<rparr>;
               request = read_camera_request env (cs_recvBuffer s);
               s = s\<lparr>cs_recvBuffer := parsed_in_place env (cs_recvBuffer s)\<rparr> in
           case request of
             (r, Some e) \<Rightarrow> (s, e)
           | (r, None) \<Rightarrow> send_image env r s))"

section \<open>Properties\<close>

definition camera_ok :: "camera_server \<Rightarrow> bool" where
  "camera_ok s \<longleftrightarrow> length (cs_recvBuffer s) = RECEIVED_DATA_MAX_LENGTH \<and> length (cs_sendBuffer s) = SEND_BUFFER_SIZE"

lemma fill_buffer:
  assumes "length buffer = SEND_BUFFER_SIZE" and "fill_send_buffer header img buffer = Some filled"
  shows "filled = header @ 0 # img @ drop (length header + 1 + length img) buffer" "length filled = SEND_BUFFER_SIZE"
proof -
  have fits: "length header + 1 + length img \<le> SEND_BUFFER_SIZE"
    using assms(2) by (simp add: fill_send_buffer_def split: if_splits)
  obtain x xs where "drop (length header) buffer = x # xs"
    using fits assms(1) by (cases "drop (length header) buffer") simp_all
  then have "xs = drop (length header + 1) buffer" by (metis drop_Suc tl_drop list.sel(3) Suc_eq_plus1)
  then have "(memcpy buffer header)[length header := 0] = header @ 0 # drop (length header + 1) buffer"
    using \<open>drop (length header) buffer = x # xs\<close> by (simp add: memcpy_def list_update_append)
  then show filled: "filled = header @ 0 # img @ drop (length header + 1 + length img) buffer"
    using assms(2) by (simp add: fill_send_buffer_def memcpy_def add.commute split: if_splits)
  show "length filled = SEND_BUFFER_SIZE" using fits assms(1) by (simp add: filled)
qed

text \<open>What the client makes of a packet: the text up to the first zero byte, and the rest.\<close>

definition split_packet :: "u8 list \<Rightarrow> u8 list \<times> u8 list" where
  "split_packet bytes = (takeWhile (\<lambda>b. b \<noteq> 0) bytes, tl (dropWhile (\<lambda>b. b \<noteq> 0) bytes))"

lemma split_header: "0 \<notin> set header \<Longrightarrow> split_packet (header @ 0 # rest) = (header, rest)"
  by (induction header) (simp_all add: split_packet_def)

lemma camera_defaults_ok: "snd (read_camera_request env buffer) = None \<Longrightarrow>
  5 \<le> cr_quality (fst (read_camera_request env buffer)) \<and> cr_quality (fst (read_camera_request env buffer)) \<le> 100"
  by (auto simp: read_camera_request_def Let_def split: prod.splits option.splits if_splits)

lemma parsed_in_place_length [simp]: "length (parsed_in_place env buffer) = length buffer"
  by (simp add: parsed_in_place_def)

lemma camera_receive_ok: "camera_ok s \<Longrightarrow> camera_ok (fst (camera_receive env datagram s))"
  by (auto simp: camera_receive_def send_image_def camera_ok_def Let_def RECEIVED_DATA_MAX_LENGTH_def fill_buffer(2)
      split: option.split prod.split)

text \<open>What is sent does not depend on what the buffer held.\<close>

lemma send_image_outcome:
  assumes "length (cs_sendBuffer s) = SEND_BUFFER_SIZE"
  shows "snd (send_image env r s) =
    (case ce_image env (cr_videoInput r) (cr_drawHud r) (cr_quality r) of
       None \<Rightarrow> Escaped
     | Some img \<Rightarrow>
         if SEND_BUFFER_SIZE < length (ce_header env r) + 1 + length img then WroteOutside
         else (case ce_send env (take UDP_MAX_PAYLOAD_SIZE (ce_header env r @ 0 # img)) of
                 None \<Rightarrow> SendFailed
               | Some n \<Rightarrow> PacketSent (take UDP_MAX_PAYLOAD_SIZE (ce_header env r @ 0 # img))))"
proof (cases "ce_image env (cr_videoInput r) (cr_drawHud r) (cr_quality r)")
  case None
  then show ?thesis by (simp add: send_image_def)
next
  case (Some img)
  define header where "header = ce_header env r"
  define n where "n = length img + length header + 1"
  define packetLength where "packetLength = (if n > UDP_MAX_PAYLOAD_SIZE then min n UDP_MAX_PAYLOAD_SIZE else n)"
  show ?thesis
  proof (cases "fill_send_buffer header img (cs_sendBuffer s)")
    case None
    then show ?thesis using Some by (simp add: send_image_def header_def [symmetric]) (simp add: fill_send_buffer_def Let_def split: if_splits)
  next
    case filled: (Some buffer)
    from fill_buffer(1) [OF assms filled] have buffer: "buffer = (header @ 0 # img) @ drop (length header + 1 + length img) (cs_sendBuffer s)"
      by simp
    have packet: "take packetLength buffer = take UDP_MAX_PAYLOAD_SIZE (header @ 0 # img)"
      unfolding buffer take_append by (auto simp: packetLength_def n_def)
    have "snd (send_image env r s) =
        (case ce_send env (take packetLength buffer) of None \<Rightarrow> SendFailed | Some n \<Rightarrow> PacketSent (take packetLength buffer))"
      using Some filled
      unfolding packetLength_def n_def send_image_def Let_def header_def
      by (cases "UDP_MAX_PAYLOAD_SIZE < length img + length (ce_header env r) + 1") (simp_all split: option.split)
    then have "snd (send_image env r s) = (case ce_send env (take UDP_MAX_PAYLOAD_SIZE (header @ 0 # img)) of
        None \<Rightarrow> SendFailed | Some n \<Rightarrow> PacketSent (take UDP_MAX_PAYLOAD_SIZE (header @ 0 # img)))"
      by (simp only: packet)
    moreover have "\<not> SEND_BUFFER_SIZE < length header + 1 + length img"
      using filled by (simp add: fill_send_buffer_def split: if_splits)
    ultimately show ?thesis using Some by (simp only: header_def option.case if_False)
  qed
qed

lemma send_image_recv: "cs_recvBuffer (fst (send_image env r s)) = cs_recvBuffer s"
  by (simp add: send_image_def Let_def split: option.split)

lemma set_camera_fields_end: "snd (set_camera_fields env kvs r) \<in> {None, Some Escaped, Some Malformed}"
proof (induction kvs arbitrary: r)
  case (Cons kv kvs)
  have "snd (set_camera_field env kv r) \<in> {None, Some Escaped, Some Malformed}"
    by (simp add: set_camera_field_def Let_def case_prod_beta split: option.split)
  moreover obtain r' e where "set_camera_field env kv r = (r', e)" by fastforce
  ultimately show ?case using Cons.IH by (cases e) simp_all
qed simp

lemma read_camera_request_end: "snd (read_camera_request env buffer) \<in> {None, Some Escaped, Some Malformed}"
proof -
  obtain kvs whole where "mj_parse (ce_mj env) buffer = (kvs, whole)" by fastforce
  moreover obtain r e where "set_camera_fields env kvs (camera_defaults env) = (r, e)" by fastforce
  ultimately show ?thesis
    using set_camera_fields_end [of env kvs "camera_defaults env"] by (cases e) (simp_all add: read_camera_request_def Let_def)
qed

text \<open>The answer to a datagram, as a function of the receive buffer it makes.\<close>

definition camera_answer :: "'v camera_env \<Rightarrow> string \<Rightarrow> camera_end" where
  "camera_answer env buffer =
     (case read_camera_request env buffer of
        (r, Some e) \<Rightarrow> e
      | (r, None) \<Rightarrow>
          snd (send_image env r \<lparr>cs_recvBuffer = buffer, cs_sendBuffer = replicate SEND_BUFFER_SIZE 0\<rparr>))"

lemma camera_receive_answer:
  assumes "camera_ok s"
  shows "snd (camera_receive env (Some d) s) = camera_answer env (memcpy (cs_recvBuffer s) (take RECEIVED_DATA_MAX_LENGTH d))"
    and "cs_recvBuffer (fst (camera_receive env (Some d) s)) =
      parsed_in_place env (memcpy (cs_recvBuffer s) (take RECEIVED_DATA_MAX_LENGTH d))"
  using assms
  by (simp_all add: camera_receive_def camera_answer_def camera_ok_def send_image_outcome send_image_recv Let_def split: prod.split option.split)

text \<open>The packet a client gets. Every packet sent has at most 65506 bytes; it is the beginning of header,
  zero byte and image for a request read from the receive buffer with a quality between 5 and 100.
  When nothing was cut and the header has no zero byte, the client separates both again.\<close>

theorem camera_packet:
  assumes "camera_ok s" and "snd (camera_receive env (Some d) s) = PacketSent bytes"
  shows "length bytes \<le> 65506 \<and>
    (\<exists>r img. read_camera_request env (memcpy (cs_recvBuffer s) (take RECEIVED_DATA_MAX_LENGTH d)) = (r, None) \<and>
       ce_image env (cr_videoInput r) (cr_drawHud r) (cr_quality r) = Some img \<and> 5 \<le> cr_quality r \<and> cr_quality r \<le> 100 \<and>
       bytes = take 65506 (ce_header env r @ 0 # img) \<and>
       (length (ce_header env r) + 1 + length img \<le> 65506 \<and> 0 \<notin> set (ce_header env r) \<longrightarrow>
          split_packet bytes = (ce_header env r, img)))"
proof -
  define buffer where "buffer = memcpy (cs_recvBuffer s) (take RECEIVED_DATA_MAX_LENGTH d)"
  have answer: "camera_answer env buffer = PacketSent bytes"
    using assms(2) camera_receive_answer(1) [OF assms(1), of env d] by (simp add: buffer_def)
  obtain r e where r: "read_camera_request env buffer = (r, e)" by fastforce
  have "e = None"
    using answer read_camera_request_end [of env buffer] by (auto simp: camera_answer_def r)
  then obtain img where img: "ce_image env (cr_videoInput r) (cr_drawHud r) (cr_quality r) = Some img"
      "bytes = take UDP_MAX_PAYLOAD_SIZE (ce_header env r @ 0 # img)"
    using answer by (auto simp: camera_answer_def r send_image_outcome split: option.splits if_splits)
  have "5 \<le> cr_quality r \<and> cr_quality r \<le> 100" using camera_defaults_ok [of env buffer] by (simp add: r \<open>e = None\<close>)
  moreover have "split_packet bytes = (ce_header env r, img)" if "length (ce_header env r) + 1 + length img \<le> 65506" "0 \<notin> set (ce_header env r)"
    using that split_header [OF that(2), of img] by (simp add: img(2) UDP_MAX_PAYLOAD_SIZE_def)
  ultimately show ?thesis using r img \<open>e = None\<close> by (auto simp: buffer_def UDP_MAX_PAYLOAD_SIZE_def)
qed

text \<open>Old bytes are read again. The handler parses the whole buffer and not the bytes received: behind a
  datagram stand the bytes that the parser has left of the requests before, so what a datagram is
  answered with depends on them.\<close>

theorem old_bytes_are_parsed:
  fixes d d' :: string and env' :: "'v camera_env"
  assumes "camera_ok s"
  defines "received \<equiv> take RECEIVED_DATA_MAX_LENGTH d'"
    and "left \<equiv> parsed_in_place env' (memcpy (cs_recvBuffer s) (take RECEIVED_DATA_MAX_LENGTH d))"
  shows "snd (camera_receive env (Some d') (fst (camera_receive env' (Some d) s))) =
    camera_answer env (received @ drop (length received) left)"
  using camera_receive_answer(1) [OF camera_receive_ok [OF assms(1)], of env d' env' "Some d"]
    camera_receive_answer(2) [OF assms(1), of env' d]
  by (simp add: left_def received_def memcpy_def)

definition test_camera :: "nat camera_env" where
  "test_camera = \<lparr>ce_mj = unary_reader\<lparr>mj_parse := \<lambda>t. ([(''quality'', JAtom 200)], True)\<rparr>, ce_unhandled = \<lambda>_. False, ce_left = \<lambda>t. t, ce_now = ''now'',
     ce_image = \<lambda>input hud quality. Some [of_int quality, 7], ce_header = \<lambda>r. [1, 2], ce_send = \<lambda>bytes. Some (length bytes)\<rparr>"

definition camera_start :: camera_server where
  "camera_start = \<lparr>cs_recvBuffer = replicate 256 (CHR 0x00), cs_sendBuffer = replicate SEND_BUFFER_SIZE 0\<rparr>"

theorem camera_packet_witness:
  "snd (camera_receive test_camera (Some ''q'') camera_start) = PacketSent [1, 2, 0, 100, 7] \<and>
   length ([1, 2, 0, 100, 7] :: u8 list) \<le> 65506"
proof -
  have ok: "camera_ok camera_start" by (simp add: camera_ok_def camera_start_def RECEIVED_DATA_MAX_LENGTH_def)
  have sent: "snd (camera_receive test_camera (Some ''q'') camera_start) = PacketSent [1, 2, 0, 100, 7]"
    by (simp add: camera_receive_answer(1) [OF ok] camera_answer_def read_camera_request_def set_camera_field_def camera_defaults_def
        test_camera_def unary_reader_def send_image_outcome SEND_BUFFER_SIZE_def UDP_MAX_PAYLOAD_SIZE_def Let_def)
  from camera_packet [OF ok this] sent show ?thesis by blast
qed

end
