(* ===== verification/Net_Setup.thy ===== *)
theory Net_Setup
  imports Net_Server Camera_Server
begin

text \<open>
  Start of the two UDP servers: \<open>Init\<close> of \<open>control_server/src/NetServer.cpp\<close> and of
  \<open>camera_server/src/NetworkServer.cpp\<close>. Configuration, sockets and the memory allocator are a parameter.
\<close>

section \<open>The environment\<close>

text \<open>\<open>ne_getInt\<close> and \<open>ne_getBool\<close> are those of \<open>Configuration\<close>, \<open>None\<close> an exception; \<open>ne_open\<close> opens a
  socket for IPv6 or IPv4, or throws; \<open>ne_bind\<close> yields the message of an error; an endpoint has a port of
  16 bits. \<open>ne_memalign\<close> tells for the n-th block whether there is memory.\<close>

record net_env =
  ne_getInt :: "string \<Rightarrow> int option"
  ne_getBool :: "string \<Rightarrow> bool option"
  ne_open :: "bool \<Rightarrow> bool"
  ne_bind :: "bool \<Rightarrow> 16 word \<Rightarrow> string option"
  ne_memalign :: "nat \<Rightarrow> nat \<Rightarrow> bool"

datatype net_setup_error = ConfigThrown string | SocketThrown | BindFailed string | CannotAllocate

text \<open>A server that listens: the family and port of its socket. With an \<open>unsigned int\<close> or an \<open>int\<close> for the
  port, the constructor of the endpoint takes its lower 16 bits.\<close>

record udp_listener =
  li_ipv6 :: bool
  li_port :: "16 word"

definition open_bind :: "net_env \<Rightarrow> bool \<Rightarrow> 32 word \<Rightarrow> net_setup_error + udp_listener" where
  "open_bind e ipv6enabled port =
     (if \<not> ne_open e ipv6enabled then Inl SocketThrown
      else case ne_bind e ipv6enabled (ucast port) of
        Some msg \<Rightarrow> Inl (BindFailed msg)
      | None \<Rightarrow> Inr \<lparr>li_ipv6 = ipv6enabled, li_port = ucast port\<rparr>)"

section \<open>\<open>Init\<close>\<close>

text \<open>\<open>NetServer::Init\<close>; \<open>udpPort\<close> is 0 unless it was given to the constructor.\<close>

definition NetServer_Init :: "net_env \<Rightarrow> 32 word \<Rightarrow> net_setup_error + udp_listener" where
  "NetServer_Init e udpPort =
     (case (if udpPort = 0 then map_option of_int (ne_getInt e ''NetServer.port'') else Some udpPort) of
        None \<Rightarrow> Inl (ConfigThrown ''NetServer.port'')
      | Some udpPort \<Rightarrow>
          (case ne_getBool e ''NetServer.enable_ipv6'' of
             None \<Rightarrow> Inl (ConfigThrown ''NetServer.enable_ipv6'')
           | Some ipv6enabled \<Rightarrow> open_bind e ipv6enabled udpPort))"

text \<open>\<open>NetworkServer::Init\<close>: the two buffers for sending are allocated when the socket is bound. The result
  says which of them the destructor frees.\<close>

definition NetworkServer_Init :: "net_env \<Rightarrow> 32 word \<Rightarrow> (net_setup_error + udp_listener) \<times> bool \<times> bool" where
  "NetworkServer_Init e port =
     (case (if port = 0 then map_option of_int (ne_getInt e ''NetworkServer.port'') else Some port) of
        None \<Rightarrow> (Inl (ConfigThrown ''NetworkServer.port''), False, False)
      | Some port \<Rightarrow>
          (case ne_getBool e ''NetworkServer.enable_ipv6'' of
             None \<Rightarrow> (Inl (ConfigThrown ''NetworkServer.enable_ipv6''), False, False)
           | Some ipv6enabled \<Rightarrow>
               (case open_bind e ipv6enabled port of
                  Inl err \<Rightarrow> (Inl err, False, False)
                | Inr l \<Rightarrow>
                    if \<not> ne_memalign e 0 SEND_BUFFER_SIZE then (Inl CannotAllocate, False, False)
                    else if \<not> ne_memalign e 1 SEND_BUFFER_SIZE then (Inl CannotAllocate, True, False)
                    else (Inr l, True, True))))"

section \<open>Properties\<close>

lemma open_bind_listens:
  "open_bind e v6 port = Inr l \<longleftrightarrow>
    ne_open e v6 \<and> ne_bind e v6 (ucast port) = None \<and> l = \<lparr>li_ipv6 = v6, li_port = ucast port\<rparr>"
  by (auto simp: open_bind_def split: option.split)

lemma port_of_int: "uint (ucast (word_of_int n :: 32 word) :: 16 word) = n mod 2 ^ 16"
proof -
  have "uint (ucast (word_of_int n :: 32 word) :: 16 word) = n mod 2 ^ 32 mod 2 ^ 16"
    by (simp add: unsigned_ucast_eq take_bit_eq_mod uint_word_of_int)
  then show ?thesis by (simp add: mod_mod_cancel)
qed

text \<open>A server that has started without a port of its own listens on the configured port when that is below
  65536; a greater one is cut to its lower 16 bits without an error, so 65536 means any free port.\<close>

lemma servers_listen_on_configured_port:
  shows "ne_getInt e ''NetServer.port'' = Some n \<Longrightarrow> NetServer_Init e 0 = Inr l \<Longrightarrow>
      uint (li_port l) = n mod 2 ^ 16 \<and> ne_bind e (li_ipv6 l) (li_port l) = None"
    and "ne_getInt e ''NetworkServer.port'' = Some n \<Longrightarrow> NetworkServer_Init e 0 = (Inr l, b1, b2) \<Longrightarrow>
      uint (li_port l) = n mod 2 ^ 16 \<and> ne_bind e (li_ipv6 l) (li_port l) = None \<and> b1 \<and> b2"
  using port_of_int [of n]
  by (auto simp: NetServer_Init_def NetworkServer_Init_def open_bind_listens split: option.splits sum.splits if_splits)

end
