(* ===== verification/Camera_Images.thy ===== *)
theory Camera_Images
  imports Camera_Server Interface_Spec
begin

text \<open>
  Where the camera server's images come from (\<open>server/camera_server/src\<close>): the frame grabber
  (\<open>CameraImageGrabber.cpp\<close>), the image sources of the two programs (\<open>HeadImageSource.cpp\<close>,
  \<open>GripperImageSource.cpp\<close>), the overlay (\<open>HeadHudPainter.cpp\<close>) and the encoder of OpenCV
  (\<open>JpegEncoder.cpp\<close>). A \<open>cv::Mat\<close> is a header over pixels it shares, so the grabber's frame is the index
  of a buffer and the buffers are the store. Pixel conversion, drawing and encoding are parameters.
\<close>

section \<open>The frame grabber\<close>

definition FRAMERATE_AVG_FRAMES :: nat where "FRAMERATE_AVG_FRAMES = 5"

datatype flip_params = FLIP_NONE | FLIP_VERTICALLY | FLIP_HORIZONTALLY | ROTATE_180

text \<open>The codes of \<open>cv::flip\<close>.\<close>

fun flipMap :: "flip_params \<Rightarrow> int option" where
  "flipMap FLIP_HORIZONTALLY = Some 1"
| "flipMap FLIP_VERTICALLY = Some 0"
| "flipMap ROTATE_180 = Some (-1)"
| "flipMap FLIP_NONE = None"

text \<open>A frame rate is \<open>None\<close> when it is infinite.\<close>

record 'img grabber =
  gr_captureTimes :: "int list"
  gr_currentFrame :: "nat option"
  gr_prevVideoInput :: int
  gr_flipParams :: flip_params
  gr_currentFrameNo :: int
  gr_currentFps :: "rat option"
  gr_rgbBuffers :: "'img list"

text \<open>The buffers and \<open>currentFps\<close> are not initialised.\<close>

definition grabber_init :: "rat option \<Rightarrow> 'img list \<Rightarrow> 'img grabber" where
  "grabber_init fps buffers = \<lparr>gr_captureTimes = [], gr_currentFrame = None, gr_prevVideoInput = -1, gr_flipParams = FLIP_NONE,
     gr_currentFrameNo = 1, gr_currentFps = fps, gr_rgbBuffers = buffers\<rparr>"

text \<open>\<open>setVideoParams\<close>; \<open>ok\<close> is the result of the \<open>ioctl\<close>, \<open>False\<close> an exception.\<close>

definition setVideoParams :: "bool \<Rightarrow> int \<Rightarrow> flip_params \<Rightarrow> 'img grabber \<Rightarrow> 'img grabber \<times> bool" where
  "setVideoParams ok input flipParams s =
     (let s = s\<lparr>gr_flipParams := flipParams\<rparr> in
      if input \<noteq> gr_prevVideoInput s
      then (if ok then (s\<lparr>gr_prevVideoInput := input\<rparr>, True) else (s, False))
      else (s, True))"

text \<open>\<open>boost::circular_buffer::push_back\<close>, and the frame rate of the times in it (milliseconds).\<close>

definition circular_push :: "nat \<Rightarrow> 'a list \<Rightarrow> 'a \<Rightarrow> 'a list" where
  "circular_push capacity xs x = (if length xs < capacity then xs @ [x] else tl xs @ [x])"

definition frame_rate :: "int list \<Rightarrow> rat option" where
  "frame_rate captureTimes =
     (let total = foldl (+) 0 captureTimes in if total = 0 then None else Some (of_nat (length captureTimes) * 1000 / of_int total))"

text \<open>
  A round of the grabber's thread in its two parts: without the lock, the frame in buffer \<open>i\<close> is
  converted and flipped where it stands; with it, the frame is published.
\<close>

definition grab_convert ::
    "('raw \<Rightarrow> 'img) \<Rightarrow> (int \<Rightarrow> 'img \<Rightarrow> 'img) \<Rightarrow> 'raw \<Rightarrow> nat \<Rightarrow> int \<Rightarrow> 'img grabber \<Rightarrow> 'img grabber" where
  "grab_convert convert flip raw i elapsedTime s =
     (let s = s\<lparr>gr_captureTimes := circular_push FRAMERATE_AVG_FRAMES (gr_captureTimes s) elapsedTime\<rparr>;
          frame = convert raw;
          frame = (case flipMap (gr_flipParams s) of None \<Rightarrow> frame | Some code \<Rightarrow> flip code frame)
      in s\<lparr>gr_rgbBuffers := (gr_rgbBuffers s)[i := frame]\<rparr>)"

definition grab_publish :: "nat \<Rightarrow> 'img grabber \<Rightarrow> 'img grabber" where
  "grab_publish i s =
     s\<lparr>gr_currentFrame := Some i, gr_currentFrameNo := gr_currentFrameNo s + 1, gr_currentFps := frame_rate (gr_captureTimes s)\<rparr>"

text \<open>\<open>getFrame\<close> at state \<open>s\<close>; \<open>s'\<close> is the state when the condition variable is notified. It waits when
  \<open>wait\<close> is false.\<close>

definition getFrame :: "bool \<Rightarrow> 'img grabber \<Rightarrow> 'img grabber \<Rightarrow> int \<times> rat option \<times> nat option" where
  "getFrame wait s s' =
     (let s = (if \<not> wait then s' else s) in (gr_currentFrameNo s, gr_currentFps s, gr_currentFrame s))"

definition frame_image :: "'img grabber \<Rightarrow> nat option \<Rightarrow> 'img option" where
  "frame_image s frame = (case frame of None \<Rightarrow> None | Some i \<Rightarrow> peek (gr_rgbBuffers s) i)"

section \<open>The overlay\<close>

type_synonym point = "int \<times> int"
type_synonym scalar = "nat \<times> nat \<times> nat"

definition GREEN :: scalar where "GREEN = (0x55, 0xD4, 0x19)"
definition RED :: scalar where "RED = (0x19, 0x1B, 0xD4)"
definition FILLED :: int where "FILLED = -1"

text \<open>The calls of \<open>cv::putText\<close> and \<open>cv::rectangle\<close>.\<close>

datatype drawing = PutText string point scalar | Rectangle point point scalar int

text \<open>
  The nearest \<open>float\<close> of a number below \<open>2 ^ 24\<close>, ties to even: 24 significant bits. The products and
  differences of \<open>double\<close> below are exact.
\<close>

definition round_even :: "rat \<Rightarrow> int" where
  "round_even q =
     (let f = \<lfloor>q\<rfloor>; r = q - of_int f in
      if r < 1 / 2 then f else if 1 / 2 < r then f + 1 else if even f then f else f + 1)"

definition float_of :: "rat \<Rightarrow> rat" where
  "float_of x =
     (case find (\<lambda>e. 2 ^ 23 \<le> x * 2 ^ e) [0 ..< 150] of
        None \<Rightarrow> 0
      | Some e \<Rightarrow> of_int (round_even (x * 2 ^ e)) / 2 ^ e)"

text \<open>Conversion to \<open>int\<close>.\<close>

definition truncate_rat :: "rat \<Rightarrow> int" where
  "truncate_rat q = (if 0 \<le> q then \<lfloor>q\<rfloor> else \<lceil>q\<rceil>)"

definition point_add :: "point \<Rightarrow> point \<Rightarrow> point" where
  "point_add p q = (fst p + fst q, snd p + snd q)"

definition drawProgressBar :: "point \<Rightarrow> point \<Rightarrow> scalar \<Rightarrow> rat \<Rightarrow> bool \<Rightarrow> drawing list" where
  "drawProgressBar topLeft barSize color progress invert =
     [Rectangle topLeft (point_add topLeft barSize) color 2,
      if invert
      then
        (let filledAreaOffset = (truncate_rat (of_int (fst barSize) * (1 - progress)), 0)
         in Rectangle (point_add topLeft filledAreaOffset) (point_add topLeft barSize) color FILLED)
      else
        (let filledAreaSize = (truncate_rat (float_of (of_int (fst barSize) * progress)), snd barSize)
         in Rectangle topLeft (point_add topLeft filledAreaSize) color FILLED)]"

definition drawMotorInfo :: "int \<times> int \<Rightarrow> iface \<Rightarrow> drawing list" where
  "drawMotorInfo img interface =
     (let (cols, rows) = img;
          barSize = (100, 20);
          pivot = (tdiv cols 2, rows - 40);
          drawMotorSpeed = (\<lambda>m offset invert.
            (let color = (if sm_direction (if_motors interface m) = BACKWARD then RED else GREEN)
             in drawProgressBar (point_add pivot offset) barSize color
                  (float_of (of_nat (unat (sm_programmedSpeed (if_motors interface m))) / of_nat (unat MOTOR_DRIVER_MAX_SPEED))) invert))
      in drawMotorSpeed M_LEFT (-120, 0) True @ drawMotorSpeed M_RIGHT (20, 0) False)"

text \<open>\<open>drawContent\<close>; the interface is \<open>None\<close> when the provider is not valid, \<open>show_fps\<close> is the format
  \<open>%.1f\<close>.\<close>

definition to_string :: "int \<Rightarrow> string" where
  "to_string n = (if n < 0 then CHR ''-'' # decimal (nat (- n)) else decimal (nat n))"

definition drawContent :: "(rat option \<Rightarrow> string) \<Rightarrow> iface option \<Rightarrow> int \<times> int \<Rightarrow> int \<Rightarrow> rat option \<Rightarrow> drawing list" where
  "drawContent show_fps interface img frameNo fps =
     [PutText (to_string frameNo) (30, 30) GREEN, PutText (show_fps fps) (30, 63) RED] @
     (case interface of None \<Rightarrow> [] | Some i \<Rightarrow> drawMotorInfo img i)"

section \<open>The camera on the head\<close>

text \<open>What the source is given: conversion, flipping and drawing of images, their size, the configured
  inputs and the result of the \<open>ioctl\<close>; \<open>he_interface\<close> is the shared interface if it is valid.\<close>

record ('raw, 'img) head_env =
  he_convert :: "'raw \<Rightarrow> 'img"
  he_flip :: "int \<Rightarrow> 'img \<Rightarrow> 'img"
  he_draw :: "drawing \<Rightarrow> 'img \<Rightarrow> 'img"
  he_size :: "'img \<Rightarrow> int \<times> int"
  he_show_fps :: "rat option \<Rightarrow> string"
  he_interface :: "iface option"
  he_gripperInputNo :: int
  he_backInputNo :: int
  he_ioctl :: bool

text \<open>The overlay is drawn into the buffer that the frame shares with the grabber.\<close>

definition draw_frame :: "('raw, 'img) head_env \<Rightarrow> int \<Rightarrow> rat option \<Rightarrow> nat option \<Rightarrow> 'img grabber \<Rightarrow> 'img grabber" where
  "draw_frame env frameNo fps frame s =
     (case frame of
        None \<Rightarrow> s
      | Some i \<Rightarrow>
          (let img = gr_rgbBuffers s ! i;
               drawings = drawContent (he_show_fps env) (he_interface env) (he_size env img) frameNo fps
           in s\<lparr>gr_rgbBuffers := (gr_rgbBuffers s)[i := fold (he_draw env) drawings img]\<rparr>))"

text \<open>\<open>HeadImageSource::getImage\<close>: the frame returned, or \<open>None\<close> for an exception.\<close>

definition head_getImage :: "('raw, 'img) head_env \<Rightarrow> string \<Rightarrow> bool \<Rightarrow> 'img grabber \<Rightarrow> 'img grabber \<times> nat option option" where
  "head_getImage env videoInput drawHud s =
     (let (input, flipParams) =
            (if videoInput = ''back'' then (he_backInputNo env, ROTATE_180) else (he_gripperInputNo env, FLIP_NONE))
      in case setVideoParams (he_ioctl env) input flipParams s of
           (s, False) \<Rightarrow> (s, None)
         | (s, True) \<Rightarrow>
             (let (frameNo, fps, frame) = getFrame True s s;
                  s = (if drawHud then draw_frame env frameNo fps frame s else s)
              in (s, Some frame)))"

text \<open>\<open>OpenCvJpegEncoder::encodeImage\<close>: \<open>None\<close> is the exception.\<close>

definition encodeImage :: "('img \<Rightarrow> int \<Rightarrow> u8 list) \<Rightarrow> 'img \<Rightarrow> nat \<Rightarrow> int \<Rightarrow> u8 list option" where
  "encodeImage imencode inputImage maxOutputLength quality =
     (let buffer = imencode inputImage quality in if maxOutputLength < length buffer then None else Some buffer)"

text \<open>A datagram at the camera server of the head: \<open>NetworkServer\<close> asks the source once the request is
  read; \<open>encode\<close> is the encoder, \<open>None\<close> its exception, also for an image without data.\<close>

definition head_image :: "('raw, 'img) head_env \<Rightarrow> ('img option \<Rightarrow> int \<Rightarrow> u8 list option) \<Rightarrow> 'img grabber \<Rightarrow>
    string \<Rightarrow> bool \<Rightarrow> int \<Rightarrow> u8 list option" where
  "head_image env encode s videoInput drawHud quality =
     (case head_getImage env videoInput drawHud s of
        (s, None) \<Rightarrow> None
      | (s, Some frame) \<Rightarrow> encode (frame_image s frame) quality)"

section \<open>The cameras of the gripper\<close>

text \<open>\<open>cv::Mat\<close> by its size and pixels, row first. The operations of OpenCV are parameters; what the code
  relies on of their documentation is \<open>mat_laws\<close>.\<close>

record 'p mat =
  mat_rows :: nat
  mat_cols :: nat
  mat_at :: "nat \<Rightarrow> nat \<Rightarrow> 'p"

record 'p mat_ops =
  mo_transpose :: "'p mat \<Rightarrow> 'p mat"
  mo_flip :: "int \<Rightarrow> 'p mat \<Rightarrow> 'p mat"

definition mat_laws :: "'p mat_ops \<Rightarrow> bool" where
  "mat_laws ops \<longleftrightarrow>
     (\<forall>m. mat_rows (mo_transpose ops m) = mat_cols m \<and> mat_cols (mo_transpose ops m) = mat_rows m \<and>
        (\<forall>r < mat_cols m. \<forall>c < mat_rows m. mat_at (mo_transpose ops m) r c = mat_at m c r)) \<and>
     (\<forall>code m. mat_rows (mo_flip ops code m) = mat_rows m \<and> mat_cols (mo_flip ops code m) = mat_cols m) \<and>
     (\<forall>m. \<forall>r < mat_rows m. \<forall>c < mat_cols m.
        mat_at (mo_flip ops 0 m) r c = mat_at m (mat_rows m - 1 - r) c \<and>
        mat_at (mo_flip ops 1 m) r c = mat_at m r (mat_cols m - 1 - c))"

text \<open>
  The combined image: a new image with the uninitialised pixels \<open>fresh\<close>, into whose parts both images
  are copied. A part that is not inside the image is an exception (\<open>None\<close>).
\<close>

definition copy_to :: "nat \<Rightarrow> 'p mat \<Rightarrow> 'p mat \<Rightarrow> 'p mat option" where
  "copy_to x img m =
     (if x + mat_cols img \<le> mat_cols m \<and> mat_rows img \<le> mat_rows m
      then Some (m\<lparr>mat_at := (\<lambda>r c. if r < mat_rows img \<and> x \<le> c \<and> c < x + mat_cols img then mat_at img r (c - x) else mat_at m r c)\<rparr>)
      else None)"

definition combine_frames :: "'p mat_ops \<Rightarrow> (nat \<Rightarrow> nat \<Rightarrow> 'p) \<Rightarrow> 'p mat \<Rightarrow> 'p mat \<Rightarrow> 'p mat option" where
  "combine_frames ops fresh leftFrame rightFrame =
     (let transLeft = mo_transpose ops leftFrame;
          transLeft = mo_flip ops 0 transLeft;
          transRight = mo_transpose ops rightFrame;
          transRight = mo_flip ops 1 transRight;
          im3 = \<lparr>mat_rows = mat_rows transLeft, mat_cols = mat_cols transLeft + mat_cols transRight, mat_at = fresh\<rparr>
      in Option.bind (copy_to 0 transLeft im3) (copy_to (mat_cols transLeft) transRight))"

text \<open>The slower camera is waited for: \<open>getFrame\<close> waits when its argument is false.\<close>

definition fps_greater :: "rat option \<Rightarrow> rat option \<Rightarrow> bool" where
  "fps_greater a b = (case (a, b) of (_, None) \<Rightarrow> False | (None, Some _) \<Rightarrow> True | (Some x, Some y) \<Rightarrow> y < x)"

definition gripper_frames ::
    "bool \<Rightarrow> 'img grabber \<times> 'img grabber \<Rightarrow> 'img grabber \<times> 'img grabber \<Rightarrow> (int \<times> nat option) \<times> (int \<times> nat option) \<times> bool" where
  "gripper_frames leftCameraIsFaster left right =
     (let (leftFrameNo, leftFps, leftFrame) = getFrame leftCameraIsFaster (fst left) (snd left);
          (rightFrameNo, rightFps, rightFrame) = getFrame (\<not> leftCameraIsFaster) (fst right) (snd right)
      in ((leftFrameNo, leftFrame), (rightFrameNo, rightFrame), fps_greater leftFps rightFps))"

text \<open>\<open>GripperHudPainter::drawContent\<close>: the numbers of the two frames.\<close>

definition gripper_drawContent :: "int \<Rightarrow> int \<Rightarrow> drawing list" where
  "gripper_drawContent leftFrameNo rightFrameNo =
     [PutText (to_string leftFrameNo) (30, 30) (0, 200, 20), PutText (to_string rightFrameNo) (300, 30) (0, 200, 20)]"

text \<open>
  \<open>GripperImageSource::getImage\<close> with the grabbers at the call and when they notify; \<open>draw\<close> carries out
  the drawing. The input asked for is overwritten. A \<open>cv::Mat\<close> without data has no rows and columns.
\<close>

definition mat_of :: "(nat \<Rightarrow> nat \<Rightarrow> 'p) \<Rightarrow> 'p mat grabber \<Rightarrow> nat option \<Rightarrow> 'p mat" where
  "mat_of fresh s frame = (case frame_image s frame of None \<Rightarrow> \<lparr>mat_rows = 0, mat_cols = 0, mat_at = fresh\<rparr> | Some m \<Rightarrow> m)"

definition gripper_getImage ::
    "'p mat_ops \<Rightarrow> (nat \<Rightarrow> nat \<Rightarrow> 'p) \<Rightarrow> (drawing \<Rightarrow> 'p mat \<Rightarrow> 'p mat) \<Rightarrow> bool \<Rightarrow>
     'p mat grabber \<times> 'p mat grabber \<Rightarrow> 'p mat grabber \<times> 'p mat grabber \<Rightarrow> bool \<Rightarrow> string \<times> bool \<times> 'p mat option" where
  "gripper_getImage ops fresh draw leftCameraIsFaster left right drawHud =
     (let videoInput = ''default'';
          ((leftFrameNo, leftFrame), (rightFrameNo, rightFrame), newLeftIsFaster) = gripper_frames leftCameraIsFaster left right;
          leftCameraIsFaster = newLeftIsFaster;
          result = combine_frames ops fresh (mat_of fresh (snd left) leftFrame) (mat_of fresh (snd right) rightFrame);
          result = map_option (\<lambda>m. if drawHud then fold draw (gripper_drawContent leftFrameNo rightFrameNo) m else m) result
      in (videoInput, leftCameraIsFaster, result))"

section \<open>Properties of the grabber\<close>

definition last_n :: "nat \<Rightarrow> 'a list \<Rightarrow> 'a list" where
  "last_n n xs = drop (length xs - n) xs"

lemma circular_push_last: "0 < n \<Longrightarrow> circular_push n (last_n n xs) x = last_n n (xs @ [x])"
proof (cases "length xs < n")
  case False
  assume "0 < n"
  then have "Suc (length xs) - n = Suc (length xs - n)" "drop (Suc (length xs - n)) xs = tl (drop (length xs - n) xs)"
    using False by (simp_all add: drop_Suc tl_drop)
  then show ?thesis using False \<open>0 < n\<close> by (simp add: circular_push_def last_n_def)
qed (simp add: circular_push_def last_n_def)

definition grab :: "('raw \<Rightarrow> 'img) \<Rightarrow> (int \<Rightarrow> 'img \<Rightarrow> 'img) \<Rightarrow> 'raw \<times> nat \<times> int \<Rightarrow> 'img grabber \<Rightarrow> 'img grabber" where
  "grab convert flip e s = (case e of (raw, i, elapsedTime) \<Rightarrow> grab_publish i (grab_convert convert flip raw i elapsedTime s))"

definition oriented :: "(int \<Rightarrow> 'img \<Rightarrow> 'img) \<Rightarrow> flip_params \<Rightarrow> 'img \<Rightarrow> 'img" where
  "oriented flip f img = (case flipMap f of None \<Rightarrow> img | Some code \<Rightarrow> flip code img)"

lemma grab_frame:
  "gr_flipParams (grab convert flip e s) = gr_flipParams s" "length (gr_rgbBuffers (grab convert flip e s)) = length (gr_rgbBuffers s)"
  "gr_currentFrameNo (grab convert flip e s) = gr_currentFrameNo s + 1" "gr_prevVideoInput (grab convert flip e s) = gr_prevVideoInput s"
  "gr_captureTimes (grab convert flip e s) = circular_push FRAMERATE_AVG_FRAMES (gr_captureTimes s) (snd (snd e))"
  "gr_currentFps (grab convert flip e s) = frame_rate (gr_captureTimes (grab convert flip e s))"
  by (simp_all add: grab_def grab_convert_def grab_publish_def Let_def split: prod.split)

lemma grabs_frame:
  assumes "gr_captureTimes s = last_n FRAMERATE_AVG_FRAMES ts"
  shows "gr_flipParams (fold (grab convert flip) es s) = gr_flipParams s \<and>
    length (gr_rgbBuffers (fold (grab convert flip) es s)) = length (gr_rgbBuffers s) \<and>
    gr_currentFrameNo (fold (grab convert flip) es s) = gr_currentFrameNo s + int (length es) \<and>
    gr_captureTimes (fold (grab convert flip) es s) = last_n FRAMERATE_AVG_FRAMES (ts @ map (\<lambda>(raw, i, t). t) es)"
  using assms
proof (induction es arbitrary: s ts)
  case (Cons e es)
  have "gr_captureTimes (grab convert flip e s) = last_n FRAMERATE_AVG_FRAMES (ts @ [snd (snd e)])"
    using Cons.prems circular_push_last [of FRAMERATE_AVG_FRAMES ts] by (simp add: grab_frame FRAMERATE_AVG_FRAMES_def)
  from Cons.IH [OF this] show ?case by (simp add: grab_frame case_prod_beta)
qed simp

text \<open>What the grabber publishes. After rounds of its thread with the same parameters, the current
  frame is the last image the driver delivered, converted and turned as the parameters say; the frames
  are counted, and the frame rate is that of the last five waiting times.\<close>

theorem grabber_publishes_last_frame:
  fixes s :: "'img grabber" and es :: "('raw \<times> nat \<times> int) list" and raw :: 'raw and t :: int
    and convert :: "'raw \<Rightarrow> 'img" and flip :: "int \<Rightarrow> 'img \<Rightarrow> 'img"
  assumes "gr_captureTimes s = last_n FRAMERATE_AVG_FRAMES ts" and "i < length (gr_rgbBuffers s)"
  defines "s' \<equiv> fold (grab convert flip) (es @ [(raw, i, t)]) s"
  shows "frame_image s' (gr_currentFrame s') = Some (oriented flip (gr_flipParams s) (convert raw)) \<and>
    gr_currentFrameNo s' = gr_currentFrameNo s + int (length es) + 1 \<and>
    gr_currentFps s' = frame_rate (last_n 5 (ts @ map (\<lambda>(raw, i, t). t) es @ [t]))"
proof -
  define u where "u = fold (grab convert flip) es s"
  note u = grabs_frame [OF assms(1), of convert flip es, folded u_def]
  have s': "s' = grab convert flip (raw, i, t) u" by (simp add: s'_def u_def)
  have "frame_image s' (gr_currentFrame s') = Some (oriented flip (gr_flipParams s) (convert raw))"
    using u assms(2) by (simp add: s' frame_image_def grab_def grab_convert_def grab_publish_def oriented_def Let_def)
  moreover have "gr_captureTimes s' = last_n 5 (ts @ map (\<lambda>(raw, i, t). t) es @ [t])"
    using u circular_push_last [of 5 "ts @ map (\<lambda>(raw, i, t). t) es" t] by (simp add: s' grab_frame FRAMERATE_AVG_FRAMES_def)
  ultimately show ?thesis using u by (simp add: s' grab_frame)
qed

section \<open>Properties of the sources\<close>

text \<open>An image that is asked for is the current one, whatever the input: the switch of the input takes
  effect on later frames, while the frame returned at once is the one before it.\<close>

theorem image_ignores_input:
  assumes "he_ioctl env"
  shows "snd (head_getImage env videoInput drawHud s) = snd (head_getImage env videoInput' drawHud' s) \<and>
    snd (head_getImage env videoInput drawHud s) = Some (gr_currentFrame s)"
  using assms by (simp add: head_getImage_def setVideoParams_def getFrame_def Let_def)

lemma head_getImage_store:
  assumes "he_ioctl env" and "gr_currentFrame s = Some i" and "i < length (gr_rgbBuffers s)"
  defines "img \<equiv> gr_rgbBuffers s ! i"
  shows "frame_image (fst (head_getImage env videoInput drawHud s)) (Some i) = Some
      (if drawHud
       then fold (he_draw env) (drawContent (he_show_fps env) (he_interface env) (he_size env img) (gr_currentFrameNo s) (gr_currentFps s)) img
       else img)"
    and "gr_currentFrame (fst (head_getImage env videoInput drawHud s)) = Some i"
    and "length (gr_rgbBuffers (fst (head_getImage env videoInput drawHud s))) = length (gr_rgbBuffers s)"
    and "gr_currentFrameNo (fst (head_getImage env videoInput drawHud s)) = gr_currentFrameNo s"
    and "gr_currentFps (fst (head_getImage env videoInput drawHud s)) = gr_currentFps s"
  using assms by (simp_all add: head_getImage_def setVideoParams_def getFrame_def draw_frame_def frame_image_def Let_def)

text \<open>The overlay stays in the frame. A request with the overlay draws into the grabber's buffer; a
  second request before the next frame, which wants no overlay, gets the image with it, and one that
  wants it has it drawn twice.\<close>

theorem overlay_stays_in_frame:
  fixes env :: "('raw, 'img) head_env" and s :: "'img grabber" and videoInput :: string
  assumes "he_ioctl env" and "gr_currentFrame s = Some i" and "i < length (gr_rgbBuffers s)"
  defines "img \<equiv> gr_rgbBuffers s ! i"
  defines "hud \<equiv> (\<lambda>m. fold (he_draw env) (drawContent (he_show_fps env) (he_interface env) (he_size env m) (gr_currentFrameNo s) (gr_currentFps s)) m)"
    and "s' \<equiv> fst (head_getImage env videoInput True s)"
  shows "head_image env encode s videoInput True q = encode (Some (hud img)) q \<and>
    head_image env encode s' videoInput' False q' = encode (Some (hud img)) q' \<and>
    head_image env encode s' videoInput' True q' = encode (Some (hud (hud img))) q'"
proof -
  have image: "head_image env encode t v d q = encode (frame_image (fst (head_getImage env v d t)) (gr_currentFrame t)) q" for t v d q
    using assms(1) by (simp add: head_image_def head_getImage_def setVideoParams_def getFrame_def Let_def)
  note store = head_getImage_store [OF assms(1-3), of videoInput True, folded s'_def img_def]
  have "gr_rgbBuffers s' ! i = hud img"
    using store(1,3) assms(3) by (simp add: frame_image_def hud_def)
  moreover have "i < length (gr_rgbBuffers s')" using store(3) assms(3) by simp
  ultimately show ?thesis
    using head_getImage_store(1) [OF assms(1) store(2), of videoInput'] store(1) store(4,5)
    by (simp add: image assms(2) store(2) hud_def s'_def [symmetric] img_def [symmetric])
qed

text \<open>A \<open>float\<close> is as near as its 24 bits allow.\<close>

lemma round_even_near: "\<bar>of_int (round_even q) - q\<bar> \<le> 1 / 2"
proof -
  have "of_int \<lfloor>q\<rfloor> \<le> q" "q < of_int \<lfloor>q\<rfloor> + 1" by linarith+
  then show ?thesis by (simp add: round_even_def Let_def abs_le_iff)
qed

lemma float_of_near:
  assumes "x = 0 \<or> 1 / 2 ^ 126 \<le> x"
  shows "\<bar>float_of x - x\<bar> \<le> x / 2 ^ 24"
proof (cases "find (\<lambda>e. 2 ^ 23 \<le> x * 2 ^ e) [0 ..< 150]")
  case None
  then have "\<forall>e < 150. \<not> 2 ^ 23 \<le> x * 2 ^ e" by (simp add: find_None_iff)
  then have "\<not> 2 ^ 23 \<le> x * 2 ^ 149" by (metis lessI numeral_eq_Suc pred_numeral_simps(2,3) semiring_norm(26-28))
  then have "x = 0" using assms by (auto simp: field_simps)
  then show ?thesis using None by (simp add: float_of_def)
next
  case (Some e)
  then have e: "2 ^ 23 \<le> x * 2 ^ e" by (auto simp: find_Some_iff)
  have "float_of x - x = (of_int (round_even (x * 2 ^ e)) - x * 2 ^ e) / 2 ^ e"
    using Some by (simp add: float_of_def diff_divide_distrib)
  then have "\<bar>float_of x - x\<bar> = \<bar>of_int (round_even (x * 2 ^ e)) - x * 2 ^ e\<bar> / 2 ^ e" by simp
  also have "\<dots> \<le> 1 / 2 / 2 ^ e" using round_even_near by (intro divide_right_mono) simp_all
  also have "\<dots> \<le> x / 2 ^ 24" using e by (simp add: field_simps)
  finally show ?thesis .
qed

lemma truncate_near:
  assumes "\<bar>q - of_int k / 11\<bar> < 1 / 11" and "\<not> 11 dvd k" and "0 \<le> k"
  shows "truncate_rat q = k div 11"
proof -
  obtain d m where k: "k = 11 * d + m" "1 \<le> m" "m \<le> 10" "0 \<le> d"
    using assms(2,3) by (metis dvd_eq_mod_eq_0 mult_div_mod_eq pos_mod_bound pos_mod_sign pos_imp_zdiv_nonneg_iff zero_less_numeral
        add1_zle_eq int_one_le_iff_zero_less le_neq_trans add.commute zle_add1_eq_le numeral_plus_one semiring_norm(5))
  have m: "(1 :: rat) \<le> of_int m" "of_int m \<le> (10 :: rat)" "(0 :: rat) \<le> of_int d" using k by simp_all
  have "of_int k / 11 = (of_int d + of_int m / 11 :: rat)" by (simp add: k(1) field_simps)
  then have "of_int d < q" "q < of_int d + 1" using assms(1) m by (simp_all add: abs_less_iff field_simps)
  then have "\<lfloor>q\<rfloor> = d" "0 \<le> q" using m by (simp_all add: floor_unique)
  moreover have "k div 11 = d" using k by simp
  ultimately show ?thesis by (simp add: truncate_rat_def)
qed

text \<open>The widths of the bars for the speeds a motor can have.\<close>

lemma bar_widths:
  assumes "n \<le> 11"
  shows "truncate_rat (100 * (1 - float_of (of_nat n / 11))) = 100 * (11 - int n) div 11"
    and "truncate_rat (float_of (100 * float_of (of_nat n / 11))) = 100 * int n div 11"
proof -
  have one: "float_of 0 = 0" "float_of 1 = 1" "float_of 100 = 100" by code_simp+
  consider "n = 0" | "n = 11" | "0 < n" "n < 11" using assms by linarith
  then have "truncate_rat (100 * (1 - float_of (of_nat n / 11))) = 100 * (11 - int n) div 11 \<and>
    truncate_rat (float_of (100 * float_of (of_nat n / 11))) = 100 * int n div 11"
  proof cases
    case 3
    define x :: rat where "x = of_nat n / 11"
    have x: "1 / 11 \<le> x" "x \<le> 10 / 11" using 3 by (simp_all add: x_def)
    define p where "p = float_of x"
    have "\<bar>p - x\<bar> \<le> x / 2 ^ 24" unfolding p_def using x by (intro float_of_near) simp
    from abs_le_D1 [OF this] abs_le_D2 [OF this] have p: "p - x \<le> x / 16777216" "- (p - x) \<le> x / 16777216" by simp_all
    have pos: "1 / 22 \<le> p" "p \<le> 1" using p x by linarith+
    have "\<bar>float_of (100 * p) - 100 * p\<bar> \<le> 100 * p / 2 ^ 24" using pos by (intro float_of_near) simp
    from abs_le_D1 [OF this] abs_le_D2 [OF this]
    have q: "float_of (100 * p) - 100 * p \<le> 100 * p / 16777216" "- (float_of (100 * p) - 100 * p) \<le> 100 * p / 16777216" by simp_all
    have k: "of_int (100 * (11 - int n)) / 11 = 100 - 100 * x" "of_int (100 * int n) / 11 = 100 * x" by (simp_all add: x_def field_simps)
    have near: "p - x < 1 / 2200" "x - p < 1 / 2200" using p x by linarith+
    have "100 * (1 - p) - (100 - 100 * x) = 100 * (x - p)" "- (100 * (1 - p) - (100 - 100 * x)) = 100 * (p - x)"
      by (simp_all add: algebra_simps)
    then have "\<bar>100 * (1 - p) - of_int (100 * (11 - int n)) / 11\<bar> < 1 / 11" unfolding k abs_less_iff using near by simp
    moreover have "float_of (100 * p) - 100 * p < 1 / 22" "100 * p - float_of (100 * p) < 1 / 22" using q pos by linarith+
    with near have "\<bar>float_of (100 * p) - of_int (100 * int n) / 11\<bar> < 1 / 11" unfolding k abs_less_iff by (intro conjI) linarith+
    moreover have "list_all (\<lambda>n. \<not> 11 dvd 100 * (11 - int n) \<and> \<not> 11 dvd 100 * int n) [1 ..< 11]" by code_simp
    then have "\<not> 11 dvd 100 * (11 - int n)" "\<not> 11 dvd 100 * int n" using 3 by (simp_all add: list_all_iff)
    ultimately show ?thesis
      unfolding x_def [symmetric] p_def [symmetric] using 3 by (intro conjI truncate_near) simp_all
  qed (simp_all add: one truncate_rat_def)
  then show "truncate_rat (100 * (1 - float_of (of_nat n / 11))) = 100 * (11 - int n) div 11"
    and "truncate_rat (float_of (100 * float_of (of_nat n / 11))) = 100 * int n div 11" by simp_all
qed

text \<open>The bars of the overlay. For every interface the server can share, the two bars have frames of 100
  by 20 pixels, coloured by the direction, and are filled from the middle outwards to the speed's
  share: never beyond the frame, the right one rounded down, the left one up.\<close>

theorem motor_bars:
  fixes i :: iface and cols rows :: int
  assumes "iface_ok i"
  defines "speed \<equiv> \<lambda>m. int (unat (sm_programmedSpeed (if_motors i m)))"
    and "color \<equiv> \<lambda>m. if sm_direction (if_motors i m) = BACKWARD then RED else GREEN"
    and "x \<equiv> tdiv cols 2" and "y \<equiv> rows - 40"
  shows "drawMotorInfo (cols, rows) i =
      [Rectangle (x - 120, y) (x - 20, y + 20) (color M_LEFT) 2,
       Rectangle (x - 120 + 100 * (11 - speed M_LEFT) div 11, y) (x - 20, y + 20) (color M_LEFT) FILLED,
       Rectangle (x + 20, y) (x + 120, y + 20) (color M_RIGHT) 2,
       Rectangle (x + 20, y) (x + 20 + 100 * speed M_RIGHT div 11, y + 20) (color M_RIGHT) FILLED] \<and>
    0 \<le> 100 * speed m div 11 \<and> 100 * speed m div 11 \<le> 100"
proof -
  have speed: "unat (sm_programmedSpeed (if_motors i m)) \<le> 11" for m
    using iface_okD(1) [OF assms(1), of m] by (simp add: MOTOR_DRIVER_MAX_SPEED_def word_le_nat_alt)
  have "drawMotorInfo (cols, rows) i =
      [Rectangle (x - 120, y) (x - 20, y + 20) (color M_LEFT) 2,
       Rectangle (x - 120 + 100 * (11 - speed M_LEFT) div 11, y) (x - 20, y + 20) (color M_LEFT) FILLED,
       Rectangle (x + 20, y) (x + 120, y + 20) (color M_RIGHT) 2,
       Rectangle (x + 20, y) (x + 20 + 100 * speed M_RIGHT div 11, y + 20) (color M_RIGHT) FILLED]"
    using bar_widths [OF speed]
    by (simp add: drawMotorInfo_def drawProgressBar_def point_add_def MOTOR_DRIVER_MAX_SPEED_def speed_def color_def x_def y_def Let_def)
  moreover have "0 \<le> speed m" "speed m \<le> 11" using speed [of m] by (simp_all only: speed_def)
  then have "0 \<le> 100 * speed m div 11 \<and> 100 * speed m div 11 \<le> 100" by linarith
  ultimately show ?thesis by blast
qed

text \<open>The image of the gripper's cameras. It is the left frame turned left beside the right frame
  turned right; there is one exactly when the right frame is not wider than the left one.\<close>

theorem gripper_image_layout:
  assumes "mat_laws ops"
  shows "(combine_frames ops fresh leftFrame rightFrame = None \<longleftrightarrow> mat_cols leftFrame < mat_cols rightFrame) \<and>
    (\<forall>m. combine_frames ops fresh leftFrame rightFrame = Some m \<longrightarrow>
       mat_rows m = mat_cols leftFrame \<and> mat_cols m = mat_rows leftFrame + mat_rows rightFrame \<and>
       (\<forall>r < mat_cols leftFrame. \<forall>c < mat_rows leftFrame. mat_at m r c = mat_at leftFrame c (mat_cols leftFrame - 1 - r)) \<and>
       (\<forall>r < mat_cols rightFrame. \<forall>c < mat_rows rightFrame.
          mat_at m r (mat_rows leftFrame + c) = mat_at rightFrame (mat_rows rightFrame - 1 - c) r))"
proof -
  define l where "l = mo_flip ops 0 (mo_transpose ops leftFrame)"
  define r where "r = mo_flip ops 1 (mo_transpose ops rightFrame)"
  have sizes: "mat_rows l = mat_cols leftFrame" "mat_cols l = mat_rows leftFrame" "mat_rows r = mat_cols rightFrame" "mat_cols r = mat_rows rightFrame"
    using assms by (simp_all add: mat_laws_def l_def r_def)
  have pixels: "i < mat_cols leftFrame \<Longrightarrow> j < mat_rows leftFrame \<Longrightarrow> mat_at l i j = mat_at leftFrame j (mat_cols leftFrame - 1 - i)"
      "i < mat_cols rightFrame \<Longrightarrow> j < mat_rows rightFrame \<Longrightarrow> mat_at r i j = mat_at rightFrame (mat_rows rightFrame - 1 - j) i" for i j
    using assms by (simp_all add: mat_laws_def l_def r_def)
  show ?thesis
    by (auto simp: combine_frames_def copy_to_def Let_def l_def [symmetric] r_def [symmetric] sizes pixels not_le split: if_splits)
qed

text \<open>The numbers drawn belong to the frames shown, whichever camera was waited for: without a new frame
  of the camera that is not waited for, its last one is used again.\<close>

lemma gripper_image_shows_its_frames:
  fixes leftCameraIsFaster :: bool
  assumes "gr_rgbBuffers (fst left) = gr_rgbBuffers (snd left)" "gr_rgbBuffers (fst right) = gr_rgbBuffers (snd right)"
  defines "l \<equiv> (if leftCameraIsFaster then fst left else snd left)"
    and "r \<equiv> (if leftCameraIsFaster then snd right else fst right)"
  shows "gripper_getImage ops fresh draw leftCameraIsFaster left right drawHud =
    (''default'', fps_greater (gr_currentFps l) (gr_currentFps r),
     map_option (\<lambda>m. if drawHud then draw (PutText (to_string (gr_currentFrameNo r)) (300, 30) (0, 200, 20))
           (draw (PutText (to_string (gr_currentFrameNo l)) (30, 30) (0, 200, 20)) m) else m)
       (combine_frames ops fresh (mat_of fresh l (gr_currentFrame l)) (mat_of fresh r (gr_currentFrame r))))"
proof -
  have "mat_of fresh (fst left) = mat_of fresh (snd left)" "mat_of fresh (fst right) = mat_of fresh (snd right)"
    using assms(1,2) by (simp_all add: fun_eq_iff mat_of_def frame_image_def cong: option.case_cong)
  then show ?thesis
    by (cases leftCameraIsFaster; cases drawHud; simp add: gripper_getImage_def gripper_frames_def getFrame_def
        gripper_drawContent_def l_def r_def Let_def)
qed

section \<open>A datagram at the head's camera server\<close>

text \<open>The receive handler with the source and the encoder; the grabber's state is left as the source leaves it.\<close>

definition head_camera_receive ::
    "'v camera_env \<Rightarrow> ('raw, 'img) head_env \<Rightarrow> ('img option \<Rightarrow> int \<Rightarrow> u8 list option) \<Rightarrow> string \<Rightarrow> camera_server \<times> 'img grabber \<Rightarrow>
       (camera_server \<times> 'img grabber) \<times> camera_end" where
  "head_camera_receive ce he encode d s =
     (let (cs, gs) = s;
          buffer = memcpy (cs_recvBuffer cs) (take RECEIVED_DATA_MAX_LENGTH d);
          (cs, e) = camera_receive (ce\<lparr>ce_image := head_image he encode gs\<rparr>) (Some d) cs;
          gs = (case read_camera_request ce buffer of
                  (r, Some e) \<Rightarrow> gs
                | (r, None) \<Rightarrow> fst (head_getImage he (cr_videoInput r) (cr_drawHud r) gs))
      in ((cs, gs), e))"

lemma read_camera_request_env: "read_camera_request (ce\<lparr>ce_image := f\<rparr>) buffer = read_camera_request ce buffer"
proof -
  have "set_camera_field (ce\<lparr>ce_image := f\<rparr>) = set_camera_field ce"
    by (intro ext) (simp add: set_camera_field_def Let_def case_prod_beta cong: if_cong)
  then have "set_camera_fields (ce\<lparr>ce_image := f\<rparr>) kvs r = set_camera_fields ce kvs r" for kvs r
    by (induction kvs arbitrary: r) (simp_all split: prod.split option.split)
  then show ?thesis by (simp add: read_camera_request_def camera_defaults_def)
qed

lemma head_image_current:
  assumes "gr_currentFrame s = Some i" and "i < length (gr_rgbBuffers s)"
  shows "head_image env encode s videoInput drawHud q =
    (if (if videoInput = ''back'' then he_backInputNo env else he_gripperInputNo env) \<noteq> gr_prevVideoInput s \<and> \<not> he_ioctl env then None
     else encode (Some (if drawHud
       then fold (he_draw env) (drawContent (he_show_fps env) (he_interface env) (he_size env (gr_rgbBuffers s ! i)) (gr_currentFrameNo s)
         (gr_currentFps s)) (gr_rgbBuffers s ! i)
       else gr_rgbBuffers s ! i)) q)"
  using assms by (simp add: head_image_def head_getImage_def setVideoParams_def getFrame_def draw_frame_def frame_image_def Let_def)

text \<open>C26: What a client of the head's camera gets. After rounds of the grabber, and with no request since
  the frame grabbed last, a request that can be read is answered with its header, a zero byte and the
  encoded form of this frame, turned as the grabber was told before the request, with the overlay if it
  was asked for; of a longer answer only the first 65506 bytes are sent. There is no answer when
  the video input has to be changed and the device refuses, or when the encoder throws (both end the
  program), when header and image need more than the 131072 bytes of the send buffer (it is written
  beyond its end), and when sending fails.\<close>

theorem camera_client_gets_last_frame:
  fixes he :: "('raw, 'img) head_env" and gs :: "'img grabber" and es :: "('raw \<times> nat \<times> int) list"
    and raw :: 'raw and t :: int
  assumes "camera_ok cs" and "i < length (gr_rgbBuffers gs)"
    and "read_camera_request ce (memcpy (cs_recvBuffer cs) (take RECEIVED_DATA_MAX_LENGTH d)) = (r, None)"
  defines "gs' \<equiv> fold (grab (he_convert he) (he_flip he)) (es @ [(raw, i, t)]) gs"
  defines "frame \<equiv> oriented (he_flip he) (gr_flipParams gs) (he_convert he raw)"
    and "input \<equiv> if cr_videoInput r = ''back'' then he_backInputNo he else he_gripperInputNo he"
  defines "img \<equiv> if cr_drawHud r then fold (he_draw he) (drawContent (he_show_fps he) (he_interface he) (he_size he frame)
      (gr_currentFrameNo gs') (gr_currentFps gs')) frame else frame"
    and "packet \<equiv> \<lambda>jpeg. ce_header ce r @ 0 # jpeg"
  shows "snd (head_camera_receive ce he encode d (cs, gs')) =
    (if input \<noteq> gr_prevVideoInput gs \<and> \<not> he_ioctl he then Escaped
     else case encode (Some img) (cr_quality r) of
         None \<Rightarrow> Escaped
       | Some jpeg \<Rightarrow>
           if 131072 < length (packet jpeg) then WroteOutside
           else if ce_send ce (take 65506 (packet jpeg)) = None then SendFailed
           else PacketSent (take 65506 (packet jpeg)))"
proof -
  define u where "u = fold (grab (he_convert he) (he_flip he)) es gs"
  have u: "gr_flipParams u = gr_flipParams gs" "length (gr_rgbBuffers u) = length (gr_rgbBuffers gs)" "gr_prevVideoInput u = gr_prevVideoInput gs"
    unfolding u_def by (induction es arbitrary: gs) (simp_all add: grab_frame)
  have gs': "gs' = grab (he_convert he) (he_flip he) (raw, i, t) u" by (simp add: gs'_def u_def)
  have current: "gr_currentFrame gs' = Some i" "i < length (gr_rgbBuffers gs')" "gr_rgbBuffers gs' ! i = frame"
      "gr_prevVideoInput gs' = gr_prevVideoInput gs"
    using u assms(2) by (simp_all add: gs' grab_def grab_convert_def grab_publish_def frame_def oriented_def Let_def)
  have image: "head_image he encode gs' (cr_videoInput r) (cr_drawHud r) (cr_quality r) =
      (if input \<noteq> gr_prevVideoInput gs \<and> \<not> he_ioctl he then None else encode (Some img) (cr_quality r))"
    by (simp only: head_image_current [OF current(1,2)] current(3,4) input_def img_def)
  have "snd (head_camera_receive ce he encode d (cs, gs')) =
      snd (send_image (ce\<lparr>ce_image := head_image he encode gs'\<rparr>) r
        \<lparr>cs_recvBuffer = memcpy (cs_recvBuffer cs) (take RECEIVED_DATA_MAX_LENGTH d), cs_sendBuffer = replicate SEND_BUFFER_SIZE 0\<rparr>)"
    using camera_receive_answer(1) [OF assms(1), of "ce\<lparr>ce_image := head_image he encode gs'\<rparr>" d]
    by (simp add: head_camera_receive_def case_prod_beta Let_def camera_answer_def read_camera_request_env assms(3))
  then show ?thesis
    by (simp add: send_image_outcome image packet_def SEND_BUFFER_SIZE_def UDP_MAX_PAYLOAD_SIZE_def split: option.split)
qed

section \<open>Examples\<close>

definition test_head :: "(nat, nat list) head_env" where
  "test_head = \<lparr>he_convert = (\<lambda>raw. [raw]), he_flip = (\<lambda>code m. m @ [0]), he_draw = (\<lambda>d m. 7 # m), he_size = (\<lambda>_. (640, 480)),
     he_show_fps = (\<lambda>_. ''fps''), he_interface = None, he_gripperInputNo = 0, he_backInputNo = 1, he_ioctl = True\<rparr>"

theorem grabber_publishes_last_frame_witness:
  "let s' = fold (grab (\<lambda>raw. [raw]) (\<lambda>code m. m @ [0])) ([(5, 0, 40)] @ [(6 :: nat, 1, 60)]) (grabber_init None [[], []])
   in frame_image s' (gr_currentFrame s') = Some [6] \<and> gr_currentFrameNo s' = 3 \<and> gr_currentFps s' = Some 20"
  using grabber_publishes_last_frame [of "grabber_init None [[], []]" "[]" 1 "\<lambda>raw. [raw]" "\<lambda>code m. m @ [0]" "[(5, 0, 40)]" "6 :: nat" 60]
  by (simp add: grabber_init_def last_n_def oriented_def frame_rate_def Let_def del: fold_append fold_simps)

theorem overlay_stays_in_frame_witness:
  "let s = grab_publish 0 (grabber_init None [[5]]);
       s' = fst (head_getImage test_head ''default'' True s)
   in head_image test_head (\<lambda>m q. map_option (map of_nat) m) s' ''default'' False 45 = Some [7, 7, 5]"
  using overlay_stays_in_frame [of test_head "grab_publish 0 (grabber_init None [[5]])" 0 "\<lambda>m q. map_option (map of_nat) m" "''default''" 45
      "''default''" 45]
  by (simp add: test_head_def grab_publish_def grabber_init_def drawContent_def Let_def)

theorem motor_bars_witness:
  "drawMotorInfo (640, 480) (motor_setSpeed (\<lambda>_. replicate 40 1) M_LEFT 5 (iface_init (\<lambda>_. replicate 40 1))) =
     [Rectangle (200, 440) (300, 460) GREEN 2, Rectangle (254, 440) (300, 460) GREEN FILLED,
      Rectangle (340, 440) (440, 460) GREEN 2, Rectangle (340, 440) (340, 460) GREEN FILLED]"
proof -
  let ?i = "motor_setSpeed (\<lambda>_. replicate 40 1) M_LEFT 5 (iface_init (\<lambda>_. replicate 40 1))"
  have mem: "mem_ok (\<lambda>_. replicate 40 1)" by (simp add: mem_ok_def DATAHOLDER_MAX_DATA_SIZE_def)
  have "iface_ok ?i" using mem by (simp add: iface_ok_setters iface_ok_init)
  moreover have "sm_programmedSpeed (if_motors ?i M_LEFT) = 5" "sm_programmedSpeed (if_motors ?i M_RIGHT) = 0"
      "sm_direction (if_motors ?i m) = STOP" for m
    by (cases m; simp add: motor_setSpeed_def createMotorState_def upd_motor_def if_insert_def MOTOR_DRIVER_MAX_SPEED_def iface_init_def
        setKillSwitch_def sm_init_def Let_def)+
  ultimately show ?thesis using motor_bars [of ?i 640 480 M_LEFT] by (simp add: tdiv_def)
qed

definition test_mat_ops :: "nat mat_ops" where
  "test_mat_ops = \<lparr>mo_transpose = (\<lambda>m. \<lparr>mat_rows = mat_cols m, mat_cols = mat_rows m, mat_at = (\<lambda>r c. mat_at m c r)\<rparr>),
     mo_flip = (\<lambda>code m. m\<lparr>mat_at := (\<lambda>r c. if code = 0 then mat_at m (mat_rows m - 1 - r) c else mat_at m r (mat_cols m - 1 - c))\<rparr>)\<rparr>"

theorem gripper_image_layout_witness:
  "\<exists>m. combine_frames test_mat_ops (\<lambda>_ _. 0) \<lparr>mat_rows = 1, mat_cols = 2, mat_at = (\<lambda>r c. 10 + c)\<rparr>
      \<lparr>mat_rows = 1, mat_cols = 2, mat_at = (\<lambda>r c. 20 + c)\<rparr> = Some m \<and>
    mat_at m 0 0 = 11 \<and> mat_at m 1 0 = 10 \<and> mat_at m 0 1 = 20 \<and> mat_at m 1 1 = 21"
proof -
  have laws: "mat_laws test_mat_ops" by (simp add: mat_laws_def test_mat_ops_def)
  let ?l = "\<lparr>mat_rows = 1, mat_cols = 2, mat_at = (\<lambda>r c. 10 + c)\<rparr> :: nat mat"
  let ?r = "\<lparr>mat_rows = 1, mat_cols = 2, mat_at = (\<lambda>r c. 20 + c)\<rparr> :: nat mat"
  obtain m where "combine_frames test_mat_ops (\<lambda>_ _. 0) ?l ?r = Some m"
    using gripper_image_layout [OF laws, of "\<lambda>_ _. 0" ?l ?r] by auto
  with gripper_image_layout [OF laws, of "\<lambda>_ _. 0" ?l ?r] show ?thesis by fastforce
qed

theorem camera_client_gets_last_frame_witness:
  fixes result :: "(nat, nat list) head_env \<Rightarrow> (nat list option \<Rightarrow> int \<Rightarrow> u8 list option) \<Rightarrow> camera_end"
  defines "result he encode \<equiv> snd (head_camera_receive test_camera he encode ''q''
     (camera_start, fold (grab (he_convert he) (he_flip he)) ([] @ [(6, 0, 40)]) (grabber_init None [[]])))"
  shows "result test_head (\<lambda>m q. map_option (map of_nat) m) = PacketSent [1, 2, 0, 6] \<and>
    result (test_head\<lparr>he_ioctl := False\<rparr>) (\<lambda>m q. map_option (map of_nat) m) = Escaped \<and>
    result test_head (\<lambda>m q. Some (replicate 65504 9)) = PacketSent ([1, 2, 0] @ replicate 65503 9)"
proof -
  have ok: "camera_ok camera_start" by (simp add: camera_ok_def camera_start_def RECEIVED_DATA_MAX_LENGTH_def)
  have read: "read_camera_request test_camera (memcpy (cs_recvBuffer camera_start) (take RECEIVED_DATA_MAX_LENGTH ''q'')) =
      (\<lparr>cr_serial = 0, cr_drawHud = False, cr_quality = 100, cr_videoInput = ''default'', cr_receivedTimestamp = ''now'',
        cr_sendTimestamp = ''now''\<rparr>, None)"
    by (simp add: read_camera_request_def set_camera_field_def camera_defaults_def test_camera_def unary_reader_def Let_def)
  have answer: "result he encode =
      (if he_gripperInputNo he \<noteq> -1 \<and> \<not> he_ioctl he then Escaped
       else case encode (Some (he_convert he 6)) 100 of None \<Rightarrow> Escaped
         | Some jpeg \<Rightarrow> if 131072 < 3 + length jpeg then WroteOutside else PacketSent (take 65506 ([1, 2, 0] @ jpeg)))" for he encode
    unfolding result_def
    by (subst camera_client_gets_last_frame [OF ok _ read])
      (simp_all add: test_camera_def grabber_init_def oriented_def split: option.split)
  show ?thesis by (simp add: answer test_head_def)
qed

end
