(* ===== verification/Shared_Interface.thy ===== *)
theory Shared_Interface
  imports Camera_Images
begin

text \<open>
  \<open>server/common_lib/src/SharedInterfaceProvider.cpp\<close>: the control server (the master) keeps its
  \<open>Interface\<close> in a segment of shared memory, where the camera server (a slave) finds it for the overlay.
  A segment keeps existing for those who have mapped it when its name is removed; a name is given to
  one segment at a time.
\<close>

section \<open>The segments\<close>

text \<open>\<open>sg_found\<close>: the object is registered in the segment; the memory of a destroyed object stays.\<close>

record segment =
  sg_interface :: iface
  sg_found :: bool

text \<open>All segments ever created, and the one that has the name \<open>SZARK_Interface_shm\<close>.\<close>

record shm =
  sm_segments :: "segment list"
  sm_name :: "nat option"

datatype iface_pointer = Uninitialised | NullPtr | InSegment nat

record provider =
  pv_master :: bool
  pv_interface :: iface_pointer
  pv_segment :: "nat option"

definition InterfaceProvider :: "bool \<Rightarrow> provider" where
  "InterfaceProvider isMaster = \<lparr>pv_master = isMaster, pv_interface = Uninitialised, pv_segment = None\<rparr>"

definition shm_remove :: "shm \<Rightarrow> shm" where
  "shm_remove m = m\<lparr>sm_name := None\<rparr>"

definition openSharedMemory :: "mem \<Rightarrow> provider \<Rightarrow> shm \<Rightarrow> provider \<times> shm" where
  "openSharedMemory g p m =
     (if pv_master p then
        (let m = shm_remove m;
             n = length (sm_segments m);
             m = m\<lparr>sm_name := Some n, sm_segments := sm_segments m @ [\<lparr>sg_interface = iface_init g, sg_found = True\<rparr>]\<rparr>
         in (p\<lparr>pv_segment := Some n, pv_interface := InSegment n\<rparr>, m))
      else
        (case sm_name m of
           None \<Rightarrow> (p\<lparr>pv_interface := NullPtr\<rparr>, m)
         | Some n \<Rightarrow>
             (p\<lparr>pv_segment := Some n, pv_interface := (if sg_found (sm_segments m ! n) then InSegment n else NullPtr)\<rparr>, m)))"

definition destroy_interface :: "nat \<Rightarrow> shm \<Rightarrow> shm" where
  "destroy_interface n m =
     m\<lparr>sm_segments := (sm_segments m)[n := \<lparr>sg_interface = iface_destroy (sg_interface (sm_segments m ! n)), sg_found = False\<rparr>]\<rparr>"

text \<open>\<open>closeSharedMemory\<close> of a provider that was opened; \<open>None\<close> when a pointer that was not set is used.\<close>

definition closeSharedMemory :: "provider \<Rightarrow> shm \<Rightarrow> shm option" where
  "closeSharedMemory p m =
     (if pv_master p then
        (case pv_interface p of
           InSegment n \<Rightarrow> Some (shm_remove (destroy_interface n m))
         | _ \<Rightarrow> None)
      else Some m)"

definition getInterface :: "provider \<Rightarrow> shm \<Rightarrow> iface option" where
  "getInterface p m = (case pv_interface p of InSegment n \<Rightarrow> Some (sg_interface (sm_segments m ! n)) | _ \<Rightarrow> None)"

definition isValid :: "provider \<Rightarrow> shm \<Rightarrow> bool" where
  "isValid p m \<longleftrightarrow> (case getInterface p m of None \<Rightarrow> False | Some i \<Rightarrow> if_objectActive i)"

text \<open>What the painter of the overlay uses.\<close>

definition shared_interface :: "provider \<Rightarrow> shm \<Rightarrow> iface option" where
  "shared_interface p m = (if isValid p m then getInterface p m else None)"

section \<open>Control servers come and go\<close>

text \<open>A control server starts, does something to its interface, ends in order, or is killed; servers are
  numbered by their segments.\<close>

datatype server_event = ServerStarts mem | ServerActs nat mem iface_op | ServerEnds nat | ServerKilled nat

definition master_of :: "nat \<Rightarrow> provider" where
  "master_of n = (InterfaceProvider True)\<lparr>pv_segment := Some n, pv_interface := InSegment n\<rparr>"

definition act_on :: "nat \<Rightarrow> mem \<Rightarrow> iface_op \<Rightarrow> shm \<Rightarrow> shm" where
  "act_on n g op m =
     m\<lparr>sm_segments := (sm_segments m)[n := (sm_segments m ! n)\<lparr>sg_interface := iface_apply g op (sg_interface (sm_segments m ! n))\<rparr>]\<rparr>"

definition server_step :: "server_event \<Rightarrow> shm \<Rightarrow> shm" where
  "server_step e m =
     (case e of
        ServerStarts g \<Rightarrow> snd (openSharedMemory g (InterfaceProvider True) m)
      | ServerActs n g op \<Rightarrow> act_on n g op m
      | ServerEnds n \<Rightarrow> the (closeSharedMemory (master_of n) m)
      | ServerKilled n \<Rightarrow> m)"

section \<open>What the camera server sees\<close>

text \<open>No operation of the interface touches \<open>objectActive\<close>.\<close>

lemma active_parts [simp]:
  "if_objectActive (if_insert g k d i) = if_objectActive i"
  "if_objectActive (upd_motor m f i) = if_objectActive i" "if_objectActive (upd_joint j f' i) = if_objectActive i"
  "if_objectActive (createMotorState g m i) = if_objectActive i" "if_objectActive (createJointState g j i) = if_objectActive i"
  by (simp_all add: if_insert_def upd_motor_def upd_joint_def createMotorState_def createJointState_def Let_def)

lemma active_kill_switch [simp]: "if_objectActive (updateStructsWhenKillSwitchActivated i) = if_objectActive i"
  by (simp add: updateStructsWhenKillSwitchActivated_def extDevListeners_def onKillSwitchActivated_def Let_def)

lemma active_listener: "listener_updateFields l req data i = Some (n, i') \<Longrightarrow> if_objectActive i' = if_objectActive i"
  by (cases l)
    (auto simp: listener_updateFields_def interface_updateFields_def arm_updateFields_def expander_updateFields_def
      motor_updateFields_def joint_updateFields_def Let_def split: if_splits option.splits list.splits)

lemma active_dispatch: "dispatch_response ls req data i = Some (n, i') \<Longrightarrow> if_objectActive i' = if_objectActive i"
  by (induction ls arbitrary: i) (auto split: option.splits if_splits dest: active_listener)

lemma active_update [simp]: "if_objectActive (fst (update_loop rs resp pos i)) = if_objectActive i"
  by (induction rs resp pos i rule: update_loop.induct) (auto split: option.splits if_splits dest: active_dispatch)

lemma active_apply [simp]: "if_objectActive (iface_apply g op i) = if_objectActive i"
  by (cases op)
    (auto simp: setLCDText_def setKillSwitch_def motor_setSpeed_def motor_setDirection_def motor_initStructure_def motor_brake_def
      joint_setSpeed_def joint_setDirection_def joint_setPosition_def joint_initStructure_def arm_brake_def arm_calibrate_def
      expander_setEnabled_def updateDataStructures_def Let_def)

lemma active_run [simp]: "if_objectActive (iface_run ops i) = if_objectActive i"
  by (induction ops i rule: iface_run.induct) simp_all

text \<open>A segment of a server that runs, and what its server did.\<close>

definition server_runs :: "nat \<Rightarrow> shm \<Rightarrow> bool" where
  "server_runs n m \<longleftrightarrow> n < length (sm_segments m) \<and> sg_found (sm_segments m ! n) \<and> if_objectActive (sg_interface (sm_segments m ! n))"

definition acts_of :: "nat \<Rightarrow> server_event list \<Rightarrow> (mem \<times> iface_op) list" where
  "acts_of n es = concat (map (\<lambda>e. case e of ServerActs k g op \<Rightarrow> if k = n then [(g, op)] else [] | _ \<Rightarrow> []) es)"

lemma step_segment:
  assumes "n < length (sm_segments m)"
  shows "n < length (sm_segments (server_step e m))"
    and "sg_interface (sm_segments (server_step e m) ! n) =
      (if e = ServerEnds n then iface_destroy else iface_run (acts_of n [e])) (sg_interface (sm_segments m ! n))"
  using assms by (auto simp: server_step_def openSharedMemory_def InterfaceProvider_def shm_remove_def act_on_def closeSharedMemory_def
      master_of_def destroy_interface_def acts_of_def nth_append nth_list_update Let_def split: server_event.splits)

lemma inactive_stays:
  "n < length (sm_segments m) \<Longrightarrow> \<not> if_objectActive (sg_interface (sm_segments m ! n)) \<Longrightarrow>
   \<not> if_objectActive (sg_interface (sm_segments (fold server_step es m) ! n))"
proof (induction es arbitrary: m)
  case (Cons e es)
  have "\<not> if_objectActive (sg_interface (sm_segments (server_step e m) ! n))"
    using Cons.prems by (auto simp: step_segment(2) iface_destroy_def acts_of_def split: server_event.splits)
  then show ?case using Cons step_segment(1) by simp
qed simp

lemma iface_run_append: "iface_run (xs @ ys) i = iface_run ys (iface_run xs i)"
  by (induction xs i rule: iface_run.induct) simp_all

lemma segment_after:
  "n < length (sm_segments m) \<Longrightarrow> if_objectActive (sg_interface (sm_segments m ! n)) \<Longrightarrow>
   (if ServerEnds n \<in> set es then \<not> if_objectActive (sg_interface (sm_segments (fold server_step es m) ! n))
    else sg_interface (sm_segments (fold server_step es m) ! n) = iface_run (acts_of n es) (sg_interface (sm_segments m ! n)) \<and>
      if_objectActive (sg_interface (sm_segments (fold server_step es m) ! n)))"
proof (induction es arbitrary: m)
  case Nil
  then show ?case by (simp add: acts_of_def)
next
  case (Cons e es)
  note seg = step_segment [OF Cons.prems(1), of e]
  show ?case
  proof (cases "e = ServerEnds n")
    case True
    then show ?thesis using seg inactive_stays [OF seg(1), of es] by (simp add: iface_destroy_def)
  next
    case False
    have acts: "acts_of n (e # es) = acts_of n [e] @ acts_of n es" by (simp add: acts_of_def)
    have "if_objectActive (sg_interface (sm_segments (server_step e m) ! n))"
      using Cons.prems(2) False by (auto simp: seg(2) acts_of_def split: server_event.splits)
    from Cons.IH [OF seg(1) this] False Cons.prems(2) show ?thesis by (simp add: seg(2) acts iface_run_append)
  qed
qed

text \<open>C25: The overlay shows one server. A camera server that was started while a control server runs shows on
  its overlay the motors of this server's interface as its operations have left it, until this server
  ends; then the bars are gone, and no server started later brings them back. A server that was
  killed is shown with its last state for ever.\<close>

theorem camera_follows_one_server:
  assumes "sm_name m = Some n" and "server_runs n m" and "openSharedMemory g (InterfaceProvider False) m = (p, m')"
  shows "drawContent show_fps (shared_interface p (fold server_step es m')) img frameNo fps =
    [PutText (to_string frameNo) (30, 30) GREEN, PutText (show_fps fps) (30, 63) RED] @
    (if ServerEnds n \<in> set es then [] else drawMotorInfo img (iface_run (acts_of n es) (sg_interface (sm_segments m ! n))))"
proof -
  have p: "pv_interface p = InSegment n" "m' = m"
    using assms by (auto simp: openSharedMemory_def InterfaceProvider_def server_runs_def)
  have "shared_interface p (fold server_step es m) =
      (if ServerEnds n \<in> set es then None else Some (iface_run (acts_of n es) (sg_interface (sm_segments m ! n))))"
    using segment_after [of n m es] assms(2)
    by (auto simp: shared_interface_def isValid_def getInterface_def p(1) server_runs_def split: if_splits)
  then show ?thesis by (simp add: drawContent_def p(2))
qed

text \<open>The name is removed by whoever ends: a server that ends after its successor has started hides the
  successor from all camera servers that start later.\<close>

lemma predecessor_hides_successor:
  "pv_interface (fst (openSharedMemory g (InterfaceProvider False) (server_step (ServerEnds k) m))) = NullPtr"
  by (simp add: server_step_def closeSharedMemory_def master_of_def InterfaceProvider_def shm_remove_def openSharedMemory_def)

section \<open>Examples\<close>

definition test_shm :: shm where
  "test_shm = server_step (ServerStarts (\<lambda>_. [])) \<lparr>sm_segments = [], sm_name = None\<rparr>"

theorem camera_follows_one_server_witness:
  "drawContent (\<lambda>_. ''1.0'') (shared_interface (fst (openSharedMemory (\<lambda>_. []) (InterfaceProvider False) test_shm))
      (fold server_step [ServerEnds 0, ServerStarts (\<lambda>_. [])] test_shm)) (640, 480) 7 None =
    [PutText ''7'' (30, 30) GREEN, PutText ''1.0'' (30, 63) RED]"
proof -
  have "sm_name test_shm = Some 0" "server_runs 0 test_shm"
    by (simp_all add: test_shm_def server_step_def openSharedMemory_def InterfaceProvider_def shm_remove_def server_runs_def
        iface_init_def Let_def)
  then show ?thesis
    using camera_follows_one_server [of test_shm 0 "\<lambda>_. []" "fst (openSharedMemory (\<lambda>_. []) (InterfaceProvider False) test_shm)" test_shm
        "\<lambda>_. ''1.0''" "[ServerEnds 0, ServerStarts (\<lambda>_. [])]" "(640, 480)" 7 None]
    by (simp add: openSharedMemory_def InterfaceProvider_def to_string_def decimal.simps)
qed

end
