(* ===== verification/Camera_Setup.thy ===== *)
theory Camera_Setup
  imports Camera_Images
begin

text \<open>
  Start of the frame grabber (\<open>Init\<close> of \<open>CameraImageGrabber.cpp\<close>) and its thread: the V4L2 device, the
  memory allocator and libpixfc are the parameter \<open>v4l_device\<close>. An \<open>ImageGrabberException\<close> is a value, and so
  is a call that is interrupted by signals for ever.
\<close>

datatype grabber_error =
    ConfigError string
  | CannotOpen string
  | IoctlError string
  | NoStreamingIo
  | PropertyFailed string
  | InsufficientBufferMemory
  | CannotAllocateBuffer nat
  | PixfcError int
  | NeverReturns
  | WaitingForFrame

text \<open>The results of one system call after the other.\<close>

datatype attempt = Granted | Interrupted | Refused

fun checkedXioctl :: "attempt list \<Rightarrow> string \<Rightarrow> grabber_error + unit" where
  "checkedXioctl [] errorMessage = Inl NeverReturns"
| "checkedXioctl (Interrupted # attempts) errorMessage = checkedXioctl attempts errorMessage"
| "checkedXioctl (Refused # attempts) errorMessage = Inl (IoctlError errorMessage)"
| "checkedXioctl (Granted # attempts) errorMessage = Inr ()"

text \<open>The device: how it answers each request, the size of the picture it grants, the number of buffers it
  grants, whether memory can be had. \<open>vc_getInt\<close> is \<open>Configuration::getInt\<close>, \<open>None\<close> a \<open>ConfigException\<close>.\<close>

record v4l_device =
  vc_getInt :: "string \<Rightarrow> int option"
  vc_open :: "string \<Rightarrow> bool"
  vc_querycap :: "attempt list"
  vc_streaming :: bool
  vc_s_fmt :: "attempt list"
  vc_granted :: "32 word \<times> 32 word \<Rightarrow> 32 word \<times> 32 word"
  vc_s_input :: "attempt list"
  vc_reqbufs :: "attempt list"
  vc_count :: "nat \<Rightarrow> nat"
  vc_querybuf :: "nat \<Rightarrow> attempt list"
  vc_memalign :: "nat \<Rightarrow> 32 word \<Rightarrow> bool"
  vc_qbuf :: "nat \<Rightarrow> attempt list"
  vc_streamon :: "attempt list"
  vc_create_pixfc :: "32 word \<Rightarrow> 32 word \<Rightarrow> int"

text \<open>\<open>width\<close> and \<open>height\<close>, the sizes of the RGB buffers, and the last input set.\<close>

record grabber_setup =
  gs_width :: "32 word"
  gs_height :: "32 word"
  gs_rgbBuffers :: "32 word list"
  gs_prevVideoInput :: int

definition followed_by :: "'e + 'a \<Rightarrow> ('a \<Rightarrow> 'e + 'b) \<Rightarrow> 'e + 'b" where
  "followed_by r f = (case r of Inl e \<Rightarrow> Inl e | Inr x \<Rightarrow> f x)"

definition getFullConfigPath :: "string \<Rightarrow> string \<Rightarrow> string" where
  "getFullConfigPath prefix property = ''ImageGrabber.'' @ prefix @ ''_'' @ property"

definition getVideoCaptureProperty :: "v4l_device \<Rightarrow> string \<Rightarrow> string \<Rightarrow> grabber_error + int" where
  "getVideoCaptureProperty d prefix confName =
     (let path = getFullConfigPath prefix confName in
      case vc_getInt d path of Some val \<Rightarrow> Inr val | None \<Rightarrow> Inl (PropertyFailed path))"

text \<open>The loop over the buffers, \<open>i\<close> to \<open>i + n\<close>; the results of \<open>mmap\<close> are not looked at.\<close>

fun allocate_buffers :: "v4l_device \<Rightarrow> 32 word \<Rightarrow> nat \<Rightarrow> nat \<Rightarrow> grabber_error + 32 word list" where
  "allocate_buffers d rgbBufferSize i 0 = Inr []"
| "allocate_buffers d rgbBufferSize i (Suc n) =
     followed_by (checkedXioctl (vc_querybuf d i) ''error when querying buffer'') (\<lambda>_.
       if \<not> vc_memalign d i rgbBufferSize then Inl (CannotAllocateBuffer i)
       else followed_by (allocate_buffers d rgbBufferSize (i + 1) n) (\<lambda>buffers. Inr (rgbBufferSize # buffers)))"

fun queryAllBuffers :: "v4l_device \<Rightarrow> nat \<Rightarrow> nat \<Rightarrow> grabber_error + unit" where
  "queryAllBuffers d i 0 = Inr ()"
| "queryAllBuffers d i (Suc n) =
     followed_by (checkedXioctl (vc_qbuf d i) ''error during querying all buffers'') (\<lambda>_. queryAllBuffers d (i + 1) n)"

definition grabber_Init :: "v4l_device \<Rightarrow> string \<Rightarrow> grabber_error + grabber_setup" where
  "grabber_Init d prefix =
     (case vc_getInt d (getFullConfigPath prefix ''device'') of
        None \<Rightarrow> Inl (ConfigError (getFullConfigPath prefix ''device''))
      | Some no \<Rightarrow>
     (let videoDevice = ''/dev/video'' @ to_string no in
      if \<not> vc_open d videoDevice then Inl (CannotOpen videoDevice) else
      followed_by (checkedXioctl (vc_querycap d) ''cannot query capabilities'') (\<lambda>_.
      if \<not> vc_streaming d then Inl NoStreamingIo else
      followed_by (getVideoCaptureProperty d prefix ''width'') (\<lambda>w.
      followed_by (getVideoCaptureProperty d prefix ''height'') (\<lambda>h.
      let width = of_int w; height = of_int h in
      followed_by (checkedXioctl (vc_s_fmt d) ''cannot set pixel format'') (\<lambda>_.
      let (pix_width, pix_height) = vc_granted d (width, height) in
      followed_by (checkedXioctl (vc_s_input d) ''cannot set input to 0'') (\<lambda>_.
      followed_by (checkedXioctl (vc_reqbufs d) ''error when requesting memory buffers'') (\<lambda>_.
      let count = vc_count d 16 in
      if count < 2 then Inl InsufficientBufferMemory else
      followed_by (allocate_buffers d (pix_width * pix_height * 3) 0 count) (\<lambda>buffers.
      followed_by (queryAllBuffers d 0 (length buffers)) (\<lambda>_.
      followed_by (checkedXioctl (vc_streamon d) ''streamon'') (\<lambda>_.
      let status = vc_create_pixfc d width height in
      if status \<noteq> 0 then Inl (PixfcError status)
      else Inr \<lparr>gs_width = width, gs_height = height, gs_rgbBuffers = buffers, gs_prevVideoInput = 0\<rparr>)))))))))))"

text \<open>The conversion made by \<open>create_pixfc\<close> writes lines of \<open>width * 3\<close> bytes.\<close>

definition converted_bytes :: "grabber_setup \<Rightarrow> nat" where
  "converted_bytes s = 3 * unat (gs_width s) * unat (gs_height s)"

text \<open>\<open>HeadImageSource::Init\<close>: the inputs for the gripper's and the back camera.\<close>

definition head_Init :: "(string \<Rightarrow> int option) \<Rightarrow> grabber_error + int \<times> int" where
  "head_Init getInt =
     (case getInt ''HeadImageSource.input_gripper_no'' of
        None \<Rightarrow> Inl (ConfigError ''HeadImageSource.input_gripper_no'')
      | Some gripperInputNo \<Rightarrow>
          (case getInt ''HeadImageSource.input_back_no'' of
             None \<Rightarrow> Inl (ConfigError ''HeadImageSource.input_back_no'')
           | Some backInputNo \<Rightarrow> Inr (gripperInputNo, backInputNo)))"

text \<open>\<open>TurboJpegEncoder::encodeImage\<close>: \<open>compress\<close> is \<open>tjCompress2\<close> into a buffer of the given length that it
  may not enlarge; \<open>None\<close> is a status other than 0, the exception.\<close>

definition turbo_encodeImage :: "('img \<Rightarrow> nat \<Rightarrow> int \<Rightarrow> u8 list option) \<Rightarrow> 'img \<Rightarrow> nat \<Rightarrow> int \<Rightarrow> u8 list option" where
  "turbo_encodeImage compress inputImage maxOutputLength quality =
     (case compress inputImage maxOutputLength quality of None \<Rightarrow> None | Some jpeg \<Rightarrow> Some jpeg)"

section \<open>The thread of the grabber\<close>

text \<open>What a round of the thread meets: \<open>cp_select\<close> is the result of \<open>select\<close>, where 0 is the end of the
  waiting time and -1 an error or a signal.\<close>

record 'raw capture =
  cp_select :: int
  cp_dqbuf :: "attempt list"
  cp_index :: nat
  cp_raw :: 'raw
  cp_elapsedTime :: int
  cp_qbuf :: "attempt list"

definition grabber_round ::
    "('raw \<Rightarrow> 'img) \<Rightarrow> (int \<Rightarrow> 'img \<Rightarrow> 'img) \<Rightarrow> 'raw capture \<Rightarrow> 'img grabber \<Rightarrow> grabber_error option \<times> 'img grabber" where
  "grabber_round convert flip c s =
     (if cp_select c = -1 then (Some WaitingForFrame, s)
      else case checkedXioctl (cp_dqbuf c) ''error during dequeing buffer'' of
        Inl e \<Rightarrow> (Some e, s)
      | Inr _ \<Rightarrow>
          (let s = grab_convert convert flip (cp_raw c) (cp_index c) (cp_elapsedTime c) s
           in case checkedXioctl (cp_qbuf c) ''error during querying buffer'' of
                Inl e \<Rightarrow> (Some e, s)
              | Inr _ \<Rightarrow> (None, grab_publish (cp_index c) s)))"

text \<open>The rounds until \<open>finishThread\<close> is set; an exception leaves the thread and ends the program.\<close>

fun grabberThreadFunction ::
    "('raw \<Rightarrow> 'img) \<Rightarrow> (int \<Rightarrow> 'img \<Rightarrow> 'img) \<Rightarrow> 'raw capture list \<Rightarrow> 'img grabber \<Rightarrow> grabber_error option \<times> 'img grabber" where
  "grabberThreadFunction convert flip [] s = (None, s)"
| "grabberThreadFunction convert flip (c # cs) s =
     (case grabber_round convert flip c s of
        (Some e, s) \<Rightarrow> (Some e, s)
      | (None, s) \<Rightarrow> grabberThreadFunction convert flip cs s)"

section \<open>Properties\<close>

lemma followed_by_Inr: "followed_by r f = Inr y \<longleftrightarrow> (\<exists>x. r = Inr x \<and> f x = Inr y)"
  by (simp add: followed_by_def split: sum.split)

lemma allocated: "allocate_buffers d n i k = Inr bs \<Longrightarrow> bs = replicate k n \<and> (\<forall>j < k. vc_memalign d (i + j) n)"
proof (induction k arbitrary: i bs)
  case (Suc k)
  then obtain rest where rest: "vc_memalign d i n" "allocate_buffers d n (i + 1) k = Inr rest" "bs = n # rest"
    by (auto simp: followed_by_Inr split: if_splits)
  from Suc.IH [OF rest(2)] rest(1,3) show ?case by (auto simp: less_Suc_eq_0_disj)
qed simp

lemma init_result:
  assumes "grabber_Init d prefix = Inr s"
  shows "gs_rgbBuffers s = replicate (vc_count d 16) (fst (vc_granted d (gs_width s, gs_height s)) * snd (vc_granted d (gs_width s, gs_height s)) * 3) \<and>
    2 \<le> vc_count d 16 \<and> vc_create_pixfc d (gs_width s) (gs_height s) = 0 \<and> vc_streaming d"
  using assms
  by (auto simp: grabber_Init_def followed_by_Inr case_prod_beta Let_def split: option.splits if_splits dest!: allocated)

text \<open>The converted frame and its buffer. When the grabber has started it has at least two buffers, all of one
  size. A frame fits when the device grants the size asked for and the size is below 4 GiB; when the
  device grants a smaller picture, every conversion writes beyond the end of its buffer.\<close>

theorem conversion_fits_granted_size:
  assumes "grabber_Init d prefix = Inr s" and "vc_granted d (gs_width s, gs_height s) = (w, h)" and "i < length (gs_rgbBuffers s)"
    and "3 * unat w * unat h < 2 ^ 32"
  shows "2 \<le> length (gs_rgbBuffers s) \<and>
    ((w, h) = (gs_width s, gs_height s) \<longrightarrow> converted_bytes s \<le> unat (gs_rgbBuffers s ! i)) \<and>
    (unat w * unat h < unat (gs_width s) * unat (gs_height s) \<longrightarrow> unat (gs_rgbBuffers s ! i) < converted_bytes s)"
proof -
  note r = init_result [OF assms(1)]
  have size: "gs_rgbBuffers s ! i = w * h * 3" using r assms(2,3) by simp
  have "unat (w * h * 3) = 3 * unat w * unat h"
    using assms(4) by (simp add: unat_word_ariths mult.commute mult.left_commute)
  then show ?thesis using r unfolding size by (auto simp: converted_bytes_def)
qed

text \<open>The thread publishes one frame for each round up to the first that fails; a signal during \<open>select\<close> is
  such a failure, although the calls of \<open>ioctl\<close> are repeated after one.\<close>

fun call_granted :: "attempt list \<Rightarrow> bool" where
  "call_granted [] = False"
| "call_granted (Interrupted # attempts) = call_granted attempts"
| "call_granted (Granted # attempts) = True"
| "call_granted (Refused # attempts) = False"

lemma checkedXioctl_granted: "(\<exists>u. checkedXioctl as m = Inr u) \<longleftrightarrow> call_granted as"
  by (induction as m rule: checkedXioctl.induct) auto

definition capture_ok :: "'raw capture \<Rightarrow> bool" where
  "capture_ok c \<longleftrightarrow> cp_select c \<noteq> -1 \<and> call_granted (cp_dqbuf c) \<and> call_granted (cp_qbuf c)"

definition captured :: "'raw capture \<Rightarrow> 'raw \<times> nat \<times> int" where
  "captured c = (cp_raw c, cp_index c, cp_elapsedTime c)"

lemma grabber_round_result:
  "capture_ok c \<Longrightarrow> grabber_round convert flip c s = (None, grab convert flip (captured c) s)"
  "\<not> capture_ok c \<Longrightarrow> fst (grabber_round convert flip c s) \<noteq> None \<and>
    gr_currentFrame (snd (grabber_round convert flip c s)) = gr_currentFrame s \<and>
    gr_currentFrameNo (snd (grabber_round convert flip c s)) = gr_currentFrameNo s"
  using checkedXioctl_granted [of "cp_dqbuf c" "''error during dequeing buffer''"]
    checkedXioctl_granted [of "cp_qbuf c" "''error during querying buffer''"]
  by (auto simp: capture_ok_def captured_def grab_def grabber_round_def grab_convert_def Let_def split: sum.splits)

lemma grabber_thread_frames:
  "(list_all capture_ok cs \<longrightarrow> grabberThreadFunction convert flip cs s = (None, fold (grab convert flip) (map captured cs) s)) \<and>
   (fst (grabberThreadFunction convert flip cs s) = None \<longleftrightarrow> list_all capture_ok cs) \<and>
   gr_currentFrameNo (snd (grabberThreadFunction convert flip cs s)) = gr_currentFrameNo s + int (length (takeWhile capture_ok cs))"
proof (induction cs arbitrary: s)
  case (Cons c cs)
  show ?case
  proof (cases "capture_ok c")
    case True
    then show ?thesis
      using Cons.IH [of "grab convert flip (captured c) s"] by (simp add: grabber_round_result(1) grab_frame)
  next
    case False
    obtain e t where "grabber_round convert flip c s = (Some e, t)" "gr_currentFrameNo t = gr_currentFrameNo s"
      using grabber_round_result(2) [OF False, of convert flip s] by (cases "grabber_round convert flip c s") auto
    then show ?thesis using False by simp
  qed
qed simp

definition test_device :: v4l_device where
  "test_device = \<lparr>vc_getInt = (\<lambda>p. if p = ''ImageGrabber.head_width'' then Some 640 else if p = ''ImageGrabber.head_height'' then Some 480 else Some 0),
     vc_open = (\<lambda>_. True), vc_querycap = [Interrupted, Granted], vc_streaming = True, vc_s_fmt = [Granted], vc_granted = (\<lambda>_. (320, 240)),
     vc_s_input = [Granted], vc_reqbufs = [Granted], vc_count = (\<lambda>_. 2), vc_querybuf = (\<lambda>_. [Granted]), vc_memalign = (\<lambda>_ _. True),
     vc_qbuf = (\<lambda>_. [Granted]), vc_streamon = [Granted], vc_create_pixfc = (\<lambda>_ _. 0)\<rparr>"

theorem conversion_fits_granted_size_witness:
  "\<exists>s. grabber_Init test_device ''head'' = Inr s \<and> unat (gs_rgbBuffers s ! 1) < converted_bytes s"
proof -
  let ?s = "\<lparr>gs_width = 640, gs_height = 480, gs_rgbBuffers = [230400, 230400], gs_prevVideoInput = 0\<rparr>"
  have init: "grabber_Init test_device ''head'' = Inr ?s"
    by (simp add: grabber_Init_def test_device_def followed_by_def getVideoCaptureProperty_def getFullConfigPath_def numeral_2_eq_2 Let_def)
  from conversion_fits_granted_size [OF this, of 320 240 1] have "unat (gs_rgbBuffers ?s ! 1) < converted_bytes ?s"
    by (simp add: test_device_def)
  then show ?thesis using init by blast
qed

end
