(* ===== verification/Server_Config.thy ===== *)
theory Server_Config
  imports Server_Interface
begin

text \<open>
  Configuration of the servers (\<open>server/common_lib/src/Configuration.cpp\<close>, \<open>logging.cpp\<close>, the choice of
  files in \<open>initialization.cpp\<close>). The property tree of Boost with its INI reader and its translators
  between values and text is a parameter.
\<close>

section \<open>The property tree\<close>

text \<open>\<open>pt_read_ini\<close> fills the tree it is given (\<open>None\<close> is an \<open>ini_parser_error\<close>).\<close>

record 't ptree =
  pt_empty :: 't
  pt_read_ini :: "string \<Rightarrow> 't \<Rightarrow> 't option"
  pt_find :: "'t \<Rightarrow> string \<Rightarrow> string option"
  pt_put :: "string \<Rightarrow> string \<Rightarrow> 't \<Rightarrow> 't"
  pt_children :: "'t \<Rightarrow> (string \<times> 't) list"

record 'a translator =
  tr_name :: string
  tr_parse :: "string \<Rightarrow> 'a option"
  tr_show :: "'a \<Rightarrow> string"

section \<open>\<open>Configuration\<close>\<close>

text \<open>A \<open>ptree_bad_path\<close> is turned into a \<open>ConfigException\<close>, a \<open>ptree_bad_data\<close> is not caught.\<close>

datatype config_thrown = ConfigException string | PtreeBadData | IniParserError

definition config_get :: "'t ptree \<Rightarrow> 'a translator \<Rightarrow> 't \<Rightarrow> string \<Rightarrow> config_thrown + 'a" where
  "config_get ops tr tree property =
     (case pt_find ops tree property of
        None \<Rightarrow> Inl (ConfigException (tr_name tr @ '' key '' @ [CHR 0x27] @ property @ [CHR 0x27] @ '' not found''))
      | Some text \<Rightarrow> (case tr_parse tr text of None \<Rightarrow> Inl PtreeBadData | Some v \<Rightarrow> Inr v))"

definition config_put :: "'t ptree \<Rightarrow> 'a translator \<Rightarrow> string \<Rightarrow> 'a \<Rightarrow> 't \<Rightarrow> 't" where
  "config_put ops tr property val tree = pt_put ops property (tr_show tr val) tree"

text \<open>The constructor that is given several files.\<close>

fun read_files :: "'t ptree \<Rightarrow> string list \<Rightarrow> 't \<Rightarrow> config_thrown + 't" where
  "read_files ops [] tree = Inr tree"
| "read_files ops (name # names) tree =
     (case pt_read_ini ops name tree of None \<Rightarrow> Inl IniParserError | Some tree \<Rightarrow> read_files ops names tree)"

definition configuration :: "'t ptree \<Rightarrow> string list \<Rightarrow> config_thrown + 't" where
  "configuration ops fileNames = read_files ops fileNames (pt_empty ops)"

definition DEFAULT_CONFIG_FILE :: string where "DEFAULT_CONFIG_FILE = ''config.ini''"

text \<open>The files of the command line.\<close>

definition config_files :: "string list \<Rightarrow> string list" where
  "config_files arguments = (if arguments = [] then [DEFAULT_CONFIG_FILE] else arguments)"

section \<open>\<open>configureLogger\<close>\<close>

datatype log_priority = DEBUG | INFO | NOTICE | WARN | ERROR

definition priorities :: "string \<Rightarrow> log_priority option" where
  "priorities = map_of [(''debug'', DEBUG), (''info'', INFO), (''notice'', NOTICE), (''warn'', WARN), (''error'', ERROR)]"

record logger =
  lg_root :: "log_priority option"
  lg_categories :: "string \<Rightarrow> log_priority option"

datatype logger_thrown = InvalidFileLevel string | InvalidCommandLineLevel string | LoggerIniError

fun configure_classes :: "'t ptree \<Rightarrow> (string \<times> 't) list \<Rightarrow> logger \<Rightarrow> logger \<times> logger_thrown option" where
  "configure_classes ops [] s = (s, None)"
| "configure_classes ops ((className, child) # children) s =
     (case pt_find ops child ''loglevel'' of
        None \<Rightarrow> configure_classes ops children s
      | Some logLevel \<Rightarrow>
          (let logLevel = map to_lower_char logLevel in
           case priorities logLevel of
             None \<Rightarrow> (s, Some (InvalidFileLevel logLevel))
           | Some p \<Rightarrow> configure_classes ops children (s\<lparr>lg_categories := (lg_categories s)(className \<mapsto> p)\<rparr>)))"

text \<open>Every file is read into a tree of its own.\<close>

fun configure_files :: "'t ptree \<Rightarrow> string list \<Rightarrow> logger \<Rightarrow> logger \<times> logger_thrown option" where
  "configure_files ops [] s = (s, None)"
| "configure_files ops (fileName # files) s =
     (case pt_read_ini ops fileName (pt_empty ops) of
        None \<Rightarrow> (s, Some LoggerIniError)
      | Some tree \<Rightarrow>
          (case configure_classes ops (pt_children ops tree) s of
             (s, Some e) \<Rightarrow> (s, Some e)
           | (s, None) \<Rightarrow> configure_files ops files s))"

definition configureLogger :: "'t ptree \<Rightarrow> string list \<Rightarrow> string \<Rightarrow> logger \<Rightarrow> logger \<times> logger_thrown option" where
  "configureLogger ops propertiesFiles priority s =
     (case configure_files ops propertiesFiles s of
        (s, Some e) \<Rightarrow> (s, Some e)
      | (s, None) \<Rightarrow>
          (let priority = map to_lower_char priority in
           case priorities priority of
             None \<Rightarrow> (s, Some (InvalidCommandLineLevel priority))
           | Some p \<Rightarrow> (s\<lparr>lg_root := Some p\<rparr>, None)))"

section \<open>Colours of the log\<close>

text \<open>\<open>ColorPatternLayout.cpp\<close>. An event of a priority without a colour is an \<open>out_of_range\<close>
  exception (\<open>None\<close>); the priorities above \<open>ERROR\<close> have none, but the program does not log with them.\<close>

definition escape :: "string \<Rightarrow> string" where
  "escape code = CHR 0x1B # ''['' @ code @ ''m''"

definition FG_DEFAULT :: string where "FG_DEFAULT = escape ''0''"

definition colorMap :: "string \<Rightarrow> string option" where
  "colorMap = map_of
     [(''black'', escape ''0;30''), (''red'', escape ''0;31''), (''green'', escape ''0;32''), (''brown'', escape ''0;33''),
      (''blue'', escape ''0;34''), (''purple'', escape ''0;35''), (''cyan'', escape ''0;36''), (''light-gray'', escape ''0;37''),
      (''dark-gray'', escape ''1;30''), (''light-red'', escape ''1;31''), (''light-green'', escape ''1;32''), (''yellow'', escape ''1;33''),
      (''light-blue'', escape ''1;34''), (''light-purple'', escape ''1;35''), (''light-cyan'', escape ''1;36''), (''white'', escape ''1;37'')]"

text \<open>\<open>colorMap[...]\<close> of a missing name is the empty string.\<close>

definition priorityColors :: "log_priority \<Rightarrow> string option" where
  "priorityColors p = map_option (\<lambda>name. case colorMap name of None \<Rightarrow> [] | Some c \<Rightarrow> c)
     (map_of [(DEBUG, ''light-gray''), (INFO, ''light-gray''), (NOTICE, ''green''), (WARN, ''yellow''), (ERROR, ''light-red'')] p)"

text \<open>\<open>isatty\<close> of the standard output decides about colours; \<open>line\<close> is the line of \<open>PatternLayout\<close>.\<close>

definition layout_format :: "bool \<Rightarrow> log_priority \<Rightarrow> string \<Rightarrow> string option" where
  "layout_format tty priority line =
     (if tty then map_option (\<lambda>color. color @ line @ FG_DEFAULT) (priorityColors priority) else Some line)"

lemma every_level_has_a_colour:
  "priorities level = Some p \<Longrightarrow> \<exists>c. c \<noteq> [] \<and> layout_format True p line = Some (c @ line @ FG_DEFAULT) \<and> layout_format False p line = Some line"
  by (cases p) (auto simp: layout_format_def priorityColors_def colorMap_def escape_def)

section \<open>Properties\<close>

text \<open>The documentation of \<open>read_ini\<close>: it clears the tree it is given.\<close>

definition read_ini_clears :: "'t ptree \<Rightarrow> bool" where
  "read_ini_clears ops \<longleftrightarrow> (\<forall>name tree tree'. pt_read_ini ops name tree = pt_read_ini ops name tree')"

lemma read_files_append:
  "read_files ops (xs @ ys) tree = (case read_files ops xs tree of Inl e \<Rightarrow> Inl e | Inr tree \<Rightarrow> read_files ops ys tree)"
  by (induction xs arbitrary: tree) (simp_all split: option.split)

text \<open>The levels a file sets, by class.\<close>

fun class_levels :: "'t ptree \<Rightarrow> (string \<times> 't) list \<Rightarrow> (string \<times> log_priority) list" where
  "class_levels ops [] = []"
| "class_levels ops ((c, t) # ts) =
     (case Option.bind (pt_find ops t ''loglevel'') (\<lambda>l. priorities (map to_lower_char l)) of
        None \<Rightarrow> class_levels ops ts
      | Some p \<Rightarrow> (c, p) # class_levels ops ts)"

definition file_levels :: "'t ptree \<Rightarrow> string \<Rightarrow> (string \<times> log_priority) list" where
  "file_levels ops name =
     (case pt_read_ini ops name (pt_empty ops) of None \<Rightarrow> [] | Some tree \<Rightarrow> class_levels ops (pt_children ops tree))"

lemma configure_classes_levels:
  "configure_classes ops children s = (s', None) \<Longrightarrow>
   s' = s\<lparr>lg_categories := lg_categories s ++ map_of (rev (class_levels ops children))\<rparr>"
  by (induction ops children s rule: configure_classes.induct) (auto simp: Let_def split: option.splits)

lemma configure_files_levels:
  "configure_files ops files s = (s', None) \<Longrightarrow>
   s' = s\<lparr>lg_categories := lg_categories s ++ map_of (rev (concat (map (file_levels ops) files)))\<rparr>"
proof (induction files arbitrary: s)
  case (Cons f fs)
  then obtain tree t where "pt_read_ini ops f (pt_empty ops) = Some tree" "configure_classes ops (pt_children ops tree) s = (t, None)"
      "configure_files ops fs t = (s', None)"
    by (auto split: option.splits prod.splits)
  with Cons.IH [of t] configure_classes_levels [of ops "pt_children ops tree" s t] show ?case
    by (simp add: file_levels_def)
qed simp

text \<open>Several configuration files. The servers accept any number of them, and the levels of the log come
  from all: the last file that names a class decides. The values of the program come from the last
  file alone, since reading it clears what the files before it have set.\<close>

theorem only_last_file_configures:
  assumes "read_ini_clears ops" and "configuration ops (config_files (files @ [file])) = Inr tree"
    and "configureLogger ops (config_files (files @ [file])) priority s = (s', None)"
  shows "configuration ops [file] = Inr tree \<and>
    lg_categories s' = lg_categories s ++ map_of (rev (concat (map (file_levels ops) (files @ [file]))))"
proof -
  obtain before where "read_files ops [file] before = Inr tree"
    using assms(2) by (auto simp: configuration_def config_files_def read_files_append split: sum.splits)
  moreover have "pt_read_ini ops file before = pt_read_ini ops file (pt_empty ops)"
    using assms(1) by (simp add: read_ini_clears_def)
  ultimately have "configuration ops [file] = Inr tree" by (simp add: configuration_def)
  moreover obtain t where "configure_files ops (files @ [file]) s = (t, None)" "lg_categories s' = lg_categories t"
    using assms(3) by (auto simp: configureLogger_def config_files_def Let_def split: prod.splits option.splits)
  ultimately show ?thesis using configure_files_levels [of ops "files @ [file]" s t] by simp
qed

text \<open>Values that are put can be got again, without effect on others.\<close>

lemma config_get_put:
  assumes "\<And>k v t k'. pt_find ops (pt_put ops k v t) k' = (if k' = k then Some v else pt_find ops t k')"
    and "tr_parse tr (tr_show tr v) = Some v"
  shows "config_get ops tr (config_put ops tr k v t) k = Inr v"
    and "k' \<noteq> k \<Longrightarrow> config_get ops tr' (config_put ops tr k v t) k' = config_get ops tr' t k'"
  using assms by (simp_all add: config_get_def config_put_def)

text \<open>A value that is not a number leaves \<open>getInt\<close> with an exception that is no \<open>ConfigException\<close>.\<close>

lemma malformed_value_is_no_ConfigException:
  "pt_find ops tree property = Some text \<Longrightarrow> tr_parse tr text = None \<Longrightarrow> config_get ops tr tree property = Inl PtreeBadData"
  by (simp add: config_get_def)

section \<open>Example\<close>

text \<open>Trees of one level with their sections; two files, of which the first configures the port.\<close>

datatype test_tree = Test_Tree "(string \<times> string) list" "(string \<times> test_tree) list"

definition test_ptree :: "test_tree ptree" where
  "test_ptree = \<lparr>pt_empty = Test_Tree [] [],
     pt_read_ini = (\<lambda>name tree. Some
       (if name = ''a'' then Test_Tree [(''NetServer.port'', ''10191'')] [(''NetServer'', Test_Tree [(''loglevel'', ''Warn'')] [])]
        else Test_Tree [] [(''WifiInfo'', Test_Tree [(''loglevel'', ''info'')] [])])),
     pt_find = (\<lambda>tree k. case tree of Test_Tree kvs ts \<Rightarrow> map_of kvs k),
     pt_put = (\<lambda>k v tree. case tree of Test_Tree kvs ts \<Rightarrow> Test_Tree ((k, v) # kvs) ts),
     pt_children = (\<lambda>tree. case tree of Test_Tree kvs ts \<Rightarrow> ts)\<rparr>"

theorem only_last_file_configures_witness:
  "\<exists>tree s'. configuration test_ptree [''a'', ''b''] = Inr tree \<and> pt_find test_ptree tree ''NetServer.port'' = None \<and>
     configureLogger test_ptree [''a'', ''b''] ''INFO'' \<lparr>lg_root = None, lg_categories = Map.empty\<rparr> = (s', None) \<and>
     lg_categories s' = [''NetServer'' \<mapsto> WARN, ''WifiInfo'' \<mapsto> INFO]"
proof -
  let ?s = "\<lparr>lg_root = None, lg_categories = Map.empty\<rparr>"
  have clears: "read_ini_clears test_ptree" by (simp add: read_ini_clears_def test_ptree_def)
  obtain tree where tree: "configuration test_ptree [''a'', ''b''] = Inr tree"
    by (simp add: configuration_def test_ptree_def)
  have lower: "map to_lower_char ''Warn'' = ''warn''" "map to_lower_char ''info'' = ''info''" "map to_lower_char ''INFO'' = ''info''"
    by code_simp+
  obtain s' where s': "configureLogger test_ptree [''a'', ''b''] ''INFO'' ?s = (s', None)"
    by (simp add: configureLogger_def test_ptree_def priorities_def lower del: list.map)
  have "configuration test_ptree [''b''] = Inr tree \<and> lg_categories s' = Map.empty ++ map_of (rev (concat (map (file_levels test_ptree) [''a'', ''b''])))"
    using only_last_file_configures [OF clears, of "[''a'']" "''b''" tree "''INFO''" ?s s'] tree s' by (simp add: config_files_def)
  moreover have "file_levels test_ptree ''a'' = [(''NetServer'', WARN)]" "file_levels test_ptree ''b'' = [(''WifiInfo'', INFO)]"
    by (simp_all add: file_levels_def test_ptree_def priorities_def lower del: list.map)
  ultimately show ?thesis using tree s' by (auto simp: configuration_def test_ptree_def)
qed

end
