(* ===== verification/Server_Utils.thy ===== *)
theory Server_Utils
  imports Szark_Prelude
begin

text \<open>
  \<open>server/common_lib\<close>: \<open>utils.cpp\<close>, \<open>utils.hpp\<close> and \<open>IoServiceProvider.cpp\<close>. The local time and the
  \<open>io_context\<close> of Boost.Asio are used as documented.
\<close>

section \<open>Time stamps\<close>

text \<open>\<open>strftime\<close> is the local time of a second as \<open>%H:%M:%S.\<close>, \<open>None\<close> when it does not fit; the milliseconds
  are written with \<open>width(3)\<close> and \<open>fill('0')\<close>.\<close>

definition fill_width :: "char \<Rightarrow> nat \<Rightarrow> string \<Rightarrow> string" where
  "fill_width c n s = replicate (n - length s) c @ s"

definition getTimestamp :: "(nat \<Rightarrow> string option) \<Rightarrow> nat \<Rightarrow> string" where
  "getTimestamp strftime ms =
     (let modulo = ms mod 1000;
          seconds = ms div 1000;
          now = (case strftime seconds of None \<Rightarrow> [] | Some buffer \<Rightarrow> buffer)
      in now @ fill_width (CHR ''0'') 3 (decimal modulo))"

text \<open>\<open>toString\<close> of a vector.\<close>

definition vector_toString :: "nat list \<Rightarrow> string" where
  "vector_toString elems = ''{'' @ concat (map (\<lambda>elem. decimal elem @ '','') elems) @ ''}''"

section \<open>The \<open>io_context\<close>\<close>

text \<open>What waits to be run: a handler of the servers, or that of the signals.\<close>

datatype 'h io_work = Handler 'h | Signal

record 'h io_service =
  io_ready :: "'h io_work list"
  io_stopped :: bool

definition signalHandler :: "'h io_service \<Rightarrow> 'h io_service" where
  "signalHandler s = s\<lparr>io_stopped := True\<rparr>"

text \<open>\<open>run\<close> on what is ready: the handlers run, what is left, and whether it has returned; without work it
  waits, since the signals are waited for until one comes.\<close>

fun io_run :: "'h io_work list \<Rightarrow> 'h io_service \<Rightarrow> 'h list \<times> 'h io_service" where
  "io_run [] s = ([], s\<lparr>io_ready := []\<rparr>)"
| "io_run (w # ws) s =
     (if io_stopped s then ([], s\<lparr>io_ready := w # ws\<rparr>)
      else case w of
        Handler h \<Rightarrow> (let (hs, s) = io_run ws s in (h # hs, s))
      | Signal \<Rightarrow> io_run ws (signalHandler s))"

definition io_service_run :: "'h io_service \<Rightarrow> 'h list \<times> 'h io_service" where
  "io_service_run s = io_run (io_ready s) s"

section \<open>Properties\<close>

fun read_decimal :: "nat \<Rightarrow> string \<Rightarrow> nat" where
  "read_decimal n [] = n"
| "read_decimal n (c # s) = read_decimal (10 * n + (of_char c - 48)) s"

lemma read_decimal_append: "read_decimal n (s @ t) = read_decimal (read_decimal n s) t"
  by (induction s arbitrary: n) simp_all

lemma read_decimal_fill: "read_decimal 0 (replicate k (CHR ''0'') @ s) = read_decimal 0 s"
  by (induction k) simp_all

lemma digit_value: "d < 10 \<Longrightarrow> of_char (''0123456789'' ! d) = 48 + (d :: nat)"
  by (auto simp: less_Suc_eq numeral_eq_Suc)

lemma read_decimal_decimal: "read_decimal 0 (decimal n) = n"
proof (induction n rule: decimal.induct)
  case (1 n)
  show ?case
    using 1 by (subst decimal.simps) (simp add: Let_def read_decimal_append digit_value mult.commute)
qed

lemma decimal_three: "n < 1000 \<Longrightarrow> length (decimal n) \<le> 3"
  by (simp add: decimal.simps [of n] decimal.simps [of "n div 10"] decimal.simps [of "n div 10 div 10"] Let_def)

text \<open>A time stamp ends with the milliseconds of its second in three digits, whatever their number.\<close>

lemma timestamp_milliseconds:
  assumes "strftime (ms div 1000) = Some buffer"
  shows "length (getTimestamp strftime ms) = length buffer + 3"
    and "read_decimal 0 (drop (length buffer) (getTimestamp strftime ms)) = ms mod 1000"
  using decimal_three [of "ms mod 1000"]
  by (simp_all add: getTimestamp_def assms fill_width_def Let_def read_decimal_fill read_decimal_decimal)

text \<open>The text of a vector has a comma after its last element too.\<close>

lemma vector_trailing_comma: "vector_toString [1, 2] = ''{1,2,}''" "vector_toString [] = ''{}''"
  by (simp_all add: vector_toString_def decimal.simps)

text \<open>A signal ends \<open>run\<close>: the handlers that were ready before it have run, the others do not.\<close>

lemma signal_stops_handlers:
  assumes "\<not> io_stopped s"
  shows "map Handler (fst (io_service_run s)) = takeWhile (\<lambda>w. w \<noteq> Signal) (io_ready s) \<and>
    (io_stopped (snd (io_service_run s)) \<longleftrightarrow> Signal \<in> set (io_ready s))"
proof -
  have stopped: "fst (io_run ws s) = [] \<and> io_stopped (snd (io_run ws s))" if "io_stopped s" for ws and s :: "'a io_service"
    using that by (cases ws) simp_all
  have "\<not> io_stopped s \<Longrightarrow> map Handler (fst (io_run ws s)) = takeWhile (\<lambda>w. w \<noteq> Signal) ws \<and>
      (io_stopped (snd (io_run ws s)) \<longleftrightarrow> Signal \<in> set ws)" for ws
  proof (induction ws)
    case (Cons w ws)
    then show ?case using stopped [of "signalHandler s" ws] by (cases w) (simp_all add: case_prod_beta Let_def signalHandler_def)
  qed simp
  with assms show ?thesis by (simp add: io_service_run_def)
qed

end
