(* ===== verification/Boot_Loader.thy ===== *)
theory Boot_Loader
  imports Bridge_Hw "HOL-Library.Monad_Syntax"
begin

text \<open>
  The bootloader of the bridge (\<open>firmware/bridge-bootloader/BootloaderCDC.c\<close>, \<open>BootloaderAPI.c\<close>): a
  virtual serial port that understands the AVR109 protocol, through which new firmware is loaded. The
  two data endpoints of LUFA are modelled as the packets they hold; programming of flash and EEPROM
  (\<open>avr/boot.h\<close>, \<open>avr/eeprom.h\<close>) is the parameter \<open>self_prog\<close>. A function that waits for the host for
  ever has the value \<open>None\<close>. \<open>Makefile\<close>: an ATmega32U4 with 32 KiB of flash, the last 4 KiB for the
  bootloader, so addresses of the program memory have 16 bits and \<open>int\<close> has 16 bits.
\<close>

section \<open>Data endpoints\<close>

text \<open>The bank of the OUT endpoint with the bytes not yet read (\<open>None\<close> when it is free), the packets the
  host will send, the bank of the IN endpoint, whether it waits for the host, and the packets the host
  has taken. \<open>unattached\<close>: after these packets the host is gone.\<close>

record usb_cdc =
  rx_bank :: "u8 list option"
  rx_queue :: "u8 list list"
  tx_bank :: "u8 list"
  tx_busy :: bool
  tx_sent :: "u8 list list"
  host_reads :: bool
  unattached :: bool

definition CDC_NOTIFICATION_EPADDR :: u8 where "CDC_NOTIFICATION_EPADDR = 0x80 OR 2"
definition CDC_TX_EPADDR :: u8 where "CDC_TX_EPADDR = 0x80 OR 3"
definition CDC_RX_EPADDR :: u8 where "CDC_RX_EPADDR = 0 OR 4"
definition CDC_TXRX_EPSIZE :: nat where "CDC_TXRX_EPSIZE = 16"
definition CDC_NOTIFICATION_EPSIZE :: nat where "CDC_NOTIFICATION_EPSIZE = 8"

definition packet_arrives :: "usb_cdc \<Rightarrow> usb_cdc" where
  "packet_arrives u =
     (case rx_bank u of
        None \<Rightarrow> (case rx_queue u of [] \<Rightarrow> u | p # ps \<Rightarrow> u\<lparr>rx_bank := Some p, rx_queue := ps\<rparr>)
      | Some _ \<Rightarrow> u)"

definition Endpoint_IsOUTReceived :: "usb_cdc \<Rightarrow> bool" where
  "Endpoint_IsOUTReceived u \<longleftrightarrow> rx_bank u \<noteq> None"

definition Endpoint_ClearOUT :: "usb_cdc \<Rightarrow> usb_cdc" where
  "Endpoint_ClearOUT u = u\<lparr>rx_bank := None\<rparr>"

definition Endpoint_IsINReady :: "usb_cdc \<Rightarrow> bool" where
  "Endpoint_IsINReady u \<longleftrightarrow> \<not> tx_busy u"

definition tx_allowed :: "usb_cdc \<Rightarrow> bool" where
  "tx_allowed u \<longleftrightarrow> \<not> tx_busy u \<and> length (tx_bank u) < CDC_TXRX_EPSIZE"

definition Endpoint_ClearIN :: "usb_cdc \<Rightarrow> usb_cdc" where
  "Endpoint_ClearIN u =
     (if host_reads u then u\<lparr>tx_sent := tx_sent u @ [tx_bank u], tx_bank := []\<rparr> else u\<lparr>tx_busy := True\<rparr>)"

text \<open>\<open>FetchNextCommandByte\<close>: the loop over banks without bytes; a host that is gone reads as zero.\<close>

fun next_packet :: "u8 list list \<Rightarrow> usb_cdc \<Rightarrow> (u8 \<times> usb_cdc) option" where
  "next_packet [] u = (if unattached u then Some (0, u\<lparr>rx_bank := None, rx_queue := []\<rparr>) else None)"
| "next_packet ([] # ps) u = next_packet ps u"
| "next_packet ((b # p) # ps) u = Some (b, u\<lparr>rx_bank := Some p, rx_queue := ps\<rparr>)"

definition FetchNextCommandByte :: "usb_cdc \<Rightarrow> (u8 \<times> usb_cdc) option" where
  "FetchNextCommandByte u =
     (case rx_bank u of
        Some (b # p) \<Rightarrow> Some (b, u\<lparr>rx_bank := Some p\<rparr>)
      | _ \<Rightarrow> next_packet (rx_queue u) u)"

definition WriteNextResponseByte :: "u8 \<Rightarrow> usb_cdc \<Rightarrow> usb_cdc option" where
  "WriteNextResponseByte Response u =
     (if tx_allowed u then Some (u\<lparr>tx_bank := tx_bank u @ [Response]\<rparr>)
      else (let u = Endpoint_ClearIN u in
            if Endpoint_IsINReady u then Some (u\<lparr>tx_bank := tx_bank u @ [Response]\<rparr>)
            else if unattached u then Some u else None))"

fun WriteResponses :: "u8 list \<Rightarrow> usb_cdc \<Rightarrow> usb_cdc option" where
  "WriteResponses [] u = Some u"
| "WriteResponses (b # bs) u = do { u \<leftarrow> WriteNextResponseByte b u; WriteResponses bs u }"

section \<open>State\<close>

record line_encoding =
  BaudRateBPS :: "32 word"
  CharFormat :: u8
  ParityType :: u8
  DataBits :: u8

text \<open>What \<open>avr/boot.h\<close>, \<open>avr/pgmspace.h\<close> and \<open>avr/eeprom.h\<close> do to the memories \<open>'m\<close> of the device;
  \<open>boot_spm_busy_wait\<close> waits and changes nothing.\<close>

record 'm self_prog =
  boot_page_erase :: "u16 \<Rightarrow> 'm \<Rightarrow> 'm"
  boot_page_fill :: "u16 \<Rightarrow> u16 \<Rightarrow> 'm \<Rightarrow> 'm"
  boot_page_write :: "u16 \<Rightarrow> 'm \<Rightarrow> 'm"
  boot_rww_enable :: "'m \<Rightarrow> 'm"
  pgm_read_byte :: "'m \<Rightarrow> u16 \<Rightarrow> u8"
  pgm_read_word :: "'m \<Rightarrow> u16 \<Rightarrow> u16"
  eeprom_read_byte :: "'m \<Rightarrow> u16 \<Rightarrow> u8"
  eeprom_write_byte :: "u16 \<Rightarrow> u8 \<Rightarrow> 'm \<Rightarrow> 'm"
  boot_lock_bits_set :: "u8 \<Rightarrow> 'm \<Rightarrow> 'm"
  boot_lock_fuse_bits_get :: "'m \<Rightarrow> u16 \<Rightarrow> u8"
  boot_signature_byte_get :: "'m \<Rightarrow> u16 \<Rightarrow> u8"

text \<open>The ports, the variables of the program, the registers it writes, whether the watchdog runs, the
  endpoints and the memories.\<close>

record 'm boot = io +
  LineEncoding :: line_encoding
  CurrAddress :: "32 word"
  RunBootloader :: bool
  MagicBootKey :: u16
  boot_timeout :: u16
  MCUSR :: u8
  MCUCR :: u8
  TIMSK1 :: u8
  TCCR1B :: u8
  watchdog :: bool
  cdc :: usb_cdc
  memories :: 'm

definition MAGIC_BOOT_KEY :: u16 where "MAGIC_BOOT_KEY = 0xDC42"
definition TIMEOUT_VALUE :: u16 where "TIMEOUT_VALUE = 10"
definition SPM_PAGESIZE :: nat where "SPM_PAGESIZE = 128"
definition BOOT_START_ADDR :: nat where "BOOT_START_ADDR = (32 - 4) * 1024"

definition LineEncoding_init :: line_encoding where
  "LineEncoding_init = \<lparr>BaudRateBPS = 0, CharFormat = 0, ParityType = 0, DataBits = 8\<rparr>"

text \<open>The state a reset leaves: ports and registers at their reset values, the program's variables
  initialised, \<open>MagicBootKey\<close> (\<open>ATTR_NO_INIT\<close>), the reset flags and the memories as given.\<close>

definition boot_reset :: "u16 \<Rightarrow> u8 \<Rightarrow> usb_cdc \<Rightarrow> 'm \<Rightarrow> 'm boot" where
  "boot_reset key mcusr u m = io.extend io_reset
     \<lparr>LineEncoding = LineEncoding_init, CurrAddress = 0, RunBootloader = True, MagicBootKey = key,
      boot_timeout = 0, MCUSR = mcusr, MCUCR = 0, TIMSK1 = 0, TCCR1B = 0, watchdog = False, cdc = u, memories = m\<rparr>"

section \<open>Start and end\<close>

text \<open>\<open>Application_Jump_Check\<close>: whether the application is started.\<close>

definition Application_Jump_Check :: "'m boot \<Rightarrow> bool \<times> 'm boot" where
  "Application_Jump_Check s =
     (let JumpToApplication = bit_is_set (MCUSR s) 3 \<and> MagicBootKey s = MAGIC_BOOT_KEY in
      if JumpToApplication
      then (True, s\<lparr>MCUSR := cbi 3 (MCUSR s), watchdog := False, MagicBootKey := 0\<rparr>)
      else (False, s))"

definition toggleGreenLED :: "'m boot \<Rightarrow> 'm boot" where
  "toggleGreenLED s = s\<lparr>PORTD := PORTD s XOR push_bit 5 1\<rparr>"

definition SetupHardware :: "'m boot \<Rightarrow> 'm boot" where
  "SetupHardware s =
     (let s = s\<lparr>MCUSR := cbi 3 (MCUSR s)\<rparr>;
          s = s\<lparr>watchdog := False\<rparr>;
          s = s\<lparr>MCUCR := push_bit 0 1\<rparr>;
          s = s\<lparr>MCUCR := push_bit 1 1\<rparr>;
          s = s\<lparr>DDRD := DDRD s OR (push_bit 5 1 OR push_bit 4 1)\<rparr>;
          s = s\<lparr>TIMSK1 := push_bit 0 1\<rparr>
      in s\<lparr>TCCR1B := push_bit 1 1 OR push_bit 0 1\<rparr>)"

definition bootloader_start :: "'m boot \<Rightarrow> 'm boot" where
  "bootloader_start s = (let s = SetupHardware s in s\<lparr>PORTD := cbi 5 (PORTD s)\<rparr>)"

definition bootloader_exit :: "'m boot \<Rightarrow> 'm boot" where
  "bootloader_exit s = s\<lparr>MagicBootKey := MAGIC_BOOT_KEY, watchdog := True\<rparr>"

definition TIMER1_OVF_vect :: "'m boot \<Rightarrow> 'm boot" where
  "TIMER1_OVF_vect s =
     (let s = toggleGreenLED s;
          s = (if TIMEOUT_VALUE \<le> boot_timeout s then s\<lparr>RunBootloader := False\<rparr> else s)
      in s\<lparr>boot_timeout := boot_timeout s + 1\<rparr>)"

text \<open>Endpoint address, type (3 interrupt, 2 bulk), size and number of banks.\<close>

definition boot_ConfigurationChanged :: "(u8 \<times> u8 \<times> nat \<times> nat) list" where
  "boot_ConfigurationChanged =
     [(CDC_NOTIFICATION_EPADDR, 3, CDC_NOTIFICATION_EPSIZE, 1),
      (CDC_TX_EPADDR, 2, CDC_TXRX_EPSIZE, 1),
      (CDC_RX_EPADDR, 2, CDC_TXRX_EPSIZE, 1)]"

datatype control_reply = NotHandled | LineCoding line_encoding | Acknowledged

text \<open>\<open>received\<close> is the structure the host sends in the data stage.\<close>

definition EVENT_USB_Device_ControlRequest :: "u8 \<Rightarrow> u8 \<Rightarrow> line_encoding \<Rightarrow> 'm boot \<Rightarrow> control_reply \<times> 'm boot" where
  "EVENT_USB_Device_ControlRequest bmRequestType bRequest received s =
     (if bmRequestType AND (0x60 OR 0x1F) \<noteq> (0x20 OR 0x01) then (NotHandled, s)
      else (let s = toggleGreenLED s in
        if bRequest = 0x21 then
          (if bmRequestType = (0x80 OR 0x20 OR 0x01) then (LineCoding (LineEncoding s), s) else (NotHandled, s))
        else if bRequest = 0x20 then
          (if bmRequestType = (0x00 OR 0x20 OR 0x01) then (Acknowledged, s\<lparr>LineEncoding := received\<rparr>) else (NotHandled, s))
        else if bRequest = 0x22 then
          (if bmRequestType = (0x00 OR 0x20 OR 0x01) then (Acknowledged, s) else (NotHandled, s))
        else (NotHandled, s)))"

section \<open>The commands\<close>

definition MEMORY_TYPE_FLASH :: u8 where "MEMORY_TYPE_FLASH = 0x46" \<comment> \<open>\<open>F\<close>\<close>
definition MEMORY_TYPE_EEPROM :: u8 where "MEMORY_TYPE_EEPROM = 0x45" \<comment> \<open>\<open>E\<close>\<close>
definition AVR109_COMMAND_Sync :: u8 where "AVR109_COMMAND_Sync = 27"
definition AVR109_COMMAND_ReadEEPROM :: u8 where "AVR109_COMMAND_ReadEEPROM = 0x64" \<comment> \<open>\<open>d\<close>\<close>
definition AVR109_COMMAND_WriteEEPROM :: u8 where "AVR109_COMMAND_WriteEEPROM = 0x44" \<comment> \<open>\<open>D\<close>\<close>
definition AVR109_COMMAND_ReadFLASHWord :: u8 where "AVR109_COMMAND_ReadFLASHWord = 0x52" \<comment> \<open>\<open>R\<close>\<close>
definition AVR109_COMMAND_WriteFlashPage :: u8 where "AVR109_COMMAND_WriteFlashPage = 0x6D" \<comment> \<open>\<open>m\<close>\<close>
definition AVR109_COMMAND_FillFlashPageWordLow :: u8 where "AVR109_COMMAND_FillFlashPageWordLow = 0x63" \<comment> \<open>\<open>c\<close>\<close>
definition AVR109_COMMAND_FillFlashPageWordHigh :: u8 where "AVR109_COMMAND_FillFlashPageWordHigh = 0x43" \<comment> \<open>\<open>C\<close>\<close>
definition AVR109_COMMAND_GetBlockWriteSupport :: u8 where "AVR109_COMMAND_GetBlockWriteSupport = 0x62" \<comment> \<open>\<open>b\<close>\<close>
definition AVR109_COMMAND_BlockWrite :: u8 where "AVR109_COMMAND_BlockWrite = 0x42" \<comment> \<open>\<open>B\<close>\<close>
definition AVR109_COMMAND_BlockRead :: u8 where "AVR109_COMMAND_BlockRead = 0x67" \<comment> \<open>\<open>g\<close>\<close>
definition AVR109_COMMAND_ReadExtendedFuses :: u8 where "AVR109_COMMAND_ReadExtendedFuses = 0x51" \<comment> \<open>\<open>Q\<close>\<close>
definition AVR109_COMMAND_ReadHighFuses :: u8 where "AVR109_COMMAND_ReadHighFuses = 0x4E" \<comment> \<open>\<open>N\<close>\<close>
definition AVR109_COMMAND_ReadLowFuses :: u8 where "AVR109_COMMAND_ReadLowFuses = 0x46" \<comment> \<open>\<open>F\<close>\<close>
definition AVR109_COMMAND_ReadLockbits :: u8 where "AVR109_COMMAND_ReadLockbits = 0x72" \<comment> \<open>\<open>r\<close>\<close>
definition AVR109_COMMAND_WriteLockbits :: u8 where "AVR109_COMMAND_WriteLockbits = 0x6C" \<comment> \<open>\<open>l\<close>\<close>
definition AVR109_COMMAND_EraseFLASH :: u8 where "AVR109_COMMAND_EraseFLASH = 0x65" \<comment> \<open>\<open>e\<close>\<close>
definition AVR109_COMMAND_ReadSignature :: u8 where "AVR109_COMMAND_ReadSignature = 0x73" \<comment> \<open>\<open>s\<close>\<close>
definition AVR109_COMMAND_ReadBootloaderSWVersion :: u8 where "AVR109_COMMAND_ReadBootloaderSWVersion = 0x56" \<comment> \<open>\<open>V\<close>\<close>
definition AVR109_COMMAND_ReadBootloaderHWVersion :: u8 where "AVR109_COMMAND_ReadBootloaderHWVersion = 0x76" \<comment> \<open>\<open>v\<close>\<close>
definition AVR109_COMMAND_ReadBootloaderIdentifier :: u8 where "AVR109_COMMAND_ReadBootloaderIdentifier = 0x53" \<comment> \<open>\<open>S\<close>\<close>
definition AVR109_COMMAND_ReadBootloaderInterface :: u8 where "AVR109_COMMAND_ReadBootloaderInterface = 0x70" \<comment> \<open>\<open>p\<close>\<close>
definition AVR109_COMMAND_SetCurrentAddress :: u8 where "AVR109_COMMAND_SetCurrentAddress = 0x41" \<comment> \<open>\<open>A\<close>\<close>
definition AVR109_COMMAND_ReadAutoAddressIncrement :: u8 where "AVR109_COMMAND_ReadAutoAddressIncrement = 0x61" \<comment> \<open>\<open>a\<close>\<close>
definition AVR109_COMMAND_ReadPartCode :: u8 where "AVR109_COMMAND_ReadPartCode = 0x74" \<comment> \<open>\<open>t\<close>\<close>
definition AVR109_COMMAND_EnterProgrammingMode :: u8 where "AVR109_COMMAND_EnterProgrammingMode = 0x50" \<comment> \<open>\<open>P\<close>\<close>
definition AVR109_COMMAND_LeaveProgrammingMode :: u8 where "AVR109_COMMAND_LeaveProgrammingMode = 0x4C" \<comment> \<open>\<open>L\<close>\<close>
definition AVR109_COMMAND_SelectDeviceType :: u8 where "AVR109_COMMAND_SelectDeviceType = 0x54" \<comment> \<open>\<open>T\<close>\<close>
definition AVR109_COMMAND_SetLED :: u8 where "AVR109_COMMAND_SetLED = 0x78" \<comment> \<open>\<open>x\<close>\<close>
definition AVR109_COMMAND_ClearLED :: u8 where "AVR109_COMMAND_ClearLED = 0x79" \<comment> \<open>\<open>y\<close>\<close>
definition AVR109_COMMAND_ExitBootloader :: u8 where "AVR109_COMMAND_ExitBootloader = 0x45" \<comment> \<open>\<open>E\<close>\<close>

definition response_CR :: u8 where "response_CR = 0x0D"
definition response_fail :: u8 where "response_fail = 0x3F" \<comment> \<open>\<open>?\<close>\<close>

definition fetch :: "'m boot \<Rightarrow> (u8 \<times> 'm boot) option" where
  "fetch s = map_option (\<lambda>(b, u). (b, s\<lparr>cdc := u\<rparr>)) (FetchNextCommandByte (cdc s))"

definition respond :: "u8 list \<Rightarrow> 'm boot \<Rightarrow> 'm boot option" where
  "respond bs s = map_option (\<lambda>u. s\<lparr>cdc := u\<rparr>) (WriteResponses bs (cdc s))"

definition next_address :: "'m boot \<Rightarrow> 'm boot" where
  "next_address s = s\<lparr>CurrAddress := CurrAddress s + 2\<rparr>"

text \<open>\<open>while (BlockSize--)\<close> of the read and the write branch.\<close>

fun block_read :: "'m self_prog \<Rightarrow> u8 \<Rightarrow> nat \<Rightarrow> u8 \<Rightarrow> 'm boot \<Rightarrow> 'm boot option" where
  "block_read op MemoryType 0 HighByte s = Some s"
| "block_read op MemoryType (Suc BlockSize) HighByte s =
     (if MemoryType = MEMORY_TYPE_FLASH then
        do { s \<leftarrow> respond [pgm_read_byte op (memories s) (ucast (CurrAddress s OR ucast HighByte))] s;
             let s = (if HighByte \<noteq> 0 then next_address s else s);
             block_read op MemoryType BlockSize (if HighByte = 0 then 1 else 0) s }
      else
        do { s \<leftarrow> respond [eeprom_read_byte op (memories s) (ucast (drop_bit 1 (CurrAddress s)))] s;
             block_read op MemoryType BlockSize HighByte (next_address s) })"

fun block_write :: "'m self_prog \<Rightarrow> u8 \<Rightarrow> nat \<Rightarrow> u8 \<Rightarrow> u8 \<Rightarrow> 'm boot \<Rightarrow> 'm boot option" where
  "block_write op MemoryType 0 HighByte LowByte s = Some s"
| "block_write op MemoryType (Suc BlockSize) HighByte LowByte s =
     (if MemoryType = MEMORY_TYPE_FLASH then
        (if HighByte \<noteq> 0 then
           do { (b, s) \<leftarrow> fetch s;
                let s = s\<lparr>memories := boot_page_fill op (ucast (CurrAddress s)) (push_bit 8 (ucast b) OR ucast LowByte) (memories s)\<rparr>;
                block_write op MemoryType BlockSize 0 LowByte (next_address s) }
         else
           do { (LowByte, s) \<leftarrow> fetch s;
                block_write op MemoryType BlockSize 1 LowByte s })
      else
        do { (b, s) \<leftarrow> fetch s;
             let s = s\<lparr>memories := eeprom_write_byte op (ucast (drop_bit 1 (CurrAddress s))) b (memories s)\<rparr>;
             block_write op MemoryType BlockSize HighByte LowByte (next_address s) })"

definition ReadWriteMemoryBlock :: "'m self_prog \<Rightarrow> u8 \<Rightarrow> 'm boot \<Rightarrow> 'm boot option" where
  "ReadWriteMemoryBlock op Command s =
     do { (hi, s) \<leftarrow> fetch s;
          (lo, s) \<leftarrow> fetch s;
          let BlockSize = (push_bit 8 (ucast hi) OR ucast lo :: u16);
          (MemoryType, s) \<leftarrow> fetch s;
          if MemoryType \<noteq> MEMORY_TYPE_FLASH \<and> MemoryType \<noteq> MEMORY_TYPE_EEPROM then respond [response_fail] s
          else if Command = AVR109_COMMAND_BlockRead then
            block_read op MemoryType (unat BlockSize) 0 (s\<lparr>memories := boot_rww_enable op (memories s)\<rparr>)
          else
            do { let PageStartAddress = CurrAddress s;
                 let s = (if MemoryType = MEMORY_TYPE_FLASH
                          then s\<lparr>memories := boot_page_erase op (ucast PageStartAddress) (memories s)\<rparr> else s);
                 s \<leftarrow> block_write op MemoryType (unat BlockSize) 0 0 s;
                 let s = (if MemoryType = MEMORY_TYPE_FLASH
                          then s\<lparr>memories := boot_page_write op (ucast PageStartAddress) (memories s)\<rparr> else s);
                 respond [response_CR] s } }"

text \<open>The loop of \<open>AVR109_COMMAND_EraseFLASH\<close> over the pages below the bootloader.\<close>

definition erase_flash :: "'m self_prog \<Rightarrow> 'm \<Rightarrow> 'm" where
  "erase_flash op m =
     fold (\<lambda>i m. boot_page_write op (of_nat (i * SPM_PAGESIZE)) (boot_page_erase op (of_nat (i * SPM_PAGESIZE)) m))
       [0..<BOOT_START_ADDR div SPM_PAGESIZE] m"

text \<open>\<open>FetchNextCommandByte () << 9\<close> is computed in an \<open>int\<close> of 16 bits and extended to 32 with its sign.\<close>

definition int16_shift :: "nat \<Rightarrow> u8 \<Rightarrow> 32 word" where
  "int16_shift n b = scast (push_bit n (ucast b :: u16))"

definition SOFTWARE_IDENTIFIER :: "u8 list" where
  "SOFTWARE_IDENTIFIER = map of_char ''LUFACDC''"

definition BOOTLOADER_VERSION_MAJOR :: u8 where "BOOTLOADER_VERSION_MAJOR = 1"
definition BOOTLOADER_VERSION_MINOR :: u8 where "BOOTLOADER_VERSION_MINOR = 0"
definition AVR_SIGNATURE_1 :: u8 where "AVR_SIGNATURE_1 = 0x1E"
definition AVR_SIGNATURE_2 :: u8 where "AVR_SIGNATURE_2 = 0x95"
definition AVR_SIGNATURE_3 :: u8 where "AVR_SIGNATURE_3 = 0x87"

definition execute_command :: "'m self_prog \<Rightarrow> u8 \<Rightarrow> 'm boot \<Rightarrow> 'm boot option" where
  "execute_command op Command s =
    (if Command = AVR109_COMMAND_ExitBootloader then respond [response_CR] (s\<lparr>RunBootloader := False\<rparr>)
     else if Command = AVR109_COMMAND_SetLED \<or> Command = AVR109_COMMAND_ClearLED \<or> Command = AVR109_COMMAND_SelectDeviceType then
       do { (_, s) \<leftarrow> fetch s; respond [response_CR] s }
     else if Command = AVR109_COMMAND_EnterProgrammingMode \<or> Command = AVR109_COMMAND_LeaveProgrammingMode then respond [response_CR] s
     else if Command = AVR109_COMMAND_ReadPartCode then respond [0x44, 0x00] s
     else if Command = AVR109_COMMAND_ReadAutoAddressIncrement then respond [0x59] s
     else if Command = AVR109_COMMAND_SetCurrentAddress then
       do { (hi, s) \<leftarrow> fetch s;
            let s = s\<lparr>CurrAddress := int16_shift 9 hi\<rparr>;
            (lo, s) \<leftarrow> fetch s;
            respond [response_CR] (s\<lparr>CurrAddress := CurrAddress s OR int16_shift 1 lo\<rparr>) }
     else if Command = AVR109_COMMAND_ReadBootloaderInterface then respond [0x53] s
     else if Command = AVR109_COMMAND_ReadBootloaderIdentifier then respond (take 7 SOFTWARE_IDENTIFIER) s
     else if Command = AVR109_COMMAND_ReadBootloaderSWVersion then
       respond [0x30 + BOOTLOADER_VERSION_MAJOR, 0x30 + BOOTLOADER_VERSION_MINOR] s
     else if Command = AVR109_COMMAND_ReadSignature then respond [AVR_SIGNATURE_3, AVR_SIGNATURE_2, AVR_SIGNATURE_1] s
     else if Command = AVR109_COMMAND_EraseFLASH then respond [response_CR] (s\<lparr>memories := erase_flash op (memories s)\<rparr>)
     else if Command = AVR109_COMMAND_WriteLockbits then
       do { (b, s) \<leftarrow> fetch s; respond [response_CR] (s\<lparr>memories := boot_lock_bits_set op b (memories s)\<rparr>) }
     else if Command = AVR109_COMMAND_ReadLockbits then respond [boot_lock_fuse_bits_get op (memories s) 0x0001] s
     else if Command = AVR109_COMMAND_ReadLowFuses then respond [boot_lock_fuse_bits_get op (memories s) 0x0000] s
     else if Command = AVR109_COMMAND_ReadHighFuses then respond [boot_lock_fuse_bits_get op (memories s) 0x0003] s
     else if Command = AVR109_COMMAND_ReadExtendedFuses then respond [boot_lock_fuse_bits_get op (memories s) 0x0002] s
     else if Command = AVR109_COMMAND_GetBlockWriteSupport then
       respond [0x59, of_nat (SPM_PAGESIZE div 256), of_nat SPM_PAGESIZE AND 0xFF] s
     else if Command = AVR109_COMMAND_BlockWrite \<or> Command = AVR109_COMMAND_BlockRead then ReadWriteMemoryBlock op Command s
     else if Command = AVR109_COMMAND_FillFlashPageWordHigh then
       do { (b, s) \<leftarrow> fetch s;
            respond [response_CR] (s\<lparr>memories := boot_page_fill op (ucast (CurrAddress s)) (ucast b) (memories s)\<rparr>) }
     else if Command = AVR109_COMMAND_FillFlashPageWordLow then
       do { (b, s) \<leftarrow> fetch s;
            let s = s\<lparr>memories := boot_page_fill op (ucast (CurrAddress s OR 1)) (ucast b) (memories s)\<rparr>;
            respond [response_CR] (next_address s) }
     else if Command = AVR109_COMMAND_WriteFlashPage then
       respond [response_CR] (s\<lparr>memories := boot_page_write op (ucast (CurrAddress s)) (memories s)\<rparr>)
     else if Command = AVR109_COMMAND_ReadFLASHWord then
       (let ProgramWord = pgm_read_word op (memories s) (ucast (CurrAddress s)) in
        respond [ucast (drop_bit 8 ProgramWord), ucast (ProgramWord AND 0xFF)] s)
     else if Command = AVR109_COMMAND_WriteEEPROM then
       do { (b, s) \<leftarrow> fetch s;
            let s = s\<lparr>memories := eeprom_write_byte op (ucast (drop_bit 1 (CurrAddress s))) b (memories s)\<rparr>;
            respond [response_CR] (next_address s) }
     else if Command = AVR109_COMMAND_ReadEEPROM then
       do { s \<leftarrow> respond [eeprom_read_byte op (memories s) (ucast (drop_bit 1 (CurrAddress s)))] s;
            Some (next_address s) }
     else if Command \<noteq> AVR109_COMMAND_Sync then respond [response_fail] s
     else Some s)"

text \<open>The end of \<open>CDC_Task\<close>: the reply is sent, after a full packet an empty one, and the packet of the
  command is acknowledged with whatever it still holds.\<close>

definition finish_command :: "usb_cdc \<Rightarrow> usb_cdc option" where
  "finish_command u =
     (let IsEndpointFull = \<not> tx_allowed u;
          u = Endpoint_ClearIN u in
      if IsEndpointFull \<and> \<not> Endpoint_IsINReady u then (if unattached u then Some u else None)
      else (let u = (if IsEndpointFull then Endpoint_ClearIN u else u) in
            if \<not> Endpoint_IsINReady u then (if unattached u then Some u else None)
            else Some (Endpoint_ClearOUT u)))"

definition CDC_Task :: "'m self_prog \<Rightarrow> 'm boot \<Rightarrow> 'm boot option" where
  "CDC_Task op s =
     (let s = s\<lparr>cdc := packet_arrives (cdc s)\<rparr> in
      if \<not> Endpoint_IsOUTReceived (cdc s) then Some s
      else do { let s = s\<lparr>boot_timeout := 0\<rparr>;
                (Command, s) \<leftarrow> fetch s;
                s \<leftarrow> execute_command op Command s;
                map_option (\<lambda>u. s\<lparr>cdc := u\<rparr>) (finish_command (cdc s)) })"

section \<open>The main program\<close>

text \<open>What happens to the bootloader: a packet from the host, the host going away, one round of the loop
  of \<open>main\<close>, the timer and control requests (which \<open>USB_USBTask\<close> and interrupts deliver). The round
  that finds \<open>RunBootloader\<close> cleared leaves the loop; then the watchdog runs.\<close>

datatype boot_event = Packet "u8 list" | Unplugged | Round | Overflow | Control u8 u8 line_encoding

definition boot_step :: "'m self_prog \<Rightarrow> boot_event \<Rightarrow> 'm boot \<Rightarrow> 'm boot option" where
  "boot_step op e s =
     (case e of
        Packet p \<Rightarrow> Some (if unattached (cdc s) then s else s\<lparr>cdc := (cdc s)\<lparr>rx_queue := rx_queue (cdc s) @ [p]\<rparr>\<rparr>)
      | Unplugged \<Rightarrow> Some (s\<lparr>cdc := (cdc s)\<lparr>unattached := True, host_reads := False\<rparr>\<rparr>)
      | Round \<Rightarrow> (if watchdog s then Some s
                 else if RunBootloader s then CDC_Task op s
                 else Some (bootloader_exit s))
      | Overflow \<Rightarrow> Some (TIMER1_OVF_vect s)
      | Control t r l \<Rightarrow> Some (snd (EVENT_USB_Device_ControlRequest t r l s)))"

fun boot_run :: "'m self_prog \<Rightarrow> boot_event list \<Rightarrow> 'm boot \<Rightarrow> 'm boot option" where
  "boot_run op [] s = Some s"
| "boot_run op (e # es) s = do { s \<leftarrow> boot_step op e s; boot_run op es s }"

text \<open>The reset by the watchdog; the SRAM with \<open>MagicBootKey\<close> keeps its content.\<close>

definition watchdog_reset :: "'m boot \<Rightarrow> 'm boot" where
  "watchdog_reset s = boot_reset (MagicBootKey s) (sbi 3 (MCUSR s)) (cdc s) (memories s)"

section \<open>\<open>BootloaderAPI.c\<close>\<close>

definition BootloaderAPI_ErasePage :: "'m self_prog \<Rightarrow> 32 word \<Rightarrow> 'm \<Rightarrow> 'm" where
  "BootloaderAPI_ErasePage op Address m = boot_rww_enable op (boot_page_erase op (ucast Address) m)"

definition BootloaderAPI_WritePage :: "'m self_prog \<Rightarrow> 32 word \<Rightarrow> 'm \<Rightarrow> 'm" where
  "BootloaderAPI_WritePage op Address m = boot_rww_enable op (boot_page_write op (ucast Address) m)"

definition BootloaderAPI_FillWord :: "'m self_prog \<Rightarrow> 32 word \<Rightarrow> u16 \<Rightarrow> 'm \<Rightarrow> 'm" where
  "BootloaderAPI_FillWord op Address Word m = boot_page_fill op (ucast Address) Word m"

definition BootloaderAPI_ReadSignature :: "'m self_prog \<Rightarrow> u16 \<Rightarrow> 'm \<Rightarrow> u8" where
  "BootloaderAPI_ReadSignature op Address m = boot_signature_byte_get op m Address"

definition BootloaderAPI_ReadFuse :: "'m self_prog \<Rightarrow> u16 \<Rightarrow> 'm \<Rightarrow> u8" where
  "BootloaderAPI_ReadFuse op Address m = boot_lock_fuse_bits_get op m Address"

definition BootloaderAPI_ReadLock :: "'m self_prog \<Rightarrow> 'm \<Rightarrow> u8" where
  "BootloaderAPI_ReadLock op m = boot_lock_fuse_bits_get op m 0x0001"

definition BootloaderAPI_WriteLock :: "'m self_prog \<Rightarrow> u8 \<Rightarrow> 'm \<Rightarrow> 'm" where
  "BootloaderAPI_WriteLock op LockBits m = boot_lock_bits_set op LockBits m"

section \<open>Receiving and sending\<close>

text \<open>\<open>delivers u bs u'\<close>: the next bytes fetched are \<open>bs\<close>.\<close>

fun delivers :: "usb_cdc \<Rightarrow> u8 list \<Rightarrow> usb_cdc \<Rightarrow> bool" where
  "delivers u [] u' \<longleftrightarrow> u' = u"
| "delivers u (b # bs) u' \<longleftrightarrow> (\<exists>v. FetchNextCommandByte u = Some (b, v) \<and> delivers v bs u')"

lemma delivers_append: "delivers u (bs @ cs) u' \<longleftrightarrow> (\<exists>v. delivers u bs v \<and> delivers v cs u')"
  by (induction bs arbitrary: u) auto

lemma fetch_delivers: "delivers (cdc s) (b # bs) u' \<Longrightarrow> \<exists>v. fetch s = Some (b, s\<lparr>cdc := v\<rparr>) \<and> delivers v bs u'"
  by (auto simp: fetch_def)

lemma next_packet_stream:
  "concat ps = b # bs \<Longrightarrow> last ps \<noteq> [] \<Longrightarrow>
   \<exists>p qs. next_packet (ps @ rest) u = Some (b, u\<lparr>rx_bank := Some p, rx_queue := qs @ rest\<rparr>) \<and>
     p @ concat qs = bs \<and> (qs \<noteq> [] \<longrightarrow> last qs \<noteq> [])"
proof (induction ps)
  case (Cons q qs)
  note prems = Cons.prems
  show ?case
  proof (cases q)
    case Nil
    then have "concat qs = b # bs" using Cons.prems by simp
    moreover from this have "last qs \<noteq> []" using Cons.prems by (cases qs) auto
    ultimately show ?thesis using Cons.IH Nil by simp
  next
    case (Cons c p)
    then show ?thesis using prems by (intro exI [of _ p] exI [of _ qs]) auto
  qed
qed simp

text \<open>Packets that hold a command, the last of them not empty, deliver it however it is cut.\<close>

lemma packets_deliver:
  "rx_bank u = Some p \<Longrightarrow> rx_queue u = ps @ rest \<Longrightarrow> p @ concat ps = bs \<Longrightarrow> ps \<noteq> [] \<longrightarrow> last ps \<noteq> [] \<Longrightarrow>
   delivers u bs (u\<lparr>rx_bank := Some [], rx_queue := rest\<rparr>)"
proof (induction bs arbitrary: u p ps)
  case Nil
  then show ?case by (cases ps rule: rev_cases) auto
next
  case (Cons b bs)
  show ?case
  proof (cases p)
    case Nil
    then obtain q qs where "next_packet (ps @ rest) u = Some (b, u\<lparr>rx_bank := Some q, rx_queue := qs @ rest\<rparr>)"
        "q @ concat qs = bs" "qs \<noteq> [] \<longrightarrow> last qs \<noteq> []"
      using next_packet_stream [of ps b bs rest u] Cons.prems by auto
    then show ?thesis
      using Cons.prems Nil Cons.IH [of "u\<lparr>rx_bank := Some q, rx_queue := qs @ rest\<rparr>" q qs]
      by (auto simp: FetchNextCommandByte_def)
  next
    case (Cons c r)
    then show ?thesis
      using Cons.prems Cons.IH [of "u\<lparr>rx_bank := Some r\<rparr>" r ps] by (auto simp: FetchNextCommandByte_def)
  qed
qed

text \<open>A host that is gone delivers zeros.\<close>

lemma zeros_delivered:
  "unattached u \<Longrightarrow> rx_queue u = [] \<Longrightarrow> rx_bank u = None \<or> rx_bank u = Some [] \<Longrightarrow> 0 < n \<Longrightarrow>
   delivers u (replicate n 0) (u\<lparr>rx_bank := None\<rparr>)"
proof (induction n arbitrary: u)
  case (Suc n)
  have "FetchNextCommandByte u = Some (0, u\<lparr>rx_bank := None\<rparr>)"
    using Suc.prems by (auto simp: FetchNextCommandByte_def)
  then show ?case using Suc.prems Suc.IH [of "u\<lparr>rx_bank := None\<rparr>"] by (cases n) auto
qed simp

text \<open>A host that reads gets every byte; \<open>replies\<close> is all it will have got.\<close>

definition can_send :: "usb_cdc \<Rightarrow> bool" where
  "can_send u \<longleftrightarrow> host_reads u \<and> \<not> tx_busy u \<and> length (tx_bank u) \<le> CDC_TXRX_EPSIZE"

definition replies :: "usb_cdc \<Rightarrow> u8 list" where
  "replies u = concat (tx_sent u) @ tx_bank u"

definition tx_put :: "u8 \<Rightarrow> usb_cdc \<Rightarrow> usb_cdc" where
  "tx_put b u = (if length (tx_bank u) < CDC_TXRX_EPSIZE then u\<lparr>tx_bank := tx_bank u @ [b]\<rparr>
     else u\<lparr>tx_sent := tx_sent u @ [tx_bank u], tx_bank := [b]\<rparr>)"

lemma write_response: "can_send u \<Longrightarrow> WriteNextResponseByte b u = Some (tx_put b u)"
  by (auto simp: can_send_def WriteNextResponseByte_def tx_put_def tx_allowed_def Endpoint_ClearIN_def Endpoint_IsINReady_def)

lemma tx_put_simps [simp]:
  "can_send u \<Longrightarrow> can_send (tx_put b u)" "replies (tx_put b u) = replies u @ [b]"
  "rx_bank (tx_put b u) = rx_bank u" "rx_queue (tx_put b u) = rx_queue u"
  "unattached (tx_put b u) = unattached u"
  by (auto simp: can_send_def tx_put_def replies_def CDC_TXRX_EPSIZE_def)

lemma fold_tx_put_simps [simp]:
  "can_send u \<Longrightarrow> can_send (fold tx_put bs u)" "replies (fold tx_put bs u) = replies u @ bs"
  "rx_bank (fold tx_put bs u) = rx_bank u" "rx_queue (fold tx_put bs u) = rx_queue u"
  "unattached (fold tx_put bs u) = unattached u"
  by (induction bs arbitrary: u) auto

lemma respond_all: "can_send (cdc s) \<Longrightarrow> respond bs s = Some (s\<lparr>cdc := fold tx_put bs (cdc s)\<rparr>)"
proof -
  have "can_send u \<Longrightarrow> WriteResponses bs u = Some (fold tx_put bs u)" for u
    by (induction bs arbitrary: u) (auto simp: write_response)
  then show "can_send (cdc s) \<Longrightarrow> respond bs s = Some (s\<lparr>cdc := fold tx_put bs (cdc s)\<rparr>)"
    by (simp add: respond_def)
qed

lemma finish_sends:
  "can_send u \<Longrightarrow> \<exists>v. finish_command u = Some v \<and> rx_bank v = None \<and> rx_queue v = rx_queue u \<and> tx_bank v = [] \<and>
     can_send v \<and> unattached v = unattached u \<and> replies v = replies u"
  by (auto simp: finish_command_def can_send_def tx_allowed_def Endpoint_ClearIN_def Endpoint_IsINReady_def
      Endpoint_ClearOUT_def replies_def Let_def)

lemma next_packet_tx:
  "next_packet ps u = Some (b, v) \<Longrightarrow> tx_bank v = tx_bank u \<and> tx_busy v = tx_busy u \<and> tx_sent v = tx_sent u \<and>
     host_reads v = host_reads u \<and> unattached v = unattached u"
  by (induction ps u rule: next_packet.induct) (auto split: if_splits)

lemma delivers_tx:
  "delivers u bs v \<Longrightarrow> tx_bank v = tx_bank u \<and> tx_busy v = tx_busy u \<and> tx_sent v = tx_sent u \<and>
     host_reads v = host_reads u \<and> unattached v = unattached u"
proof (induction bs arbitrary: u)
  case (Cons b bs)
  then obtain w where w: "FetchNextCommandByte u = Some (b, w)" "delivers w bs v" by auto
  have "tx_bank w = tx_bank u \<and> tx_busy w = tx_busy u \<and> tx_sent w = tx_sent u \<and> host_reads w = host_reads u \<and> unattached w = unattached u"
    using w(1) by (auto simp: FetchNextCommandByte_def dest: next_packet_tx split: option.splits list.splits)
  then show ?case using Cons.IH [OF w(2)] by simp
qed simp

lemma delivers_can_send: "delivers u bs v \<Longrightarrow> can_send v = can_send u"
  by (drule delivers_tx) (simp add: can_send_def)

lemma delivers_replies: "delivers u bs v \<Longrightarrow> replies v = replies u"
  by (drule delivers_tx) (simp add: replies_def)

end
