(* ===== verification/Boot_Flash.thy ===== *)
theory Boot_Flash
  imports Boot_Loader
begin

text \<open>
  Loading firmware through the bootloader: what the commands of \<open>BootloaderCDC.c\<close> do to the program
  memory, under the laws the data sheet gives for it, from one block up to a whole image that is
  loaded and read back.
\<close>

section \<open>Programming a block\<close>

text \<open>What the data sheet of the ATmega32U4 says of its program memory below the bootloader: \<open>flash\<close> is
  the content by byte address, \<open>buffer\<close> the words filled into the temporary page buffer. Erasing sets
  the bytes of a page, writing clears the bits that are clear in the buffer and empties it; a word of
  the buffer can be filled once. After \<open>boot_rww_enable\<close> the content can be read.\<close>

definition buffer_byte :: "(nat \<Rightarrow> u16 option) \<Rightarrow> nat \<Rightarrow> u8" where
  "buffer_byte buf k = (case buf (k div 2) of None \<Rightarrow> 0xFF | Some w \<Rightarrow> if even k then ucast w else ucast (drop_bit 8 w))"

definition flash_laws :: "'m self_prog \<Rightarrow> ('m \<Rightarrow> nat \<Rightarrow> u8) \<Rightarrow> ('m \<Rightarrow> nat \<Rightarrow> u16 option) \<Rightarrow> bool" where
  "flash_laws op flash buffer \<longleftrightarrow>
     (\<forall>a m. unat a < BOOT_START_ADDR \<longrightarrow>
        flash (boot_page_erase op a m) = (\<lambda>x. if x div SPM_PAGESIZE = unat a div SPM_PAGESIZE then 0xFF else flash m x) \<and>
        flash (boot_page_write op a m) = (\<lambda>x. if x div SPM_PAGESIZE = unat a div SPM_PAGESIZE
           then flash m x AND buffer_byte (buffer m) (x mod SPM_PAGESIZE) else flash m x)) \<and>
     (\<forall>a m. buffer (boot_page_erase op a m) = buffer m \<and> buffer (boot_page_write op a m) = Map.empty) \<and>
     (\<forall>a w m. buffer m (unat a mod SPM_PAGESIZE div 2) = None \<longrightarrow>
        flash (boot_page_fill op a w m) = flash m \<and>
        buffer (boot_page_fill op a w m) = (buffer m)(unat a mod SPM_PAGESIZE div 2 \<mapsto> w)) \<and>
     (\<forall>a m. flash (boot_rww_enable op m) = flash m \<and> pgm_read_byte op (boot_rww_enable op m) a = flash m (unat a))"

text \<open>The words filled by a block write: the bytes in pairs, low byte first.\<close>

fun fill_words :: "'m self_prog \<Rightarrow> nat \<Rightarrow> u8 list \<Rightarrow> 'm \<Rightarrow> 'm" where
  "fill_words op a (lo # hi # bs) m = fill_words op (a + 2) bs (boot_page_fill op (of_nat a) (push_bit 8 (ucast hi) OR ucast lo) m)"
| "fill_words op a bs m = m"

lemma of_nat_u16: "ucast (of_nat a :: 32 word) = (of_nat a :: u16)"
  by (simp add: unsigned_of_nat word_of_nat_eq_iff)

lemma unat_page: "pg < 512 \<Longrightarrow> i < SPM_PAGESIZE \<Longrightarrow> unat (of_nat (SPM_PAGESIZE * pg + i) :: u16) = SPM_PAGESIZE * pg + i"
  by (simp add: SPM_PAGESIZE_def unsigned_of_nat take_bit_eq_mod del: of_nat_add of_nat_mult)

lemma block_write_flash:
  "even (length bs) \<Longrightarrow> delivers (cdc s) bs u' \<Longrightarrow> CurrAddress s = of_nat a \<Longrightarrow>
   block_write op MEMORY_TYPE_FLASH (length bs) 0 l s =
     Some (s\<lparr>CurrAddress := of_nat (a + length bs), memories := fill_words op a bs (memories s), cdc := u'\<rparr>)"
proof (induction bs arbitrary: s a l rule: induct_list012)
  case 1
  then show ?case by simp
next
  case (2 x)
  then show ?case by simp
next
  case (3 lo hi bs)
  from 3(4) obtain v w where v: "FetchNextCommandByte (cdc s) = Some (lo, v)" "FetchNextCommandByte v = Some (hi, w)" "delivers w bs u'"
    by auto
  define t where "t = s\<lparr>cdc := w, memories := boot_page_fill op (of_nat a) (push_bit 8 (ucast hi) OR ucast lo) (memories s),
    CurrAddress := of_nat (a + 2)\<rparr>"
  have "block_write op MEMORY_TYPE_FLASH (length bs) 0 lo t =
      Some (t\<lparr>CurrAddress := of_nat (a + 2 + length bs), memories := fill_words op (a + 2) bs (memories t), cdc := u'\<rparr>)"
    using 3(1) [of t "a + 2" lo] 3(3) v(3) by (simp add: t_def)
  moreover have "block_write op MEMORY_TYPE_FLASH (length (lo # hi # bs)) 0 l s = block_write op MEMORY_TYPE_FLASH (length bs) 0 lo t"
    using v 3(5) by (simp add: fetch_def next_address_def t_def Let_def of_nat_u16 add.commute)
  ultimately show ?case by (simp add: t_def)
qed

lemma flash_erase:
  "flash_laws op flash buffer \<Longrightarrow> unat a < BOOT_START_ADDR \<Longrightarrow>
   flash (boot_page_erase op a m) = (\<lambda>x. if x div SPM_PAGESIZE = unat a div SPM_PAGESIZE then 0xFF else flash m x)"
  "flash_laws op flash buffer \<Longrightarrow> buffer (boot_page_erase op a m) = buffer m"
  by (simp_all add: flash_laws_def)

lemma flash_write:
  "flash_laws op flash buffer \<Longrightarrow> unat a < BOOT_START_ADDR \<Longrightarrow>
   flash (boot_page_write op a m) = (\<lambda>x. if x div SPM_PAGESIZE = unat a div SPM_PAGESIZE
     then flash m x AND buffer_byte (buffer m) (x mod SPM_PAGESIZE) else flash m x)"
  "flash_laws op flash buffer \<Longrightarrow> buffer (boot_page_write op a m) = Map.empty"
  by (simp_all add: flash_laws_def)

lemma flash_fill:
  assumes "flash_laws op flash buffer" and "unat a mod SPM_PAGESIZE div 2 = i" and "buffer m i = None"
  shows "flash (boot_page_fill op a w m) = flash m" "buffer (boot_page_fill op a w m) = (buffer m)(i \<mapsto> w)"
  using assms by (simp_all add: flash_laws_def)

lemma flash_read:
  "flash_laws op flash buffer \<Longrightarrow> pgm_read_byte op (boot_rww_enable op m) a = flash m (unat a)"
  "flash_laws op flash buffer \<Longrightarrow> flash (boot_rww_enable op m) = flash m"
  by (simp_all add: flash_laws_def)

lemma fill_words_buffer:
  assumes laws: "flash_laws op flash buffer" and pg: "pg < 512"
  shows "even (length bs) \<Longrightarrow> even i \<Longrightarrow> i + length bs \<le> SPM_PAGESIZE \<Longrightarrow> (\<forall>k \<ge> i div 2. buffer m k = None) \<Longrightarrow>
    flash (fill_words op (SPM_PAGESIZE * pg + i) bs m) = flash m \<and>
    (\<forall>k. buffer_byte (buffer (fill_words op (SPM_PAGESIZE * pg + i) bs m)) k =
       (if i \<le> k \<and> k < i + length bs then bs ! (k - i) else buffer_byte (buffer m) k))"
proof (induction bs arbitrary: i m rule: induct_list012)
  case (3 lo hi bs)
  define w :: u16 where "w = push_bit 8 (ucast hi) OR ucast lo"
  define m' where "m' = boot_page_fill op (of_nat (SPM_PAGESIZE * pg + i)) w m"
  have offset: "unat (of_nat (SPM_PAGESIZE * pg + i) :: u16) mod SPM_PAGESIZE div 2 = i div 2"
    using 3(5) pg by (subst unat_page) simp_all
  have "buffer m (i div 2) = None" using 3(6) by blast
  then have m': "flash m' = flash m" "buffer m' = (buffer m)(i div 2 \<mapsto> w)"
    unfolding m'_def by (rule flash_fill [OF laws offset])+
  have later: "\<forall>k \<ge> (i + 2) div 2. buffer m' k = None" using 3(6) m'(2) by auto
  have lo: "ucast w = lo" and hi: "ucast (drop_bit 8 w) = hi"
    by (rule bit_word_eqI, auto simp: w_def bit_simps dest: bit_imp_le_length)+
  have byte: "buffer_byte (buffer m') k = (if k = i then lo else if k = Suc i then hi else buffer_byte (buffer m) k)" for k
  proof -
    have "k div 2 = i div 2 \<longleftrightarrow> k = i \<or> k = Suc i" using 3(4) by (auto elim!: evenE)
    then show ?thesis using 3(4) lo hi by (auto simp: buffer_byte_def m'(2))
  qed
  have step: "fill_words op (SPM_PAGESIZE * pg + i) (lo # hi # bs) m = fill_words op (SPM_PAGESIZE * pg + (i + 2)) bs m'"
    by (simp add: m'_def w_def add.assoc)
  have IH: "flash (fill_words op (SPM_PAGESIZE * pg + (i + 2)) bs m') = flash m' \<and>
    (\<forall>k. buffer_byte (buffer (fill_words op (SPM_PAGESIZE * pg + (i + 2)) bs m')) k =
       (if i + 2 \<le> k \<and> k < i + 2 + length bs then bs ! (k - (i + 2)) else buffer_byte (buffer m') k))"
    using 3(3,4,5) later by (intro 3(1)) auto
  have index: "k - i = Suc (Suc n) \<Longrightarrow> k - Suc (Suc i) = n" for k n by arith
  show ?case unfolding step using IH m'(1) byte
    by (auto simp: nth_Cons dest: index split: nat.splits)
qed auto

section \<open>Programming and reading back\<close>

lemma bit_small: "(a::nat) < 2 ^ n \<Longrightarrow> n \<le> k \<Longrightarrow> \<not> bit a k"
  by (metis bit_iff_odd div_less even_zero less_le_trans one_le_numeral power_increasing)

lemma bit_of_nat_word: "bit (of_nat a :: 'a::len word) k \<longleftrightarrow> k < LENGTH('a) \<and> bit a k"
  by transfer (auto simp: bit_take_bit_iff bit_of_nat_iff_bit)

lemma bit_int16_shift: "bit (int16_shift j b) n \<longleftrightarrow> n < 32 \<and> j \<le> min 15 n \<and> bit b (min 15 n - j)"
  by (auto simp: int16_shift_def bit_simps min_def dest: bit_imp_le_length)

lemma shifted_address:
  assumes "a < 0x4000"
  shows "int16_shift 9 (of_nat (a div 256)) OR int16_shift 1 (of_nat a) = of_nat (2 * a)"
proof (rule bit_word_eqI)
  fix n assume n: "n < LENGTH(32)"
  have top: "\<not> bit a k" if "14 \<le> k" for k using assms that by (intro bit_small [of a 14]) simp_all
  have half: "bit (a div 256) k = bit a (k + 8)" for k
    using bit_drop_bit_eq [of 8 a] by (simp add: drop_bit_eq_div add.commute)
  have high: "bit (int16_shift 9 (of_nat (a div 256))) n \<longleftrightarrow> 9 \<le> n \<and> bit a (n - 1)"
    using n top by (auto simp: bit_int16_shift bit_of_nat_word half min_def)
  have low: "bit (int16_shift 1 (of_nat a)) n \<longleftrightarrow> 1 \<le> n \<and> n < 9 \<and> bit a (n - 1)"
    using n by (auto simp: bit_int16_shift bit_of_nat_word min_def)
  show "bit (int16_shift 9 (of_nat (a div 256)) OR int16_shift 1 (of_nat a)) n = bit (of_nat (2 * a) :: 32 word) n"
    unfolding bit_or_iff high low bit_of_nat_word bit_double_iff using n by auto
qed

text \<open>\<open>reply_of op s c args reply m a\<close>: with \<open>args\<close> behind it the command \<open>c\<close> is answered with \<open>reply\<close>
  and leaves the memories \<open>m\<close> and the address \<open>a\<close>.\<close>

definition reply_of :: "'m self_prog \<Rightarrow> 'm boot \<Rightarrow> u8 \<Rightarrow> u8 list \<Rightarrow> u8 list \<Rightarrow> 'm \<Rightarrow> nat \<Rightarrow> bool" where
  "reply_of op s c args reply m a \<longleftrightarrow>
     (\<forall>u u'. delivers u args u' \<and> can_send u \<longrightarrow>
        execute_command op c (s\<lparr>boot_timeout := 0, cdc := u\<rparr>) =
        Some (s\<lparr>boot_timeout := 0, CurrAddress := of_nat a, memories := m, cdc := fold tx_put reply u'\<rparr>))"

lemmas avr109_codes = AVR109_COMMAND_ExitBootloader_def AVR109_COMMAND_SetLED_def AVR109_COMMAND_ClearLED_def
  AVR109_COMMAND_SelectDeviceType_def AVR109_COMMAND_EnterProgrammingMode_def AVR109_COMMAND_LeaveProgrammingMode_def
  AVR109_COMMAND_ReadPartCode_def AVR109_COMMAND_ReadAutoAddressIncrement_def AVR109_COMMAND_SetCurrentAddress_def
  AVR109_COMMAND_ReadBootloaderInterface_def AVR109_COMMAND_ReadBootloaderIdentifier_def AVR109_COMMAND_ReadBootloaderSWVersion_def
  AVR109_COMMAND_ReadSignature_def AVR109_COMMAND_EraseFLASH_def AVR109_COMMAND_WriteLockbits_def AVR109_COMMAND_ReadLockbits_def
  AVR109_COMMAND_ReadLowFuses_def AVR109_COMMAND_ReadHighFuses_def AVR109_COMMAND_ReadExtendedFuses_def
  AVR109_COMMAND_GetBlockWriteSupport_def AVR109_COMMAND_BlockWrite_def AVR109_COMMAND_BlockRead_def

definition set_address_command :: "nat \<Rightarrow> u8 list" where
  "set_address_command a = [AVR109_COMMAND_SetCurrentAddress, of_nat (a div 256), of_nat a]"

definition block_write_command :: "u8 list \<Rightarrow> u8 list" where
  "block_write_command bs = [AVR109_COMMAND_BlockWrite, of_nat (length bs div 256), of_nat (length bs), MEMORY_TYPE_FLASH] @ bs"

definition block_read_command :: "nat \<Rightarrow> u8 list" where
  "block_read_command n = [AVR109_COMMAND_BlockRead, of_nat (n div 256), of_nat n, MEMORY_TYPE_FLASH]"

lemma set_address_reply:
  assumes "a < 0x4000"
  shows "reply_of op s AVR109_COMMAND_SetCurrentAddress [of_nat (a div 256), of_nat a] [response_CR] (memories s) (2 * a)"
  unfolding reply_of_def
proof (intro allI impI, elim conjE)
  fix u u' assume d: "delivers u [of_nat (a div 256), of_nat a] u'" and send: "can_send u"
  then have "can_send u'" using delivers_can_send by blast
  then show "execute_command op AVR109_COMMAND_SetCurrentAddress (s\<lparr>boot_timeout := 0, cdc := u\<rparr>) =
      Some (s\<lparr>boot_timeout := 0, CurrAddress := of_nat (2 * a), memories := memories s, cdc := fold tx_put [response_CR] u'\<rparr>)"
    using d shifted_address [OF assms]
    by (auto simp: execute_command_def avr109_codes fetch_def respond_all Let_def)
qed

lemma block_size: "n < 65536 \<Longrightarrow> unat (push_bit 8 (ucast (of_nat (n div 256) :: u8)) OR ucast (of_nat n :: u8) :: u16) = n"
proof -
  assume n: "n < 65536"
  have "(push_bit 8 (ucast (of_nat (n div 256) :: u8)) OR ucast (of_nat n :: u8) :: u16) = of_nat n"
  proof (rule bit_word_eqI)
    fix k assume "k < LENGTH(16)"
    then show "bit (push_bit 8 (ucast (of_nat (n div 256) :: u8)) OR ucast (of_nat n :: u8) :: u16) k = bit (of_nat n :: u16) k"
      using bit_drop_bit_eq [of 8 n] by (auto simp: bit_simps bit_of_nat_word drop_bit_eq_div)
  qed
  then show ?thesis using n by (simp add: unsigned_of_nat take_bit_eq_mod)
qed

lemma block_write_done:
  assumes "even (length bs)" and "length bs < 65536" and "CurrAddress s = of_nat a"
    and d: "delivers u (drop 1 (block_write_command bs)) u'"
  shows "ReadWriteMemoryBlock op AVR109_COMMAND_BlockWrite (s\<lparr>cdc := u\<rparr>) =
    respond [response_CR] (s\<lparr>CurrAddress := of_nat (a + length bs), cdc := u',
      memories := boot_page_write op (of_nat a) (fill_words op a bs (boot_page_erase op (of_nat a) (memories s)))\<rparr>)"
proof -
  obtain u1 u2 u3 where u: "FetchNextCommandByte u = Some (of_nat (length bs div 256), u1)" "FetchNextCommandByte u1 = Some (of_nat (length bs), u2)"
      "FetchNextCommandByte u2 = Some (MEMORY_TYPE_FLASH, u3)" "delivers u3 bs u'"
    using d by (auto simp: block_write_command_def)
  define t where "t = s\<lparr>cdc := u3, memories := boot_page_erase op (of_nat a) (memories s)\<rparr>"
  have "block_write op MEMORY_TYPE_FLASH (length bs) 0 0 t =
      Some (t\<lparr>CurrAddress := of_nat (a + length bs), memories := fill_words op a bs (memories t), cdc := u'\<rparr>)"
    using assms(1,3) u(4) by (intro block_write_flash) (simp_all add: t_def)
  then show ?thesis
    using u assms(2,3)
    by (simp add: ReadWriteMemoryBlock_def avr109_codes fetch_def block_size of_nat_u16 t_def Let_def del: of_nat_add)
qed

lemma block_write_executes:
  "execute_command op AVR109_COMMAND_BlockWrite s = ReadWriteMemoryBlock op AVR109_COMMAND_BlockWrite s"
  by (simp add: execute_command_def avr109_codes)

lemma block_write_reply:
  assumes "even (length bs)" and "length bs < 65536" and "CurrAddress s = of_nat a"
  shows "reply_of op s AVR109_COMMAND_BlockWrite (drop 1 (block_write_command bs)) [response_CR]
    (boot_page_write op (of_nat a) (fill_words op a bs (boot_page_erase op (of_nat a) (memories s)))) (a + length bs)"
  unfolding reply_of_def block_write_executes
proof (intro allI impI, elim conjE)
  fix u u' assume d: "delivers u (drop 1 (block_write_command bs)) u'" and send: "can_send u"
  then have can: "can_send u'" using delivers_can_send by blast
  show "ReadWriteMemoryBlock op AVR109_COMMAND_BlockWrite (s\<lparr>boot_timeout := 0, cdc := u\<rparr>) =
      Some (s\<lparr>boot_timeout := 0, CurrAddress := of_nat (a + length bs),
        memories := boot_page_write op (of_nat a) (fill_words op a bs (boot_page_erase op (of_nat a) (memories s))),
        cdc := fold tx_put [response_CR] u'\<rparr>)"
    using block_write_done [OF assms(1,2) _ d, of "s\<lparr>boot_timeout := 0\<rparr>" a op] assms(3) can by (simp add: respond_all)
qed

lemma block_read_flash:
  assumes laws: "flash_laws op flash buffer"
  shows "memories s = boot_rww_enable op m \<Longrightarrow> can_send (cdc s) \<Longrightarrow> CurrAddress s = of_nat a \<Longrightarrow> even a \<Longrightarrow> h < 2 \<Longrightarrow>
    a + h + n < 2 ^ 16 \<Longrightarrow>
    block_read op MEMORY_TYPE_FLASH n (of_nat h) s =
      Some (s\<lparr>CurrAddress := of_nat (2 * ((a + h + n) div 2)), cdc := fold tx_put (map (\<lambda>k. flash m (a + h + k)) [0..<n]) (cdc s)\<rparr>)"
proof (induction n arbitrary: s a h)
  case 0
  then show ?case by (auto simp: less_2_cases_iff)
next
  case (Suc n)
  have "(of_nat a :: 32 word) OR ucast (of_nat h :: u8) = of_nat (a + h)"
    using Suc.prems(4,5) by (auto simp: less_2_cases_iff even_or_iff bit_0 or_one_eq)
  then have read: "pgm_read_byte op (memories s) (ucast (CurrAddress s OR ucast (of_nat h :: u8))) = flash m (a + h)"
    using Suc.prems(1,3,6) by (simp add: flash_read(1) [OF laws] of_nat_u16 unsigned_of_nat take_bit_eq_mod del: of_nat_add)
  define t where "t = s\<lparr>CurrAddress := of_nat (if h = 0 then a else a + 2), cdc := tx_put (flash m (a + h)) (cdc s)\<rparr>"
  have t: "t = (if h = 0 then s\<lparr>cdc := tx_put (flash m (a + h)) (cdc s)\<rparr>
      else next_address (s\<lparr>cdc := tx_put (flash m (a + h)) (cdc s)\<rparr>))"
    using Suc.prems(3) by (cases s) (simp add: t_def next_address_def add.commute)
  have step: "block_read op MEMORY_TYPE_FLASH (Suc n) (of_nat h) s = block_read op MEMORY_TYPE_FLASH n (of_nat (1 - h)) t"
    using Suc.prems(2,5) read by (auto simp: respond_all t less_2_cases_iff Let_def)
  have "block_read op MEMORY_TYPE_FLASH n (of_nat (1 - h)) t =
      Some (t\<lparr>CurrAddress := of_nat (2 * (((if h = 0 then a else a + 2) + (1 - h) + n) div 2)),
        cdc := fold tx_put (map (\<lambda>k. flash m ((if h = 0 then a else a + 2) + (1 - h) + k)) [0..<n]) (cdc t)\<rparr>)"
    using Suc.prems by (intro Suc.IH) (auto simp: t_def less_2_cases_iff)
  moreover have "(if h = 0 then a else a + 2) + (1 - h) = Suc (a + h)" using Suc.prems(5) by auto
  ultimately show ?case unfolding step
    by (simp add: t_def upt_conv_Cons map_Suc_upt [symmetric] comp_def del: upt_Suc)
qed

lemma block_read_reply:
  assumes laws: "flash_laws op flash buffer" and "CurrAddress s = of_nat a" and "even a" and "a + n < 65536"
  shows "reply_of op s AVR109_COMMAND_BlockRead (drop 1 (block_read_command n)) (map (\<lambda>k. flash (memories s) (a + k)) [0..<n])
    (boot_rww_enable op (memories s)) (2 * ((a + n) div 2))"
  unfolding reply_of_def
proof (intro allI impI, elim conjE)
  fix u u' assume d: "delivers u (drop 1 (block_read_command n)) u'" and send: "can_send u"
  then have can: "can_send u'" using delivers_can_send by blast
  define t where "t = s\<lparr>boot_timeout := 0, cdc := u', memories := boot_rww_enable op (memories s)\<rparr>"
  have "block_read op MEMORY_TYPE_FLASH n (of_nat 0) t =
      Some (t\<lparr>CurrAddress := of_nat (2 * ((a + 0 + n) div 2)), cdc := fold tx_put (map (\<lambda>k. flash (memories s) (a + 0 + k)) [0..<n]) (cdc t)\<rparr>)"
    using assms can by (intro block_read_flash [OF laws]) (simp_all add: t_def)
  then show "execute_command op AVR109_COMMAND_BlockRead (s\<lparr>boot_timeout := 0, cdc := u\<rparr>) =
      Some (s\<lparr>boot_timeout := 0, CurrAddress := of_nat (2 * ((a + n) div 2)), memories := boot_rww_enable op (memories s),
        cdc := fold tx_put (map (\<lambda>k. flash (memories s) (a + k)) [0..<n]) u'\<rparr>)"
    using d assms(4)
    by (auto simp: block_read_command_def execute_command_def avr109_codes ReadWriteMemoryBlock_def fetch_def block_size t_def Let_def
        simp del: of_nat_mult)
qed

text \<open>A session: the bootloader waits for a command and the host is there.\<close>

definition ready :: "'m boot \<Rightarrow> bool" where
  "ready s \<longleftrightarrow> RunBootloader s \<and> \<not> watchdog s \<and> rx_bank (cdc s) = None \<and> rx_queue (cdc s) = [] \<and>
     can_send (cdc s) \<and> tx_bank (cdc s) = [] \<and> \<not> unattached (cdc s)"

text \<open>A command, cut into packets in any way with the last one not empty, and the round that executes it.\<close>

definition holds_command :: "u8 list \<Rightarrow> u8 list list \<Rightarrow> bool" where
  "holds_command c ps \<longleftrightarrow> concat ps = c \<and> ps \<noteq> [] \<and> last ps \<noteq> []"

definition command_events :: "u8 list list \<Rightarrow> boot_event list" where
  "command_events ps = map Packet ps @ [Round]"

lemma packets_queue:
  "\<not> unattached (cdc s) \<Longrightarrow>
   boot_run op (map Packet ps @ es) s = boot_run op es (s\<lparr>cdc := (cdc s)\<lparr>rx_queue := rx_queue (cdc s) @ ps\<rparr>\<rparr>)"
  by (induction ps arbitrary: s) (auto simp: boot_step_def)

lemma session_step:
  assumes "ready s" and "holds_command (c # args) ps" and "reply_of op s c args reply m a"
  shows "\<exists>u. boot_run op (command_events ps @ es) s =
      boot_run op es (s\<lparr>boot_timeout := 0, CurrAddress := of_nat a, memories := m, cdc := u\<rparr>) \<and>
    ready (s\<lparr>boot_timeout := 0, CurrAddress := of_nat a, memories := m, cdc := u\<rparr>) \<and> replies u = replies (cdc s) @ reply"
proof -
  obtain p qs where ps: "ps = p # qs" "p @ concat qs = c # args" "qs \<noteq> [] \<longrightarrow> last qs \<noteq> []"
    using assms(2) by (cases ps) (auto simp: holds_command_def split: if_splits)
  define u0 where "u0 = (cdc s)\<lparr>rx_bank := Some p, rx_queue := qs\<rparr>"
  have "delivers u0 (c # args) (u0\<lparr>rx_bank := Some [], rx_queue := []\<rparr>)"
    using ps by (intro packets_deliver [of _ p qs]) (simp_all add: u0_def)
  then obtain v where v: "FetchNextCommandByte u0 = Some (c, v)" "delivers v args (u0\<lparr>rx_bank := Some [], rx_queue := []\<rparr>)"
    by auto
  define w where "w = u0\<lparr>rx_bank := Some [], rx_queue := []\<rparr>"
  have can: "can_send w" "can_send v" "unattached w = unattached (cdc s)" "replies w = replies (cdc s)" "tx_bank w = []"
    using assms(1) delivers_can_send [OF v(2)] by (auto simp: ready_def can_send_def u0_def w_def replies_def)
  then have "can_send (fold tx_put reply w)" by simp
  from finish_sends [OF this] obtain x where x: "finish_command (fold tx_put reply w) = Some x" "rx_bank x = None"
      "rx_queue x = []" "tx_bank x = []" "can_send x" "unattached x = unattached (cdc s)" "replies x = replies (cdc s) @ reply"
    using can by (auto simp: w_def)
  have round: "CDC_Task op (s\<lparr>cdc := (cdc s)\<lparr>rx_queue := ps\<rparr>\<rparr>) =
      Some (s\<lparr>boot_timeout := 0, CurrAddress := of_nat a, memories := m, cdc := x\<rparr>)"
  proof -
    have "packet_arrives ((cdc s)\<lparr>rx_queue := ps\<rparr>) = u0"
      using assms(1) ps by (simp add: packet_arrives_def ready_def u0_def)
    moreover have "Endpoint_IsOUTReceived u0" by (simp add: Endpoint_IsOUTReceived_def u0_def)
    moreover have "execute_command op c (s\<lparr>boot_timeout := 0, cdc := v\<rparr>) =
        Some (s\<lparr>boot_timeout := 0, CurrAddress := of_nat a, memories := m, cdc := fold tx_put reply w\<rparr>)"
      using assms(3) v(2) can(2) unfolding reply_of_def w_def by blast
    ultimately show ?thesis using v(1) x(1) by (simp add: CDC_Task_def fetch_def Let_def)
  qed
  have "boot_run op (command_events ps @ es) s = boot_run op es (s\<lparr>boot_timeout := 0, CurrAddress := of_nat a, memories := m, cdc := x\<rparr>)"
    using assms(1) round by (simp add: command_events_def packets_queue ready_def boot_step_def)
  moreover have "ready (s\<lparr>boot_timeout := 0, CurrAddress := of_nat a, memories := m, cdc := x\<rparr>)"
    using assms(1) x by (simp add: ready_def)
  ultimately show ?thesis using x(7) by blast
qed

text \<open>Loading an image page by page and reading it back; page \<open>pg\<close> begins at word \<open>64 * pg\<close>.\<close>

fun program_commands :: "nat \<Rightarrow> u8 list list \<Rightarrow> u8 list list" where
  "program_commands pg [] = []"
| "program_commands pg (b # bs) = set_address_command (64 * pg) # block_write_command b # program_commands (pg + 1) bs"

fun verify_commands :: "nat \<Rightarrow> u8 list list \<Rightarrow> u8 list list" where
  "verify_commands pg [] = []"
| "verify_commands pg (b # bs) = set_address_command (64 * pg) # block_read_command (length b) # verify_commands (pg + 1) bs"

definition page_list :: "u8 list list \<Rightarrow> bool" where
  "page_list pages \<longleftrightarrow> list_all (\<lambda>b. even (length b) \<and> length b \<le> SPM_PAGESIZE) pages"

definition page_byte :: "u8 list \<Rightarrow> nat \<Rightarrow> u8" where
  "page_byte b k = (if k < length b then b ! k else 0xFF)"

lemma page_programmed:
  assumes laws: "flash_laws op flash buffer" and "buffer m = Map.empty" and "pg < 224" and "even (length b)" and "length b \<le> SPM_PAGESIZE"
  shows "flash (boot_page_write op (of_nat (128 * pg)) (fill_words op (128 * pg) b (boot_page_erase op (of_nat (128 * pg)) m))) =
    (\<lambda>x. if x div SPM_PAGESIZE = pg then page_byte b (x mod SPM_PAGESIZE) else flash m x)"
proof -
  define m1 where "m1 = boot_page_erase op (of_nat (128 * pg)) m"
  define m2 where "m2 = fill_words op (SPM_PAGESIZE * pg + 0) b m1"
  have a: "unat (of_nat (128 * pg) :: u16) = 128 * pg"
    using assms(3) unat_page [of pg 0] by (simp add: SPM_PAGESIZE_def)
  then have range: "unat (of_nat (128 * pg) :: u16) < BOOT_START_ADDR" and page: "unat (of_nat (128 * pg) :: u16) div SPM_PAGESIZE = pg"
    using assms(3) by (simp_all add: BOOT_START_ADDR_def SPM_PAGESIZE_def)
  have m1: "flash m1 = (\<lambda>x. if x div SPM_PAGESIZE = pg then 0xFF else flash m x)" "buffer m1 = Map.empty"
    using flash_erase [OF laws, of "of_nat (128 * pg)" m] range page assms(2) by (simp_all add: m1_def)
  have m2: "flash m2 = flash m1" "\<And>k. buffer_byte (buffer m2) k = (if 0 \<le> k \<and> k < 0 + length b then b ! (k - 0) else buffer_byte (buffer m1) k)"
    using fill_words_buffer [OF laws, of pg b 0 m1] assms(3-5) m1(2) unfolding m2_def by auto
  have minus: "(0xFF :: u8) = - 1" by simp
  have ones: "0xFF AND w = w" for w :: u8
    unfolding minus by (rule and.left_neutral)
  have full: "buffer_byte (buffer m2) k = page_byte b k" for k
    unfolding m2(2) by (simp add: page_byte_def m1(2) buffer_byte_def)
  have "flash (boot_page_write op (of_nat (128 * pg)) m2) =
      (\<lambda>x. if x div SPM_PAGESIZE = pg then page_byte b (x mod SPM_PAGESIZE) else flash m x)"
    using flash_write(1) [OF laws range, of m2] m2(1) m1(1) full page by (auto simp: fun_eq_iff ones)
  then show ?thesis by (simp add: m2_def m1_def SPM_PAGESIZE_def)
qed

lemma set_address_step:
  assumes "ready s" and "holds_command (set_address_command (64 * pg)) ps" and "pg < 224"
  shows "\<exists>t. boot_run op (command_events ps @ es) s = boot_run op es t \<and> ready t \<and> CurrAddress t = of_nat (128 * pg) \<and>
    memories t = memories s \<and> replies (cdc t) = replies (cdc s) @ [response_CR]"
proof -
  have "reply_of op s AVR109_COMMAND_SetCurrentAddress [of_nat (64 * pg div 256), of_nat (64 * pg)] [response_CR] (memories s) (2 * (64 * pg))"
    using assms(3) by (intro set_address_reply) simp
  from session_step [OF assms(1) assms(2) [unfolded set_address_command_def] this, of es]
  obtain u where u: "boot_run op (command_events ps @ es) s =
        boot_run op es (s\<lparr>boot_timeout := 0, CurrAddress := of_nat (2 * (64 * pg)), memories := memories s, cdc := u\<rparr>)"
      "ready (s\<lparr>boot_timeout := 0, CurrAddress := of_nat (2 * (64 * pg)), memories := memories s, cdc := u\<rparr>)"
      "replies u = replies (cdc s) @ [response_CR]"
    by blast
  show ?thesis
    by (rule exI [of _ "s\<lparr>boot_timeout := 0, CurrAddress := of_nat (2 * (64 * pg)), memories := memories s, cdc := u\<rparr>"])
      (use u in simp)
qed

lemma image_programmed:
  assumes laws: "flash_laws op flash buffer"
  shows "ready s \<Longrightarrow> buffer (memories s) = Map.empty \<Longrightarrow> page_list pages \<Longrightarrow> pg + length pages \<le> 224 \<Longrightarrow>
    list_all2 holds_command (program_commands pg pages) pss \<Longrightarrow>
    \<exists>s'. boot_run op (concat (map command_events pss) @ es) s = boot_run op es s' \<and> ready s' \<and>
      replies (cdc s') = replies (cdc s) @ replicate (2 * length pages) response_CR \<and>
      flash (memories s') = (\<lambda>x. if pg \<le> x div SPM_PAGESIZE \<and> x div SPM_PAGESIZE < pg + length pages
        then page_byte (pages ! (x div SPM_PAGESIZE - pg)) (x mod SPM_PAGESIZE) else flash (memories s) x)"
proof (induction pages arbitrary: pg s pss)
  case Nil
  then show ?case by (intro exI [of _ s]) (auto simp: fun_eq_iff)
next
  case (Cons b bs)
  obtain ps qs rest where pss: "pss = ps # qs # rest" "holds_command (set_address_command (64 * pg)) ps"
      "holds_command (block_write_command b) qs" "list_all2 holds_command (program_commands (pg + 1) bs) rest"
    using Cons.prems(5) by (auto simp: list_all2_Cons1)
  have b: "even (length b)" "length b \<le> SPM_PAGESIZE" and pg: "pg < 224" using Cons.prems(3,4) by (auto simp: page_list_def)
  from set_address_step [OF Cons.prems(1) pss(2) pg, of op "command_events qs @ concat (map command_events rest) @ es"]
  obtain t where u: "boot_run op (command_events ps @ command_events qs @ concat (map command_events rest) @ es) s =
        boot_run op (command_events qs @ concat (map command_events rest) @ es) t" "ready t"
      and s1: "CurrAddress t = of_nat (128 * pg)" "memories t = memories s" "replies (cdc t) = replies (cdc s) @ [response_CR]"
    by blast
  have qs: "holds_command (AVR109_COMMAND_BlockWrite # drop 1 (block_write_command b)) qs"
    using pss(3) by (simp add: block_write_command_def)
  have "reply_of op t AVR109_COMMAND_BlockWrite (drop 1 (block_write_command b)) [response_CR]
      (boot_page_write op (of_nat (128 * pg)) (fill_words op (128 * pg) b (boot_page_erase op (of_nat (128 * pg)) (memories t)))) (128 * pg + length b)"
    using b s1(1) by (intro block_write_reply) (simp_all add: SPM_PAGESIZE_def)
  from session_step [OF u(2) qs this, of "concat (map command_events rest) @ es"]
  obtain s2 where s2: "boot_run op (command_events qs @ concat (map command_events rest) @ es) t =
        boot_run op (concat (map command_events rest) @ es) s2"
      "ready s2" "replies (cdc s2) = replies (cdc t) @ [response_CR]"
      "memories s2 = boot_page_write op (of_nat (128 * pg)) (fill_words op (128 * pg) b (boot_page_erase op (of_nat (128 * pg)) (memories s)))"
    using s1(2) by auto
  have flash: "flash (memories s2) = (\<lambda>x. if x div SPM_PAGESIZE = pg then page_byte b (x mod SPM_PAGESIZE) else flash (memories s) x)"
    unfolding s2(4) by (rule page_programmed [OF laws Cons.prems(2) pg b])
  have "buffer (memories s2) = Map.empty" unfolding s2(4) by (rule flash_write(2) [OF laws])
  from Cons.IH [OF s2(2) this _ _ pss(4)] Cons.prems(3,4)
  obtain s' where s': "boot_run op (concat (map command_events rest) @ es) s2 = boot_run op es s'" "ready s'"
      "replies (cdc s') = replies (cdc s2) @ replicate (2 * length bs) response_CR"
      "flash (memories s') = (\<lambda>x. if pg + 1 \<le> x div SPM_PAGESIZE \<and> x div SPM_PAGESIZE < pg + 1 + length bs
        then page_byte (bs ! (x div SPM_PAGESIZE - (pg + 1))) (x mod SPM_PAGESIZE) else flash (memories s2) x)"
    by (auto simp: page_list_def)
  have index: "k - pg = Suc n \<Longrightarrow> k - Suc pg = n" for k n by arith
  have "flash (memories s') = (\<lambda>x. if pg \<le> x div SPM_PAGESIZE \<and> x div SPM_PAGESIZE < pg + length (b # bs)
      then page_byte ((b # bs) ! (x div SPM_PAGESIZE - pg)) (x mod SPM_PAGESIZE) else flash (memories s) x)"
    unfolding s'(4) flash by (auto simp: fun_eq_iff nth_Cons dest: index split: nat.splits)
  then show ?case using u(1) s1(3) s2(1,3) s'(1,2,3) by (auto simp: pss(1))
qed

lemma page_read:
  assumes "k < SPM_PAGESIZE"
  shows "(128 * pg + k) div SPM_PAGESIZE = pg" "(128 * pg + k) mod SPM_PAGESIZE = k"
  using assms by (simp_all add: SPM_PAGESIZE_def)

lemma image_read_back:
  assumes laws: "flash_laws op flash buffer"
  shows "ready s \<Longrightarrow> page_list pages \<Longrightarrow> pg + length pages \<le> 224 \<Longrightarrow>
    list_all2 holds_command (verify_commands pg pages) pss \<Longrightarrow>
    (\<forall>i < length pages. \<forall>k < length (pages ! i). flash (memories s) (128 * (pg + i) + k) = pages ! i ! k) \<Longrightarrow>
    \<exists>s'. boot_run op (concat (map command_events pss)) s = Some s' \<and> ready s' \<and>
      replies (cdc s') = replies (cdc s) @ concat (map (\<lambda>b. response_CR # b) pages) \<and> flash (memories s') = flash (memories s)"
proof (induction pages arbitrary: pg s pss)
  case Nil
  then show ?case by simp
next
  case (Cons b bs)
  obtain ps qs rest where pss: "pss = ps # qs # rest" "holds_command (set_address_command (64 * pg)) ps"
      "holds_command (block_read_command (length b)) qs" "list_all2 holds_command (verify_commands (pg + 1) bs) rest"
    using Cons.prems(4) by (auto simp: list_all2_Cons1)
  have b: "length b \<le> SPM_PAGESIZE" and pg: "pg < 224" using Cons.prems(2,3) by (auto simp: page_list_def)
  from set_address_step [OF Cons.prems(1) pss(2) pg, of op "command_events qs @ concat (map command_events rest)"]
  obtain t where u: "boot_run op (command_events ps @ command_events qs @ concat (map command_events rest)) s =
        boot_run op (command_events qs @ concat (map command_events rest)) t" "ready t"
      and s1: "CurrAddress t = of_nat (128 * pg)" "memories t = memories s" "replies (cdc t) = replies (cdc s) @ [response_CR]"
    by blast
  have qs: "holds_command (AVR109_COMMAND_BlockRead # drop 1 (block_read_command (length b))) qs"
    using pss(3) by (simp add: block_read_command_def)
  have bytes: "map (\<lambda>k. flash (memories t) (128 * pg + k)) [0..<length b] = b"
    using Cons.prems(5) s1(2) by (intro nth_equalityI) force+
  have "reply_of op t AVR109_COMMAND_BlockRead (drop 1 (block_read_command (length b))) b
      (boot_rww_enable op (memories t)) (2 * ((128 * pg + length b) div 2))"
    using block_read_reply [OF laws s1(1), of "length b"] pg b unfolding bytes by (simp add: SPM_PAGESIZE_def)
  from session_step [OF u(2) qs this, of "concat (map command_events rest)"]
  obtain s2 where s2: "boot_run op (command_events qs @ concat (map command_events rest)) t =
        boot_run op (concat (map command_events rest)) s2"
      "ready s2" "replies (cdc s2) = replies (cdc t) @ b" "memories s2 = boot_rww_enable op (memories s)"
    using s1(2) by auto
  have flash: "flash (memories s2) = flash (memories s)" unfolding s2(4) by (rule flash_read(2) [OF laws])
  have later: "flash (memories s2) (128 * (pg + 1 + i) + k) = bs ! i ! k" if "i < length bs" "k < length (bs ! i)" for i k
    using Cons.prems(5) [rule_format, of "Suc i" k] that unfolding flash by (simp add: algebra_simps)
  obtain s' where s': "boot_run op (concat (map command_events rest)) s2 = Some s'" "ready s'"
      "replies (cdc s') = replies (cdc s2) @ concat (map (\<lambda>b. response_CR # b) bs)" "flash (memories s') = flash (memories s2)"
    using Cons.IH [OF s2(2) _ _ pss(4)] Cons.prems(2,3) later by (auto simp: page_list_def)
  show ?case using u(1) s1(3) s2(1,3) s' flash by (auto simp: pss(1))
qed

text \<open>C18: Firmware is loaded and read back. A host that loads an image page by page with the commands for
  address and block write, each cut into packets in any way, finds exactly the image in the flash
  (the rest of a short page is erased, all other pages keep their content); every command is
  confirmed, and reading the pages back afterwards returns the image.\<close>

theorem flash_image_roundtrip:
  assumes "flash_laws op flash buffer" and "ready s" and "buffer (memories s) = Map.empty" and "page_list pages" and "length pages \<le> 224"
    and "list_all2 holds_command (program_commands 0 pages @ verify_commands 0 pages) pss"
  shows "\<exists>s'. boot_run op (concat (map command_events pss)) s = Some s' \<and> ready s' \<and>
    replies (cdc s') = replies (cdc s) @ replicate (2 * length pages) response_CR @ concat (map (\<lambda>b. response_CR # b) pages) \<and>
    flash (memories s') = (\<lambda>x. if x div SPM_PAGESIZE < length pages then page_byte (pages ! (x div SPM_PAGESIZE)) (x mod SPM_PAGESIZE)
      else flash (memories s) x)"
proof -
  obtain ps qs where pss: "pss = ps @ qs" "list_all2 holds_command (program_commands 0 pages) ps" "list_all2 holds_command (verify_commands 0 pages) qs"
    using assms(6) by (auto simp: list_all2_append1)
  obtain t where t: "boot_run op (concat (map command_events ps) @ concat (map command_events qs)) s = boot_run op (concat (map command_events qs)) t"
      "ready t" "replies (cdc t) = replies (cdc s) @ replicate (2 * length pages) response_CR"
      "flash (memories t) = (\<lambda>x. if x div SPM_PAGESIZE < length pages then page_byte (pages ! (x div SPM_PAGESIZE)) (x mod SPM_PAGESIZE)
        else flash (memories s) x)"
    using image_programmed [OF assms(1-4) _ pss(2), of "concat (map command_events qs)"] assms(5) by (auto cong: if_cong)
  have content: "flash (memories t) (128 * (0 + i) + k) = pages ! i ! k" if "i < length pages" "k < length (pages ! i)" for i k
  proof -
    have "k < SPM_PAGESIZE" using that assms(4) by (auto simp: page_list_def list_all_length dest!: spec [of _ i])
    then show ?thesis using that by (simp add: t(4) page_read page_byte_def)
  qed
  obtain s' where "boot_run op (concat (map command_events qs)) t = Some s'" "ready s'"
      "replies (cdc s') = replies (cdc t) @ concat (map (\<lambda>b. response_CR # b) pages)" "flash (memories s') = flash (memories t)"
    using image_read_back [OF assms(1) t(2) assms(4) _ pss(3)] assms(5) content by auto
  then show ?thesis using t pss(1) by auto
qed

section \<open>An example of the memories\<close>

text \<open>Flash and page buffer as a pair; whether the flash can be read is not kept.\<close>

type_synonym test_memory = "(nat \<Rightarrow> u8) \<times> (nat \<Rightarrow> u16 option)"

definition test_prog :: "test_memory self_prog" where
  "test_prog = \<lparr>
     boot_page_erase = (\<lambda>a (f, b). (\<lambda>x. if x div SPM_PAGESIZE = unat a div SPM_PAGESIZE then 0xFF else f x, b)),
     boot_page_fill = (\<lambda>a w (f, b). (f, b(unat a mod SPM_PAGESIZE div 2 \<mapsto> w))),
     boot_page_write = (\<lambda>a (f, b). (\<lambda>x. if x div SPM_PAGESIZE = unat a div SPM_PAGESIZE
        then f x AND buffer_byte b (x mod SPM_PAGESIZE) else f x, Map.empty)),
     boot_rww_enable = id,
     pgm_read_byte = (\<lambda>m a. fst m (unat a)),
     pgm_read_word = (\<lambda>m a. un_le16 (fst m (unat a)) (fst m (unat a + 1))),
     eeprom_read_byte = (\<lambda>m a. 0xFF),
     eeprom_write_byte = (\<lambda>a b m. m),
     boot_lock_bits_set = (\<lambda>b m. m),
     boot_lock_fuse_bits_get = (\<lambda>m a. 0),
     boot_signature_byte_get = (\<lambda>m a. 0)\<rparr>"

lemma test_prog_laws: "flash_laws test_prog fst snd"
  by (simp add: flash_laws_def test_prog_def split_beta)

definition test_usb :: usb_cdc where
  "test_usb = \<lparr>rx_bank = None, rx_queue = [], tx_bank = [], tx_busy = False, tx_sent = [], host_reads = True, unattached = False\<rparr>"

definition test_boot :: "test_memory boot" where
  "test_boot = bootloader_start (boot_reset 0 1 test_usb (\<lambda>x. 0xFF, Map.empty))"

lemma test_boot_ready: "ready test_boot"
  by (simp add: ready_def test_boot_def bootloader_start_def SetupHardware_def boot_reset_def test_usb_def io.defs can_send_def Let_def)

theorem flash_image_roundtrip_witness:
  "\<exists>s'. boot_run test_prog (concat (map command_events
      [[[0x41], [0, 0]], [[0x42, 0, 2, 0x46, 0x12], [0x34]], [[0x41, 0, 0]], [[0x67, 0, 2, 0x46]]])) test_boot = Some s' \<and>
    ready s' \<and> replies (cdc s') = [0x0D, 0x0D, 0x0D, 0x12, 0x34] \<and> fst (memories s') 1 = 0x34 \<and> fst (memories s') 2 = 0xFF"
proof -
  have init: "replies (cdc test_boot) = []" "fst (memories test_boot) = (\<lambda>x. 0xFF)" "snd (memories test_boot) = Map.empty"
    by (simp_all add: test_boot_def bootloader_start_def SetupHardware_def boot_reset_def test_usb_def io.defs replies_def Let_def)
  moreover have "page_list [[0x12, 0x34]]" by (simp add: page_list_def SPM_PAGESIZE_def)
  moreover have "list_all2 holds_command (program_commands 0 [[0x12, 0x34]] @ verify_commands 0 [[0x12, 0x34]])
      [[[0x41], [0, 0]], [[0x42, 0, 2, 0x46, 0x12], [0x34]], [[0x41, 0, 0]], [[0x67, 0, 2, 0x46]]]"
    by (simp add: holds_command_def set_address_command_def block_write_command_def block_read_command_def avr109_codes MEMORY_TYPE_FLASH_def)
  ultimately obtain s' where s': "boot_run test_prog (concat (map command_events
      [[[0x41], [0, 0]], [[0x42, 0, 2, 0x46, 0x12], [0x34]], [[0x41, 0, 0]], [[0x67, 0, 2, 0x46]]])) test_boot = Some s'" "ready s'"
    and r: "replies (cdc s') = [] @ replicate (2 * length [[0x12, 0x34 :: u8]]) response_CR @ concat (map (\<lambda>b. response_CR # b) [[0x12, 0x34]])"
    and f: "fst (memories s') = (\<lambda>x. if x div SPM_PAGESIZE < length [[0x12, 0x34 :: u8]]
      then page_byte ([[0x12, 0x34]] ! (x div SPM_PAGESIZE)) (x mod SPM_PAGESIZE) else fst (memories test_boot) x)"
    using flash_image_roundtrip [of test_prog fst snd test_boot "[[0x12, 0x34]]"
        "[[[0x41], [0, 0]], [[0x42, 0, 2, 0x46, 0x12], [0x34]], [[0x41, 0, 0]], [[0x67, 0, 2, 0x46]]]",
        OF test_prog_laws test_boot_ready] by (auto cong: if_cong)
  moreover have "replies (cdc s') = [0x0D, 0x0D, 0x0D, 0x12, 0x34]" by (simp add: r response_CR_def numeral_eq_Suc)
  moreover have "fst (memories s') 1 = 0x34" "fst (memories s') 2 = 0xFF" by (simp_all add: f init page_byte_def SPM_PAGESIZE_def)
  ultimately show ?thesis by blast
qed

end
