(* ===== verification/Boot_Run.thy ===== *)
theory Boot_Run
  imports Boot_Flash
begin

text \<open>
  The bootloader from reset to the start of the application: the kill switch while it runs, its end
  when the host is silent, and a command that is cut off.
\<close>

section \<open>What no command touches\<close>

definition same_frame :: "'m boot \<Rightarrow> 'm boot \<Rightarrow> bool" where
  "same_frame s t \<longleftrightarrow> PORTD t = PORTD s \<and> DDRD t = DDRD s \<and> watchdog t = watchdog s \<and>
     boot_timeout t = boot_timeout s \<and> MagicBootKey t = MagicBootKey s \<and> MCUSR t = MCUSR s"

lemma frame_trans: "same_frame s t \<Longrightarrow> same_frame t u \<Longrightarrow> same_frame s u"
  by (simp add: same_frame_def)

lemma frame_updates [simp]:
  "same_frame s s" "same_frame (s\<lparr>CurrAddress := a\<rparr>) t = same_frame s t" "same_frame (s\<lparr>memories := m\<rparr>) t = same_frame s t"
  "same_frame (s\<lparr>RunBootloader := r\<rparr>) t = same_frame s t" "same_frame (next_address s) t = same_frame s t"
  "same_frame s (next_address t) = same_frame s t"
  by (simp_all add: same_frame_def next_address_def)

lemma fetch_frame: "fetch s = Some (b, t) \<Longrightarrow> same_frame s t \<and> RunBootloader t = RunBootloader s"
  by (auto simp: fetch_def same_frame_def)

lemma respond_frame: "respond bs s = Some t \<Longrightarrow> same_frame s t \<and> RunBootloader t = RunBootloader s"
  by (auto simp: respond_def same_frame_def)

lemma next_address_runs [simp]: "RunBootloader (next_address s) = RunBootloader s"
  by (simp add: next_address_def)

lemma block_read_frame:
  "block_read op mt n h s = Some t \<Longrightarrow> same_frame s t \<and> RunBootloader t = RunBootloader s"
  by (induction n arbitrary: h s)
    (fastforce simp: bind_eq_Some_conv Let_def dest!: respond_frame intro: frame_trans split: if_splits)+

lemma block_write_frame:
  "block_write op mt n h l s = Some t \<Longrightarrow> same_frame s t \<and> RunBootloader t = RunBootloader s"
  by (induction n arbitrary: h l s)
    (fastforce simp: bind_eq_Some_conv Let_def dest!: fetch_frame intro: frame_trans split: if_splits)+

lemma block_frame:
  "ReadWriteMemoryBlock op c s = Some t \<Longrightarrow> same_frame s t \<and> RunBootloader t = RunBootloader s"
  by (auto simp: ReadWriteMemoryBlock_def bind_eq_Some_conv Let_def split: if_splits
      dest!: fetch_frame respond_frame block_read_frame block_write_frame) (blast intro: frame_trans)+

lemma command_frame:
  "execute_command op c s = Some t \<Longrightarrow> same_frame s t \<and> (RunBootloader t \<longleftrightarrow> RunBootloader s \<and> c \<noteq> AVR109_COMMAND_ExitBootloader)"
  unfolding execute_command_def Let_def
  by (auto simp: bind_eq_Some_conv dest!: fetch_frame respond_frame block_frame intro: frame_trans split: if_split_asm)
    (blast intro: frame_trans)+

lemma task_frame:
  assumes "CDC_Task op s = Some t"
  shows "PORTD t = PORTD s \<and> DDRD t = DDRD s \<and> watchdog t = watchdog s \<and> MagicBootKey t = MagicBootKey s \<and> MCUSR t = MCUSR s"
  using assms by (auto simp: CDC_Task_def Let_def bind_eq_Some_conv same_frame_def split: if_splits dest!: fetch_frame command_frame)

section \<open>The kill switch\<close>

text \<open>Pin 4 of port D drives the line low.\<close>

definition line_held :: "'m boot \<Rightarrow> bool" where
  "line_held s \<longleftrightarrow> bit (DDRD s) 4 \<and> \<not> bit (PORTD s) 4"

lemma toggle_keeps_line: "line_held (toggleGreenLED s) = line_held s"
  by (simp add: line_held_def toggleGreenLED_def bit_xor_iff bit_push_bit_iff)

lemma step_holds_line:
  assumes "boot_step op e s = Some t" and "line_held s"
  shows "line_held t"
proof (cases e)
  case Round
  then show ?thesis using assms by (auto simp: boot_step_def line_held_def bootloader_exit_def split: if_splits dest!: task_frame)
next
  case Overflow
  then have "t = TIMER1_OVF_vect s" using assms(1) by (simp add: boot_step_def)
  moreover have "line_held (TIMER1_OVF_vect s) = line_held (toggleGreenLED s)"
    by (simp add: TIMER1_OVF_vect_def line_held_def Let_def)
  ultimately show ?thesis using assms(2) by (simp add: toggle_keeps_line)
next
  case (Control a b l)
  then have t: "t = snd (EVENT_USB_Device_ControlRequest a b l s)" using assms(1) by (simp add: boot_step_def)
  have "line_held t = line_held s \<or> line_held t = line_held (toggleGreenLED s)"
    unfolding t EVENT_USB_Device_ControlRequest_def Let_def by (auto simp: line_held_def)
  then show ?thesis using assms(2) by (auto simp: toggle_keeps_line)
qed (use assms in \<open>auto simp: boot_step_def line_held_def split: if_splits\<close>)

lemma run_holds_line: "boot_run op es s = Some t \<Longrightarrow> line_held s \<Longrightarrow> line_held t"
  by (induction es arbitrary: s) (auto simp: bind_eq_Some_conv dest: step_holds_line)

text \<open>C22: The robot stands still while its firmware is replaced. From the start of the bootloader on, whatever
  the host sends, whenever it disappears and however often the timer toggles the diode on the same
  port, the line of the kill switch is active, as the firmware of the bridge reads it.\<close>

theorem bootloader_holds_kill_switch:
  assumes "boot_run op es (bootloader_start (boot_reset key mcusr u m)) = Some s"
  shows "ks_isActive hw s"
proof -
  have "line_held (bootloader_start (boot_reset key mcusr u m))"
    by (simp add: line_held_def bootloader_start_def SetupHardware_def boot_reset_def io.defs io_reset_def cbi_def bit_simps Let_def)
  then have "line_held s" using assms by (blast intro: run_holds_line)
  then show ?thesis by (simp add: ks_isActive_def ks_line_low_def line_held_def)
qed

theorem bootloader_holds_kill_switch_witness:
  "ks_isActive False (TIMER1_OVF_vect (bootloader_start (boot_reset 0 1 test_usb (\<lambda>x. 0xFF, Map.empty) :: test_memory boot)))"
  by (rule bootloader_holds_kill_switch [of test_prog "[Overflow]" 0 1 test_usb "(\<lambda>x. 0xFF, Map.empty)"]) (simp add: boot_step_def)

section \<open>The end of the bootloader\<close>

definition quiet :: "boot_event \<Rightarrow> bool" where
  "quiet e \<longleftrightarrow> e = Round \<or> e = Overflow \<or> (\<exists>t r l. e = Control t r l)"

definition no_packet :: "'m boot \<Rightarrow> bool" where
  "no_packet s \<longleftrightarrow> rx_bank (cdc s) = None \<and> rx_queue (cdc s) = []"

definition silent_for :: "nat \<Rightarrow> 'm boot \<Rightarrow> bool" where
  "silent_for k s \<longleftrightarrow> no_packet s \<and> (if k \<le> 10 then RunBootloader s \<and> \<not> watchdog s \<and> boot_timeout s = of_nat k
     else \<not> RunBootloader s \<and> (watchdog s \<longrightarrow> MagicBootKey s = MAGIC_BOOT_KEY))"

lemma silent_step:
  assumes "quiet e" and "silent_for k s"
  shows "\<exists>t. boot_step op e s = Some t \<and> silent_for (if e = Overflow then k + 1 else k) t"
proof -
  from assms(1) consider "e = Round" | "e = Overflow" | t r l where "e = Control t r l"
    by (auto simp: quiet_def)
  then show ?thesis
  proof cases
    case 1
    have "no_packet s \<Longrightarrow> CDC_Task op s = Some s"
      by (cases s) (simp add: CDC_Task_def no_packet_def packet_arrives_def Endpoint_IsOUTReceived_def)
    then show ?thesis using assms(2) 1
      by (auto simp: boot_step_def silent_for_def bootloader_exit_def no_packet_def split: if_splits)
  next
    case 2
    have "\<not> (10 :: u16) \<le> of_nat k" if "k < 10" using that by (simp add: word_le_nat_alt unsigned_of_nat take_bit_eq_mod)
    then show ?thesis using assms(2) 2
      by (cases "k = 10") (auto simp: boot_step_def silent_for_def TIMER1_OVF_vect_def TIMEOUT_VALUE_def toggleGreenLED_def no_packet_def
          Let_def split: if_splits)
  next
    case 3
    define w where "w = snd (EVENT_USB_Device_ControlRequest t r l s)"
    have "no_packet w = no_packet s \<and> RunBootloader w = RunBootloader s \<and> watchdog w = watchdog s \<and>
        boot_timeout w = boot_timeout s \<and> MagicBootKey w = MagicBootKey s"
      by (simp add: w_def EVENT_USB_Device_ControlRequest_def toggleGreenLED_def no_packet_def Let_def)
    then show ?thesis using assms(2) 3 by (simp add: boot_step_def silent_for_def flip: w_def)
  qed
qed

lemma silent_run:
  "\<forall>e \<in> set es. quiet e \<Longrightarrow> silent_for k s \<Longrightarrow>
   \<exists>t. boot_run op es s = Some t \<and> silent_for (k + length (filter (\<lambda>e. e = Overflow) es)) t"
proof (induction es arbitrary: k s)
  case (Cons e es)
  then obtain u where "boot_step op e s = Some u" "silent_for (if e = Overflow then k + 1 else k) u"
    using silent_step [of e k s op] by auto
  then show ?case using Cons by (fastforce split: if_splits)
qed simp

lemma boot_run_append: "boot_run op (es @ fs) s = Option.bind (boot_run op es s) (boot_run op fs)"
proof (induction es arbitrary: s)
  case (Cons e es)
  then show ?case by (cases "boot_step op e s") simp_all
qed simp

text \<open>C23: A silent host. After a command, with no packet to come, the bootloader stays for ten overflows of its
  timer; with the eleventh its next round leaves the loop, and the reset by the watchdog that follows
  starts the application and clears the key, so that the reset after it enters the bootloader again.\<close>

theorem silence_starts_application:
  assumes "RunBootloader s" and "\<not> watchdog s" and "boot_timeout s = 0" and "no_packet s" and "\<forall>e \<in> set es. quiet e"
    and "n = length (filter (\<lambda>e. e = Overflow) es)"
  shows "(n \<le> 10 \<longrightarrow> (\<exists>t. boot_run op (es @ [Round]) s = Some t \<and> RunBootloader t \<and> \<not> watchdog t)) \<and>
    (11 \<le> n \<longrightarrow> (\<exists>t. boot_run op (es @ [Round]) s = Some t \<and> watchdog t \<and>
       (\<exists>u. Application_Jump_Check (watchdog_reset t) = (True, u) \<and> \<not> watchdog u \<and>
          \<not> fst (Application_Jump_Check (watchdog_reset u)))))"
proof -
  have "silent_for 0 s" using assms(1-4) by (simp add: silent_for_def)
  then obtain t where t: "boot_run op es s = Some t" "silent_for n t"
    using silent_run [OF assms(5), of 0 s op] assms(6) by auto
  obtain u where u: "boot_step op Round t = Some u" "silent_for n u"
    using silent_step [of Round n t op] t(2) by (auto simp: quiet_def)
  have run: "boot_run op (es @ [Round]) s = Some u" using t u by (simp add: boot_run_append)
  show ?thesis
  proof (intro conjI impI)
    assume "n \<le> 10"
    then show "\<exists>t. boot_run op (es @ [Round]) s = Some t \<and> RunBootloader t \<and> \<not> watchdog t"
      using run u(2) by (simp add: silent_for_def)
  next
    assume "11 \<le> n"
    then have "watchdog u" "MagicBootKey u = MAGIC_BOOT_KEY"
      using u t(2) by (auto simp: silent_for_def boot_step_def bootloader_exit_def split: if_splits)
    moreover from this have "\<exists>v. Application_Jump_Check (watchdog_reset u) = (True, v) \<and> \<not> watchdog v \<and>
        \<not> fst (Application_Jump_Check (watchdog_reset v))"
      by (simp add: Application_Jump_Check_def watchdog_reset_def boot_reset_def io.defs port_simps MAGIC_BOOT_KEY_def Let_def)
    ultimately show "\<exists>t. boot_run op (es @ [Round]) s = Some t \<and> watchdog t \<and>
       (\<exists>u. Application_Jump_Check (watchdog_reset t) = (True, u) \<and> \<not> watchdog u \<and> \<not> fst (Application_Jump_Check (watchdog_reset u)))"
      using run by blast
  qed
qed

theorem silence_starts_application_witness:
  "\<exists>t. boot_run test_prog (replicate 11 Overflow @ [Round]) test_boot = Some t \<and> watchdog t \<and>
     (\<exists>u. Application_Jump_Check (watchdog_reset t) = (True, u) \<and> \<not> watchdog u \<and> \<not> fst (Application_Jump_Check (watchdog_reset u)))"
proof -
  have "RunBootloader test_boot" "\<not> watchdog test_boot" "boot_timeout test_boot = 0" "no_packet test_boot"
    by (simp_all add: no_packet_def test_boot_def bootloader_start_def SetupHardware_def boot_reset_def test_usb_def io.defs Let_def)
  then show ?thesis
    using silence_starts_application [of test_boot "replicate 11 Overflow" 11 test_prog] by (simp add: quiet_def)
qed

section \<open>A command that is cut off\<close>

lemma block_write_starves:
  "delivers (cdc s) bs v \<Longrightarrow> FetchNextCommandByte v = None \<Longrightarrow> length bs < n \<Longrightarrow> block_write op MEMORY_TYPE_FLASH n h l s = None"
proof (induction bs arbitrary: s h l n)
  case Nil
  then show ?case by (cases n) (auto simp: fetch_def)
next
  case (Cons b bs)
  obtain k where n: "n = Suc k" "length bs < k" using Cons.prems(3) by (cases n) auto
  obtain w where w: "FetchNextCommandByte (cdc s) = Some (b, w)" "delivers w bs v" using Cons.prems(1) by auto
  have starved: "block_write op MEMORY_TYPE_FLASH k h' l' t = None" if "cdc t = w" for h' l' t
    using Cons.IH [of t k h' l'] w(2) Cons.prems(2) n(2) that by simp
  show ?case using w(1) by (auto simp: n(1) fetch_def next_address_def Let_def starved)
qed

lemma stream_ends:
  assumes "rx_queue u = []" and "rx_bank u = None \<or> rx_bank u = Some []" and "\<not> unattached u"
  shows "FetchNextCommandByte u = None"
  using assms by (auto simp: FetchNextCommandByte_def)

lemma block_starves:
  assumes "delivers (cdc s) (take k (drop 1 (block_write_command bs))) v" and "FetchNextCommandByte v = None"
    and "k < 3 + length bs" and "length bs < 65536"
  shows "ReadWriteMemoryBlock op AVR109_COMMAND_BlockWrite s = None"
proof -
  consider "k = 0" | "k = 1" | "k = 2" | j where "k = 3 + j" "j < length bs"
    using assms(3) by (metis One_nat_def add.commute add_less_cancel_left less_2_cases_iff linorder_neqE_nat less_Suc_eq numeral_2_eq_2 numeral_3_eq_3 le_add_diff_inverse not_less)
  then show ?thesis
  proof cases
    case 4
    obtain u1 u2 u3 where u: "FetchNextCommandByte (cdc s) = Some (of_nat (length bs div 256), u1)" "FetchNextCommandByte u1 = Some (of_nat (length bs), u2)"
        "FetchNextCommandByte u2 = Some (MEMORY_TYPE_FLASH, u3)" "delivers u3 (take j bs) v"
      using assms(1) 4(1) by (auto simp: block_write_command_def numeral_3_eq_3)
    have starved: "block_write op MEMORY_TYPE_FLASH (length bs) 0 0 t = None" if "cdc t = u3" for t
      using block_write_starves [of t "take j bs" v] u(4) assms(2) 4(2) that by simp
    show ?thesis using u assms(4)
      by (simp add: ReadWriteMemoryBlock_def fetch_def block_size starved avr109_codes Let_def)
  qed (use assms(1,2) in \<open>auto simp: block_write_command_def ReadWriteMemoryBlock_def fetch_def numeral_2_eq_2 numeral_3_eq_3\<close>)
qed

text \<open>A cut cable. The beginning of a block write that never ends, with the host still there, keeps the
  bootloader waiting in the middle of the command for ever: the time-out, checked in its main loop
  only, does not end it.\<close>

theorem unfinished_command_waits:
  assumes "ready s" and "holds_command (take (k + 1) (block_write_command bs)) ps" and "k < 3 + length bs" and "length bs < 65536"
  shows "boot_run op (command_events ps @ es) s = None"
proof -
  have prefix: "take (k + 1) (block_write_command bs) = AVR109_COMMAND_BlockWrite # take k (drop 1 (block_write_command bs))"
    by (simp add: block_write_command_def)
  obtain p qs where ps: "ps = p # qs" "p @ concat qs = AVR109_COMMAND_BlockWrite # take k (drop 1 (block_write_command bs))" "qs \<noteq> [] \<longrightarrow> last qs \<noteq> []"
    using assms(2) unfolding prefix by (cases ps) (auto simp: holds_command_def split: if_splits)
  define u0 where "u0 = (cdc s)\<lparr>rx_bank := Some p, rx_queue := qs\<rparr>"
  define v where "v = u0\<lparr>rx_bank := Some [], rx_queue := []\<rparr>"
  have "delivers u0 (AVR109_COMMAND_BlockWrite # take k (drop 1 (block_write_command bs))) v"
    unfolding v_def using ps by (intro packets_deliver [of _ p qs]) (simp_all add: u0_def)
  then obtain w where w: "FetchNextCommandByte u0 = Some (AVR109_COMMAND_BlockWrite, w)" "delivers w (take k (drop 1 (block_write_command bs))) v"
    by auto
  have end_of_stream: "FetchNextCommandByte v = None"
    using assms(1) by (intro stream_ends) (simp_all add: v_def u0_def ready_def)
  have starved: "execute_command op AVR109_COMMAND_BlockWrite t = None" if "cdc t = w" for t
    using block_starves [of t k bs v op] w(2) end_of_stream assms(3,4) that by (simp add: execute_command_def avr109_codes)
  have "packet_arrives ((cdc s)\<lparr>rx_queue := ps\<rparr>) = u0"
    using assms(1) ps by (simp add: packet_arrives_def ready_def u0_def)
  moreover have "Endpoint_IsOUTReceived u0" by (simp add: Endpoint_IsOUTReceived_def u0_def)
  ultimately have "CDC_Task op (s\<lparr>cdc := (cdc s)\<lparr>rx_queue := ps\<rparr>\<rparr>) = None"
    using w(1) starved by (simp add: CDC_Task_def fetch_def Let_def)
  then show ?thesis
    using assms(1) by (simp add: command_events_def packets_queue ready_def boot_step_def)
qed

theorem unfinished_command_waits_witness:
  "boot_run test_prog (command_events [[0x42, 0, 2], [0x46, 0x12]] @ replicate 20 Overflow) test_boot = None"
proof -
  have "holds_command (take (4 + 1) (block_write_command [0x12, 0x34])) [[0x42, 0, 2], [0x46, 0x12]]"
    by (simp add: holds_command_def block_write_command_def avr109_codes MEMORY_TYPE_FLASH_def)
  then show ?thesis by (rule unfinished_command_waits [OF test_boot_ready]) simp_all
qed

text \<open>A pulled plug. When the host disappears in the middle of a block write, the missing bytes are
  read as zeros and the page is programmed all the same: it holds the bytes that came, then zeros.\<close>

theorem unplugged_write_pads_zeros:
  assumes "flash_laws op flash buffer" and "ready s" and "buffer (memories s) = Map.empty" and "CurrAddress s = of_nat (128 * pg)" and "pg < 224"
    and "even n" and "n \<le> SPM_PAGESIZE" and "length data < n"
    and "holds_command (take 4 (block_write_command (replicate n 0)) @ data) ps"
  shows "\<exists>t. boot_run op (map Packet ps @ [Unplugged, Round]) s = Some t \<and>
    flash (memories t) = (\<lambda>x. if x div SPM_PAGESIZE = pg then page_byte (data @ replicate (n - length data) 0) (x mod SPM_PAGESIZE)
      else flash (memories s) x)"
proof -
  define bs where "bs = data @ replicate (n - length data) 0"
  have bs: "length bs = n" using assms(8) by (simp add: bs_def)
  have cmd: "take 4 (block_write_command (replicate n 0)) @ data @ replicate (n - length data) 0 =
      AVR109_COMMAND_BlockWrite # drop 1 (block_write_command bs)"
    using bs by (simp add: block_write_command_def bs_def)
  obtain p qs where ps: "ps = p # qs" "p @ concat qs = take 4 (block_write_command (replicate n 0)) @ data" "qs \<noteq> [] \<longrightarrow> last qs \<noteq> []"
    using assms(9) by (cases ps) (auto simp: holds_command_def split: if_splits)
  define u0 where "u0 = (cdc s)\<lparr>rx_bank := Some p, rx_queue := qs, unattached := True, host_reads := False\<rparr>"
  define v where "v = u0\<lparr>rx_bank := Some [], rx_queue := []\<rparr>"
  have "delivers u0 (take 4 (block_write_command (replicate n 0)) @ data) v"
    unfolding v_def using ps by (intro packets_deliver [of _ p qs]) (simp_all add: u0_def)
  moreover have "delivers v (replicate (n - length data) 0) (v\<lparr>rx_bank := None\<rparr>)"
    using assms(8) by (intro zeros_delivered) (simp_all add: v_def u0_def)
  ultimately have "delivers u0 (AVR109_COMMAND_BlockWrite # drop 1 (block_write_command bs)) (v\<lparr>rx_bank := None\<rparr>)"
    unfolding cmd [symmetric] by (metis append_assoc delivers_append)
  then obtain w where w: "FetchNextCommandByte u0 = Some (AVR109_COMMAND_BlockWrite, w)" "delivers w (drop 1 (block_write_command bs)) (v\<lparr>rx_bank := None\<rparr>)"
    by auto
  define m where "m = boot_page_write op (of_nat (128 * pg)) (fill_words op (128 * pg) bs (boot_page_erase op (of_nat (128 * pg)) (memories s)))"
  define t where "t = s\<lparr>boot_timeout := 0, CurrAddress := of_nat (128 * pg + n), cdc := v\<lparr>rx_bank := None\<rparr>, memories := m\<rparr>"
  have free: "tx_bank v = []" "\<not> tx_busy v" "\<not> host_reads v" "unattached v"
    using assms(2) by (simp_all add: v_def u0_def ready_def can_send_def)
  have block: "execute_command op AVR109_COMMAND_BlockWrite (s\<lparr>boot_timeout := 0, cdc := w\<rparr>) = respond [response_CR] t"
    using block_write_done [OF _ _ _ w(2), of "s\<lparr>boot_timeout := 0\<rparr>" "128 * pg" op] bs assms(4,6,7)
    by (simp add: block_write_executes t_def m_def SPM_PAGESIZE_def)
  obtain t' where t': "respond [response_CR] t = Some t'" "memories t' = m" "tx_bank (cdc t') = [response_CR]" "\<not> tx_busy (cdc t')"
      "\<not> host_reads (cdc t')" "unattached (cdc t')"
    using free by (auto simp: respond_def WriteNextResponseByte_def tx_allowed_def t_def CDC_TXRX_EPSIZE_def)
  obtain x where x: "finish_command (cdc t') = Some x"
    using t' by (auto simp: finish_command_def tx_allowed_def Endpoint_ClearIN_def Endpoint_IsINReady_def CDC_TXRX_EPSIZE_def Let_def)
  have "packet_arrives ((cdc s)\<lparr>rx_queue := ps, unattached := True, host_reads := False\<rparr>) = u0"
    using assms(2) ps by (simp add: packet_arrives_def ready_def u0_def)
  moreover have "Endpoint_IsOUTReceived u0" by (simp add: Endpoint_IsOUTReceived_def u0_def)
  ultimately have "CDC_Task op (s\<lparr>cdc := (cdc s)\<lparr>rx_queue := ps, unattached := True, host_reads := False\<rparr>\<rparr>) = Some (t'\<lparr>cdc := x\<rparr>)"
    using w(1) block t'(1) x by (simp add: CDC_Task_def fetch_def Let_def)
  then have "boot_run op (map Packet ps @ [Unplugged, Round]) s = Some (t'\<lparr>cdc := x\<rparr>)"
    using assms(2) by (simp add: packets_queue ready_def boot_step_def)
  moreover have "flash m = (\<lambda>x. if x div SPM_PAGESIZE = pg then page_byte bs (x mod SPM_PAGESIZE) else flash (memories s) x)"
    unfolding m_def using assms(3,5,6,7) bs by (intro page_programmed [OF assms(1)]) simp_all
  ultimately show ?thesis using t'(2) unfolding bs_def by auto
qed

theorem unplugged_write_pads_zeros_witness:
  "\<exists>t. boot_run test_prog (map Packet [[0x42, 0, 4, 0x46, 0x12]] @ [Unplugged, Round]) test_boot = Some t \<and>
     fst (memories t) 0 = 0x12 \<and> fst (memories t) 1 = 0 \<and> fst (memories t) 4 = 0xFF"
proof -
  have "snd (memories test_boot) = Map.empty" "CurrAddress test_boot = of_nat (128 * 0)"
    by (simp_all add: test_boot_def bootloader_start_def SetupHardware_def boot_reset_def test_usb_def io.defs Let_def)
  moreover have "holds_command (take 4 (block_write_command (replicate 4 0)) @ [0x12]) [[0x42, 0, 4, 0x46, 0x12]]"
    by (simp add: holds_command_def block_write_command_def avr109_codes MEMORY_TYPE_FLASH_def)
  ultimately obtain t where "boot_run test_prog (map Packet [[0x42, 0, 4, 0x46, 0x12]] @ [Unplugged, Round]) test_boot = Some t"
    and f: "fst (memories t) = (\<lambda>x. if x div SPM_PAGESIZE = 0 then page_byte ([0x12] @ replicate (4 - length [0x12 :: u8]) 0) (x mod SPM_PAGESIZE)
      else fst (memories test_boot) x)"
    using unplugged_write_pads_zeros [OF test_prog_laws test_boot_ready, of 0 4 "[0x12]" "[[0x42, 0, 4, 0x46, 0x12]]"]
    by (auto simp: SPM_PAGESIZE_def cong: if_cong)
  moreover have "fst (memories t) 0 = 0x12" "fst (memories t) 1 = 0" "fst (memories t) 4 = 0xFF"
    by (simp_all add: f page_byte_def SPM_PAGESIZE_def)
  ultimately show ?thesis by blast
qed

end
