(* ===== verification/Usb_Setup.thy ===== *)
theory Usb_Setup
  imports Usb_Communicator
begin

text \<open>
  How the server finds the bridge: the constructor and destructor of \<open>USBCommunicator.cpp\<close> over the
  answers of libusb, and the descriptors of the device (\<open>firmware/bridge/usb_descriptors.c\<close>) byte by
  byte. Constants of LUFA and of the USB standard are written as their values.
\<close>

section \<open>Settings both sides share\<close>

definition USB_SETTINGS_VENDOR_ID :: u16 where "USB_SETTINGS_VENDOR_ID = 0x03eb"
definition USB_SETTINGS_DEVICE_ID :: u16 where "USB_SETTINGS_DEVICE_ID = 0x206c"
definition USB_SETTINGS_VENDOR_NAME :: string where "USB_SETTINGS_VENDOR_NAME = ''slomkowski.eu''"
definition USB_SETTINGS_DEVICE_NAME :: string where "USB_SETTINGS_DEVICE_NAME = ''SZARK Robot Bridge''"

section \<open>The server\<close>

text \<open>A device of libusb's list: its descriptor, if it can be read (a status below 0 is an error), the
  result of opening it, and the texts of its two strings (empty when they cannot be read).\<close>

record usb_device =
  ud_status :: int
  ud_idVendor :: u16
  ud_idProduct :: u16
  ud_iManufacturer :: u8
  ud_iProduct :: u8
  ud_open :: int
  ud_manufacturer :: string
  ud_product :: string

text \<open>The devices open at libusb, by their place in the list, and \<open>devHandle\<close>.\<close>

record usb_host =
  uh_open :: "nat list"
  uh_devHandle :: "nat option"

definition libusb_close :: "usb_host \<Rightarrow> usb_host" where
  "libusb_close s = (case uh_devHandle s of None \<Rightarrow> s | Some i \<Rightarrow> s\<lparr>uh_open := remove1 i (uh_open s)\<rparr>)"

fun find_bridge :: "usb_device list \<Rightarrow> nat \<Rightarrow> usb_host \<Rightarrow> usb_host \<times> bool" where
  "find_bridge [] i s = (s, False)"
| "find_bridge (d # ds) i s =
     (if ud_status d < 0 then find_bridge ds (i + 1) s
      else if ud_idVendor d = USB_SETTINGS_VENDOR_ID \<and> ud_idProduct d = USB_SETTINGS_DEVICE_ID then
        (if ud_open d \<noteq> 0 then find_bridge ds (i + 1) s
         else
           (let s = s\<lparr>uh_open := uh_open s @ [i], uh_devHandle := Some i\<rparr>;
                readable = ud_iManufacturer d > 0 \<and> ud_iProduct d > 0;
                vendorString = (if readable then ud_manufacturer d else []);
                productString = (if readable then ud_product d else [])
            in if USB_SETTINGS_VENDOR_NAME = vendorString \<and> USB_SETTINGS_DEVICE_NAME = productString then (s, True)
               else find_bridge ds (i + 1) (libusb_close s)))
      else find_bridge ds (i + 1) s)"

text \<open>How the constructor ends: ready, by a \<open>CommException\<close>, or by using a list that
  \<open>libusb_get_device_list\<close> did not deliver (\<open>None\<close>).\<close>

datatype usb_setup = Ready | NotFound | DetachFailed int | ConfigurationFailed int | ClaimFailed int | UninitialisedList

definition LIBUSB_ERROR_NOT_FOUND :: int where "LIBUSB_ERROR_NOT_FOUND = -5"

text \<open>The results of detaching the kernel's driver, selecting the configuration and claiming the interface.\<close>

definition usb_construct :: "usb_device list option \<Rightarrow> int \<Rightarrow> int \<Rightarrow> int \<Rightarrow> usb_host \<times> usb_setup" where
  "usb_construct listOfDevices detach configuration claim =
     (let s = \<lparr>uh_open = [], uh_devHandle = None\<rparr> in
      case listOfDevices of
        None \<Rightarrow> (s, UninitialisedList)
      | Some ds \<Rightarrow>
          (case find_bridge ds 0 s of
             (s, False) \<Rightarrow> (s, NotFound)
           | (s, True) \<Rightarrow>
               if detach < 0 \<and> detach \<noteq> LIBUSB_ERROR_NOT_FOUND then (libusb_close s, DetachFailed detach)
               else if configuration < 0 then (libusb_close s, ConfigurationFailed configuration)
               else if claim < 0 then (libusb_close s, ClaimFailed claim)
               else (s, Ready)))"

definition usb_destruct :: "usb_host \<Rightarrow> usb_host" where
  "usb_destruct s = libusb_close s"

section \<open>The descriptors of the device\<close>

record usb_device_descriptor =
  dd_USBSpecification :: u16
  dd_Class :: u8
  dd_SubClass :: u8
  dd_Protocol :: u8
  dd_Endpoint0Size :: u8
  dd_VendorID :: u16
  dd_ProductID :: u16
  dd_ReleaseNumber :: u16
  dd_ManufacturerStrIndex :: u8
  dd_ProductStrIndex :: u8
  dd_SerialNumStrIndex :: u8
  dd_NumberOfConfigurations :: u8

definition device_descriptor_bytes :: "usb_device_descriptor \<Rightarrow> u8 list" where
  "device_descriptor_bytes d =
     [18, 1] @ le16 (dd_USBSpecification d) @ [dd_Class d, dd_SubClass d, dd_Protocol d, dd_Endpoint0Size d] @
     le16 (dd_VendorID d) @ le16 (dd_ProductID d) @ le16 (dd_ReleaseNumber d) @
     [dd_ManufacturerStrIndex d, dd_ProductStrIndex d, dd_SerialNumStrIndex d, dd_NumberOfConfigurations d]"

definition STRING_ID_Language :: u8 where "STRING_ID_Language = 0"
definition STRING_ID_Manufacturer :: u8 where "STRING_ID_Manufacturer = 1"
definition STRING_ID_Product :: u8 where "STRING_ID_Product = 2"
definition FIXED_CONTROL_ENDPOINT_SIZE :: u8 where "FIXED_CONTROL_ENDPOINT_SIZE = 8"
definition FIXED_NUM_CONFIGURATIONS :: u8 where "FIXED_NUM_CONFIGURATIONS = 1"

text \<open>\<open>serial\<close> is LUFA's \<open>USE_INTERNAL_SERIAL\<close>.\<close>

definition DeviceDescriptor :: "u8 \<Rightarrow> usb_device_descriptor" where
  "DeviceDescriptor serial = \<lparr>dd_USBSpecification = 0x0110, dd_Class = 0, dd_SubClass = 0, dd_Protocol = 0,
     dd_Endpoint0Size = FIXED_CONTROL_ENDPOINT_SIZE, dd_VendorID = USB_SETTINGS_VENDOR_ID, dd_ProductID = USB_SETTINGS_DEVICE_ID,
     dd_ReleaseNumber = 0x0001, dd_ManufacturerStrIndex = STRING_ID_Manufacturer, dd_ProductStrIndex = STRING_ID_Product,
     dd_SerialNumStrIndex = serial, dd_NumberOfConfigurations = FIXED_NUM_CONFIGURATIONS\<rparr>"

definition ENDPOINT_DIR_IN :: u8 where "ENDPOINT_DIR_IN = 0x80"
definition VENDOR_IN_EPADDR :: u8 where "VENDOR_IN_EPADDR = ENDPOINT_DIR_IN OR 2"
definition VENDOR_OUT_EPADDR :: u8 where "VENDOR_OUT_EPADDR = 1"
definition VENDOR_OUT_EPSIZE_word :: u16 where "VENDOR_OUT_EPSIZE_word = 64"
definition VENDOR_IN_EPSIZE_word :: u16 where "VENDOR_IN_EPSIZE_word = 64"

text \<open>Header, vendor interface and its two bulk endpoints.\<close>

definition endpoint_bytes :: "u8 \<Rightarrow> u16 \<Rightarrow> u8 list" where
  "endpoint_bytes address epsize = [7, 5, address, 0x02] @ le16 epsize @ [0x01]"

definition ConfigurationDescriptor :: "u8 list" where
  "ConfigurationDescriptor =
     [9, 2] @ le16 32 @ [1, 1, 0, 0x80, 5] @
     [9, 4, 0, 0, 2, 0xFF, 0xFF, 0xFF, 0] @
     endpoint_bytes VENDOR_IN_EPADDR VENDOR_IN_EPSIZE_word @ endpoint_bytes VENDOR_OUT_EPADDR VENDOR_OUT_EPSIZE_word"

text \<open>A string descriptor: size, type and the characters in 16 bits.\<close>

definition string_descriptor :: "u16 list \<Rightarrow> u8 list" where
  "string_descriptor cs = [of_nat (2 + 2 * length cs), 3] @ concat (map le16 cs)"

definition LanguageString :: "u8 list" where "LanguageString = string_descriptor [0x0409]"
definition ManufacturerString :: "u8 list" where "ManufacturerString = string_descriptor (map of_char USB_SETTINGS_VENDOR_NAME)"
definition ProductString :: "u8 list" where "ProductString = string_descriptor (map of_char USB_SETTINGS_DEVICE_NAME)"

text \<open>The descriptor at \<open>*DescriptorAddress\<close>, cut to the size returned; \<open>None\<close> when the address is null.\<close>

definition CALLBACK_USB_GetDescriptor :: "u8 \<Rightarrow> u16 \<Rightarrow> u8 list option" where
  "CALLBACK_USB_GetDescriptor serial wValue =
     (let DescriptorType = ucast (drop_bit 8 wValue) :: u8; DescriptorNumber = ucast (wValue AND 0xFF) :: u8 in
      if DescriptorType = 1 then Some (device_descriptor_bytes (DeviceDescriptor serial))
      else if DescriptorType = 2 then Some ConfigurationDescriptor
      else if DescriptorType = 3 then
        (if DescriptorNumber = STRING_ID_Language then Some (take (unat (hd LanguageString)) LanguageString)
         else if DescriptorNumber = STRING_ID_Manufacturer then Some (take (unat (hd ManufacturerString)) ManufacturerString)
         else if DescriptorNumber = STRING_ID_Product then Some (take (unat (hd ProductString)) ProductString)
         else None)
      else None)"

section \<open>Properties\<close>

definition is_bridge :: "usb_device \<Rightarrow> bool" where
  "is_bridge d \<longleftrightarrow> 0 \<le> ud_status d \<and> ud_idVendor d = USB_SETTINGS_VENDOR_ID \<and> ud_idProduct d = USB_SETTINGS_DEVICE_ID \<and>
     ud_open d = 0 \<and> 0 < ud_iManufacturer d \<and> 0 < ud_iProduct d \<and>
     ud_manufacturer d = USB_SETTINGS_VENDOR_NAME \<and> ud_product d = USB_SETTINGS_DEVICE_NAME"

definition first_bridge :: "usb_device list \<Rightarrow> nat \<Rightarrow> bool" where
  "first_bridge ds k \<longleftrightarrow> k < length ds \<and> is_bridge (ds ! k) \<and> (\<forall>j < k. \<not> is_bridge (ds ! j))"

lemma find_bridge_step:
  assumes "uh_open s = []"
  shows "find_bridge (d # ds) i s =
    (if is_bridge d then (\<lparr>uh_open = [i], uh_devHandle = Some i\<rparr>, True)
     else find_bridge ds (i + 1) (s\<lparr>uh_devHandle :=
       (if 0 \<le> ud_status d \<and> ud_idVendor d = USB_SETTINGS_VENDOR_ID \<and> ud_idProduct d = USB_SETTINGS_DEVICE_ID \<and> ud_open d = 0
        then Some i else uh_devHandle s)\<rparr>))"
proof -
  have "USB_SETTINGS_VENDOR_NAME \<noteq> []" by (simp add: USB_SETTINGS_VENDOR_NAME_def)
  then show ?thesis
    using assms by (cases s) (auto simp: is_bridge_def libusb_close_def Let_def)
qed

lemma find_bridge_result:
  "uh_open s = [] \<Longrightarrow>
   (snd (find_bridge ds i s) \<longrightarrow> (\<exists>k. first_bridge ds k \<and> fst (find_bridge ds i s) = \<lparr>uh_open = [i + k], uh_devHandle = Some (i + k)\<rparr>)) \<and>
   (\<not> snd (find_bridge ds i s) \<longrightarrow> uh_open (fst (find_bridge ds i s)) = [] \<and> (\<forall>d \<in> set ds. \<not> is_bridge d))"
proof (induction ds arbitrary: i s)
  case (Cons d ds)
  show ?case
  proof (cases "is_bridge d")
    case True
    then show ?thesis using Cons.prems by (simp add: find_bridge_step first_bridge_def del: find_bridge.simps)
  next
    case False
    have later: "first_bridge ds k \<Longrightarrow> first_bridge (d # ds) (Suc k)" for k
      using False by (auto simp: first_bridge_def nth_Cons split: nat.splits)
    obtain s' where s': "find_bridge (d # ds) i s = find_bridge ds (i + 1) s'" "uh_open s' = []"
      using False Cons.prems by (simp add: find_bridge_step del: find_bridge.simps)
    note IH = Cons.IH [OF s'(2), of "i + 1"]
    show ?thesis
    proof (cases "snd (find_bridge ds (i + 1) s')")
      case True
      then obtain k where "first_bridge ds k" "fst (find_bridge ds (i + 1) s') = \<lparr>uh_open = [i + 1 + k], uh_devHandle = Some (i + 1 + k)\<rparr>"
        using IH by blast
      then show ?thesis using True later [of k] unfolding s'(1) by (intro conjI impI exI [of _ "Suc k"]) simp_all
    next
      case False
      then show ?thesis using IH \<open>\<not> is_bridge d\<close> unfolding s'(1) by simp
    qed
  qed
qed simp

text \<open>Handles of libusb. However the constructor ends, no device is left open but the one it announces,
  which is the first in the list with the bridge's ids and names that could be opened; the
  destructor closes it.\<close>

theorem usb_setup_keeps_one_handle:
  assumes "usb_construct (Some ds) detach configuration claim = (s, e)"
  shows "(e = Ready \<longrightarrow> (\<exists>k. first_bridge ds k \<and> uh_open s = [k] \<and> uh_devHandle s = Some k) \<and> uh_open (usb_destruct s) = []) \<and>
    (e \<noteq> Ready \<longrightarrow> uh_open s = []) \<and> (e = NotFound \<longleftrightarrow> (\<forall>d \<in> set ds. \<not> is_bridge d))"
proof -
  obtain t found where t: "find_bridge ds 0 \<lparr>uh_open = [], uh_devHandle = None\<rparr> = (t, found)" by fastforce
  show ?thesis
  proof (cases found)
    case True
    then obtain k where k: "first_bridge ds k" "t = \<lparr>uh_open = [k], uh_devHandle = Some k\<rparr>"
      using find_bridge_result [of "\<lparr>uh_open = [], uh_devHandle = None\<rparr>" ds 0] t by auto
    then have "\<exists>d \<in> set ds. is_bridge d" by (auto simp: first_bridge_def)
    then show ?thesis
      using assms t True k by (auto simp: usb_construct_def usb_destruct_def libusb_close_def split: if_splits)
  next
    case False
    then show ?thesis
      using assms t find_bridge_result [of "\<lparr>uh_open = [], uh_devHandle = None\<rparr>" ds 0] by (auto simp: usb_construct_def)
  qed
qed

text \<open>What libusb makes of a device's descriptors: the fields at the places the standard gives them, and the
  strings as ASCII text by \<open>ascii\<close>.\<close>

definition described :: "(u8 list \<Rightarrow> string) \<Rightarrow> (u16 \<Rightarrow> u8 list option) \<Rightarrow> usb_device \<Rightarrow> bool" where
  "described ascii answer dev \<longleftrightarrow>
     (\<exists>b. answer 0x0100 = Some b \<and> ud_idVendor dev = un_le16 (b ! 8) (b ! 9) \<and> ud_idProduct dev = un_le16 (b ! 10) (b ! 11) \<and>
        ud_iManufacturer dev = b ! 14 \<and> ud_iProduct dev = b ! 15) \<and>
     (\<forall>t. answer (0x0300 OR ucast (ud_iManufacturer dev)) = Some t \<longrightarrow> ud_manufacturer dev = ascii t) \<and>
     (\<forall>t. answer (0x0300 OR ucast (ud_iProduct dev)) = Some t \<longrightarrow> ud_product dev = ascii t)"

definition reads_ascii :: "(u8 list \<Rightarrow> string) \<Rightarrow> bool" where
  "reads_ascii ascii \<longleftrightarrow>
     (\<forall>cs. length cs < 127 \<and> list_all (\<lambda>c. of_char c < (128 :: nat)) cs \<longrightarrow> ascii (string_descriptor (map of_char cs)) = cs)"

lemma descriptor_strings:
  "unat (hd ManufacturerString) = length ManufacturerString" "unat (hd ProductString) = length ProductString"
  by (simp_all add: ManufacturerString_def ProductString_def string_descriptor_def USB_SETTINGS_VENDOR_NAME_def USB_SETTINGS_DEVICE_NAME_def)

lemma bridge_described:
  assumes "reads_ascii ascii" and "described ascii (CALLBACK_USB_GetDescriptor serial) dev" and "0 \<le> ud_status dev" and "ud_open dev = 0"
  shows "is_bridge dev"
proof -
  have device: "CALLBACK_USB_GetDescriptor serial 0x0100 = Some (device_descriptor_bytes (DeviceDescriptor serial))"
    and manufacturer: "CALLBACK_USB_GetDescriptor serial 0x0301 = Some ManufacturerString"
    and product: "CALLBACK_USB_GetDescriptor serial 0x0302 = Some ProductString"
    by (simp_all add: CALLBACK_USB_GetDescriptor_def descriptor_strings STRING_ID_Language_def STRING_ID_Manufacturer_def STRING_ID_Product_def Let_def)
  have fields: "ud_idVendor dev = USB_SETTINGS_VENDOR_ID" "ud_idProduct dev = USB_SETTINGS_DEVICE_ID" "ud_iManufacturer dev = 1" "ud_iProduct dev = 2"
    using assms(2) by (simp_all add: described_def device device_descriptor_bytes_def DeviceDescriptor_def le16_def
        STRING_ID_Manufacturer_def STRING_ID_Product_def)
  have "ascii ManufacturerString = USB_SETTINGS_VENDOR_NAME" "ascii ProductString = USB_SETTINGS_DEVICE_NAME"
    unfolding ManufacturerString_def ProductString_def
    by (rule assms(1) [unfolded reads_ascii_def, rule_format],
        simp add: USB_SETTINGS_VENDOR_NAME_def USB_SETTINGS_DEVICE_NAME_def)+
  then have "ud_manufacturer dev = USB_SETTINGS_VENDOR_NAME" "ud_product dev = USB_SETTINGS_DEVICE_NAME"
    using assms(2) by (simp_all add: described_def fields manufacturer product)
  then show ?thesis using assms(3,4) fields by (simp add: is_bridge_def)
qed

text \<open>C5: The server finds the bridge. A device that answers with the firmware's descriptors, that can be
  opened and has no other bridge before it in libusb's list is the one the constructor opens; it ends
  ready when the kernel's driver is detached or was not there, and configuration and interface are
  granted. The endpoints the device offers are those the transfers use.\<close>

theorem server_finds_the_bridge:
  assumes "reads_ascii ascii" and "described ascii (CALLBACK_USB_GetDescriptor serial) dev" and "0 \<le> ud_status dev" and "ud_open dev = 0"
    and "\<forall>d \<in> set before. \<not> is_bridge d" and "0 \<le> detach \<or> detach = LIBUSB_ERROR_NOT_FOUND" and "0 \<le> configuration" and "0 \<le> claim"
  shows "usb_construct (Some (before @ dev # after)) detach configuration claim =
      (\<lparr>uh_open = [length before], uh_devHandle = Some (length before)\<rparr>, Ready) \<and>
    (\<exists>c. CALLBACK_USB_GetDescriptor serial 0x0200 = Some c \<and> length c = unat (un_le16 (c ! 2) (c ! 3)) \<and>
       drop 18 c = [7, 5, 0x80 OR 2, 2, 64, 0, 1, 7, 5, 1, 2, 64, 0, 1])"
proof -
  have bridge: "is_bridge dev" using assms(1-4) by (rule bridge_described)
  have "usb_construct (Some (before @ dev # after)) detach configuration claim =
      (\<lparr>uh_open = [length before], uh_devHandle = Some (length before)\<rparr>, Ready)"
  proof -
    obtain t found where t: "find_bridge (before @ dev # after) 0 \<lparr>uh_open = [], uh_devHandle = None\<rparr> = (t, found)" by fastforce
    note result = find_bridge_result [of "\<lparr>uh_open = [], uh_devHandle = None\<rparr>" "before @ dev # after" 0]
    have found using result t bridge by auto
    then obtain k where k: "first_bridge (before @ dev # after) k" "t = \<lparr>uh_open = [k], uh_devHandle = Some k\<rparr>"
      using result t by auto
    have "\<not> k < length before" using k(1) assms(5) by (auto simp: first_bridge_def nth_append)
    moreover have "\<not> length before < k" using k(1) bridge by (auto simp: first_bridge_def nth_append)
    ultimately have "k = length before" by simp
    then show ?thesis using t \<open>found\<close> k(2) assms(6-8) by (auto simp: usb_construct_def)
  qed
  moreover have "CALLBACK_USB_GetDescriptor serial 0x0200 = Some ConfigurationDescriptor" by (simp add: CALLBACK_USB_GetDescriptor_def)
  moreover have "length ConfigurationDescriptor = unat (un_le16 (ConfigurationDescriptor ! 2) (ConfigurationDescriptor ! 3))"
      "drop 18 ConfigurationDescriptor = [7, 5, 0x80 OR 2, 2, 64, 0, 1, 7, 5, 1, 2, 64, 0, 1]"
    by (simp_all add: ConfigurationDescriptor_def endpoint_bytes_def le16_def un_le16_def VENDOR_IN_EPADDR_def ENDPOINT_DIR_IN_def
        VENDOR_OUT_EPADDR_def VENDOR_IN_EPSIZE_word_def VENDOR_OUT_EPSIZE_word_def)
  ultimately show ?thesis by blast
qed

section \<open>Examples\<close>

text \<open>Reading every second byte behind the header.\<close>

fun every_second :: "'a list \<Rightarrow> 'a list" where
  "every_second (x # y # zs) = x # every_second zs"
| "every_second xs = xs"

definition test_ascii :: "u8 list \<Rightarrow> string" where
  "test_ascii b = map (\<lambda>c. char_of (unat c)) (every_second (drop 2 b))"

lemma test_ascii_reads: "reads_ascii test_ascii"
proof -
  have "map (\<lambda>c. char_of (unat c)) (every_second (concat (map (\<lambda>c. le16 (of_char c)) cs))) = cs"
    if "list_all (\<lambda>c. of_char c < (128 :: nat)) cs" for cs
    using that
  proof (induction cs)
    case (Cons c cs)
    have "unat (ucast (of_char c :: u16) :: u8) = of_char c"
    proof -
      define n :: nat where "n = of_char c"
      have "n < 128" using Cons.prems by (simp add: n_def)
      moreover have "(of_char c :: u16) = of_nat n" unfolding n_def by (simp only: of_nat_of_char)
      ultimately show ?thesis unfolding n_def [symmetric] by (simp add: unat_ucast_u8 unat_of_nat)
    qed
    then show ?case using Cons by (simp add: le16_def)
  qed simp
  then show ?thesis by (simp add: reads_ascii_def test_ascii_def string_descriptor_def comp_def)
qed

definition test_bridge :: usb_device where
  "test_bridge = \<lparr>ud_status = 0, ud_idVendor = 0x03eb, ud_idProduct = 0x206c, ud_iManufacturer = 1, ud_iProduct = 2, ud_open = 0,
     ud_manufacturer = ''slomkowski.eu'', ud_product = ''SZARK Robot Bridge''\<rparr>"

theorem usb_setup_keeps_one_handle_witness:
  "uh_open (fst (usb_construct (Some [test_bridge\<lparr>ud_product := ''Bootloader''\<rparr>, test_bridge]) (-5) (-1) 0)) = []"
proof -
  let ?r = "usb_construct (Some [test_bridge\<lparr>ud_product := ''Bootloader''\<rparr>, test_bridge]) (-5) (-1) 0"
  have "snd ?r = ConfigurationFailed (-1)" by code_simp
  then show ?thesis using usb_setup_keeps_one_handle [OF prod.collapse [symmetric], of _ "-5" "-1" 0] by simp
qed

theorem server_finds_the_bridge_witness:
  "usb_construct (Some ([test_bridge\<lparr>ud_open := -3\<rparr>] @ test_bridge # [])) (-5) 0 0 = (\<lparr>uh_open = [1], uh_devHandle = Some 1\<rparr>, Ready)"
proof -
  have ascii: "test_ascii ManufacturerString = ''slomkowski.eu''" "test_ascii ProductString = ''SZARK Robot Bridge''" by code_simp+
  have answers: "CALLBACK_USB_GetDescriptor 0 0x0100 = Some (device_descriptor_bytes (DeviceDescriptor 0))"
      "CALLBACK_USB_GetDescriptor 0 0x0301 = Some ManufacturerString" "CALLBACK_USB_GetDescriptor 0 0x0302 = Some ProductString"
    by (simp_all add: CALLBACK_USB_GetDescriptor_def descriptor_strings STRING_ID_Language_def STRING_ID_Manufacturer_def STRING_ID_Product_def Let_def)
  have "described test_ascii (CALLBACK_USB_GetDescriptor 0) test_bridge"
    by (simp add: described_def answers test_bridge_def ascii device_descriptor_bytes_def DeviceDescriptor_def le16_def un_le16_def
        USB_SETTINGS_VENDOR_ID_def USB_SETTINGS_DEVICE_ID_def STRING_ID_Manufacturer_def STRING_ID_Product_def)
  from server_finds_the_bridge [OF test_ascii_reads this, of "[test_bridge\<lparr>ud_open := -3\<rparr>]" "-5" 0 0 "[]"] show ?thesis
    by (simp add: test_bridge_def is_bridge_def LIBUSB_ERROR_NOT_FOUND_def del: find_bridge.simps)
qed

end
