(* ===== verification/Boot_Descriptors.thy ===== *)
theory Boot_Descriptors
  imports Usb_Setup Boot_Loader
begin

text \<open>
  The descriptors of the bootloader (\<open>firmware/bridge-bootloader/Descriptors.c\<close>), byte by byte, and
  what the server makes of a robot that is still in its bootloader. Names that the firmware of the
  bridge also has carry the prefix \<open>boot_\<close>; constants of LUFA are their values of the USB standard.
\<close>

definition boot_STRING_ID_Language :: u8 where "boot_STRING_ID_Language = 0"
definition boot_STRING_ID_Manufacturer :: u8 where "boot_STRING_ID_Manufacturer = 1"
definition boot_STRING_ID_Product :: u8 where "boot_STRING_ID_Product = 2"
definition INTERFACE_ID_CDC_CCI :: u8 where "INTERFACE_ID_CDC_CCI = 0"
definition INTERFACE_ID_CDC_DCI :: u8 where "INTERFACE_ID_CDC_DCI = 1"
definition boot_FIXED_CONTROL_ENDPOINT_SIZE :: u8 where "boot_FIXED_CONTROL_ENDPOINT_SIZE = 8"
definition boot_FIXED_NUM_CONFIGURATIONS :: u8 where "boot_FIXED_NUM_CONFIGURATIONS = 1"

definition boot_DeviceDescriptor :: usb_device_descriptor where
  "boot_DeviceDescriptor = \<lparr>dd_USBSpecification = 0x0110, dd_Class = 0x02, dd_SubClass = 0x00, dd_Protocol = 0x00,
     dd_Endpoint0Size = boot_FIXED_CONTROL_ENDPOINT_SIZE, dd_VendorID = 0x03EB, dd_ProductID = 0x204A, dd_ReleaseNumber = 0x0100,
     dd_ManufacturerStrIndex = boot_STRING_ID_Manufacturer, dd_ProductStrIndex = boot_STRING_ID_Product,
     dd_SerialNumStrIndex = 0, dd_NumberOfConfigurations = boot_FIXED_NUM_CONFIGURATIONS\<rparr>"

text \<open>The sub-descriptors: configuration, control interface, the three functional descriptors of CDC, the
  notification endpoint, data interface and its endpoints.\<close>

definition CDC_Functional_Header :: "u8 list" where
  "CDC_Functional_Header = [5, 0x24, 0x00] @ le16 0x0110"

definition CDC_Functional_ACM :: "u8 list" where
  "CDC_Functional_ACM = [4, 0x24, 0x02, 0x02]"

definition CDC_Functional_Union :: "u8 list" where
  "CDC_Functional_Union = [5, 0x24, 0x06, INTERFACE_ID_CDC_CCI, INTERFACE_ID_CDC_DCI]"

definition boot_endpoint :: "u8 \<Rightarrow> u8 \<Rightarrow> nat \<Rightarrow> u8 \<Rightarrow> u8 list" where
  "boot_endpoint address attributes epsize interval = [7, 5, address, attributes] @ le16 (of_nat epsize) @ [interval]"

definition boot_ConfigurationDescriptor :: "u8 list" where
  "boot_ConfigurationDescriptor =
     ([9, 2] @ le16 62 @ [2, 1, 0, 0x80, 50]) @
     [9, 4, INTERFACE_ID_CDC_CCI, 0, 1, 0x02, 0x02, 0x01, 0] @
     CDC_Functional_Header @ CDC_Functional_ACM @ CDC_Functional_Union @
     boot_endpoint CDC_NOTIFICATION_EPADDR (0x03 OR 0x00 OR 0x00) CDC_NOTIFICATION_EPSIZE 0xFF @
     [9, 4, INTERFACE_ID_CDC_DCI, 0, 2, 0x0A, 0x00, 0x00, 0] @
     boot_endpoint CDC_RX_EPADDR (0x02 OR 0x00 OR 0x00) CDC_TXRX_EPSIZE 0x05 @
     boot_endpoint CDC_TX_EPADDR (0x02 OR 0x00 OR 0x00) CDC_TXRX_EPSIZE 0x05"

definition boot_LanguageString :: "u8 list" where "boot_LanguageString = string_descriptor [0x0409]"
definition boot_ManufacturerString :: "u8 list" where "boot_ManufacturerString = string_descriptor (map of_char ''Dean Camera'')"
definition boot_ProductString :: "u8 list" where "boot_ProductString = string_descriptor (map of_char ''LUFA CDC'')"

definition boot_GetDescriptor :: "u16 \<Rightarrow> u8 list option" where
  "boot_GetDescriptor wValue =
     (let DescriptorType = ucast (drop_bit 8 wValue) :: u8; DescriptorNumber = ucast (wValue AND 0xFF) :: u8 in
      if DescriptorType = 1 then Some (device_descriptor_bytes boot_DeviceDescriptor)
      else if DescriptorType = 2 then Some boot_ConfigurationDescriptor
      else if DescriptorType = 3 then
        (if DescriptorNumber = boot_STRING_ID_Language then Some (take (unat (hd boot_LanguageString)) boot_LanguageString)
         else if DescriptorNumber = boot_STRING_ID_Manufacturer then Some (take (unat (hd boot_ManufacturerString)) boot_ManufacturerString)
         else if DescriptorNumber = boot_STRING_ID_Product then Some (take (unat (hd boot_ProductString)) boot_ProductString)
         else None)
      else None)"

section \<open>Reading a configuration\<close>

text \<open>A host goes through a configuration by the lengths in the first bytes.\<close>

function split_descriptors :: "u8 list \<Rightarrow> u8 list list option" where
  "split_descriptors bs =
     (if bs = [] then Some []
      else if unat (hd bs) = 0 \<or> length bs < unat (hd bs) then None
      else map_option (Cons (take (unat (hd bs)) bs)) (split_descriptors (drop (unat (hd bs)) bs)))"
  by auto
termination by (relation "measure length") auto

declare split_descriptors.simps [simp del]

lemma split_descriptors_nil [simp]: "split_descriptors [] = Some []"
  by (simp add: split_descriptors.simps)

lemma split_descriptors_cons [simp]:
  "split_descriptors (n # bs) = (if unat n = 0 \<or> length (n # bs) < unat n then None
     else map_option (Cons (take (unat n) (n # bs))) (split_descriptors (drop (unat n) (n # bs))))"
  by (simp add: split_descriptors.simps [of "n # bs"])

text \<open>Address, type, size of the endpoints among them.\<close>

definition endpoints_of :: "u8 list list \<Rightarrow> (u8 \<times> u8 \<times> nat) list" where
  "endpoints_of ds = map (\<lambda>d. (d ! 2, d ! 3 AND 3, unat (un_le16 (d ! 4) (d ! 5)))) (filter (\<lambda>d. d ! 1 = 5) ds)"

lemma boot_configuration:
  "map_option endpoints_of (split_descriptors boot_ConfigurationDescriptor) =
     Some [(CDC_NOTIFICATION_EPADDR, 3, 8), (CDC_RX_EPADDR, 2, 16), (CDC_TX_EPADDR, 2, 16)]"
  by (simp add: boot_ConfigurationDescriptor_def CDC_Functional_Header_def CDC_Functional_ACM_def CDC_Functional_Union_def
      boot_endpoint_def le16_def un_le16_def endpoints_of_def CDC_NOTIFICATION_EPSIZE_def CDC_TXRX_EPSIZE_def
      INTERFACE_ID_CDC_CCI_def INTERFACE_ID_CDC_DCI_def)

text \<open>The server passes a robot in its bootloader by: such a device is no bridge.\<close>

lemma bootloader_is_no_bridge:
  assumes "described ascii boot_GetDescriptor dev"
  shows "\<not> is_bridge dev"
proof -
  have "boot_GetDescriptor 0x0100 = Some (device_descriptor_bytes boot_DeviceDescriptor)" by (simp add: boot_GetDescriptor_def)
  then have "ud_idProduct dev = 0x204A"
    using assms by (simp add: described_def device_descriptor_bytes_def boot_DeviceDescriptor_def le16_def un_le16_def)
  then show ?thesis by (simp add: is_bridge_def USB_SETTINGS_DEVICE_ID_def)
qed

text \<open>C6: The bootloader on the bus. Its configuration is one a host can read to the end by the lengths it
  gives, has the length it announces and offers just the endpoints the event handler configures, with
  their types and sizes; a server that sees no other device than robots in their bootloaders reports
  that there is no bridge and leaves none of them open.\<close>

theorem bootloader_on_the_bus:
  assumes "\<forall>d \<in> set ds. described ascii boot_GetDescriptor d"
  shows "(\<exists>c es. boot_GetDescriptor 0x0200 = Some c \<and> length c = unat (un_le16 (c ! 2) (c ! 3)) \<and>
      map_option endpoints_of (split_descriptors c) = Some es \<and>
      set es = set (map (\<lambda>(a, t, n, banks). (a, t, n)) boot_ConfigurationChanged)) \<and>
    snd (usb_construct (Some ds) detach configuration claim) = NotFound \<and>
    uh_open (fst (usb_construct (Some ds) detach configuration claim)) = []"
proof
  have "length boot_ConfigurationDescriptor = unat (un_le16 (boot_ConfigurationDescriptor ! 2) (boot_ConfigurationDescriptor ! 3))"
    by (simp add: boot_ConfigurationDescriptor_def CDC_Functional_Header_def CDC_Functional_ACM_def CDC_Functional_Union_def
        boot_endpoint_def le16_def un_le16_def)
  moreover have "boot_GetDescriptor 0x0200 = Some boot_ConfigurationDescriptor" by (simp add: boot_GetDescriptor_def)
  moreover have "set [(CDC_NOTIFICATION_EPADDR, 3, 8), (CDC_RX_EPADDR, 2, 16), (CDC_TX_EPADDR, 2, 16)] =
      set (map (\<lambda>(a, t, n, banks). (a, t, n)) boot_ConfigurationChanged)"
    by (auto simp: boot_ConfigurationChanged_def CDC_NOTIFICATION_EPSIZE_def CDC_TXRX_EPSIZE_def)
  ultimately show "\<exists>c es. boot_GetDescriptor 0x0200 = Some c \<and> length c = unat (un_le16 (c ! 2) (c ! 3)) \<and>
      map_option endpoints_of (split_descriptors c) = Some es \<and>
      set es = set (map (\<lambda>(a, t, n, banks). (a, t, n)) boot_ConfigurationChanged)"
    using boot_configuration by blast
next
  have none: "\<forall>d \<in> set ds. \<not> is_bridge d" using assms bootloader_is_no_bridge by blast
  have "\<not> snd (find_bridge ds 0 \<lparr>uh_open = [], uh_devHandle = None\<rparr>)"
    and "uh_open (fst (find_bridge ds 0 \<lparr>uh_open = [], uh_devHandle = None\<rparr>)) = []"
    using find_bridge_result [of "\<lparr>uh_open = [], uh_devHandle = None\<rparr>" ds 0] none by (auto simp: first_bridge_def)
  then show "snd (usb_construct (Some ds) detach configuration claim) = NotFound \<and>
      uh_open (fst (usb_construct (Some ds) detach configuration claim)) = []"
    by (auto simp: usb_construct_def split: prod.splits bool.splits)
qed

section \<open>Examples\<close>

definition test_bootloader :: usb_device where
  "test_bootloader = \<lparr>ud_status = 0, ud_idVendor = 0x03EB, ud_idProduct = 0x204A, ud_iManufacturer = 1, ud_iProduct = 2, ud_open = 0,
     ud_manufacturer = ''Dean Camera'', ud_product = ''LUFA CDC''\<rparr>"

theorem bootloader_on_the_bus_witness:
  "snd (usb_construct (Some [test_bootloader, test_bootloader]) 0 0 0) = NotFound"
proof -
  have ascii: "test_ascii boot_ManufacturerString = ''Dean Camera''" "test_ascii boot_ProductString = ''LUFA CDC''" by code_simp+
  have sizes: "unat (hd boot_ManufacturerString) = length boot_ManufacturerString" "unat (hd boot_ProductString) = length boot_ProductString"
    by (simp_all add: boot_ManufacturerString_def boot_ProductString_def string_descriptor_def)
  have answers: "boot_GetDescriptor 0x0100 = Some (device_descriptor_bytes boot_DeviceDescriptor)"
      "boot_GetDescriptor 0x0301 = Some boot_ManufacturerString" "boot_GetDescriptor 0x0302 = Some boot_ProductString"
    by (simp_all add: boot_GetDescriptor_def sizes boot_STRING_ID_Language_def boot_STRING_ID_Manufacturer_def boot_STRING_ID_Product_def Let_def)
  have "described test_ascii boot_GetDescriptor test_bootloader"
    by (simp add: described_def answers test_bootloader_def ascii device_descriptor_bytes_def boot_DeviceDescriptor_def le16_def un_le16_def
        boot_STRING_ID_Manufacturer_def boot_STRING_ID_Product_def)
  then show ?thesis
    using bootloader_on_the_bus [of "[test_bootloader, test_bootloader]" test_ascii 0 0 0] by simp
qed

end
