(* ===== verification/Wifi_Setup.thy ===== *)
theory Wifi_Setup
  imports Wifi_Info
begin

text \<open>
  Constructor, \<open>Init\<close> and destructor of \<open>WifiInfo.cpp\<close>: which netlink sockets are open. The answers of
  libnl and of the configuration are the parameter \<open>netlink\<close>.
\<close>

datatype netlink_socket = WifiSock | ArpSock

record netlink =
  nl_device :: string
  nl_enabled :: bool
  nl_wifi_alloc :: bool
  nl_nametoindex :: "string \<Rightarrow> nat"
  nl_genl_connect :: int
  nl_genl_ctrl_resolve :: int
  nl_arp_alloc :: bool
  nl_connect :: int
  nl_neigh_alloc_cache :: int

text \<open>\<open>WifiInfoImpl\<close>: the state of the thread, the name of the interface, the sockets open, whether the
  thread runs and whether the cache of neighbours is allocated.\<close>

record wifi_impl =
  im_wifi :: wifi
  im_iwName :: string
  im_open :: "netlink_socket list"
  im_thread :: bool
  im_cache :: bool

definition WifiInfoImpl :: "string \<Rightarrow> wifi_impl" where
  "WifiInfoImpl iwName = \<lparr>im_wifi = wifi_init True, im_iwName = iwName, im_open = [], im_thread = False, im_cache = False\<rparr>"

definition nl_socket_free :: "netlink_socket \<Rightarrow> wifi_impl \<Rightarrow> wifi_impl" where
  "nl_socket_free k s = s\<lparr>im_open := remove1 k (im_open s)\<rparr>"

definition nl_socket_alloc :: "netlink_socket \<Rightarrow> wifi_impl \<Rightarrow> wifi_impl" where
  "nl_socket_alloc k s = s\<lparr>im_open := im_open s @ [k]\<rparr>"

text \<open>\<open>Init\<close>: the exception thrown, if any.\<close>

definition wifi_Init :: "netlink \<Rightarrow> wifi_impl \<Rightarrow> wifi_impl \<times> wifi_thrown option" where
  "wifi_Init nl s =
     (let s = (if im_iwName s = [] then s\<lparr>im_iwName := nl_device nl, im_wifi := (im_wifi s)\<lparr>wi_enabled := nl_enabled nl\<rparr>\<rparr> else s) in
      if \<not> wi_enabled (im_wifi s) then (s, None)
      else if \<not> nl_wifi_alloc nl then (s, Some (WifiException ''failed to allocate netlink wifi socket''))
      else (let s = nl_socket_alloc WifiSock s in
        if nl_nametoindex nl (im_iwName s) = 0 then (s, Some (WifiException (''invalid interface name: '' @ im_iwName s)))
        else if nl_genl_connect nl \<noteq> 0 then (nl_socket_free WifiSock s, Some (WifiException ''failed to connect to generic netlink''))
        else if nl_genl_ctrl_resolve nl < 0 then (nl_socket_free WifiSock s, Some (WifiException ''nl80211 not found''))
        else if \<not> nl_arp_alloc nl then (s, Some (WifiException ''failed to allocate netlink arp socket''))
        else (let s = nl_socket_alloc ArpSock s in
          if nl_connect nl < 0 then (s, Some (WifiException ''failed connect netlink arp socket''))
          else if nl_neigh_alloc_cache nl < 0 then (s, Some (WifiException ''failed alloc neighbour cache''))
          else (s\<lparr>im_cache := True, im_thread := True\<rparr>, None))))"

definition wifi_destruct :: "wifi_impl \<Rightarrow> wifi_impl" where
  "wifi_destruct s =
     (let s = s\<lparr>im_wifi := (im_wifi s)\<lparr>wi_stop := True\<rparr>\<rparr> in
      if im_thread s then nl_socket_free WifiSock (s\<lparr>im_thread := False\<rparr>) else s)"

text \<open>What \<open>Init\<close> and the destructor leave: nothing is opened for a disabled monitor; once the thread runs,
  both sockets are open and the one for addresses stays open after the destructor; a failure leaves
  open whatever was opened, but for the two failures of the generic netlink.\<close>

theorem wifi_sockets_left:
  assumes "wifi_Init nl (WifiInfoImpl iwName) = (s, e)"
  shows "(im_thread s \<longleftrightarrow> e = None \<and> wi_enabled (im_wifi s)) \<and>
    (im_thread s \<longrightarrow> set (im_open s) = {WifiSock, ArpSock} \<and> im_open (wifi_destruct s) = [ArpSock]) \<and>
    (\<not> wi_enabled (im_wifi s) \<longrightarrow> e = None \<and> im_open (wifi_destruct s) = []) \<and>
    (e \<noteq> None \<longrightarrow> wifi_destruct s = s\<lparr>im_wifi := (im_wifi s)\<lparr>wi_stop := True\<rparr>\<rparr> \<and>
       (im_open s = [] \<longleftrightarrow> \<not> nl_wifi_alloc nl \<or> nl_nametoindex nl (im_iwName s) \<noteq> 0 \<and> (nl_genl_connect nl \<noteq> 0 \<or> nl_genl_ctrl_resolve nl < 0)))"
  using assms
  by (auto simp: wifi_Init_def WifiInfoImpl_def wifi_destruct_def nl_socket_alloc_def nl_socket_free_def wifi_init_def Let_def
      split: if_splits)

theorem wifi_sockets_left_witness:
  "let (s, e) = wifi_Init \<lparr>nl_device = ''wlan0'', nl_enabled = True, nl_wifi_alloc = True, nl_nametoindex = (\<lambda>_. 3), nl_genl_connect = 0,
       nl_genl_ctrl_resolve = 28, nl_arp_alloc = True, nl_connect = 0, nl_neigh_alloc_cache = 0\<rparr> (WifiInfoImpl [])
   in e = None \<and> im_open (wifi_destruct s) = [ArpSock]"
  using wifi_sockets_left [of "\<lparr>nl_device = ''wlan0'', nl_enabled = True, nl_wifi_alloc = True, nl_nametoindex = (\<lambda>_. 3), nl_genl_connect = 0,
       nl_genl_ctrl_resolve = 28, nl_arp_alloc = True, nl_connect = 0, nl_neigh_alloc_cache = 0\<rparr>" "[]", OF prod.collapse [symmetric]]
  by (simp add: wifi_Init_def WifiInfoImpl_def nl_socket_alloc_def wifi_init_def Let_def)

end
