(* ===== verification/Spec2Isabelle.thy ===== *)
theory Spec2Isabelle
  imports Bridge_Main Wheel_Link Arm_Limits Arm_Calibration Arm_Link Control_Server Keep_Alive Queuer_Threads Net_Setup Shared_Interface Camera_Setup Server_Config Server_Utils Boot_Run Boot_Descriptors Wifi_Setup
begin

text \<open>
  A model of the control software of the SZARK robot, from the UDP packet of a client to the
  registers of the motor drivers.

  \<^bold>\<open>The program.\<close> The \<open>control_server\<close> (\<open>server/control_server\<close>, \<open>server/common_lib\<close>) receives JSON
  requests by UDP (\<open>NetServer\<close>), orders them by serial number (\<open>RequestQueuer\<close>), turns each into
  settings of an \<open>Interface\<close> object (\<open>BridgeProcessor\<close>), sends the settings that changed in one USB
  packet (\<open>InterfaceManager\<close>, \<open>DataHolder\<close>, \<open>USBCommunicator\<close>) and answers with a report of the state
  it reads back and of the client's radio link (\<open>WifiInfo\<close>). The bridge (\<open>firmware/bridge\<close>) executes
  the packet: it drives the kill switch line, the LCD and the I2C bus, on which the expander, the wheel driver (\<open>firmware/motor_driver\<close>) and the
  arm driver (\<open>firmware/arm_driver\<close>) are slaves. Without a host it runs a menu; a host that falls
  silent is cut off by a timer that engages the kill switch. Two camera servers
  (\<open>server/camera_server\<close>) answer requests with JPEG images.

  \<^bold>\<open>Theories and code.\<close>
  \<^item> \<open>Szark_Prelude\<close>: memory access with bounds, bits of registers, sorted association lists.
    \<open>Protocol\<close>: the message structures of \<open>firmware/common\<close> and their bytes. \<open>Usb_Command\<close>: the
    commands a message is made of, with a reference encoder and decoder.
  \<^item> \<open>Data_Holder\<close>, \<open>Server_Interface\<close>, \<open>Interface_Spec\<close>: \<open>DataHolder.cpp\<close>, \<open>Interface.cpp\<close> and
    \<open>convert.cpp\<close>; uninitialised memory is an argument. \<open>Priority_Queue\<close>: \<open>std::priority_queue\<close> as a
    list, with a locale for its contract. \<open>Usb_Communicator\<close>, \<open>Interface_Manager\<close>: the transfer and
    the differential messages.
  \<^item> \<open>Request_Queuer\<close>, \<open>Net_Server\<close>, \<open>Bridge_Processor\<close>: the request path. The two threads are cut
    into steps where the code releases its mutex or calls the other side; a run is a list of steps.
    \<open>Queuer_Threads\<close>: the threads of \<open>RequestQueuer\<close> with mutex and condition variable, up to the end of
    the destructor. \<open>Net_Setup\<close>: \<open>Init\<close> of the UDP servers.
  \<^item> \<open>Bridge_Hw\<close> (LEDs, buttons, kill switch, ADC, delays), \<open>Bridge_I2c\<close> (bus master and the
    modules \<open>expander\<close>, \<open>motor_driver\<close>, \<open>arm_driver\<close>), \<open>Bridge_Lcd\<close>, \<open>Bridge_Menu\<close>, \<open>Bridge_Usb\<close>
    (\<open>usb_processcommands.cpp\<close>, \<open>usb_support.cpp\<close>), \<open>Bridge_Main\<close> (start and main loop).
  \<^item> \<open>Motor_Driver\<close> (\<open>motor.cpp\<close>, \<open>controller.cpp\<close>), \<open>Usi_Slave\<close> (\<open>i2c-slave.cpp\<close>, \<open>main.cpp\<close>) and
    \<open>Wheel_Link\<close>, which joins them with the bridge's bus master.
  \<^item> \<open>Arm_Joint\<close> (\<open>joint.cpp\<close>), \<open>Arm_Main\<close> (\<open>main.cpp\<close>), \<open>Arm_Limits\<close>, \<open>Arm_Calibration\<close>,
    \<open>Twi_Slave\<close> (\<open>i2c-slave.cpp\<close>) and \<open>Arm_Link\<close>.
  \<^item> \<open>Host_Bridge\<close>: server and bridge at the two ends of the USB cable. \<open>Keep_Alive\<close>: the
    bridge's time-out against the rounds of the maintenance thread. \<open>Wifi_Info\<close>: \<open>WifiInfo.cpp\<close> and
    \<open>OSInformationProcessor.cpp\<close> over what netlink delivers. \<open>Control_Server\<close>: the executor thread with
    both processors, from the datagram to the packet sent back, in every order of the steps of the receive
    handler and the executor.
  \<^item> \<open>Camera_Server\<close>: the receive handler of \<open>camera_server/src/NetworkServer.cpp\<close>. \<open>Camera_Images\<close>: the
    frame grabber, the image sources and the overlay; images live in a store of shared buffers.
    \<open>Camera_Setup\<close>: how the grabber finds its devices and the format it starts them with, its thread, and
    the encoder of libjpeg-turbo in \<open>JpegEncoder.cpp\<close>. \<open>Shared_Interface\<close>: \<open>SharedInterfaceProvider.cpp\<close>, the two ends of the
    shared memory by which the camera servers read the control server's interface.
  \<^item> \<open>Server_Config\<close>: \<open>Configuration.cpp\<close>, \<open>logging.cpp\<close> and the colours of
    \<open>ColorPatternLayout.cpp\<close>. \<open>Wifi_Setup\<close>: start and end of \<open>WifiInfo\<close> over its netlink sockets.
    \<open>Server_Utils\<close>: \<open>utils.cpp\<close> and \<open>IoServiceProvider.cpp\<close>.
  \<^item> \<open>Usb_Setup\<close>: constructor and destructor of \<open>USBCommunicator\<close> over the list of devices that
    libusb delivers, and the descriptors of \<open>firmware/bridge/usb_descriptors.c\<close>.
  \<^item> \<open>Boot_Loader\<close> (\<open>firmware/bridge-bootloader/BootloaderCDC.c\<close>, \<open>BootloaderAPI.c\<close>), \<open>Boot_Flash\<close>
    (loading an image and reading it back), \<open>Boot_Run\<close> (from reset to the start of the application) and
    \<open>Boot_Descriptors\<close> (\<open>Descriptors.c\<close>, and how the server takes a robot in its bootloader).

  \<^bold>\<open>What is shown.\<close> End to end (\<open>client_is_answered\<close>), at an idle server and while the USB transfers
  succeed: a datagram whose values have the right
  kinds becomes exactly the settings a table-driven reference reads from it, the firmware executes
  exactly the commands of the message, the server reads all replies, afterwards it knows the true
  state of the kill switch, and one packet with the report goes back to the sender, provided that the
  receive handler stores the sender before the executor answers; otherwise the executor overtakes it, and the
  server ends without an answer. So it does when a transfer fails (\<open>failed_transfer_ends_server\<close>), and for any other
  accepted document (\<open>one_datagram_ends_server\<close>). A client of the cameras gets the frame grabbed
  last (\<open>camera_client_gets_last_frame\<close>, with every way to get none or a part of it), drawn with the settings of one control server at a
  time (\<open>camera_follows_one_server\<close>). New firmware loaded through the bootloader is in the flash as it was sent
  (\<open>flash_image_roundtrip\<close>), and the kill switch is active meanwhile. On the bus: the traffic of each command of the bridge makes the slave execute its own function
  with the same arguments, and queries return the value asked for. Per component:
  invariants of all reachable states (interface, kill switch, menu, main loop, wheel and arm
  outputs, request queue, reports), the kill switch and limit switch safety properties,
  positioning and calibration, the controller against exact integers. No wake-up of the executor is
  lost, the queue's destructor returns, and a server without clients is heard by the bridge in time
  (\<open>running_server_keeps_control\<close>, \<open>queued_request_is_taken\<close>, \<open>queuer_destruction_ends\<close>). Behaviour that departs from
  the comments or the intention is proved too (for example \<open>reset_keeps_half\<close>,
  \<open>executor_overtakes_handler\<close>, \<open>usb_long_text_never_ends\<close>, \<open>interrupted_calibration_blinds\<close>,
  \<open>managed_mode_reports_lowest_address\<close>, \<open>overlay_stays_in_frame\<close>, \<open>only_last_file_configures\<close>).

  \<^bold>\<open>Locales.\<close> Interfaces between components are locales, interpreted on the model's definitions:
  the ordered map and the priority queue, the arm's discipline on its outputs, the numbers of
  requests (\<open>ticket_office\<close>), the contract of a handler of JSON fields (\<open>field_handler\<close>,
  \<open>safe_handler\<close>), which every handler of \<open>parseRequest\<close> meets, and that of a callback for the
  messages of netlink (\<open>netlink_handler\<close>).

  \<^bold>\<open>Bounds and fuel.\<close> The loop over a USB packet gets 130 rounds: each round moves the position, and a
  packet of 128 bytes has 129 positions, so well-formed messages never run out (\<open>host_is_supervised\<close>); the one that does
  is \<open>usb_long_text_never_ends\<close>. \<open>waitMs\<close> gets 128 rounds, one for each value its 8-bit counter takes in
  steps of two. All other loops are structural recursions or have a termination proof.

  \<^bold>\<open>Assumptions.\<close> Interrupts of the firmware happen between the parts into which a function is cut
  (between its waits), not between two instructions; no USB packet arrives during a wait inside a
  command; pins, bus answers and the ADC are constant during one message. Equal elements of
  \<open>std::priority_queue\<close> leave it in the order they came. The JSON library delivers the fields of an
  object in order and throws at its end when it is incomplete; its exceptions are not
  \<open>runtime_error\<close>s; a value that is not an object, read as one, is an exception. Transposing and flipping
  of images and the clearing of a property tree by \<open>read_ini\<close> are named hypotheses (\<open>mat_laws\<close>,
  \<open>read_ini_clears\<close>) that state the libraries' documentation; so are the reading of an ASCII string
  descriptor by libusb (\<open>reads_ascii\<close>) and a device on the bus whose fields are those of its
  descriptors (\<open>described\<close>), and the program memory of the ATmega32U4 (\<open>flash_laws\<close>).

  \<^bold>\<open>Not modelled.\<close> Parsing of program options, the text the JSON writer makes,
  rounding of floating point except in the overlay (battery values, frame and bit rates are rationals),
  the texts of the log, the layout engine of log4cpp, encoding of images (a library call),
  vendored libraries (\<open>lib/libpixfc\<close>), and the Java client.
\<close>

end
